(* ===== verification/Prelude.thy ===== *)
theory Prelude
  imports Main "HOL-Library.Word"
begin

unbundle bit_operations_syntax

section \<open>Machine types, buffers, wrap-around time, reachability\<close>

text \<open>
  The vocabulary shared by every component: the fixed-width integer types of
  \<^verbatim>\<open>stdint.h\<close>, writes into byte buffers, the wrap-around subtraction every
  deadline of the firmware is computed with, and reachability of a step relation
  with the invariant rule that goes with it.
\<close>

type_synonym u8 = "8 word"
type_synonym u16 = "16 word"
type_synonym u32 = "32 word"
type_synonym u64 = "64 word"
type_synonym i16 = "16 word" \<comment> \<open>two's complement, read with \<open>sint\<close>\<close>

named_theorems codec_defs \<open>definitions of encoders and decoders\<close>
named_theorems driver_defs \<open>definitions of motor-driver operations\<close>
named_theorems lifecycle_defs \<open>definitions of the lifecycle handlers\<close>
named_theorems frame_simps \<open>which fields an operation leaves unchanged\<close>

subsection \<open>Writes into a byte buffer\<close>

text \<open>
  \<open>buffer_write off bs buf\<close> is \<open>buf\<close> after the bytes \<open>bs\<close> were stored from offset
  \<open>off\<close> on (\<^verbatim>\<open>memcpy(buf + off, bs, length)\<close>, or an encoder called on
  \<^verbatim>\<open>buf + off\<close>). Callers write inside the buffer.
\<close>

definition buffer_write :: "nat \<Rightarrow> 'a list \<Rightarrow> 'a list \<Rightarrow> 'a list" where
  "buffer_write off bs buf = take off buf @ bs @ drop (off + length bs) buf"

lemma length_buffer_write [simp]:
  "off + length bs \<le> length buf \<Longrightarrow> length (buffer_write off bs buf) = length buf"
  by (simp add: buffer_write_def)

lemma buffer_write_append:
  assumes "length pre = off" and "length old = length bs"
  shows "buffer_write off bs (pre @ old @ rest) = pre @ bs @ rest"
  using assms by (simp add: buffer_write_def)

lemma take_buffer_write_0 [simp]: "take (length bs) (buffer_write 0 bs buf) = bs"
  by (simp add: buffer_write_def)

lemma take_buffer_write_0' [simp]:
  "length bs = n \<Longrightarrow> take n (buffer_write 0 bs buf) = bs"
  by (simp add: buffer_write_def)

lemma buffer_write_Nil [simp]: "buffer_write off [] buf = buf"
  by (simp add: buffer_write_def)

lemma length_8E:
  assumes "length xs = 8"
  obtains a0 a1 a2 a3 a4 a5 a6 a7 where "xs = [a0, a1, a2, a3, a4, a5, a6, a7]"
  using assms by (auto simp: numeral_eq_Suc length_Suc_conv)

lemma take_store:
  assumes "i < length xs" and "i < n" and "n \<le> Suc i"
  shows "take n (xs[i := b]) = take i xs @ [b]"
proof -
  have "n = Suc i" using assms by simp
  then have "take n (xs[i := b]) = take i (xs[i := b]) @ [xs[i := b] ! i]"
    using assms by (simp only: take_Suc_conv_app_nth length_list_update)
  with assms show ?thesis by simp
qed

lemma append_split_at: "xs @ ys = take n xs @ drop n xs @ ys"
  by (metis append_assoc append_take_drop_id)

subsection \<open>Bits\<close>

lemma bit_shift_back: "bit v (k + (n - k)) \<longleftrightarrow> (if k \<le> n then bit v n else bit v k)"
  by simp

lemma bit_beyond: "LENGTH('a) \<le> n \<Longrightarrow> \<not> bit v n" for v :: "'a::len word"
  by (auto dest: bit_imp_le_length)

lemma xor_left_cancel: "x XOR a = x XOR b \<longleftrightarrow> a = b" for a b x :: "'a::len word"
proof
  assume "x XOR a = x XOR b"
  then have "x XOR (x XOR a) = x XOR (x XOR b)" by simp
  then show "a = b" by (simp only: xor.assoc [symmetric] xor_self_eq xor.left_neutral)
qed simp

lemma xor_right_cancel: "a XOR x = b XOR x \<longleftrightarrow> a = b" for a b x :: "'a::len word"
  by (simp add: xor.commute [of _ x] xor_left_cancel)

text \<open>Reading a 16-bit word as two's complement.\<close>

lemma sint_16_eq:
  "sint v = (if uint v \<le> 32767 then uint v else uint v - 65536)" for v :: "16 word"
proof -
  have bounds: "0 \<le> uint v" "uint v < 65536"
    using uint_lt2p [of v] by simp_all
  have shift: "signed_take_bit 15 (uint v) = signed_take_bit 15 (uint v - 65536)"
    by (simp add: signed_take_bit_eq_iff_take_bit_eq take_bit_eq_mod)
  have id: "signed_take_bit 15 k = k" if "- 32768 \<le> k" "k < 32768" for k :: int
    using that by (intro signed_take_bit_int_eq_self) simp_all
  show ?thesis
  proof (cases "uint v \<le> 32767")
    case True
    then have "signed_take_bit 15 (uint v) = uint v"
      using bounds by (intro id) linarith+
    with True show ?thesis by (simp add: sint_uint)
  next
    case False
    then have "signed_take_bit 15 (uint v - 65536) = uint v - 65536"
      using bounds by (intro id) linarith+
    with False show ?thesis by (simp add: sint_uint shift)
  qed
qed

text \<open>Magnitude of a 16-bit value: the cast to unsigned, after negation for a negative one.\<close>

lemma unat_nonneg:
  "0 \<le> sint v \<Longrightarrow> int (unat v) = sint v" for v :: "16 word"
  using sint_16_eq [of v] uint_lt2p [of v] by (simp split: if_splits)

lemma unat_neg:
  fixes v :: "16 word"
  assumes "sint v < 0"
  shows "int (unat (- v)) = - sint v"
proof -
  have "- 32768 \<le> sint v" using sint_ge [of v] by simp
  have "- v = word_of_int (- sint v)" by simp
  then have "uint (- v) = (- sint v) mod 65536"
    by (simp only: uint_word_of_int_eq take_bit_eq_mod) simp
  also have "\<dots> = - sint v" using assms \<open>- 32768 \<le> sint v\<close> by simp
  finally show ?thesis by simp
qed

lemma unat_16_bound: "unat v < 65536" for v :: "16 word"
  using unsigned_less [of v, where 'a = nat] by simp

lemma sint_minus:
  fixes v :: "16 word"
  assumes "0 \<le> sint v"
  shows "sint (- v) = - sint v"
proof (cases "v = 0")
  case False
  have v: "uint v \<le> 32767" "sint v = uint v"
    using assms sint_16_eq [of v] uint_lt2p [of v] by (simp_all split: if_splits)
  have "0 < uint v" using False uint_0_iff [of v] uint_ge_0 [of v] by linarith
  have "- v = word_of_int (- uint v)" by simp
  then have "uint (- v) = (- uint v) mod 65536"
    by (simp only: uint_word_of_int_eq take_bit_eq_mod) simp
  also have "\<dots> = 65536 - uint v"
    using v \<open>0 < uint v\<close> by (simp add: zmod_zminus1_eq_if)
  finally show ?thesis using v \<open>0 < uint v\<close> by (simp add: sint_16_eq [of "- v"])
qed simp

subsection \<open>Elapsed time on a 32-bit millisecond counter\<close>

text \<open>
  Every timeout of the firmware compares \<^verbatim>\<open>now - start\<close>, a wrap-around
  subtraction, with a limit. If \<open>d\<close> milliseconds really passed and \<open>d\<close> is below
  \<open>2 ^ 32\<close>, the subtraction gives exactly \<open>d\<close>, wherever the counter wrapped.
\<close>

lemma elapsed_exact:
  fixes start :: u32
  assumes "d < 2 ^ 32"
  shows "unat ((start + of_nat d) - start) = d"
  using assms by (simp add: unat_of_nat take_bit_nat_eq_self)

lemma elapsed_ge_iff:
  fixes start limit :: u32
  assumes "d < 2 ^ 32"
  shows "limit \<le> (start + of_nat d) - start \<longleftrightarrow> unat limit \<le> d"
  using elapsed_exact [OF assms, of start] by (simp add: word_le_nat_alt)

lemma elapsed_less_iff:
  fixes start limit :: u32
  assumes "d < 2 ^ 32"
  shows "(start + of_nat d) - start < limit \<longleftrightarrow> d < unat limit"
  using elapsed_exact [OF assms, of start] by (simp add: word_less_nat_alt)

subsection \<open>Lists in two stages\<close>

text \<open>A list whose first part satisfies one predicate and whose rest satisfies another.\<close>

definition staged :: "('a \<Rightarrow> bool) \<Rightarrow> ('a \<Rightarrow> bool) \<Rightarrow> 'a list \<Rightarrow> bool" where
  "staged P Q xs \<longleftrightarrow> (\<exists>ys zs. xs = ys @ zs \<and> list_all P ys \<and> list_all Q zs)"

lemma staged_first: "list_all P xs \<Longrightarrow> staged P Q xs"
  unfolding staged_def by (intro exI [of _ xs] exI [of _ "[]"]) simp

lemma staged_second: "list_all Q xs \<Longrightarrow> staged P Q xs"
  unfolding staged_def by (intro exI [of _ "[]"] exI [of _ xs]) simp

lemma staged_tl: "staged P Q (x # xs) \<Longrightarrow> staged P Q xs"
  unfolding staged_def by (fastforce simp: Cons_eq_append_conv)

lemma staged_append:
  assumes "staged P Q xs" and "list_all Q ys"
  shows "staged P Q (xs @ ys)"
proof -
  from assms(1) obtain as bs where "xs = as @ bs" "list_all P as" "list_all Q bs" by (auto simp: staged_def)
  with assms(2) have "xs @ ys = as @ (bs @ ys)" "list_all P as" "list_all Q (bs @ ys)" by simp_all
  then show ?thesis unfolding staged_def by blast
qed

lemma staged_hd: "staged P Q (x # xs) \<Longrightarrow> \<not> P x \<Longrightarrow> Q x \<and> list_all Q xs"
  unfolding staged_def by (auto simp: Cons_eq_append_conv)

lemma append_split_left:
  assumes "as @ bs = xs @ x # ys" and "x \<notin> set bs"
  obtains zs where "as = xs @ x # zs" and "ys = zs @ bs"
  using assms by (auto simp: append_eq_append_conv2 append_eq_Cons_conv Cons_eq_append_conv)

subsection \<open>Reachable states and invariants\<close>

inductive reachable :: "('s \<Rightarrow> bool) \<Rightarrow> ('s \<Rightarrow> 's \<Rightarrow> bool) \<Rightarrow> 's \<Rightarrow> bool"
  for init :: "'s \<Rightarrow> bool" and step :: "'s \<Rightarrow> 's \<Rightarrow> bool" where
  reachable_init: "init s \<Longrightarrow> reachable init step s"
| reachable_step: "reachable init step s \<Longrightarrow> step s t \<Longrightarrow> reachable init step t"

text \<open>
  An inductive invariant: what a component proves of its initial state and of each of
  its steps. Every reachable state then satisfies it.
\<close>

locale inductive_invariant =
  fixes init :: "'s \<Rightarrow> bool" and step :: "'s \<Rightarrow> 's \<Rightarrow> bool" and inv :: "'s \<Rightarrow> bool"
  assumes inv_init: "init s \<Longrightarrow> inv s"
    and inv_step: "inv s \<Longrightarrow> step s t \<Longrightarrow> inv t"
begin

lemma inv_reachable: "reachable init step s \<Longrightarrow> inv s"
  by (induction rule: reachable.induct) (auto intro: inv_init inv_step)

end

end
