(* ===== verification/Crc16.thy ===== *)
theory Crc16
  imports Prelude
begin

section \<open>CRC16/CCITT-FALSE (protocol/crc16\_ccitt\_false.c)\<close>

text \<open>
  The bit loop, the byte loop and the whole checksum. A pointer with a length is a byte
  list with the number of bytes to read. The theory shows that the checksum composes
  over concatenation (which is what lets the decoder compute it byte by byte) and that
  the bit loop is linear and injective, so that a change confined to two neighbouring
  bytes (a burst of up to sixteen bits) always changes the checksum.
\<close>

abbreviation (input) CRC16_CCITT_FALSE_INITIAL :: u16 where
  "CRC16_CCITT_FALSE_INITIAL \<equiv> 0xFFFF"

abbreviation (input) CRC16_CCITT_POLYNOMIAL :: u16 where
  "CRC16_CCITT_POLYNOMIAL \<equiv> 0x1021"

definition crc16_bit :: "u16 \<Rightarrow> u16" where
  "crc16_bit crc =
     (if crc AND 0x8000 \<noteq> 0 then push_bit 1 crc XOR CRC16_CCITT_POLYNOMIAL
      else push_bit 1 crc)"

definition crc16_byte :: "u16 \<Rightarrow> u8 \<Rightarrow> u16" where
  "crc16_byte crc byte = (crc16_bit ^^ 8) (crc XOR push_bit 8 (ucast byte))"

definition crc16_ccitt_false_update :: "u16 \<Rightarrow> u8 list \<Rightarrow> nat \<Rightarrow> u16" where
  "crc16_ccitt_false_update crc data len = foldl crc16_byte crc (take len data)"

definition crc16_ccitt_false :: "u8 list \<Rightarrow> nat \<Rightarrow> u16" where
  "crc16_ccitt_false data len =
     crc16_ccitt_false_update CRC16_CCITT_FALSE_INITIAL data len"

subsection \<open>Composition\<close>

lemma crc_update_single [simp]: "crc16_ccitt_false_update crc [b] 1 = crc16_byte crc b"
  by (simp add: crc16_ccitt_false_update_def)

lemma crc_update_single' [simp]:
  "crc16_ccitt_false_update crc [b] (Suc 0) = crc16_byte crc b"
  by (simp add: crc16_ccitt_false_update_def)

lemma crc_update_append:
  "crc16_ccitt_false_update crc (xs @ ys) (length xs + n) =
     crc16_ccitt_false_update (crc16_ccitt_false_update crc xs (length xs)) ys n"
  by (simp add: crc16_ccitt_false_update_def)

subsection \<open>The bit loop is linear and injective\<close>

lemma bit_crc16_bit:
  "bit (crc16_bit crc) n \<longleftrightarrow>
     n < 16 \<and> ((0 < n \<and> bit crc (n - 1)) \<noteq> (bit crc 15 \<and> n \<in> {0, 5, 12}))"
proof -
  have msb: "crc AND 0x8000 \<noteq> 0 \<longleftrightarrow> bit crc 15"
    using and_exp_eq_0_iff_not_bit [of crc 15] by simp
  have poly: "bit (0x1021 :: u16) n \<longleftrightarrow> n \<in> {0, 5, 12}"
  proof (cases "n < 16")
    case True
    have "\<forall>k \<in> set [0..<16]. bit (0x1021 :: u16) k \<longleftrightarrow> k \<in> {0, 5, 12}" by code_simp
    with True show ?thesis by simp
  qed (auto simp: bit_beyond)
  have shift: "bit (push_bit 1 crc) n \<longleftrightarrow> n < 16 \<and> 0 < n \<and> bit crc (n - 1)"
    by (auto simp only: bit_push_bit_iff possible_bit_word) auto
  show ?thesis
    unfolding crc16_bit_def msb
    by (auto simp only: bit_xor_iff shift poly split: if_splits)
qed

lemma crc16_bit_xor: "crc16_bit (a XOR b) = crc16_bit a XOR crc16_bit b"
  by (rule bit_word_eqI) (auto simp: bit_crc16_bit bit_simps)

lemma crc16_bit_inj: "inj crc16_bit"
proof (rule injI)
  fix a b assume eq: "crc16_bit a = crc16_bit b"
  have bits: "bit (crc16_bit a) n \<longleftrightarrow> bit (crc16_bit b) n" for n
    using eq by simp
  have msb: "bit a 15 \<longleftrightarrow> bit b 15"
    using bits [of 0] by (simp add: bit_crc16_bit)
  show "a = b"
  proof (rule bit_word_eqI)
    fix n assume "n < LENGTH(16)"
    then have "n = 15 \<or> Suc n < 16" by auto
    then show "bit a n \<longleftrightarrow> bit b n"
      using bits [of "Suc n"] msb by (auto simp: bit_crc16_bit)
  qed
qed

lemma crc16_bits_xor: "(crc16_bit ^^ k) (a XOR b) = (crc16_bit ^^ k) a XOR (crc16_bit ^^ k) b"
  by (induction k) (simp_all add: crc16_bit_xor)

lemma crc16_bits_inj: "inj (crc16_bit ^^ k)"
proof (induction k)
  case (Suc k)
  then show ?case unfolding funpow.simps by (rule inj_compose [OF crc16_bit_inj])
qed simp

lemma crc16_bits_zero_iff: "(crc16_bit ^^ k) a = 0 \<longleftrightarrow> a = 0"
proof -
  have "(crc16_bit ^^ k) 0 = 0" by (induction k) (simp_all add: crc16_bit_def)
  then show ?thesis using crc16_bits_inj [of k] by (metis inj_eq)
qed

lemma crc16_byte_inj_crc: "crc16_byte c b = crc16_byte c' b \<longleftrightarrow> c = c'"
  using crc16_bits_inj [of 8]
  by (simp add: crc16_byte_def inj_eq xor_right_cancel)

lemma foldl_crc16_inj: "foldl crc16_byte c xs = foldl crc16_byte c' xs \<longleftrightarrow> c = c'"
  by (induction xs arbitrary: c c') (auto simp: crc16_byte_inj_crc)

text \<open>Eight shifts move a low byte to the high half without feedback.\<close>

lemma crc16_bits_low_byte: "(crc16_bit ^^ 8) (ucast (b :: u8)) = push_bit 8 (ucast b)"
proof -
  have shift: "(crc16_bit ^^ k) (ucast b) = push_bit k (ucast b)" if "k \<le> 8" for k
    using that
  proof (induction k)
    case (Suc k)
    then have "(crc16_bit ^^ Suc k) (ucast b) = crc16_bit (push_bit k (ucast b))" by simp
    also have "\<dots> = push_bit (Suc k) (ucast b)"
      using Suc.prems
      by (intro bit_word_eqI) (auto simp: bit_crc16_bit bit_simps bit_beyond simp del: push_bit_Suc)
    finally show ?case .
  qed simp
  show ?thesis by (rule shift) simp
qed

lemma crc16_two_bytes:
  "crc16_byte (crc16_byte c x) y = (crc16_bit ^^ 16) (c XOR (push_bit 8 (ucast x) XOR ucast y))"
proof -
  have "crc16_byte (crc16_byte c x) y =
      (crc16_bit ^^ 8) ((crc16_bit ^^ 8) (c XOR push_bit 8 (ucast x)) XOR (crc16_bit ^^ 8) (ucast y))"
    by (simp add: crc16_byte_def crc16_bits_low_byte)
  also have "\<dots> = (crc16_bit ^^ (8 + 8)) ((c XOR push_bit 8 (ucast x)) XOR ucast y)"
    by (simp only: crc16_bits_xor [symmetric] funpow_add comp_apply)
  finally show ?thesis by (simp add: ac_simps)
qed

lemma word_of_bytes_inj:
  "push_bit 8 (ucast (x :: u8)) XOR (ucast y :: u16) = push_bit 8 (ucast x') XOR ucast y' \<longleftrightarrow>
     x = x' \<and> y = (y' :: u8)"
proof
  assume eq: "push_bit 8 (ucast x) XOR (ucast y :: u16) = push_bit 8 (ucast x') XOR ucast y'"
  have bits: "bit (push_bit 8 (ucast x) XOR (ucast y :: u16)) n \<longleftrightarrow>
      bit (push_bit 8 (ucast x') XOR (ucast y' :: u16)) n" for n
    using eq by simp
  have "x = x'"
  proof (rule bit_word_eqI)
    fix n assume "n < LENGTH(8)"
    then show "bit x n \<longleftrightarrow> bit x' n"
      using bits [of "n + 8"] by (auto simp: bit_simps dest: bit_imp_le_length)
  qed
  moreover have "y = y'"
  proof (rule bit_word_eqI)
    fix n assume "n < LENGTH(8)"
    then show "bit y n \<longleftrightarrow> bit y' n"
      using bits [of n] by (auto simp: bit_simps)
  qed
  ultimately show "x = x' \<and> y = y'" by simp
qed simp

text \<open>
  A burst inside two neighbouring bytes changes the checksum of a message of any length,
  wherever in the message it falls.
\<close>

lemma crc_detects_two_bytes:
  assumes "foldl crc16_byte c (pre @ [x, y] @ post) = foldl crc16_byte c (pre @ [x', y'] @ post)"
  shows "x = x' \<and> y = y'"
proof -
  let ?c = "foldl crc16_byte c pre"
  have "crc16_byte (crc16_byte ?c x) y = crc16_byte (crc16_byte ?c x') y'"
    using assms by (simp add: foldl_crc16_inj)
  then have "?c XOR (push_bit 8 (ucast x) XOR ucast y) = ?c XOR (push_bit 8 (ucast x') XOR ucast y')"
    using crc16_bits_inj [of 16] by (simp add: crc16_two_bytes inj_eq)
  then have "push_bit 8 (ucast x) XOR (ucast y :: u16) = push_bit 8 (ucast x') XOR ucast y'"
    by (simp only: xor_left_cancel)
  then show ?thesis by (simp add: word_of_bytes_inj)
qed

lemma crc_detects_one_byte:
  assumes "foldl crc16_byte c (pre @ x # post) = foldl crc16_byte c (pre @ x' # post)"
  shows "x = x'"
proof -
  let ?c = "foldl crc16_byte c pre"
  have "crc16_byte ?c x = crc16_byte ?c x'"
    using assms by (simp add: foldl_crc16_inj)
  then have "crc16_byte (crc16_byte ?c x) 0 = crc16_byte (crc16_byte ?c x') 0" by simp
  then have "foldl crc16_byte c (pre @ [x, 0] @ []) = foldl crc16_byte c (pre @ [x', 0] @ [])"
    by simp
  then show ?thesis by (rule crc_detects_two_bytes [THEN conjunct1])
qed

end
