(* ===== verification/Crc16_Reference.thy ===== *)
theory Crc16_Reference
  imports Crc16
begin

section \<open>The checksum is a polynomial remainder\<close>

text \<open>
  The reference definition of a cyclic redundancy check: a natural number is read as a
  polynomial over the field with two elements, bit \<open>i\<close> being the coefficient of the power
  \<open>i\<close>; addition is the exclusive or, and multiplication is carry-less. The theory shows
  that the bit loop of the source computes the remainder modulo the CCITT polynomial.
\<close>

fun clmul :: "nat \<Rightarrow> nat \<Rightarrow> nat" where
  "clmul q g = (if q = 0 then 0 else (if odd q then g else 0) XOR 2 * clmul (q div 2) g)"

declare clmul.simps [simp del]

text \<open>The generator, of degree sixteen, and the message.\<close>

definition CCITT_GENERATOR :: nat where "CCITT_GENERATOR = 0x11021"

definition message_polynomial :: "u8 list \<Rightarrow> nat" where
  "message_polynomial bs = foldl (\<lambda>m b. push_bit 8 m XOR unat b) 0 bs"

definition is_remainder :: "nat \<Rightarrow> nat \<Rightarrow> bool" where
  "is_remainder a r \<longleftrightarrow> r < 2 ^ 16 \<and> (\<exists>q. a = clmul q CCITT_GENERATOR XOR r)"

subsection \<open>Carry-less multiplication\<close>

lemma double_xor: "2 * (a XOR b) = (2 * a) XOR (2 * b)" for a b :: nat
  using push_bit_xor [of 1 a b] by (simp add: push_bit_eq_mult mult.commute)

lemma clmul_0 [simp]: "clmul 0 g = 0"
  by (simp add: clmul.simps)

lemma clmul_1 [simp]: "clmul (Suc 0) g = g"
  by (simp add: clmul.simps [of "Suc 0"])

lemma clmul_double: "clmul (2 * q) g = 2 * clmul q g"
  by (cases "q = 0") (simp_all add: clmul.simps [of "2 * q"])

lemma xor_halves: "(a XOR b) div 2 = (a div 2) XOR (b div 2)" "odd (a XOR b) \<longleftrightarrow> odd a \<noteq> odd b" for a b :: nat
  using drop_bit_xor [of 1 a b] by (simp_all add: drop_bit_eq_div even_xor_iff)

lemma xor_cancel [simp]: "x XOR x XOR y = y" "x XOR (x XOR y) = y" "x XOR x = 0" for x y :: nat
  by (auto intro: bit_eqI simp: bit_xor_iff)

lemma clmul_unfold: "clmul q g = (if odd q then g else 0) XOR 2 * clmul (q div 2) g"
  by (cases "q = 0") (simp_all add: clmul.simps [of q])

lemma clmul_xor: "clmul (a XOR b) g = clmul a g XOR clmul b g"
proof (induction "a + b" arbitrary: a b rule: less_induct)
  case less
  show ?case
  proof (cases "a = 0 \<or> b = 0")
    case False
    then have "a div 2 + b div 2 < a + b" by (simp add: add_strict_mono)
    from less [OF this] show ?thesis
      unfolding clmul_unfold [of a] clmul_unfold [of b] clmul_unfold [of "a XOR b"] xor_halves
      by (auto simp: double_xor xor.left_commute [of _ g] ac_simps)
  qed auto
qed

subsection \<open>Congruence modulo the generator\<close>

definition crc_cong :: "nat \<Rightarrow> nat \<Rightarrow> bool" where
  "crc_cong a b \<longleftrightarrow> (\<exists>q. a XOR b = clmul q CCITT_GENERATOR)"

lemma crc_cong_refl: "crc_cong a a"
  unfolding crc_cong_def by (intro exI [of _ 0]) simp

lemma crc_cong_trans:
  assumes "crc_cong a b" and "crc_cong b d"
  shows "crc_cong a d"
proof -
  from assms obtain p q where "a XOR b = clmul p CCITT_GENERATOR" "b XOR d = clmul q CCITT_GENERATOR"
    by (auto simp: crc_cong_def)
  then have "clmul (p XOR q) CCITT_GENERATOR = (a XOR b) XOR (b XOR d)" by (simp add: clmul_xor)
  also have "\<dots> = a XOR d" by (simp add: xor.assoc)
  finally show ?thesis unfolding crc_cong_def by metis
qed

lemma crc_cong_xor: "crc_cong a b \<Longrightarrow> crc_cong (a XOR d) (b XOR d)"
proof -
  have "(a XOR d) XOR (b XOR d) = a XOR b" by (auto intro: bit_eqI simp: bit_xor_iff)
  then show "crc_cong a b \<Longrightarrow> crc_cong (a XOR d) (b XOR d)" by (simp add: crc_cong_def)
qed

lemma crc_cong_double: "crc_cong a b \<Longrightarrow> crc_cong (2 * a) (2 * b)"
  unfolding crc_cong_def by (metis clmul_double double_xor)

lemma crc_cong_push: "crc_cong a b \<Longrightarrow> crc_cong (push_bit n a) (push_bit n b)"
proof (induction n)
  case (Suc n)
  from crc_cong_double [OF Suc.IH [OF Suc.prems]] show ?case by (simp add: push_bit_eq_mult ac_simps)
qed simp

lemma bit_generator: "bit CCITT_GENERATOR n \<longleftrightarrow> n \<in> {0, 5, 12, 16}"
proof (cases "n < 17")
  case True
  then have "n \<in> {..<17}" by simp
  then show ?thesis by (auto simp: lessThan_nat_numeral lessThan_Suc CCITT_GENERATOR_def bit_0)
next
  case False
  have "(0x11021 :: nat) < 2 ^ 17" by simp
  also have "\<dots> \<le> 2 ^ n" using False by (intro power_increasing) simp_all
  finally have "\<not> bit (0x11021 :: nat) n" by (simp add: bit_iff_odd)
  with False show ?thesis by (auto simp: CCITT_GENERATOR_def)
qed

lemma bit_double_nat: "bit (2 * a) n \<longleftrightarrow> 0 < n \<and> bit a (n - 1)" for a :: nat
  by (cases n) (simp_all add: bit_0 bit_Suc)

lemma bit_unat_16: "bit (unat c) n \<longleftrightarrow> bit c n" for c :: u16
  by (simp add: bit_unsigned_iff)

lemma bit_step_cong: "crc_cong (unat (crc16_bit c)) (2 * unat c)"
proof -
  have "unat (crc16_bit c) XOR 2 * unat c = (if bit c 15 then CCITT_GENERATOR else 0)"
  proof (rule bit_eqI)
    fix n
    have beyond: "\<not> bit c k" if "16 \<le> k" for k using that by (simp add: bit_beyond)
    show "bit (unat (crc16_bit c) XOR 2 * unat c) n \<longleftrightarrow> bit (if bit c 15 then CCITT_GENERATOR else 0) n"
      using beyond [of "n - 1"]
      by (cases "n < 16"; cases "n = 16") (auto simp: bit_xor_iff bit_unat_16 bit_crc16_bit bit_double_nat bit_generator)
  qed
  then show ?thesis unfolding crc_cong_def by (intro exI [of _ "if bit c 15 then Suc 0 else 0"]) simp
qed

lemma bits_cong: "crc_cong (unat ((crc16_bit ^^ k) c)) (push_bit k (unat c))"
proof (induction k)
  case (Suc k)
  have "crc_cong (unat ((crc16_bit ^^ Suc k) c)) (2 * unat ((crc16_bit ^^ k) c))"
    using bit_step_cong [of "(crc16_bit ^^ k) c"] by simp
  from crc_cong_trans [OF this crc_cong_double [OF Suc.IH]] show ?case by (simp add: push_bit_eq_mult ac_simps)
qed (simp add: crc_cong_refl)

lemma byte_cong: "crc_cong (unat (crc16_byte c b)) (push_bit 8 (unat c) XOR push_bit 16 (unat b))"
proof -
  have u8_bound: "unat b < 256" using unsigned_less [of b, where 'a = nat] by simp
  then have small: "push_bit 8 (unat b) < 2 ^ 16" by (simp add: push_bit_eq_mult)
  have "unat (ucast b :: u16) = unat b" using u8_bound by (simp add: unsigned_ucast_eq take_bit_nat_eq_self)
  then have "unat (push_bit 8 (ucast b :: u16)) = push_bit 8 (unat b)"
    using take_bit_nat_eq_self [OF small] by (simp add: unsigned_push_bit_eq)
  with bits_cong [of 8 "c XOR push_bit 8 (ucast b)"] show ?thesis
    by (simp add: crc16_byte_def unsigned_xor_eq push_bit_xor push_bit_push_bit)
qed

lemma update_cong:
  "crc_cong (unat (foldl crc16_byte c bs)) (push_bit (8 * length bs) (unat c) XOR push_bit 16 (message_polynomial bs))"
proof (induction bs rule: rev_induct)
  case Nil
  then show ?case by (simp add: message_polynomial_def crc_cong_refl)
next
  case (snoc b bs)
  let ?r = "foldl crc16_byte c bs"
  have "crc_cong (push_bit 8 (unat ?r) XOR push_bit 16 (unat b))
      (push_bit 8 (push_bit (8 * length bs) (unat c) XOR push_bit 16 (message_polynomial bs)) XOR push_bit 16 (unat b))"
    by (rule crc_cong_xor [OF crc_cong_push [OF snoc]])
  from crc_cong_trans [OF byte_cong this] show ?case
    by (simp add: message_polynomial_def push_bit_xor push_bit_push_bit ac_simps)
qed

subsection \<open>Remainders are unique\<close>

lemma clmul_degree: "q \<noteq> 0 \<Longrightarrow> \<exists>n \<ge> 16. bit (clmul q CCITT_GENERATOR) n"
proof (induction q rule: less_induct)
  case (less q)
  show ?case
  proof (cases "q div 2 = 0")
    case True
    with less.prems have "q = Suc 0" by simp
    then show ?thesis by (intro exI [of _ 16]) (simp add: bit_generator)
  next
    case False
    with less.IH [of "q div 2"] less.prems obtain n where n: "16 \<le> n" "bit (clmul (q div 2) CCITT_GENERATOR) n" by auto
    then have "bit (clmul q CCITT_GENERATOR) (Suc n)"
      unfolding clmul_unfold [of q] by (auto simp: bit_xor_iff bit_double_nat bit_generator)
    with n(1) show ?thesis by (intro exI [of _ "Suc n"]) simp
  qed
qed

lemma remainder_unique:
  assumes "is_remainder a r" and "is_remainder a s"
  shows "r = s"
proof -
  from assms obtain p q where p: "a = clmul p CCITT_GENERATOR XOR r" and q: "a = clmul q CCITT_GENERATOR XOR s"
    and small: "r < 2 ^ 16" "s < 2 ^ 16" unfolding is_remainder_def by blast
  have low: "\<not> bit x n" if "x < 2 ^ 16" "16 \<le> n" for x n :: nat
  proof -
    have "x < 2 ^ n" using that by (metis less_le_trans one_le_numeral power_increasing)
    then show ?thesis by (simp add: bit_iff_odd)
  qed
  have eq: "clmul (p XOR q) CCITT_GENERATOR = r XOR s"
  proof -
    have "clmul (p XOR q) CCITT_GENERATOR XOR (r XOR s) =
        (clmul p CCITT_GENERATOR XOR r) XOR (clmul q CCITT_GENERATOR XOR s)"
      by (simp add: clmul_xor ac_simps)
    also have "\<dots> = 0" using p q by simp
    finally show ?thesis by (metis xor_cancel(2) xor.right_neutral)
  qed
  have "p XOR q = 0"
    using clmul_degree [of "p XOR q"] low [OF small(1)] low [OF small(2)] unfolding eq by (auto simp: bit_xor_iff)
  then have "r XOR s = 0" using eq by simp
  then show ?thesis by (metis xor_cancel(2) xor.right_neutral)
qed

subsection \<open>Property\<close>

text \<open>
  C26: The checksum routine is the CRC-16/CCITT-FALSE of the standards. With the initial value
  written in front of the message and sixteen zero bits after it, the value returned is the
  remainder of the division by \<open>x^16 + x^12 + x^5 + 1\<close> in polynomials over the field with
  two elements, for messages of every length; the remainder is unique, so no other value
  is one.
\<close>

theorem crc16_is_polynomial_remainder:
  "is_remainder (push_bit (8 * length data) 0xFFFF XOR push_bit 16 (message_polynomial data)) r \<longleftrightarrow>
     r = unat (crc16_ccitt_false data (length data))"
proof -
  let ?a = "push_bit (8 * length data) 0xFFFF XOR push_bit 16 (message_polynomial data)"
  let ?r = "unat (crc16_ccitt_false data (length data))"
  obtain q where "?r XOR ?a = clmul q CCITT_GENERATOR"
    using update_cong [of CRC16_CCITT_FALSE_INITIAL data]
    by (auto simp: crc_cong_def crc16_ccitt_false_def crc16_ccitt_false_update_def)
  then have "?a = clmul q CCITT_GENERATOR XOR ?r" by (metis xor.commute xor_cancel(2))
  moreover have "?r < 2 ^ 16" by (simp add: unat_16_bound)
  ultimately have "is_remainder ?a ?r" unfolding is_remainder_def by blast
  with remainder_unique show ?thesis by blast
qed

end
