(* ===== verification/Byte_Codec.thy ===== *)
theory Byte_Codec
  imports Prelude
begin

section \<open>Big-endian byte primitives (protocol/byte\_codec.c)\<close>

text \<open>
  A decoder reads from the start of the byte list it is given (\<^verbatim>\<open>bytes + n\<close> is
  \<open>drop n bytes\<close>); an encoder returns the bytes it stores from \<^verbatim>\<open>output\<close> on.
  Shifts are done at the width the C code converts to before shifting.
\<close>

definition byte_codec_decode_u16_be :: "u8 list \<Rightarrow> u16" where
  "byte_codec_decode_u16_be bytes =
     ucast (push_bit 8 (ucast (bytes ! 0) :: u32) OR (ucast (bytes ! 1) :: u32))"

definition byte_codec_decode_i16_be :: "u8 list \<Rightarrow> i16" where
  "byte_codec_decode_i16_be bytes =
     (let value = byte_codec_decode_u16_be bytes;
          signed_value = (if value \<le> 32767 then uint value else uint value - 65536)
      in word_of_int signed_value)"

definition byte_codec_decode_u32_be :: "u8 list \<Rightarrow> u32" where
  "byte_codec_decode_u32_be bytes =
     push_bit 24 (ucast (bytes ! 0)) OR push_bit 16 (ucast (bytes ! 1)) OR
     push_bit 8 (ucast (bytes ! 2)) OR ucast (bytes ! 3)"

definition byte_codec_decode_u64_be :: "u8 list \<Rightarrow> u64" where
  "byte_codec_decode_u64_be bytes =
     push_bit 32 (ucast (byte_codec_decode_u32_be bytes)) OR
     ucast (byte_codec_decode_u32_be (drop 4 bytes))"

definition byte_codec_encode_u16_be :: "u16 \<Rightarrow> u8 list" where
  "byte_codec_encode_u16_be value = [ucast (drop_bit 8 value), ucast value]"

definition byte_codec_encode_i16_be :: "i16 \<Rightarrow> u8 list" where
  "byte_codec_encode_i16_be value = byte_codec_encode_u16_be (word_of_int (sint value))"

definition byte_codec_encode_u32_be :: "u32 \<Rightarrow> u8 list" where
  "byte_codec_encode_u32_be value =
     [ucast (drop_bit 24 value), ucast (drop_bit 16 value),
      ucast (drop_bit 8 value), ucast value]"

definition byte_codec_encode_u64_be :: "u64 \<Rightarrow> u8 list" where
  "byte_codec_encode_u64_be value =
     byte_codec_encode_u32_be (ucast (drop_bit 32 value)) @
     byte_codec_encode_u32_be (ucast value)"

subsection \<open>Lengths\<close>

lemma length_encode_u16 [simp]: "length (byte_codec_encode_u16_be v) = 2"
  by (simp add: byte_codec_encode_u16_be_def)

lemma length_encode_i16 [simp]: "length (byte_codec_encode_i16_be v) = 2"
  by (simp add: byte_codec_encode_i16_be_def)

lemma length_encode_u32 [simp]: "length (byte_codec_encode_u32_be v) = 4"
  by (simp add: byte_codec_encode_u32_be_def)

lemma length_encode_u64 [simp]: "length (byte_codec_encode_u64_be v) = 8"
  by (simp add: byte_codec_encode_u64_be_def)

subsection \<open>Decoding what was encoded, followed by anything\<close>

lemma decode_encode_u16 [simp]:
  "byte_codec_decode_u16_be (byte_codec_encode_u16_be v @ rest) = v"
  unfolding byte_codec_decode_u16_be_def byte_codec_encode_u16_be_def
  by (rule bit_word_eqI) (auto simp: bit_simps nth_append)

lemma decode_encode_i16 [simp]:
  "byte_codec_decode_i16_be (byte_codec_encode_i16_be v @ rest) = v"
  by (simp add: byte_codec_decode_i16_be_def byte_codec_encode_i16_be_def Let_def)

lemma decode_encode_u32 [simp]:
  "byte_codec_decode_u32_be (byte_codec_encode_u32_be v @ rest) = v"
  unfolding byte_codec_decode_u32_be_def byte_codec_encode_u32_be_def
  by (rule bit_word_eqI) (auto simp: bit_simps bit_shift_back split: if_splits)

lemma decode_encode_u64 [simp]:
  "byte_codec_decode_u64_be (byte_codec_encode_u64_be v @ rest) = v"
  unfolding byte_codec_decode_u64_be_def byte_codec_encode_u64_be_def
  by (rule bit_word_eqI) (auto simp: bit_simps)

subsection \<open>Encoding what was decoded\<close>

lemma length_2E:
  assumes "length bs = 2"
  obtains a b where "bs = [a, b]"
  using assms by (auto simp: numeral_2_eq_2 length_Suc_conv)

lemma length_4E:
  assumes "length bs = 4"
  obtains a b c d where "bs = [a, b, c, d]"
  using assms by (auto simp: numeral_eq_Suc length_Suc_conv)

lemma encode_decode_u16:
  assumes "length bs = 2"
  shows "byte_codec_encode_u16_be (byte_codec_decode_u16_be bs) = bs"
  using assms
proof (rule length_2E)
  fix a b assume "bs = [a, b]"
  then show ?thesis
    by (auto simp: byte_codec_decode_u16_be_def byte_codec_encode_u16_be_def bit_simps
        bit_beyond intro!: bit_word_eqI)
qed

lemma decode_i16_u16: "byte_codec_decode_i16_be bs = byte_codec_decode_u16_be bs"
  by (simp add: byte_codec_decode_i16_be_def Let_def)

lemma encode_decode_i16:
  assumes "length bs = 2"
  shows "byte_codec_encode_i16_be (byte_codec_decode_i16_be bs) = bs"
  using encode_decode_u16 [OF assms] by (simp add: byte_codec_encode_i16_be_def decode_i16_u16)

lemma encode_decode_u32:
  assumes "length bs = 4"
  shows "byte_codec_encode_u32_be (byte_codec_decode_u32_be bs) = bs"
  using assms
proof (rule length_4E)
  fix a b c d assume "bs = [a, b, c, d]"
  then show ?thesis
    by (auto simp: byte_codec_decode_u32_be_def byte_codec_encode_u32_be_def bit_simps
        bit_beyond intro!: bit_word_eqI)
qed

lemma decode_u64_halves:
  "ucast (drop_bit 32 (byte_codec_decode_u64_be bs)) = byte_codec_decode_u32_be bs"
  "ucast (byte_codec_decode_u64_be bs) = byte_codec_decode_u32_be (drop 4 bs)"
  unfolding byte_codec_decode_u64_be_def
  by (auto simp: bit_simps bit_beyond intro!: bit_word_eqI)

lemma decode_u32_take: "byte_codec_decode_u32_be (take 4 bs) = byte_codec_decode_u32_be bs"
  by (simp add: byte_codec_decode_u32_be_def)

lemma encode_decode_u64:
  assumes "length bs = 8"
  shows "byte_codec_encode_u64_be (byte_codec_decode_u64_be bs) = bs"
proof -
  have "byte_codec_encode_u32_be (byte_codec_decode_u32_be (take 4 bs)) = take 4 bs"
    and "byte_codec_encode_u32_be (byte_codec_decode_u32_be (drop 4 bs)) = drop 4 bs"
    using assms by (simp_all add: encode_decode_u32)
  then show ?thesis
    by (simp add: byte_codec_encode_u64_be_def decode_u64_halves decode_u32_take)
qed

subsection \<open>The sign of a decoded velocity\<close>

text \<open>The branch of the C code reads the two bytes as two's complement.\<close>

lemma sint_decode_i16:
  "sint (byte_codec_decode_i16_be bs) =
     (let v = uint (byte_codec_decode_u16_be bs) in if v \<le> 32767 then v else v - 65536)"
  by (simp add: decode_i16_u16 Let_def sint_16_eq)

end
