(* ===== verification/Payload_Codecs.thy ===== *)
theory Payload_Codecs
  imports Byte_Codec
begin

section \<open>Payload codecs (protocol/*\_codec.c)\<close>

text \<open>
  One record per payload struct, one encoder and one decoder per message. All of them
  satisfy the contract \<open>payload_codec\<close>: a fixed wire size, decoding returns what was
  encoded whatever follows it in the buffer, and encoding returns the bytes that were
  decoded, so each codec is a bijection between payloads and wire images.
\<close>

abbreviation (input) LINK_STATE_UNSYNCHRONIZED :: u8 where "LINK_STATE_UNSYNCHRONIZED \<equiv> 0x00"
abbreviation (input) LINK_STATE_SYNCHRONIZED :: u8 where "LINK_STATE_SYNCHRONIZED \<equiv> 0x01"

abbreviation (input) MOTION_LIFECYCLE_COMMAND_START_SESSION :: u8 where
  "MOTION_LIFECYCLE_COMMAND_START_SESSION \<equiv> 0x01"
abbreviation (input) MOTION_LIFECYCLE_COMMAND_END_SESSION :: u8 where
  "MOTION_LIFECYCLE_COMMAND_END_SESSION \<equiv> 0x02"

abbreviation (input) MOTION_ACK_ACCEPTED :: u8 where "MOTION_ACK_ACCEPTED \<equiv> 0x00"

abbreviation (input) MOTION_RESPONSE_OK :: u8 where "MOTION_RESPONSE_OK \<equiv> 0x00"
abbreviation (input) MOTION_RESPONSE_ALREADY_ACTIVE :: u8 where "MOTION_RESPONSE_ALREADY_ACTIVE \<equiv> 0x01"
abbreviation (input) MOTION_RESPONSE_ALREADY_ENDED :: u8 where "MOTION_RESPONSE_ALREADY_ENDED \<equiv> 0x02"
abbreviation (input) MOTION_RESPONSE_SESSION_MISMATCH :: u8 where "MOTION_RESPONSE_SESSION_MISMATCH \<equiv> 0x03"
abbreviation (input) MOTION_RESPONSE_SUPERSEDED :: u8 where "MOTION_RESPONSE_SUPERSEDED \<equiv> 0x04"
abbreviation (input) MOTION_RESPONSE_BUSY_STOPPING :: u8 where "MOTION_RESPONSE_BUSY_STOPPING \<equiv> 0x05"
abbreviation (input) MOTION_RESPONSE_REJECTED_UNSAFE :: u8 where "MOTION_RESPONSE_REJECTED_UNSAFE \<equiv> 0x06"
abbreviation (input) MOTION_RESPONSE_INVALID_COMMAND :: u8 where "MOTION_RESPONSE_INVALID_COMMAND \<equiv> 0x07"
abbreviation (input) MOTION_RESPONSE_STOP_FAILED :: u8 where "MOTION_RESPONSE_STOP_FAILED \<equiv> 0x08"

abbreviation (input) HEARTBEAT_WIRE_SIZE :: nat where "HEARTBEAT_WIRE_SIZE \<equiv> 5"
abbreviation (input) LINK_SYNC_WIRE_SIZE :: nat where "LINK_SYNC_WIRE_SIZE \<equiv> 8"
abbreviation (input) MOTION_ACK_WIRE_SIZE :: nat where "MOTION_ACK_WIRE_SIZE \<equiv> 1"
abbreviation (input) MOTION_LIFECYCLE_COMMAND_WIRE_SIZE :: nat where "MOTION_LIFECYCLE_COMMAND_WIRE_SIZE \<equiv> 5"
abbreviation (input) MOTION_RESPONSE_WIRE_SIZE :: nat where "MOTION_RESPONSE_WIRE_SIZE \<equiv> 6"
abbreviation (input) WHEEL_VELOCITY_COMMAND_WIRE_SIZE :: nat where "WHEEL_VELOCITY_COMMAND_WIRE_SIZE \<equiv> 4"
abbreviation (input) WHEEL_VELOCITY_PAYLOAD_WIRE_SIZE :: nat where "WHEEL_VELOCITY_PAYLOAD_WIRE_SIZE \<equiv> 8"

record HeartbeatPayload =
  hb_link_state :: u8
  hb_uptime_ms :: u32

record LinkSyncPayload =
  ls_sync_token :: u64

record MotionAckPayload =
  ack_status :: u8

record MotionLifecycleCommandPayload =
  lc_command :: u8
  lc_motion_session_id :: u32

record MotionResponsePayload =
  resp_command :: u8
  resp_motion_session_id :: u32
  resp_result :: u8

record WheelVelocityCommand =
  left_velocity_mm_s :: i16
  right_velocity_mm_s :: i16

record WheelVelocityPayload =
  wv_motion_session_id :: u32
  wv_command :: WheelVelocityCommand

definition heartbeat_encode :: "HeartbeatPayload \<Rightarrow> u8 list" where
  [codec_defs]: "heartbeat_encode p = hb_link_state p # byte_codec_encode_u32_be (hb_uptime_ms p)"

definition heartbeat_decode :: "u8 list \<Rightarrow> HeartbeatPayload" where
  [codec_defs]: "heartbeat_decode bs =
     \<lparr>hb_link_state = bs ! 0, hb_uptime_ms = byte_codec_decode_u32_be (drop 1 bs)\<rparr>"

definition link_sync_encode :: "LinkSyncPayload \<Rightarrow> u8 list" where
  [codec_defs]: "link_sync_encode p = byte_codec_encode_u64_be (ls_sync_token p)"

definition link_sync_decode :: "u8 list \<Rightarrow> LinkSyncPayload" where
  [codec_defs]: "link_sync_decode bs = \<lparr>ls_sync_token = byte_codec_decode_u64_be bs\<rparr>"

definition motion_ack_encode :: "MotionAckPayload \<Rightarrow> u8 list" where
  [codec_defs]: "motion_ack_encode p = [ack_status p]"

definition motion_ack_decode :: "u8 list \<Rightarrow> MotionAckPayload" where
  [codec_defs]: "motion_ack_decode bs = \<lparr>ack_status = bs ! 0\<rparr>"

definition motion_lifecycle_command_encode :: "MotionLifecycleCommandPayload \<Rightarrow> u8 list" where
  [codec_defs]: "motion_lifecycle_command_encode p =
     lc_command p # byte_codec_encode_u32_be (lc_motion_session_id p)"

definition motion_lifecycle_command_decode :: "u8 list \<Rightarrow> MotionLifecycleCommandPayload" where
  [codec_defs]: "motion_lifecycle_command_decode bs =
     \<lparr>lc_command = bs ! 0, lc_motion_session_id = byte_codec_decode_u32_be (drop 1 bs)\<rparr>"

definition motion_response_encode :: "MotionResponsePayload \<Rightarrow> u8 list" where
  [codec_defs]: "motion_response_encode p =
     resp_command p # byte_codec_encode_u32_be (resp_motion_session_id p) @ [resp_result p]"

definition motion_response_decode :: "u8 list \<Rightarrow> MotionResponsePayload" where
  [codec_defs]: "motion_response_decode bs =
     \<lparr>resp_command = bs ! 0, resp_motion_session_id = byte_codec_decode_u32_be (drop 1 bs),
      resp_result = bs ! 5\<rparr>"

definition wheel_velocity_command_encode :: "WheelVelocityCommand \<Rightarrow> u8 list" where
  [codec_defs]: "wheel_velocity_command_encode c =
     byte_codec_encode_i16_be (left_velocity_mm_s c) @
     byte_codec_encode_i16_be (right_velocity_mm_s c)"

definition wheel_velocity_command_decode :: "u8 list \<Rightarrow> WheelVelocityCommand" where
  [codec_defs]: "wheel_velocity_command_decode bs =
     \<lparr>left_velocity_mm_s = byte_codec_decode_i16_be bs,
      right_velocity_mm_s = byte_codec_decode_i16_be (drop 2 bs)\<rparr>"

definition wheel_velocity_payload_encode :: "WheelVelocityPayload \<Rightarrow> u8 list" where
  [codec_defs]: "wheel_velocity_payload_encode p =
     byte_codec_encode_u32_be (wv_motion_session_id p) @
     wheel_velocity_command_encode (wv_command p)"

definition wheel_velocity_payload_decode :: "u8 list \<Rightarrow> WheelVelocityPayload" where
  [codec_defs]: "wheel_velocity_payload_decode bs =
     \<lparr>wv_motion_session_id = byte_codec_decode_u32_be bs,
      wv_command = wheel_velocity_command_decode (drop 4 bs)\<rparr>"

subsection \<open>The contract of a codec\<close>

locale payload_codec =
  fixes enc :: "'p \<Rightarrow> u8 list" and dec :: "u8 list \<Rightarrow> 'p" and wire_size :: nat
  assumes enc_length: "length (enc p) = wire_size"
    and dec_enc: "dec (enc p @ rest) = p"
    and enc_dec: "length bs = wire_size \<Longrightarrow> enc (dec (bs @ rest)) = bs"
begin

lemma dec_enc_exact: "dec (enc p) = p"
  using dec_enc [of p "[]"] by simp

lemma enc_inject: "enc p = enc q \<longleftrightarrow> p = q"
  by (metis dec_enc_exact)

lemma dec_stored: "dec (buffer_write 0 (enc p) buf) = p"
  by (simp add: buffer_write_def dec_enc)

lemma enc_of_dec: "wire_size \<le> length bs \<Longrightarrow> enc (dec bs) = take wire_size bs"
  using enc_dec [of "take wire_size bs" "drop wire_size bs"] by simp

lemma dec_reads_prefix:
  assumes "wire_size \<le> length bs" and "wire_size \<le> length bs'"
  shows "dec bs = dec bs' \<longleftrightarrow> take wire_size bs = take wire_size bs'"
  using assms by (metis append_take_drop_id dec_enc enc_of_dec)

end

lemma u32_field:
  assumes "length xs = 4"
  shows "byte_codec_encode_u32_be (byte_codec_decode_u32_be (xs @ rest)) = xs"
  using assms encode_decode_u32 [of xs] decode_u32_take [of "xs @ rest"] by simp

lemma u64_field:
  assumes "length xs = 8"
  shows "byte_codec_encode_u64_be (byte_codec_decode_u64_be (xs @ rest)) = xs"
proof -
  have "byte_codec_decode_u64_be (xs @ rest) = byte_codec_decode_u64_be xs"
    using assms decode_u32_take [of xs] decode_u32_take [of "xs @ rest"]
      decode_u32_take [of "drop 4 xs"] decode_u32_take [of "drop 4 xs @ rest"]
    by (simp add: byte_codec_decode_u64_be_def)
  then show ?thesis using assms encode_decode_u64 by simp
qed

lemma i16_field:
  assumes "length xs = 2"
  shows "byte_codec_encode_i16_be (byte_codec_decode_i16_be (xs @ rest)) = xs"
  using assms
proof (rule length_2E)
  fix a b assume "xs = [a, b]"
  then have "byte_codec_decode_i16_be (xs @ rest) = byte_codec_decode_i16_be xs"
    by (simp add: decode_i16_u16 byte_codec_decode_u16_be_def)
  then show ?thesis using assms encode_decode_i16 by simp
qed

lemma split_first_byte:
  assumes "length bs = Suc n"
  obtains b bs' where "bs = b # bs'" and "length bs' = n"
  using assms by (auto simp: length_Suc_conv)

interpretation heartbeat: payload_codec heartbeat_encode heartbeat_decode HEARTBEAT_WIRE_SIZE
proof
  fix bs rest :: "u8 list" assume "length bs = HEARTBEAT_WIRE_SIZE"
  then have "length bs = Suc 4" by simp
  then show "heartbeat_encode (heartbeat_decode (bs @ rest)) = bs"
    by (rule split_first_byte) (simp add: codec_defs u32_field)
qed (simp_all add: codec_defs)

interpretation link_sync: payload_codec link_sync_encode link_sync_decode LINK_SYNC_WIRE_SIZE
  by unfold_locales (simp_all add: codec_defs u64_field)

interpretation motion_ack: payload_codec motion_ack_encode motion_ack_decode MOTION_ACK_WIRE_SIZE
  by unfold_locales (auto simp: codec_defs length_Suc_conv)

interpretation lifecycle_command: payload_codec motion_lifecycle_command_encode
  motion_lifecycle_command_decode MOTION_LIFECYCLE_COMMAND_WIRE_SIZE
proof
  fix bs rest :: "u8 list" assume "length bs = MOTION_LIFECYCLE_COMMAND_WIRE_SIZE"
  then have "length bs = Suc 4" by simp
  then show "motion_lifecycle_command_encode (motion_lifecycle_command_decode (bs @ rest)) = bs"
    by (rule split_first_byte) (simp add: codec_defs u32_field)
qed (simp_all add: codec_defs)

interpretation motion_response: payload_codec motion_response_encode motion_response_decode
  MOTION_RESPONSE_WIRE_SIZE
proof
  fix p rest show "motion_response_decode (motion_response_encode p @ rest) = p"
    by (simp add: codec_defs nth_append)
next
  fix bs rest :: "u8 list" assume "length bs = MOTION_RESPONSE_WIRE_SIZE"
  then obtain b mid r where bs: "bs = b # mid @ [r]" and mid: "length mid = 4"
    by (cases bs; cases "tl bs" rule: rev_cases) auto
  then show "motion_response_encode (motion_response_decode (bs @ rest)) = bs"
    using u32_field [OF mid, of "r # rest"] by (simp add: codec_defs nth_append)
qed (simp add: codec_defs)

interpretation wheel_velocity_command: payload_codec wheel_velocity_command_encode
  wheel_velocity_command_decode WHEEL_VELOCITY_COMMAND_WIRE_SIZE
proof
  fix bs rest :: "u8 list" assume len: "length bs = WHEEL_VELOCITY_COMMAND_WIRE_SIZE"
  have "wheel_velocity_command_encode (wheel_velocity_command_decode
      (take 2 bs @ drop 2 bs @ rest)) = take 2 bs @ drop 2 bs"
    using len by (simp only: codec_defs) (simp add: i16_field)
  then show "wheel_velocity_command_encode (wheel_velocity_command_decode (bs @ rest)) = bs"
    unfolding append_split_at [of bs rest 2, symmetric] by simp
qed (simp_all add: codec_defs)

interpretation wheel_velocity: payload_codec wheel_velocity_payload_encode
  wheel_velocity_payload_decode WHEEL_VELOCITY_PAYLOAD_WIRE_SIZE
proof
  fix p show "length (wheel_velocity_payload_encode p) = WHEEL_VELOCITY_PAYLOAD_WIRE_SIZE"
    by (simp add: wheel_velocity_payload_encode_def wheel_velocity_command.enc_length)
next
  fix p rest show "wheel_velocity_payload_decode (wheel_velocity_payload_encode p @ rest) = p"
    by (simp add: wheel_velocity_payload_encode_def wheel_velocity_payload_decode_def
        wheel_velocity_command.dec_enc)
next
  fix bs rest :: "u8 list" assume len: "length bs = WHEEL_VELOCITY_PAYLOAD_WIRE_SIZE"
  have "wheel_velocity_command_encode (wheel_velocity_command_decode (drop 4 bs @ rest)) = drop 4 bs"
    using len by (intro wheel_velocity_command.enc_dec) simp
  moreover have "byte_codec_encode_u32_be (byte_codec_decode_u32_be (take 4 bs @ drop 4 bs @ rest)) = take 4 bs"
    using len by (intro u32_field) simp
  ultimately show "wheel_velocity_payload_encode (wheel_velocity_payload_decode (bs @ rest)) = bs"
    using len unfolding append_split_at [of bs rest 4, symmetric]
    by (simp add: wheel_velocity_payload_encode_def wheel_velocity_payload_decode_def)
qed

subsection \<open>Property\<close>

text \<open>
  Every payload codec of the protocol is a round trip: whatever value is encoded, the
  decoder reads it back from the bytes of the fixed wire size, whatever follows them.
\<close>

theorem payload_codecs_roundtrip:
  "heartbeat_decode (heartbeat_encode hb @ rest) = hb \<and>
   link_sync_decode (link_sync_encode ls @ rest) = ls \<and>
   motion_ack_decode (motion_ack_encode ack @ rest) = ack \<and>
   motion_lifecycle_command_decode (motion_lifecycle_command_encode lc @ rest) = lc \<and>
   motion_response_decode (motion_response_encode resp @ rest) = resp \<and>
   wheel_velocity_command_decode (wheel_velocity_command_encode wc @ rest) = wc \<and>
   wheel_velocity_payload_decode (wheel_velocity_payload_encode wv @ rest) = wv \<and>
   map length [heartbeat_encode hb, link_sync_encode ls, motion_ack_encode ack,
     motion_lifecycle_command_encode lc, motion_response_encode resp,
     wheel_velocity_command_encode wc, wheel_velocity_payload_encode wv] =
   [HEARTBEAT_WIRE_SIZE, LINK_SYNC_WIRE_SIZE, MOTION_ACK_WIRE_SIZE,
    MOTION_LIFECYCLE_COMMAND_WIRE_SIZE, MOTION_RESPONSE_WIRE_SIZE,
    WHEEL_VELOCITY_COMMAND_WIRE_SIZE, WHEEL_VELOCITY_PAYLOAD_WIRE_SIZE]"
  by (simp only: heartbeat.dec_enc link_sync.dec_enc motion_ack.dec_enc lifecycle_command.dec_enc
      motion_response.dec_enc wheel_velocity_command.dec_enc wheel_velocity.dec_enc
      heartbeat.enc_length link_sync.enc_length motion_ack.enc_length lifecycle_command.enc_length
      motion_response.enc_length wheel_velocity_command.enc_length wheel_velocity.enc_length
      list.map simp_thms)

text \<open>
  Every payload codec is a round trip the other way too: the bytes a decoder reads are
  exactly the bytes its encoder writes for the decoded value, so no two payload images of
  the wire size are decoded to the same value.
\<close>

lemma payload_images_roundtrip:
  assumes "length b1 = LINK_SYNC_WIRE_SIZE" and "length b2 = HEARTBEAT_WIRE_SIZE"
    and "length b3 = MOTION_LIFECYCLE_COMMAND_WIRE_SIZE" and "length b4 = MOTION_RESPONSE_WIRE_SIZE"
    and "length b5 = WHEEL_VELOCITY_PAYLOAD_WIRE_SIZE"
  shows "link_sync_encode (link_sync_decode (b1 @ rest)) = b1 \<and>
   heartbeat_encode (heartbeat_decode (b2 @ rest)) = b2 \<and>
   motion_lifecycle_command_encode (motion_lifecycle_command_decode (b3 @ rest)) = b3 \<and>
   motion_response_encode (motion_response_decode (b4 @ rest)) = b4 \<and>
   wheel_velocity_payload_encode (wheel_velocity_payload_decode (b5 @ rest)) = b5"
  using assms link_sync.enc_dec heartbeat.enc_dec lifecycle_command.enc_dec motion_response.enc_dec
    wheel_velocity.enc_dec by blast

end
