(* ===== verification/Protocol_Frame.thy ===== *)
theory Protocol_Frame
  imports Payload_Codecs Crc16
begin

section \<open>Frames, routing and encoding\<close>

text \<open>
  The frame struct and the wire format (protocol/protocol\_frame.h,
  protocol\_frame\_format.h, protocol\_message\_type.h), the ingress router
  (protocol\_ingress\_router.c) and the encoder (protocol\_frame\_encoder.c). A pointer
  that the code compares with \<^verbatim>\<open>NULL\<close> is an option. \<open>frame_wire\<close> is the layout
  the architecture document describes; the encoder, which stores field by field into
  a buffer, is proved to produce it.
\<close>

abbreviation (input) PROTOCOL_FRAME_MAGIC_0 :: u8 where "PROTOCOL_FRAME_MAGIC_0 \<equiv> 0xA5"
abbreviation (input) PROTOCOL_FRAME_MAGIC_1 :: u8 where "PROTOCOL_FRAME_MAGIC_1 \<equiv> 0x5A"
abbreviation (input) PROTOCOL_FRAME_VERSION :: u8 where "PROTOCOL_FRAME_VERSION \<equiv> 0x01"
abbreviation (input) PROTOCOL_FRAME_HEADER_SIZE :: nat where "PROTOCOL_FRAME_HEADER_SIZE \<equiv> 8"
abbreviation (input) PROTOCOL_FRAME_CRC_SIZE :: nat where "PROTOCOL_FRAME_CRC_SIZE \<equiv> 2"
abbreviation (input) PROTOCOL_FRAME_MAX_PAYLOAD_SIZE :: nat where "PROTOCOL_FRAME_MAX_PAYLOAD_SIZE \<equiv> 64"
abbreviation (input) PROTOCOL_FRAME_MAX_WIRE_SIZE :: nat where
  "PROTOCOL_FRAME_MAX_WIRE_SIZE \<equiv>
     PROTOCOL_FRAME_HEADER_SIZE + PROTOCOL_FRAME_MAX_PAYLOAD_SIZE + PROTOCOL_FRAME_CRC_SIZE"

abbreviation (input) PROTOCOL_FRAME_MAGIC_0_OFFSET :: nat where "PROTOCOL_FRAME_MAGIC_0_OFFSET \<equiv> 0"
abbreviation (input) PROTOCOL_FRAME_MAGIC_1_OFFSET :: nat where "PROTOCOL_FRAME_MAGIC_1_OFFSET \<equiv> 1"
abbreviation (input) PROTOCOL_FRAME_VERSION_OFFSET :: nat where "PROTOCOL_FRAME_VERSION_OFFSET \<equiv> 2"
abbreviation (input) PROTOCOL_FRAME_MESSAGE_TYPE_OFFSET :: nat where "PROTOCOL_FRAME_MESSAGE_TYPE_OFFSET \<equiv> 3"
abbreviation (input) PROTOCOL_FRAME_SEQUENCE_OFFSET :: nat where "PROTOCOL_FRAME_SEQUENCE_OFFSET \<equiv> 4"
abbreviation (input) PROTOCOL_FRAME_PAYLOAD_LENGTH_OFFSET :: nat where "PROTOCOL_FRAME_PAYLOAD_LENGTH_OFFSET \<equiv> 6"
abbreviation (input) PROTOCOL_FRAME_PAYLOAD_OFFSET :: nat where "PROTOCOL_FRAME_PAYLOAD_OFFSET \<equiv> 8"

abbreviation (input) PROTOCOL_MESSAGE_TYPE_INVALID :: u8 where "PROTOCOL_MESSAGE_TYPE_INVALID \<equiv> 0x00"
abbreviation (input) PROTOCOL_MESSAGE_TYPE_LINK_SYNC :: u8 where "PROTOCOL_MESSAGE_TYPE_LINK_SYNC \<equiv> 0x01"
abbreviation (input) PROTOCOL_MESSAGE_TYPE_LINK_SYNC_OK :: u8 where "PROTOCOL_MESSAGE_TYPE_LINK_SYNC_OK \<equiv> 0x02"
abbreviation (input) PROTOCOL_MESSAGE_TYPE_HEARTBEAT :: u8 where "PROTOCOL_MESSAGE_TYPE_HEARTBEAT \<equiv> 0x03"
abbreviation (input) PROTOCOL_MESSAGE_TYPE_MOTION_COMMAND :: u8 where "PROTOCOL_MESSAGE_TYPE_MOTION_COMMAND \<equiv> 0x10"
abbreviation (input) PROTOCOL_MESSAGE_TYPE_MOTION_ACK :: u8 where "PROTOCOL_MESSAGE_TYPE_MOTION_ACK \<equiv> 0x11"
abbreviation (input) PROTOCOL_MESSAGE_TYPE_MOTION_RESPONSE :: u8 where "PROTOCOL_MESSAGE_TYPE_MOTION_RESPONSE \<equiv> 0x12"
abbreviation (input) PROTOCOL_MESSAGE_TYPE_WHEEL_VELOCITY :: u8 where "PROTOCOL_MESSAGE_TYPE_WHEEL_VELOCITY \<equiv> 0x20"

record ProtocolFrame =
  message_type :: u8
  frame_sequence :: u16
  payload_length :: u16
  payload :: "u8 list"

text \<open>The payload array of the struct has sixty-four elements.\<close>

definition frame_wf :: "ProtocolFrame \<Rightarrow> bool" where
  "frame_wf f \<longleftrightarrow> length (payload f) = PROTOCOL_FRAME_MAX_PAYLOAD_SIZE"

text \<open>\<^verbatim>\<open>(ProtocolFrame)\{0\}\<close>\<close>

definition zero_frame :: ProtocolFrame where
  "zero_frame = \<lparr>message_type = 0, frame_sequence = 0, payload_length = 0,
     payload = replicate PROTOCOL_FRAME_MAX_PAYLOAD_SIZE 0\<rparr>"

lemma frame_wf_zero [simp]: "frame_wf zero_frame"
  by (simp add: frame_wf_def zero_frame_def)

datatype ProtocolIngressRoute =
    PROTOCOL_INGRESS_ROUTE_INVALID_ARGUMENT
  | PROTOCOL_INGRESS_ROUTE_UNSUPPORTED_MESSAGE_TYPE
  | PROTOCOL_INGRESS_ROUTE_INVALID_PAYLOAD_LENGTH
  | PROTOCOL_INGRESS_ROUTE_LINK_SYNC
  | PROTOCOL_INGRESS_ROUTE_LINK_SYNC_OK
  | PROTOCOL_INGRESS_ROUTE_HEARTBEAT
  | PROTOCOL_INGRESS_ROUTE_MOTION_COMMAND
  | PROTOCOL_INGRESS_ROUTE_MOTION_ACK
  | PROTOCOL_INGRESS_ROUTE_MOTION_RESPONSE
  | PROTOCOL_INGRESS_ROUTE_WHEEL_VELOCITY

fun protocol_ingress_route :: "ProtocolFrame option \<Rightarrow> ProtocolIngressRoute" where
  "protocol_ingress_route None = PROTOCOL_INGRESS_ROUTE_INVALID_ARGUMENT"
| "protocol_ingress_route (Some frame) =
     (if message_type frame = PROTOCOL_MESSAGE_TYPE_LINK_SYNC then
        (if unat (payload_length frame) \<noteq> LINK_SYNC_WIRE_SIZE
         then PROTOCOL_INGRESS_ROUTE_INVALID_PAYLOAD_LENGTH
         else PROTOCOL_INGRESS_ROUTE_LINK_SYNC)
      else if message_type frame = PROTOCOL_MESSAGE_TYPE_LINK_SYNC_OK then
        (if unat (payload_length frame) \<noteq> LINK_SYNC_WIRE_SIZE
         then PROTOCOL_INGRESS_ROUTE_INVALID_PAYLOAD_LENGTH
         else PROTOCOL_INGRESS_ROUTE_LINK_SYNC_OK)
      else if message_type frame = PROTOCOL_MESSAGE_TYPE_HEARTBEAT then
        (if unat (payload_length frame) \<noteq> HEARTBEAT_WIRE_SIZE
         then PROTOCOL_INGRESS_ROUTE_INVALID_PAYLOAD_LENGTH
         else PROTOCOL_INGRESS_ROUTE_HEARTBEAT)
      else if message_type frame = PROTOCOL_MESSAGE_TYPE_MOTION_COMMAND then
        (if unat (payload_length frame) \<noteq> MOTION_LIFECYCLE_COMMAND_WIRE_SIZE
         then PROTOCOL_INGRESS_ROUTE_INVALID_PAYLOAD_LENGTH
         else PROTOCOL_INGRESS_ROUTE_MOTION_COMMAND)
      else if message_type frame = PROTOCOL_MESSAGE_TYPE_MOTION_ACK then
        (if unat (payload_length frame) \<noteq> MOTION_ACK_WIRE_SIZE
         then PROTOCOL_INGRESS_ROUTE_INVALID_PAYLOAD_LENGTH
         else PROTOCOL_INGRESS_ROUTE_MOTION_ACK)
      else if message_type frame = PROTOCOL_MESSAGE_TYPE_MOTION_RESPONSE then
        (if unat (payload_length frame) \<noteq> MOTION_RESPONSE_WIRE_SIZE
         then PROTOCOL_INGRESS_ROUTE_INVALID_PAYLOAD_LENGTH
         else PROTOCOL_INGRESS_ROUTE_MOTION_RESPONSE)
      else if message_type frame = PROTOCOL_MESSAGE_TYPE_WHEEL_VELOCITY then
        (if unat (payload_length frame) \<noteq> WHEEL_VELOCITY_PAYLOAD_WIRE_SIZE
         then PROTOCOL_INGRESS_ROUTE_INVALID_PAYLOAD_LENGTH
         else PROTOCOL_INGRESS_ROUTE_WHEEL_VELOCITY)
      else PROTOCOL_INGRESS_ROUTE_UNSUPPORTED_MESSAGE_TYPE)"

subsection \<open>The encoder\<close>

definition protocol_frame_encode :: "ProtocolFrame \<Rightarrow> u8 list \<Rightarrow> nat \<times> u8 list" where
  "protocol_frame_encode frame output =
     (if unat (payload_length frame) > PROTOCOL_FRAME_MAX_PAYLOAD_SIZE then (0, output)
      else
        let output = output[PROTOCOL_FRAME_MAGIC_0_OFFSET := PROTOCOL_FRAME_MAGIC_0];
            output = output[PROTOCOL_FRAME_MAGIC_1_OFFSET := PROTOCOL_FRAME_MAGIC_1];
            output = output[PROTOCOL_FRAME_VERSION_OFFSET := PROTOCOL_FRAME_VERSION];
            output = output[PROTOCOL_FRAME_MESSAGE_TYPE_OFFSET := message_type frame];
            output = buffer_write PROTOCOL_FRAME_SEQUENCE_OFFSET
                       (byte_codec_encode_u16_be (frame_sequence frame)) output;
            output = buffer_write PROTOCOL_FRAME_PAYLOAD_LENGTH_OFFSET
                       (byte_codec_encode_u16_be (payload_length frame)) output;
            output = (if payload_length frame > 0
                      then buffer_write PROTOCOL_FRAME_PAYLOAD_OFFSET
                             (take (unat (payload_length frame)) (payload frame)) output
                      else output);
            crc_data = drop PROTOCOL_FRAME_VERSION_OFFSET output;
            crc_offset = PROTOCOL_FRAME_PAYLOAD_OFFSET + unat (payload_length frame);
            crc_data_length = crc_offset - PROTOCOL_FRAME_VERSION_OFFSET;
            crc = crc16_ccitt_false crc_data crc_data_length;
            output = buffer_write crc_offset (byte_codec_encode_u16_be crc) output;
            frame_size = PROTOCOL_FRAME_HEADER_SIZE + unat (payload_length frame)
                           + PROTOCOL_FRAME_CRC_SIZE
        in (frame_size, output))"

subsection \<open>The layout\<close>

text \<open>The bytes the checksum covers, and the whole wire image.\<close>

definition frame_body :: "ProtocolFrame \<Rightarrow> u8 list" where
  "frame_body f =
     [PROTOCOL_FRAME_VERSION, message_type f] @
     byte_codec_encode_u16_be (frame_sequence f) @
     byte_codec_encode_u16_be (payload_length f) @
     take (unat (payload_length f)) (payload f)"

definition frame_wire :: "ProtocolFrame \<Rightarrow> u8 list" where
  "frame_wire f =
     [PROTOCOL_FRAME_MAGIC_0, PROTOCOL_FRAME_MAGIC_1] @ frame_body f @
     byte_codec_encode_u16_be (crc16_ccitt_false (frame_body f) (length (frame_body f)))"

definition frame_sendable :: "ProtocolFrame \<Rightarrow> bool" where
  "frame_sendable f \<longleftrightarrow> frame_wf f \<and> unat (payload_length f) \<le> PROTOCOL_FRAME_MAX_PAYLOAD_SIZE"

lemma length_frame_wire:
  "frame_sendable f \<Longrightarrow> length (frame_wire f) = 10 + unat (payload_length f)"
  by (simp add: frame_wire_def frame_body_def frame_sendable_def frame_wf_def)

lemma crc_prefix:
  "crc16_ccitt_false (xs @ ys) (length xs) = crc16_ccitt_false xs (length xs)"
  by (simp add: crc16_ccitt_false_def crc16_ccitt_false_update_def)

lemma buffer_split:
  assumes "10 + n \<le> length out"
  obtains hdr p crc rest
  where "out = hdr @ p @ crc @ rest" and "length hdr = 8" and "length p = n" and "length crc = 2"
proof
  show "out = take 8 out @ take n (drop 8 out) @ take 2 (drop (n + 8) out) @ drop 2 (drop (n + 8) out)"
    by (metis append_take_drop_id drop_drop)
qed (use assms in auto)

text \<open>What the stores of lines 17 to 22 leave in the first eight bytes.\<close>

definition frame_header :: "ProtocolFrame \<Rightarrow> u8 list" where
  "frame_header f =
     [PROTOCOL_FRAME_MAGIC_0, PROTOCOL_FRAME_MAGIC_1, PROTOCOL_FRAME_VERSION, message_type f] @
     byte_codec_encode_u16_be (frame_sequence f) @ byte_codec_encode_u16_be (payload_length f)"

lemma length_frame_header [simp]: "length (frame_header f) = 8"
  by (simp add: frame_header_def)

lemma header_stores:
  assumes "length hdr = 8"
  shows "buffer_write 6 (byte_codec_encode_u16_be (payload_length f))
     (buffer_write 4 (byte_codec_encode_u16_be (frame_sequence f))
       ((hdr @ rest)[0 := 0xA5, 1 := 0x5A, 2 := 0x01, 3 := message_type f])) =
     frame_header f @ rest"
  using assms
  by (rule length_8E)
     (simp add: buffer_write_def frame_header_def byte_codec_encode_u16_be_def)

lemma frame_body_header:
  "frame_header f @ take (unat (payload_length f)) (payload f) =
     [PROTOCOL_FRAME_MAGIC_0, PROTOCOL_FRAME_MAGIC_1] @ frame_body f"
  by (simp add: frame_header_def frame_body_def)

lemma protocol_frame_encode_wire:
  assumes f: "frame_sendable f" and out: "length (frame_wire f) \<le> length out"
  shows "protocol_frame_encode f out =
    (length (frame_wire f), frame_wire f @ drop (length (frame_wire f)) out)"
proof -
  let ?n = "unat (payload_length f)" and ?p = "take (unat (payload_length f)) (payload f)"
  have n: "?n \<le> 64" and len_p: "length ?p = ?n"
    using f by (simp_all add: frame_sendable_def frame_wf_def)
  have "10 + ?n \<le> length out"
    using f out by (simp add: length_frame_wire)
  then obtain hdr p crc rest where o: "out = hdr @ p @ crc @ rest" and hdr: "length hdr = 8"
    and p: "length p = ?n" and crc: "length crc = 2"
    by (rule buffer_split)
  have pay: "(if 0 < payload_length f then buffer_write 8 ?p buf else buf) = buffer_write 8 ?p buf" for buf
    by (simp add: word_gt_0)
  have stored: "buffer_write 8 ?p (frame_header f @ p @ crc @ rest) =
      [0xA5, 0x5A] @ frame_body f @ crc @ rest"
    using buffer_write_append [of "frame_header f" 8 p ?p "crc @ rest"] p len_p frame_body_header [of f]
    by simp
  have body: "length (frame_body f) = 8 + ?n - 2"
    using len_p by (simp add: frame_body_def)
  have sum: "crc16_ccitt_false (drop 2 ([0xA5, 0x5A] @ frame_body f @ crc @ rest)) (8 + ?n - 2) =
      crc16_ccitt_false (frame_body f) (length (frame_body f))"
    using crc_prefix [of "frame_body f" "crc @ rest"] body by simp
  have tail: "buffer_write (8 + ?n) (byte_codec_encode_u16_be c) ([0xA5, 0x5A] @ frame_body f @ crc @ rest) =
      [0xA5, 0x5A] @ frame_body f @ byte_codec_encode_u16_be c @ rest" for c
    using buffer_write_append [of "[0xA5, 0x5A] @ frame_body f" "8 + ?n" crc "byte_codec_encode_u16_be c" rest]
      crc body by simp
  have "drop (length (frame_wire f)) out = rest"
    using o hdr p crc length_frame_wire [OF f] by simp
  moreover have "protocol_frame_encode f out = (8 + ?n + 2, frame_wire f @ rest)"
    using n
    by (simp only: protocol_frame_encode_def Let_def o header_stores [OF hdr] pay stored sum tail
        frame_wire_def not_less [symmetric] if_False append_assoc)
  ultimately show ?thesis
    by (simp add: length_frame_wire [OF f])
qed

subsection \<open>Routing\<close>

text \<open>The message table: for each type the exact payload length and the route.\<close>

definition ingress_table :: "(u8 \<times> nat \<times> ProtocolIngressRoute) list" where
  "ingress_table =
     [(PROTOCOL_MESSAGE_TYPE_LINK_SYNC, LINK_SYNC_WIRE_SIZE, PROTOCOL_INGRESS_ROUTE_LINK_SYNC),
      (PROTOCOL_MESSAGE_TYPE_LINK_SYNC_OK, LINK_SYNC_WIRE_SIZE, PROTOCOL_INGRESS_ROUTE_LINK_SYNC_OK),
      (PROTOCOL_MESSAGE_TYPE_HEARTBEAT, HEARTBEAT_WIRE_SIZE, PROTOCOL_INGRESS_ROUTE_HEARTBEAT),
      (PROTOCOL_MESSAGE_TYPE_MOTION_COMMAND, MOTION_LIFECYCLE_COMMAND_WIRE_SIZE,
         PROTOCOL_INGRESS_ROUTE_MOTION_COMMAND),
      (PROTOCOL_MESSAGE_TYPE_MOTION_ACK, MOTION_ACK_WIRE_SIZE, PROTOCOL_INGRESS_ROUTE_MOTION_ACK),
      (PROTOCOL_MESSAGE_TYPE_MOTION_RESPONSE, MOTION_RESPONSE_WIRE_SIZE,
         PROTOCOL_INGRESS_ROUTE_MOTION_RESPONSE),
      (PROTOCOL_MESSAGE_TYPE_WHEEL_VELOCITY, WHEEL_VELOCITY_PAYLOAD_WIRE_SIZE,
         PROTOCOL_INGRESS_ROUTE_WHEEL_VELOCITY)]"

text \<open>
  The router implements the message table: an unknown type is unsupported, a known type
  with any other length is rejected, and only a frame with the exact length of its type
  is routed, so a payload decoder never reads beyond the received payload.
\<close>

lemma route_implements_table:
  "protocol_ingress_route (Some f) =
     (case map_of ingress_table (message_type f) of
        None \<Rightarrow> PROTOCOL_INGRESS_ROUTE_UNSUPPORTED_MESSAGE_TYPE
      | Some (n, route) \<Rightarrow>
          if unat (payload_length f) = n then route
          else PROTOCOL_INGRESS_ROUTE_INVALID_PAYLOAD_LENGTH)"
  by (simp add: ingress_table_def)

end
