(* ===== verification/Frame_Decoder.thy ===== *)
theory Frame_Decoder
  imports Protocol_Frame
begin

section \<open>The streaming frame decoder (protocol/protocol\_frame\_decoder.c)\<close>

text \<open>
  The decoder is a state machine fed one byte at a time. The model keeps its eleven
  states, its embedded frame (the payload array is never cleared between frames), the
  running and the received checksum and the three diagnostic counters, which wrap.
  Returning \<open>Some frame\<close> is the C function's \<^verbatim>\<open>true\<close> with \<^verbatim>\<open>*frame\<close>
  pointing at the embedded frame.
\<close>

datatype ProtocolFrameDecoderState =
    PROTOCOL_DECODER_WAIT_MAGIC_0
  | PROTOCOL_DECODER_WAIT_MAGIC_1
  | PROTOCOL_DECODER_READ_VERSION
  | PROTOCOL_DECODER_READ_MESSAGE_TYPE
  | PROTOCOL_DECODER_READ_SEQUENCE_HIGH
  | PROTOCOL_DECODER_READ_SEQUENCE_LOW
  | PROTOCOL_DECODER_READ_LENGTH_HIGH
  | PROTOCOL_DECODER_READ_LENGTH_LOW
  | PROTOCOL_DECODER_READ_PAYLOAD
  | PROTOCOL_DECODER_READ_CRC_HIGH
  | PROTOCOL_DECODER_READ_CRC_LOW

record ProtocolFrameDecoder =
  dec_state :: ProtocolFrameDecoderState
  dec_frame :: ProtocolFrame
  calculated_crc :: u16
  received_crc :: u16
  payload_index :: nat
  valid_frame_count :: u32
  crc_error_count :: u32
  format_error_count :: u32

definition protocol_frame_decoder_update_crc :: "u8 \<Rightarrow> ProtocolFrameDecoder \<Rightarrow> ProtocolFrameDecoder" where
  "protocol_frame_decoder_update_crc byte d =
     d\<lparr>calculated_crc := crc16_ccitt_false_update (calculated_crc d) [byte] 1\<rparr>"

definition protocol_frame_decoder_begin_frame :: "ProtocolFrameDecoder \<Rightarrow> ProtocolFrameDecoder" where
  "protocol_frame_decoder_begin_frame d =
     d\<lparr>dec_frame := (dec_frame d)\<lparr>message_type := PROTOCOL_MESSAGE_TYPE_INVALID,
                                   frame_sequence := 0, payload_length := 0\<rparr>,
       payload_index := 0, received_crc := 0, calculated_crc := CRC16_CCITT_FALSE_INITIAL,
       dec_state := PROTOCOL_DECODER_READ_VERSION\<rparr>"

definition protocol_frame_decoder_reset_search ::
  "u8 \<Rightarrow> u8 \<Rightarrow> ProtocolFrameDecoder \<Rightarrow> ProtocolFrameDecoder" where
  "protocol_frame_decoder_reset_search previous_byte current_byte d =
     (let d = d\<lparr>payload_index := 0, received_crc := 0,
                calculated_crc := CRC16_CCITT_FALSE_INITIAL\<rparr>
      in if previous_byte = PROTOCOL_FRAME_MAGIC_0 \<and> current_byte = PROTOCOL_FRAME_MAGIC_1
         then protocol_frame_decoder_begin_frame d
         else if current_byte = PROTOCOL_FRAME_MAGIC_0
         then d\<lparr>dec_state := PROTOCOL_DECODER_WAIT_MAGIC_1\<rparr>
         else d\<lparr>dec_state := PROTOCOL_DECODER_WAIT_MAGIC_0\<rparr>)"

text \<open>\<^verbatim>\<open>memset\<close> to zero, then the two stores that follow it.\<close>

definition protocol_frame_decoder_init :: ProtocolFrameDecoder where
  "protocol_frame_decoder_init =
     \<lparr>dec_state = PROTOCOL_DECODER_WAIT_MAGIC_0, dec_frame = zero_frame,
      calculated_crc = CRC16_CCITT_FALSE_INITIAL, received_crc = 0, payload_index = 0,
      valid_frame_count = 0, crc_error_count = 0, format_error_count = 0\<rparr>"

definition protocol_frame_decoder_reset :: "ProtocolFrameDecoder \<Rightarrow> ProtocolFrameDecoder" where
  "protocol_frame_decoder_reset d =
     d\<lparr>dec_state := PROTOCOL_DECODER_WAIT_MAGIC_0, payload_index := 0, received_crc := 0,
       calculated_crc := CRC16_CCITT_FALSE_INITIAL\<rparr>"

text \<open>The last header byte decides between an error, an empty payload and a payload.\<close>

definition decoder_read_length_low :: "u8 \<Rightarrow> ProtocolFrameDecoder \<Rightarrow> ProtocolFrameDecoder" where
  "decoder_read_length_low byte d =
     (let d = d\<lparr>dec_frame := (dec_frame d)\<lparr>payload_length :=
                  payload_length (dec_frame d) OR ucast byte\<rparr>\<rparr>;
          d = protocol_frame_decoder_update_crc byte d
      in if unat (payload_length (dec_frame d)) > PROTOCOL_FRAME_MAX_PAYLOAD_SIZE then
           let d = d\<lparr>format_error_count := format_error_count d + 1\<rparr>;
               previous_byte = ucast (drop_bit 8 (payload_length (dec_frame d)))
           in protocol_frame_decoder_reset_search previous_byte byte d
         else if payload_length (dec_frame d) = 0 then
           d\<lparr>dec_state := PROTOCOL_DECODER_READ_CRC_HIGH\<rparr>
         else
           d\<lparr>payload_index := 0, dec_state := PROTOCOL_DECODER_READ_PAYLOAD\<rparr>)"

definition decoder_read_payload :: "u8 \<Rightarrow> ProtocolFrameDecoder \<Rightarrow> ProtocolFrameDecoder" where
  "decoder_read_payload byte d =
     (let d = d\<lparr>dec_frame := (dec_frame d)\<lparr>payload := (payload (dec_frame d))[payload_index d := byte]\<rparr>\<rparr>;
          d = d\<lparr>payload_index := payload_index d + 1\<rparr>;
          d = protocol_frame_decoder_update_crc byte d
      in if payload_index d \<ge> unat (payload_length (dec_frame d))
         then d\<lparr>dec_state := PROTOCOL_DECODER_READ_CRC_HIGH\<rparr> else d)"

definition decoder_read_crc_low ::
  "u8 \<Rightarrow> ProtocolFrameDecoder \<Rightarrow> ProtocolFrame option \<times> ProtocolFrameDecoder" where
  "decoder_read_crc_low byte d =
     (let d = d\<lparr>received_crc := received_crc d OR ucast byte\<rparr>
      in if received_crc d \<noteq> calculated_crc d then
           let d = d\<lparr>crc_error_count := crc_error_count d + 1\<rparr>;
               previous_byte = ucast (drop_bit 8 (received_crc d))
           in (None, protocol_frame_decoder_reset_search previous_byte byte d)
         else
           let d = d\<lparr>valid_frame_count := valid_frame_count d + 1\<rparr>
           in (Some (dec_frame d),
               d\<lparr>dec_state := PROTOCOL_DECODER_WAIT_MAGIC_0, payload_index := 0,
                 received_crc := 0, calculated_crc := CRC16_CCITT_FALSE_INITIAL\<rparr>))"

text \<open>The switch of the feed function. The enumeration has no other value.\<close>

definition decoder_feed ::
  "u8 \<Rightarrow> ProtocolFrameDecoder \<Rightarrow> ProtocolFrame option \<times> ProtocolFrameDecoder" where
  "decoder_feed byte d =
     (case dec_state d of
        PROTOCOL_DECODER_WAIT_MAGIC_0 \<Rightarrow>
          (None, if byte = PROTOCOL_FRAME_MAGIC_0
                 then d\<lparr>dec_state := PROTOCOL_DECODER_WAIT_MAGIC_1\<rparr> else d)
      | PROTOCOL_DECODER_WAIT_MAGIC_1 \<Rightarrow>
          (None, if byte = PROTOCOL_FRAME_MAGIC_1 then protocol_frame_decoder_begin_frame d
                 else if byte \<noteq> PROTOCOL_FRAME_MAGIC_0
                 then d\<lparr>dec_state := PROTOCOL_DECODER_WAIT_MAGIC_0\<rparr> else d)
      | PROTOCOL_DECODER_READ_VERSION \<Rightarrow>
          (None, if byte \<noteq> PROTOCOL_FRAME_VERSION
                 then protocol_frame_decoder_reset_search PROTOCOL_FRAME_MAGIC_1 byte
                        (d\<lparr>format_error_count := format_error_count d + 1\<rparr>)
                 else (protocol_frame_decoder_update_crc byte d)
                        \<lparr>dec_state := PROTOCOL_DECODER_READ_MESSAGE_TYPE\<rparr>)
      | PROTOCOL_DECODER_READ_MESSAGE_TYPE \<Rightarrow>
          (None, (protocol_frame_decoder_update_crc byte
                    (d\<lparr>dec_frame := (dec_frame d)\<lparr>message_type := byte\<rparr>\<rparr>))
                   \<lparr>dec_state := PROTOCOL_DECODER_READ_SEQUENCE_HIGH\<rparr>)
      | PROTOCOL_DECODER_READ_SEQUENCE_HIGH \<Rightarrow>
          (None, (protocol_frame_decoder_update_crc byte
                    (d\<lparr>dec_frame := (dec_frame d)\<lparr>frame_sequence := push_bit 8 (ucast byte)\<rparr>\<rparr>))
                   \<lparr>dec_state := PROTOCOL_DECODER_READ_SEQUENCE_LOW\<rparr>)
      | PROTOCOL_DECODER_READ_SEQUENCE_LOW \<Rightarrow>
          (None, (protocol_frame_decoder_update_crc byte
                    (d\<lparr>dec_frame := (dec_frame d)\<lparr>frame_sequence :=
                        frame_sequence (dec_frame d) OR ucast byte\<rparr>\<rparr>))
                   \<lparr>dec_state := PROTOCOL_DECODER_READ_LENGTH_HIGH\<rparr>)
      | PROTOCOL_DECODER_READ_LENGTH_HIGH \<Rightarrow>
          (None, (protocol_frame_decoder_update_crc byte
                    (d\<lparr>dec_frame := (dec_frame d)\<lparr>payload_length := push_bit 8 (ucast byte)\<rparr>\<rparr>))
                   \<lparr>dec_state := PROTOCOL_DECODER_READ_LENGTH_LOW\<rparr>)
      | PROTOCOL_DECODER_READ_LENGTH_LOW \<Rightarrow> (None, decoder_read_length_low byte d)
      | PROTOCOL_DECODER_READ_PAYLOAD \<Rightarrow> (None, decoder_read_payload byte d)
      | PROTOCOL_DECODER_READ_CRC_HIGH \<Rightarrow>
          (None, d\<lparr>received_crc := push_bit 8 (ucast byte),
                   dec_state := PROTOCOL_DECODER_READ_CRC_LOW\<rparr>)
      | PROTOCOL_DECODER_READ_CRC_LOW \<Rightarrow> decoder_read_crc_low byte d)"

text \<open>
  The exported function with its null checks: \<open>frame_out\<close> says whether the caller's
  result pointer is non-null.
\<close>

definition protocol_frame_decoder_feed_byte ::
  "ProtocolFrameDecoder option \<Rightarrow> u8 \<Rightarrow> bool \<Rightarrow> ProtocolFrame option \<times> ProtocolFrameDecoder option" where
  "protocol_frame_decoder_feed_byte decoder byte frame_out =
     (case decoder of
        None \<Rightarrow> (None, None)
      | Some d \<Rightarrow>
          if \<not> frame_out then (None, Some d)
          else let (frame, d') = decoder_feed byte d in (frame, Some d'))"

text \<open>A whole byte stream: the frames delivered, in order, and the decoder left behind.\<close>

fun decoder_feed_all :: "u8 list \<Rightarrow> ProtocolFrameDecoder \<Rightarrow> ProtocolFrame list \<times> ProtocolFrameDecoder" where
  "decoder_feed_all [] d = ([], d)"
| "decoder_feed_all (b # bs) d =
     (case decoder_feed b d of (frame, d') \<Rightarrow>
        case decoder_feed_all bs d' of (frames, d'') \<Rightarrow>
          ((case frame of None \<Rightarrow> frames | Some f \<Rightarrow> f # frames), d''))"

lemmas decoder_defs = decoder_feed_def decoder_read_length_low_def decoder_read_payload_def
  decoder_read_crc_low_def protocol_frame_decoder_update_crc_def
  protocol_frame_decoder_begin_frame_def protocol_frame_decoder_reset_search_def

lemma decoder_feed_all_append:
  "decoder_feed_all (xs @ ys) d =
     (case decoder_feed_all xs d of (fs, d') \<Rightarrow>
        case decoder_feed_all ys d' of (gs, d'') \<Rightarrow> (fs @ gs, d''))"
  by (induction xs arbitrary: d) (auto split: prod.splits option.splits)

end
