(* ===== verification/Decoder_Correctness.thy ===== *)
theory Decoder_Correctness
  imports Frame_Decoder "HOL-Library.Sublist"
begin

section \<open>What the decoder delivers\<close>

text \<open>
  The decoder is related to the bytes it has consumed: while it reads a frame, the
  bytes since the two magic bytes are the ones its fields describe, and the running
  checksum is the checksum of exactly these bytes. From this follow soundness (a
  delivered frame is the frame whose complete wire image just ended), memory safety of
  the payload store, completeness (a frame's wire image is delivered) and the rejection
  of corrupted images.
\<close>

subsection \<open>Sixteen-bit fields read a byte at a time\<close>

lemma field_high [simp]:
  "take_bit 8 (push_bit 8 (ucast (h :: u8)) :: u16) = 0"
  "ucast (drop_bit 8 (push_bit 8 (ucast h) :: u16)) = h"
  by (auto simp: bit_simps bit_beyond intro!: bit_word_eqI)

lemma field_low:
  fixes w :: u16 and b :: u8
  assumes "take_bit 8 w = 0"
  shows "ucast (drop_bit 8 (w OR ucast b)) = (ucast (drop_bit 8 w) :: u8)"
    and "ucast (w OR ucast b) = b"
proof -
  have low: "\<not> bit w n" if "n < 8" for n
  proof
    assume "bit w n"
    with that have "bit (take_bit 8 w) n" by (simp add: bit_take_bit_iff)
    with assms show False by simp
  qed
  show "ucast (drop_bit 8 (w OR ucast b)) = (ucast (drop_bit 8 w) :: u8)"
    by (auto simp: bit_simps bit_beyond intro!: bit_word_eqI)
  show "ucast (w OR ucast b) = b"
    using low by (auto simp: bit_simps intro!: bit_word_eqI)
qed

lemma encode_field:
  assumes "take_bit 8 w = 0"
  shows "byte_codec_encode_u16_be (w OR ucast (b :: u8)) = [ucast (drop_bit 8 w), b]"
  using field_low [OF assms] by (simp add: byte_codec_encode_u16_be_def)

subsection \<open>Relating the decoder to the bytes consumed\<close>

text \<open>The part of the frame body read so far, from the decoder's fields.\<close>

definition partial_body :: "ProtocolFrameDecoder \<Rightarrow> u8 list" where
  "partial_body d =
     (let f = dec_frame d;
          start = [PROTOCOL_FRAME_VERSION, message_type f];
          seq = byte_codec_encode_u16_be (frame_sequence f);
          len = byte_codec_encode_u16_be (payload_length f)
      in case dec_state d of
           PROTOCOL_DECODER_READ_MESSAGE_TYPE \<Rightarrow> [PROTOCOL_FRAME_VERSION]
         | PROTOCOL_DECODER_READ_SEQUENCE_HIGH \<Rightarrow> start
         | PROTOCOL_DECODER_READ_SEQUENCE_LOW \<Rightarrow> start @ [ucast (drop_bit 8 (frame_sequence f))]
         | PROTOCOL_DECODER_READ_LENGTH_HIGH \<Rightarrow> start @ seq
         | PROTOCOL_DECODER_READ_LENGTH_LOW \<Rightarrow> start @ seq @ [ucast (drop_bit 8 (payload_length f))]
         | PROTOCOL_DECODER_READ_PAYLOAD \<Rightarrow> start @ seq @ len @ take (payload_index d) (payload f)
         | PROTOCOL_DECODER_READ_CRC_HIGH \<Rightarrow> frame_body f
         | PROTOCOL_DECODER_READ_CRC_LOW \<Rightarrow> frame_body f
         | _ \<Rightarrow> [])"

definition decoder_reading :: "ProtocolFrameDecoder \<Rightarrow> bool" where
  "decoder_reading d \<longleftrightarrow>
     dec_state d \<notin> {PROTOCOL_DECODER_WAIT_MAGIC_0, PROTOCOL_DECODER_WAIT_MAGIC_1}"

definition decoder_wf :: "ProtocolFrameDecoder \<Rightarrow> bool" where
  "decoder_wf d \<longleftrightarrow>
     frame_wf (dec_frame d) \<and>
     (decoder_reading d \<longrightarrow> calculated_crc d = foldl crc16_byte CRC16_CCITT_FALSE_INITIAL (partial_body d)) \<and>
     (case dec_state d of
        PROTOCOL_DECODER_READ_SEQUENCE_LOW \<Rightarrow> take_bit 8 (frame_sequence (dec_frame d)) = 0
      | PROTOCOL_DECODER_READ_LENGTH_LOW \<Rightarrow> take_bit 8 (payload_length (dec_frame d)) = 0
      | PROTOCOL_DECODER_READ_PAYLOAD \<Rightarrow>
          payload_index d < unat (payload_length (dec_frame d)) \<and>
          unat (payload_length (dec_frame d)) \<le> PROTOCOL_FRAME_MAX_PAYLOAD_SIZE
      | PROTOCOL_DECODER_READ_CRC_HIGH \<Rightarrow>
          unat (payload_length (dec_frame d)) \<le> PROTOCOL_FRAME_MAX_PAYLOAD_SIZE
      | PROTOCOL_DECODER_READ_CRC_LOW \<Rightarrow>
          unat (payload_length (dec_frame d)) \<le> PROTOCOL_FRAME_MAX_PAYLOAD_SIZE \<and>
          take_bit 8 (received_crc d) = 0
      | _ \<Rightarrow> True)"

lemma decoder_wf_init [simp]: "decoder_wf protocol_frame_decoder_init"
  by (simp add: decoder_wf_def protocol_frame_decoder_init_def decoder_reading_def)

lemma decoder_wf_reset [simp]: "decoder_wf d \<Longrightarrow> decoder_wf (protocol_frame_decoder_reset d)"
  by (simp add: decoder_wf_def protocol_frame_decoder_reset_def decoder_reading_def)

lemma decoder_wf_begin [simp]:
  "frame_wf (dec_frame d) \<Longrightarrow> decoder_wf (protocol_frame_decoder_begin_frame d)"
  by (simp add: decoder_wf_def protocol_frame_decoder_begin_frame_def decoder_reading_def
      partial_body_def frame_wf_def)

lemma decoder_wf_reset_search [simp]:
  "frame_wf (dec_frame d) \<Longrightarrow> decoder_wf (protocol_frame_decoder_reset_search p c d)"
  unfolding protocol_frame_decoder_reset_search_def Let_def
  by (simp, simp add: decoder_wf_def decoder_reading_def)

lemmas decoder_wf_simps = decoder_wf_def decoder_reading_def partial_body_def Let_def frame_wf_def
lemmas feed_simps = decoder_feed_def decoder_read_length_low_def decoder_read_payload_def
  decoder_read_crc_low_def protocol_frame_decoder_update_crc_def Let_def

lemma decoder_wf_feed_search:
  assumes "decoder_wf d" and "dec_state d \<in> {PROTOCOL_DECODER_WAIT_MAGIC_0,
    PROTOCOL_DECODER_WAIT_MAGIC_1, PROTOCOL_DECODER_READ_VERSION}"
  shows "decoder_wf (snd (decoder_feed b d))"
proof -
  have "frame_wf (dec_frame d)"
    using assms(1) by (simp add: decoder_wf_def)
  moreover from assms have "calculated_crc d = CRC16_CCITT_FALSE_INITIAL"
    if "dec_state d = PROTOCOL_DECODER_READ_VERSION"
    using that by (simp add: decoder_wf_simps)
  ultimately show ?thesis
    using assms(2)
    by (cases "b = PROTOCOL_FRAME_VERSION")
       (auto simp: decoder_feed_def protocol_frame_decoder_update_crc_def decoder_wf_def
          [of "_\<lparr>dec_state := _\<rparr>"] decoder_wf_def [of d] decoder_reading_def partial_body_def)
qed

lemma decoder_wf_feed:
  assumes "decoder_wf d"
  shows "decoder_wf (snd (decoder_feed b d))"
proof (cases "dec_state d")
  case PROTOCOL_DECODER_READ_MESSAGE_TYPE
  with assms show ?thesis by (simp add: feed_simps decoder_wf_simps)
next
  case PROTOCOL_DECODER_READ_SEQUENCE_HIGH
  with assms show ?thesis by (simp add: feed_simps decoder_wf_simps)
next
  case PROTOCOL_DECODER_READ_SEQUENCE_LOW
  with assms show ?thesis by (simp add: feed_simps decoder_wf_simps encode_field)
next
  case PROTOCOL_DECODER_READ_LENGTH_HIGH
  with assms show ?thesis by (simp add: feed_simps decoder_wf_simps)
next
  case PROTOCOL_DECODER_READ_LENGTH_LOW
  with assms have "byte_codec_encode_u16_be (payload_length (dec_frame d) OR ucast b) =
      [ucast (drop_bit 8 (payload_length (dec_frame d))), b]"
    by (intro encode_field) (simp add: decoder_wf_def)
  with PROTOCOL_DECODER_READ_LENGTH_LOW assms show ?thesis
    by (simp add: feed_simps frame_wf_def decoder_wf_def [of d],
        auto simp: decoder_wf_simps frame_body_def unat_gt_0)
next
  case PROTOCOL_DECODER_READ_PAYLOAD
  with assms show ?thesis
    by (auto simp: feed_simps decoder_wf_simps frame_body_def take_store)
next
  case PROTOCOL_DECODER_READ_CRC_HIGH
  with assms show ?thesis by (simp add: decoder_feed_def decoder_wf_simps)
next
  case PROTOCOL_DECODER_READ_CRC_LOW
  with assms show ?thesis
    by (simp add: feed_simps decoder_wf_def [of d], simp add: decoder_wf_simps)
qed (use assms decoder_wf_feed_search in auto)

subsection \<open>Soundness\<close>

text \<open>\<open>decoder_tracks hist d\<close>: the bytes of \<open>hist\<close> end in what the decoder is reading.\<close>

definition decoder_tracks :: "u8 list \<Rightarrow> ProtocolFrameDecoder \<Rightarrow> bool" where
  "decoder_tracks hist d \<longleftrightarrow>
     (case dec_state d of
        PROTOCOL_DECODER_WAIT_MAGIC_0 \<Rightarrow> True
      | PROTOCOL_DECODER_WAIT_MAGIC_1 \<Rightarrow> suffix [PROTOCOL_FRAME_MAGIC_0] hist
      | PROTOCOL_DECODER_READ_CRC_LOW \<Rightarrow>
          suffix ([PROTOCOL_FRAME_MAGIC_0, PROTOCOL_FRAME_MAGIC_1] @ partial_body d @
                  [ucast (drop_bit 8 (received_crc d))]) hist
      | _ \<Rightarrow> suffix ([PROTOCOL_FRAME_MAGIC_0, PROTOCOL_FRAME_MAGIC_1] @ partial_body d) hist)"

lemma tracks_init [simp]: "decoder_tracks hist protocol_frame_decoder_init"
  by (simp add: decoder_tracks_def protocol_frame_decoder_init_def)

lemma suffix_snocI: "suffix (xs @ [b]) (hist @ [b]) \<longleftrightarrow> suffix xs hist"
  by (simp add: snoc_suffix_snoc)

lemma suffix_two: "suffix (pre @ [x]) hist \<Longrightarrow> suffix [x, b] (hist @ [b])"
  by (auto simp: suffix_def)

lemma tracks_reset_search:
  assumes "previous = PROTOCOL_FRAME_MAGIC_0 \<Longrightarrow> suffix [previous] hist"
  shows "decoder_tracks (hist @ [b]) (protocol_frame_decoder_reset_search previous b d)"
  using assms
  unfolding protocol_frame_decoder_reset_search_def Let_def
  by (auto simp: protocol_frame_decoder_begin_frame_def decoder_tracks_def partial_body_def suffix_def)

lemma decoder_feed_sound:
  assumes wf: "decoder_wf d" and tracks: "decoder_tracks hist d"
  shows "decoder_tracks (hist @ [b]) (snd (decoder_feed b d))"
    and "fst (decoder_feed b d) = Some g \<Longrightarrow> suffix (frame_wire g) (hist @ [b]) \<and> frame_sendable g"
proof -
  show "decoder_tracks (hist @ [b]) (snd (decoder_feed b d))"
  proof (cases "dec_state d")
    case PROTOCOL_DECODER_WAIT_MAGIC_0
    then show ?thesis by (auto simp: decoder_feed_def decoder_tracks_def suffix_def)
  next
    case PROTOCOL_DECODER_WAIT_MAGIC_1
    with tracks show ?thesis
      by (auto simp: decoder_feed_def protocol_frame_decoder_begin_frame_def decoder_tracks_def
          partial_body_def suffix_def)
  next
    case PROTOCOL_DECODER_READ_VERSION
    then show ?thesis
      using tracks tracks_reset_search [of PROTOCOL_FRAME_MAGIC_1 hist b]
      by (auto simp: feed_simps, auto simp: decoder_tracks_def partial_body_def suffix_def)
  next
    case PROTOCOL_DECODER_READ_MESSAGE_TYPE
    with tracks show ?thesis
      by (auto simp: feed_simps decoder_tracks_def partial_body_def suffix_def)
  next
    case PROTOCOL_DECODER_READ_SEQUENCE_HIGH
    with tracks show ?thesis
      by (auto simp: feed_simps decoder_tracks_def partial_body_def suffix_def)
  next
    case PROTOCOL_DECODER_READ_SEQUENCE_LOW
    with tracks wf show ?thesis
      by (auto simp: feed_simps decoder_tracks_def partial_body_def suffix_def decoder_wf_def encode_field)
  next
    case PROTOCOL_DECODER_READ_LENGTH_HIGH
    with tracks show ?thesis
      by (auto simp: feed_simps decoder_tracks_def partial_body_def suffix_def)
  next
    case PROTOCOL_DECODER_READ_LENGTH_LOW
    let ?len = "payload_length (dec_frame d)"
    from PROTOCOL_DECODER_READ_LENGTH_LOW wf have low: "take_bit 8 ?len = 0"
      by (simp add: decoder_wf_def)
    from PROTOCOL_DECODER_READ_LENGTH_LOW tracks
    have "suffix [ucast (drop_bit 8 ?len)] hist"
      by (auto simp: decoder_tracks_def partial_body_def Let_def suffix_def)
    then have search: "decoder_tracks (hist @ [b])
        (protocol_frame_decoder_reset_search (ucast (drop_bit 8 (?len OR ucast b))) b e)" for e
      by (intro tracks_reset_search) (simp only: field_low [OF low])
    from PROTOCOL_DECODER_READ_LENGTH_LOW tracks encode_field [OF low, of b] show ?thesis
      by (simp add: feed_simps search del: drop_bit_or, auto simp: decoder_tracks_def partial_body_def suffix_def
          frame_body_def Let_def)
  next
    case PROTOCOL_DECODER_READ_PAYLOAD
    with tracks wf show ?thesis
      by (auto simp: feed_simps decoder_tracks_def decoder_wf_simps suffix_def frame_body_def
         take_store)
  next
    case PROTOCOL_DECODER_READ_CRC_HIGH
    with tracks show ?thesis
      by (auto simp: feed_simps decoder_tracks_def partial_body_def suffix_def)
  next
    case PROTOCOL_DECODER_READ_CRC_LOW
    from PROTOCOL_DECODER_READ_CRC_LOW wf have low: "take_bit 8 (received_crc d) = 0"
      by (simp add: decoder_wf_def)
    from PROTOCOL_DECODER_READ_CRC_LOW tracks have "suffix [ucast (drop_bit 8 (received_crc d))] hist"
      by (auto simp: decoder_tracks_def suffix_def)
    then have search: "decoder_tracks (hist @ [b])
        (protocol_frame_decoder_reset_search (ucast (drop_bit 8 (received_crc d OR ucast b))) b e)" for e
      by (intro tracks_reset_search) (simp only: field_low [OF low])
    with PROTOCOL_DECODER_READ_CRC_LOW show ?thesis
      by (simp add: feed_simps search del: drop_bit_or, simp add: decoder_tracks_def)
  qed
  show "suffix (frame_wire g) (hist @ [b]) \<and> frame_sendable g" if "fst (decoder_feed b d) = Some g"
  proof -
    from that have state: "dec_state d = PROTOCOL_DECODER_READ_CRC_LOW"
      by (simp add: decoder_feed_def split: ProtocolFrameDecoderState.splits)
    with wf have low: "take_bit 8 (received_crc d) = 0" and sendable: "frame_sendable (dec_frame d)"
      and crc: "calculated_crc d = crc16_ccitt_false (frame_body (dec_frame d)) (length (frame_body (dec_frame d)))"
      by (simp_all add: decoder_wf_simps frame_sendable_def crc16_ccitt_false_def
          crc16_ccitt_false_update_def)
    from that state have g: "g = dec_frame d" and "received_crc d OR ucast b = calculated_crc d"
      by (auto simp: feed_simps split: if_splits)
    with crc encode_field [OF low, of b] have "frame_wire g =
        ([PROTOCOL_FRAME_MAGIC_0, PROTOCOL_FRAME_MAGIC_1] @ frame_body g @ [ucast (drop_bit 8 (received_crc d))]) @ [b]"
      by (simp add: frame_wire_def)
    moreover from state tracks g have "suffix ([PROTOCOL_FRAME_MAGIC_0, PROTOCOL_FRAME_MAGIC_1] @
        frame_body g @ [ucast (drop_bit 8 (received_crc d))]) hist"
      by (simp add: decoder_tracks_def partial_body_def)
    ultimately show ?thesis
      using sendable g by (simp only: suffix_snocI)
  qed
qed

text \<open>
  The bytes consumed are the wire images of the delivered frames, in order and disjoint,
  with arbitrary bytes between them.
\<close>

definition interleave_wire :: "u8 list list \<Rightarrow> ProtocolFrame list \<Rightarrow> u8 list" where
  "interleave_wire gaps fs = concat (map (\<lambda>(gap, f). gap @ frame_wire f) (zip gaps fs))"

lemma interleave_wire_simps [simp]:
  "interleave_wire gaps [] = []"
  "interleave_wire (gap # gaps) (f # fs) = gap @ frame_wire f @ interleave_wire gaps fs"
  by (simp_all add: interleave_wire_def)

lemma decoder_feed_delivers:
  assumes "fst (decoder_feed b d) = Some g"
  shows "dec_state (snd (decoder_feed b d)) = PROTOCOL_DECODER_WAIT_MAGIC_0"
  using assms
  by (auto simp: decoder_feed_def decoder_read_crc_low_def Let_def split: ProtocolFrameDecoderState.splits if_splits)

lemma decoder_feed_all_sound:
  assumes "decoder_wf d" and "decoder_tracks hist d" and "decoder_feed_all bs d = (fs, d')"
  shows "decoder_wf d' \<and> list_all frame_sendable fs \<and>
    (\<exists>gaps tail. length gaps = length fs \<and> hist @ bs = interleave_wire gaps fs @ tail)"
  using assms
proof (induction bs arbitrary: d hist fs)
  case (Cons b bs)
  obtain r e where feed: "decoder_feed b d = (r, e)" by fastforce
  obtain gs where rest: "decoder_feed_all bs e = (gs, d')"
    and fs: "fs = (case r of None \<Rightarrow> gs | Some f \<Rightarrow> f # gs)"
    using Cons.prems(3) feed by (auto split: prod.splits)
  have wf: "decoder_wf e" and tracks: "decoder_tracks (hist @ [b]) e"
    using decoder_wf_feed [OF Cons.prems(1), of b] decoder_feed_sound(1) [OF Cons.prems(1,2), of b] feed
    by simp_all
  show ?case
  proof (cases r)
    case None
    then show ?thesis using Cons.IH [OF wf tracks rest] fs by simp
  next
    case (Some g)
    then have "dec_state e = PROTOCOL_DECODER_WAIT_MAGIC_0"
      and g: "suffix (frame_wire g) (hist @ [b])" "frame_sendable g"
      using decoder_feed_delivers [of b d g] decoder_feed_sound(2) [OF Cons.prems(1,2), of b g] feed by simp_all
    then have "decoder_tracks [] e" by (simp add: decoder_tracks_def)
    from Cons.IH [OF wf this rest] obtain gaps tail where ih: "decoder_wf d'" "list_all frame_sendable gs"
      "length gaps = length gs" "bs = interleave_wire gaps gs @ tail" by auto
    from g(1) obtain gap where gap: "hist @ [b] = gap @ frame_wire g" by (auto simp: suffix_def)
    from gap ih(4) have "hist @ b # bs = interleave_wire (gap # gaps) (g # gs) @ tail"
      by (metis append.assoc append_Cons append_Nil interleave_wire_simps(2))
    with ih g fs Some show ?thesis
      by (intro conjI exI [of _ "gap # gaps"] exI [of _ tail]) simp_all
  qed
qed simp

subsection \<open>Completeness and rejection\<close>

text \<open>An image with the right header and any payload and checksum bytes.\<close>

definition raw_wire :: "u8 \<Rightarrow> u16 \<Rightarrow> u8 list \<Rightarrow> u16 \<Rightarrow> u8 list" where
  "raw_wire ty sq p c =
     [PROTOCOL_FRAME_MAGIC_0, PROTOCOL_FRAME_MAGIC_1, PROTOCOL_FRAME_VERSION, ty] @
     byte_codec_encode_u16_be sq @ byte_codec_encode_u16_be (of_nat (length p)) @ p @
     byte_codec_encode_u16_be c"

definition raw_frame :: "u8 \<Rightarrow> u16 \<Rightarrow> u8 list \<Rightarrow> u8 list \<Rightarrow> ProtocolFrame" where
  "raw_frame ty sq p old =
     \<lparr>message_type = ty, frame_sequence = sq, payload_length = of_nat (length p),
      payload = buffer_write 0 p old\<rparr>"

lemma join_bytes: "push_bit 8 (ucast (ucast (drop_bit 8 (v :: u16)) :: u8)) OR (ucast (ucast v :: u8) :: u16) = v"
  by (rule bit_word_eqI) (auto simp: bit_simps)

lemma buffer_write_step:
  assumes "i < length xs"
  shows "buffer_write (Suc i) ps (xs[i := p]) = buffer_write i (p # ps) xs"
  using assms by (simp add: buffer_write_def take_Suc_conv_app_nth)

lemma feed_payload:
  assumes "dec_state d = PROTOCOL_DECODER_READ_PAYLOAD" and "ps \<noteq> []"
    and "payload_index d + length ps = unat (payload_length (dec_frame d))"
    and "payload_index d + length ps \<le> length (payload (dec_frame d))"
  shows "decoder_feed_all ps d = ([], d\<lparr>
    dec_frame := (dec_frame d)\<lparr>payload := buffer_write (payload_index d) ps (payload (dec_frame d))\<rparr>,
    payload_index := payload_index d + length ps,
    calculated_crc := foldl crc16_byte (calculated_crc d) ps,
    dec_state := PROTOCOL_DECODER_READ_CRC_HIGH\<rparr>)"
  using assms
proof (induction ps arbitrary: d)
  case (Cons p ps)
  let ?f = "(dec_frame d)\<lparr>payload := (payload (dec_frame d))[payload_index d := p]\<rparr>"
  let ?e = "d\<lparr>dec_frame := ?f, payload_index := Suc (payload_index d),
    calculated_crc := crc16_byte (calculated_crc d) p\<rparr>"
  have i: "payload_index d < length (payload (dec_frame d))" using Cons.prems by simp
  show ?case
  proof (cases "ps = []")
    case True
    with Cons.prems have "decoder_feed p d = (None, ?e\<lparr>dec_state := PROTOCOL_DECODER_READ_CRC_HIGH\<rparr>)"
      by (simp add: feed_simps)
    with True show ?thesis by (simp add: buffer_write_step [OF i, symmetric])
  next
    case False
    with Cons.prems have "decoder_feed p d = (None, ?e)"
      by (cases ps) (simp_all add: feed_simps)
    moreover have "decoder_feed_all ps ?e = ([], ?e\<lparr>
        dec_frame := ?f\<lparr>payload := buffer_write (Suc (payload_index d)) ps (payload ?f)\<rparr>,
        payload_index := Suc (payload_index d) + length ps,
        calculated_crc := foldl crc16_byte (crc16_byte (calculated_crc d) p) ps,
        dec_state := PROTOCOL_DECODER_READ_CRC_HIGH\<rparr>)"
      using Cons.prems False by (subst Cons.IH) simp_all
    ultimately show ?thesis by (simp add: buffer_write_step [OF i])
  qed
qed simp

text \<open>The eight header bytes, from the searching state.\<close>

lemma feed_header:
  assumes "dec_state d = PROTOCOL_DECODER_WAIT_MAGIC_0" and "unat len \<le> 64"
  shows "decoder_feed_all ([PROTOCOL_FRAME_MAGIC_0, PROTOCOL_FRAME_MAGIC_1, PROTOCOL_FRAME_VERSION, ty] @
       byte_codec_encode_u16_be sq @ byte_codec_encode_u16_be len) d =
    ([], d\<lparr>dec_frame := (dec_frame d)\<lparr>message_type := ty, frame_sequence := sq, payload_length := len\<rparr>,
        payload_index := 0, received_crc := 0,
        calculated_crc := foldl crc16_byte CRC16_CCITT_FALSE_INITIAL
          ([PROTOCOL_FRAME_VERSION, ty] @ byte_codec_encode_u16_be sq @ byte_codec_encode_u16_be len),
        dec_state := if len = 0 then PROTOCOL_DECODER_READ_CRC_HIGH else PROTOCOL_DECODER_READ_PAYLOAD\<rparr>)"
  using assms
  by (simp add: feed_simps protocol_frame_decoder_begin_frame_def byte_codec_encode_u16_be_def join_bytes
      del: drop_bit_or)

lemma feed_body:
  assumes "dec_state d = PROTOCOL_DECODER_WAIT_MAGIC_0" and "frame_wf (dec_frame d)" and "length p \<le> 64"
  shows "decoder_feed_all ([PROTOCOL_FRAME_MAGIC_0, PROTOCOL_FRAME_MAGIC_1, PROTOCOL_FRAME_VERSION, ty] @
       byte_codec_encode_u16_be sq @ byte_codec_encode_u16_be (of_nat (length p)) @ p) d =
    ([], d\<lparr>dec_frame := raw_frame ty sq p (payload (dec_frame d)),
        payload_index := length p, received_crc := 0,
        calculated_crc := foldl crc16_byte CRC16_CCITT_FALSE_INITIAL
          (frame_body (raw_frame ty sq p (payload (dec_frame d)))),
        dec_state := PROTOCOL_DECODER_READ_CRC_HIGH\<rparr>)"
proof -
  let ?len = "of_nat (length p) :: u16"
  let ?hdr = "[PROTOCOL_FRAME_MAGIC_0, PROTOCOL_FRAME_MAGIC_1, PROTOCOL_FRAME_VERSION, ty] @
       byte_codec_encode_u16_be sq @ byte_codec_encode_u16_be ?len"
  have len: "unat ?len = length p"
    using assms(3) by (simp add: unat_of_nat take_bit_nat_eq_self)
  then have zero: "?len = 0 \<longleftrightarrow> p = []" by (metis length_0_conv unat_eq_zero)
  obtain e where e: "decoder_feed_all ?hdr d = ([], e)" and e_def: "e = d\<lparr>dec_frame := (dec_frame d)\<lparr>message_type := ty, frame_sequence := sq, payload_length := ?len\<rparr>,
        payload_index := 0, received_crc := 0,
        calculated_crc := foldl crc16_byte CRC16_CCITT_FALSE_INITIAL
          ([PROTOCOL_FRAME_VERSION, ty] @ byte_codec_encode_u16_be sq @ byte_codec_encode_u16_be ?len),
        dec_state := if ?len = 0 then PROTOCOL_DECODER_READ_CRC_HIGH else PROTOCOL_DECODER_READ_PAYLOAD\<rparr>"
    using feed_header [OF assms(1), of ?len ty sq] len assms(3) by simp
  have frame: "raw_frame ty sq p (payload (dec_frame d)) = (dec_frame e)\<lparr>payload := buffer_write 0 p (payload (dec_frame d))\<rparr>"
    by (simp add: raw_frame_def e_def)
  have body: "frame_body (raw_frame ty sq p (payload (dec_frame d))) =
      [PROTOCOL_FRAME_VERSION, ty] @ byte_codec_encode_u16_be sq @ byte_codec_encode_u16_be ?len @ p"
    by (simp add: frame_body_def raw_frame_def len)
  have "decoder_feed_all p e = ([], d\<lparr>dec_frame := raw_frame ty sq p (payload (dec_frame d)),
        payload_index := length p, received_crc := 0,
        calculated_crc := foldl crc16_byte CRC16_CCITT_FALSE_INITIAL
          (frame_body (raw_frame ty sq p (payload (dec_frame d)))),
        dec_state := PROTOCOL_DECODER_READ_CRC_HIGH\<rparr>)"
  proof (cases "p = []")
    case True
    then show ?thesis
      by (cases "dec_frame d") (simp add: e_def raw_frame_def frame_body_def)
  next
    case False
    have crc: "foldl crc16_byte CRC16_CCITT_FALSE_INITIAL (frame_body (raw_frame ty sq p (payload (dec_frame d)))) =
        foldl crc16_byte (calculated_crc e) p"
      by (simp add: body e_def)
    from False show ?thesis
      unfolding crc unfolding frame using assms(2,3) len zero
      by (subst feed_payload) (simp_all add: frame_wf_def e_def)
  qed
  with e show ?thesis
    using decoder_feed_all_append [of ?hdr p d] by simp
qed

text \<open>
  A whole image: delivered when its checksum bytes are the checksum of its body, counted
  as a checksum error and dropped when they are not.
\<close>

lemma feed_raw_wire:
  fixes ty sq
  assumes "dec_state d = PROTOCOL_DECODER_WAIT_MAGIC_0" and "frame_wf (dec_frame d)" and "length p \<le> 64"
  defines "g \<equiv> raw_frame ty sq p (payload (dec_frame d))"
  shows "decoder_feed_all (raw_wire ty sq p c) d =
    (let d' = d\<lparr>dec_frame := g, payload_index := length p,
                calculated_crc := foldl crc16_byte CRC16_CCITT_FALSE_INITIAL (frame_body g)\<rparr>
     in if c = foldl crc16_byte CRC16_CCITT_FALSE_INITIAL (frame_body g)
        then ([g], d\<lparr>dec_frame := g, payload_index := 0, received_crc := 0,
               calculated_crc := CRC16_CCITT_FALSE_INITIAL,
               valid_frame_count := valid_frame_count d + 1,
               dec_state := PROTOCOL_DECODER_WAIT_MAGIC_0\<rparr>)
        else ([], protocol_frame_decoder_reset_search (ucast (drop_bit 8 c)) (ucast c)
               (d'\<lparr>received_crc := c, crc_error_count := crc_error_count d + 1,
                   dec_state := PROTOCOL_DECODER_READ_CRC_LOW\<rparr>)))"
proof -
  let ?body = "[PROTOCOL_FRAME_MAGIC_0, PROTOCOL_FRAME_MAGIC_1, PROTOCOL_FRAME_VERSION, ty] @
       byte_codec_encode_u16_be sq @ byte_codec_encode_u16_be (of_nat (length p)) @ p"
  have split: "raw_wire ty sq p c = ?body @ byte_codec_encode_u16_be c"
    by (simp add: raw_wire_def)
  have body: "decoder_feed_all ?body d =
      ([], d\<lparr>dec_frame := g, payload_index := length p, received_crc := 0,
        calculated_crc := foldl crc16_byte CRC16_CCITT_FALSE_INITIAL (frame_body g),
        dec_state := PROTOCOL_DECODER_READ_CRC_HIGH\<rparr>)"
    using feed_body [OF assms(1-3), of ty sq] by (simp only: g_def)
  show ?thesis
    unfolding split decoder_feed_all_append [of ?body "byte_codec_encode_u16_be c"] body
    by (simp add: feed_simps byte_codec_encode_u16_be_def join_bytes del: drop_bit_or, cases d, simp)
qed

text \<open>Two frames with the same meaning: payload bytes beyond the length do not count.\<close>

definition frame_equiv :: "ProtocolFrame \<Rightarrow> ProtocolFrame \<Rightarrow> bool" where
  "frame_equiv f g \<longleftrightarrow>
     message_type f = message_type g \<and> frame_sequence f = frame_sequence g \<and>
     payload_length f = payload_length g \<and>
     take (unat (payload_length f)) (payload f) = take (unat (payload_length g)) (payload g)"

lemma frame_equiv_wire: "frame_equiv f g \<Longrightarrow> frame_wire f = frame_wire g"
proof -
  assume "frame_equiv f g"
  then have "frame_body f = frame_body g"
    unfolding frame_equiv_def frame_body_def by (elim conjE) (simp only:)
  then show ?thesis by (simp add: frame_wire_def)
qed

abbreviation (input) payload_bytes :: "ProtocolFrame \<Rightarrow> u8 list" where
  "payload_bytes f \<equiv> take (unat (payload_length f)) (payload f)"

lemma frame_wire_raw:
  assumes "frame_sendable f"
  shows "frame_wire f = raw_wire (message_type f) (frame_sequence f) (payload_bytes f)
    (foldl crc16_byte CRC16_CCITT_FALSE_INITIAL (frame_body f))"
  using assms
  by (simp add: frame_wire_def raw_wire_def frame_body_def frame_sendable_def frame_wf_def
      crc16_ccitt_false_def crc16_ccitt_false_update_def)

lemma raw_frame_equiv:
  assumes "frame_sendable f"
  shows "frame_equiv f (raw_frame (message_type f) (frame_sequence f) (payload_bytes f) old)"
    and "frame_body (raw_frame (message_type f) (frame_sequence f) (payload_bytes f) old) = frame_body f"
  using assms by (simp_all add: frame_equiv_def raw_frame_def frame_body_def frame_sendable_def frame_wf_def)

lemma frame_wf_raw [simp]: "length p \<le> length old \<Longrightarrow> length old = 64 \<Longrightarrow> frame_wf (raw_frame ty sq p old)"
  by (simp add: frame_wf_def raw_frame_def)

text \<open>The decoder is between frames.\<close>

definition decoder_idle :: "ProtocolFrameDecoder \<Rightarrow> bool" where
  "decoder_idle d \<longleftrightarrow> dec_state d = PROTOCOL_DECODER_WAIT_MAGIC_0 \<and> frame_wf (dec_frame d)"

lemma decoder_idle_init [simp]: "decoder_idle protocol_frame_decoder_init"
  by (simp add: decoder_idle_def protocol_frame_decoder_init_def)

lemma feed_frame_wire:
  assumes "decoder_idle d" and "frame_sendable f"
  obtains g d' where "decoder_feed_all (frame_wire f) d = ([g], d')"
    and "frame_equiv f g" and "decoder_idle d'"
    and "valid_frame_count d' = valid_frame_count d + 1"
    and "crc_error_count d' = crc_error_count d"
    and "format_error_count d' = format_error_count d"
proof -
  let ?g = "raw_frame (message_type f) (frame_sequence f) (payload_bytes f) (payload (dec_frame d))"
  have "length (payload_bytes f) \<le> 64" and d: "dec_state d = PROTOCOL_DECODER_WAIT_MAGIC_0"
    "frame_wf (dec_frame d)"
    using assms by (auto simp: frame_sendable_def decoder_idle_def intro: min.coboundedI2)
  moreover from this have "frame_wf ?g" by (simp add: frame_wf_def raw_frame_def)
  moreover from calculation have "decoder_feed_all (frame_wire f) d =
      ([?g], d\<lparr>dec_frame := ?g, payload_index := 0, received_crc := 0,
         calculated_crc := CRC16_CCITT_FALSE_INITIAL, valid_frame_count := valid_frame_count d + 1,
         dec_state := PROTOCOL_DECODER_WAIT_MAGIC_0\<rparr>)"
    by (simp add: frame_wire_raw [OF assms(2)] feed_raw_wire raw_frame_equiv [OF assms(2)])
  ultimately show ?thesis
    using raw_frame_equiv [OF assms(2)] by (elim that) (simp_all add: decoder_idle_def)
qed

lemma feed_noise:
  assumes "decoder_idle d" and "PROTOCOL_FRAME_MAGIC_0 \<notin> set gap"
  shows "decoder_feed_all gap d = ([], d)"
  using assms by (induction gap) (simp_all add: decoder_feed_def decoder_idle_def)

lemma feed_interleaved:
  assumes "decoder_idle d" and "list_all frame_sendable fs" and "length gaps = length fs"
    and "list_all (\<lambda>gap. PROTOCOL_FRAME_MAGIC_0 \<notin> set gap) gaps"
  shows "\<exists>gs d'. decoder_feed_all (interleave_wire gaps fs) d = (gs, d') \<and>
    list_all2 frame_equiv fs gs \<and> decoder_idle d' \<and>
    crc_error_count d' = crc_error_count d \<and> format_error_count d' = format_error_count d"
  using assms
proof (induction fs arbitrary: gaps d)
  case (Cons f fs)
  then obtain gap gaps' where gaps: "gaps = gap # gaps'" by (cases gaps) auto
  from Cons.prems have "frame_sendable f" by simp
  from feed_frame_wire [OF Cons.prems(1) this] obtain g e where
    g: "decoder_feed_all (frame_wire f) d = ([g], e)" "frame_equiv f g" "decoder_idle e"
       "crc_error_count e = crc_error_count d" "format_error_count e = format_error_count d" by metis
  moreover obtain gs d' where "decoder_feed_all (interleave_wire gaps' fs) e = (gs, d')"
    "list_all2 frame_equiv fs gs" "decoder_idle d'"
    "crc_error_count d' = crc_error_count e" "format_error_count d' = format_error_count e"
    using Cons.IH [OF g(3), of gaps'] Cons.prems gaps by auto
  moreover have "decoder_feed_all gap d = ([], d)"
    using Cons.prems gaps by (intro feed_noise) simp_all
  ultimately show ?case
    using gaps by (auto simp: decoder_feed_all_append)
qed simp

text \<open>
  Appending the checksum makes the checksum of the whole zero, exactly when it is the
  right checksum.
\<close>

lemma crc_residue:
  "foldl crc16_byte c (xs @ byte_codec_encode_u16_be v) = 0 \<longleftrightarrow> v = foldl crc16_byte c xs"
proof -
  let ?c = "foldl crc16_byte c xs"
  have "push_bit 8 (ucast (ucast (drop_bit 8 v) :: u8)) XOR (ucast (ucast v :: u8) :: u16) = v"
    by (rule bit_word_eqI) (auto simp: bit_simps bit_beyond)
  then have "foldl crc16_byte c (xs @ byte_codec_encode_u16_be v) = (crc16_bit ^^ 16) (?c XOR v)"
    by (simp only: byte_codec_encode_u16_be_def foldl_append foldl.simps crc16_two_bytes)
  then have "foldl crc16_byte c (xs @ byte_codec_encode_u16_be v) = 0 \<longleftrightarrow> ?c XOR v = 0"
    by (simp only: crc16_bits_zero_iff)
  also have "\<dots> \<longleftrightarrow> v = ?c" by (metis xor_left_cancel xor_self_eq)
  finally show ?thesis .
qed

text \<open>
  A corruption inside two neighbouring bytes of an image that keeps the magic bytes, the
  version and the length: the result is an image again, with a wrong checksum.
\<close>

lemma raw_wire_body:
  assumes "length p \<le> length old" "length p \<le> 64"
  shows "raw_wire ty sq p c =
    [PROTOCOL_FRAME_MAGIC_0, PROTOCOL_FRAME_MAGIC_1] @ frame_body (raw_frame ty sq p old) @ byte_codec_encode_u16_be c"
  using assms by (simp add: raw_wire_def frame_body_def raw_frame_def unat_of_nat take_bit_nat_eq_self)

lemma corrupted_checksum:
  assumes "raw_wire ty sq p c = [0xA5, 0x5A] @ pre @ [x, y] @ post"
    and "raw_wire ty' sq' p' c' = [0xA5, 0x5A] @ pre @ [x', y'] @ post"
    and "(x, y) \<noteq> (x', y')" and "length p \<le> 64" and "length p' \<le> 64" and "length old = 64"
    and "c = foldl crc16_byte i (frame_body (raw_frame ty sq p old))"
  shows "c' \<noteq> foldl crc16_byte i (frame_body (raw_frame ty' sq' p' old))"
proof
  assume "c' = foldl crc16_byte i (frame_body (raw_frame ty' sq' p' old))"
  then have "foldl crc16_byte i (frame_body (raw_frame ty' sq' p' old) @ byte_codec_encode_u16_be c') = 0"
    by (simp only: crc_residue)
  moreover have "foldl crc16_byte i (frame_body (raw_frame ty sq p old) @ byte_codec_encode_u16_be c) = 0"
    using assms(7) by (simp only: crc_residue)
  moreover have "frame_body (raw_frame ty sq p old) @ byte_codec_encode_u16_be c = pre @ [x, y] @ post"
    using assms(1,4,6) raw_wire_body [of p old ty sq c] by simp
  moreover have "frame_body (raw_frame ty' sq' p' old) @ byte_codec_encode_u16_be c' = pre @ [x', y'] @ post"
    using assms(2,5,6) raw_wire_body [of p' old ty' sq' c'] by simp
  ultimately have "x = x' \<and> y = y'"
    using crc_detects_two_bytes [of i pre x y post x' y'] by metis
  with assms(3) show False by simp
qed

lemma image_is_raw:
  assumes "length w = 10 + n" and "n \<le> 64"
    and "w ! 0 = 0xA5" "w ! 1 = 0x5A" "w ! 2 = 0x01"
    and "[w ! 6, w ! 7] = byte_codec_encode_u16_be (of_nat n)"
  obtains ty sq p c where "w = raw_wire ty sq p c" and "length p = n"
proof -
  let ?p = "take n (drop 8 w)" and ?c = "drop (8 + n) w"
  define h where "h = take 8 w"
  have w: "w = h @ ?p @ ?c"
    using append_take_drop_id [of n "drop 8 w"] by (simp add: h_def ac_simps)
  have "length h = 8" using assms(1) by (simp add: h_def)
  then obtain a0 a1 a2 a3 a4 a5 a6 a7 where "h = [a0, a1, a2, a3, a4, a5, a6, a7]"
    by (rule length_8E)
  moreover from calculation have "w ! 0 = a0" "w ! 1 = a1" "w ! 2 = a2" "w ! 6 = a6" "w ! 7 = a7"
    by (subst w, simp)+
  ultimately have h: "h = [0xA5, 0x5A, 0x01, a3] @ [a4, a5] @ byte_codec_encode_u16_be (of_nat n)"
    using assms(3-6) by simp
  have "w = raw_wire a3 (byte_codec_decode_u16_be [a4, a5]) ?p (byte_codec_decode_u16_be ?c)"
    using assms(1) h by (subst w) (simp add: raw_wire_def encode_decode_u16)
  then show ?thesis using assms(1) by (intro that [of a3 "byte_codec_decode_u16_be [a4, a5]" ?p]) simp_all
qed

lemma burst_rejected:
  assumes f: "frame_sendable f" and d: "decoder_idle d"
    and wire: "frame_wire f = [0xA5, 0x5A] @ pre @ [x, y] @ post"
    and bad: "w = [0xA5, 0x5A] @ pre @ [x', y'] @ post" and "(x, y) \<noteq> (x', y')"
    and kept: "w ! 2 = frame_wire f ! 2" "w ! 6 = frame_wire f ! 6" "w ! 7 = frame_wire f ! 7"
  shows "\<exists>d'. decoder_feed_all w d = ([], d') \<and> crc_error_count d' = crc_error_count d + 1 \<and>
    valid_frame_count d' = valid_frame_count d"
proof -
  let ?n = "unat (payload_length f)"
  have n: "?n \<le> 64" and len_p: "length (payload_bytes f) = ?n"
    using f by (simp_all add: frame_sendable_def frame_wf_def)
  have "length w = 10 + ?n" using wire bad length_frame_wire [OF f] by simp
  moreover have "w ! 0 = 0xA5" "w ! 1 = 0x5A" using bad by simp_all
  moreover have "w ! 2 = 0x01" "[w ! 6, w ! 7] = byte_codec_encode_u16_be (of_nat ?n)"
    using kept frame_wire_raw [OF f] len_p by (simp_all add: raw_wire_def byte_codec_encode_u16_be_def)
  ultimately obtain ty sq p c where w: "w = raw_wire ty sq p c" and p: "length p = ?n"
    using n image_is_raw by metis
  let ?old = "payload (dec_frame d)"
  have "c \<noteq> foldl crc16_byte 0xFFFF (frame_body (raw_frame ty sq p ?old))"
  proof (rule corrupted_checksum)
    show "raw_wire (message_type f) (frame_sequence f) (payload_bytes f)
        (foldl crc16_byte 0xFFFF (frame_body f)) = [0xA5, 0x5A] @ pre @ [x, y] @ post"
      using wire frame_wire_raw [OF f] by simp
  qed (use assms n len_p p w raw_frame_equiv [OF f] in \<open>simp_all add: decoder_idle_def frame_wf_def\<close>)
  then show ?thesis
    using feed_raw_wire [of d p ty sq c] d n p w
    by (simp add: decoder_idle_def protocol_frame_decoder_reset_search_def
        protocol_frame_decoder_begin_frame_def Let_def)
qed

subsection \<open>Resynchronization\<close>

text \<open>How many zero bytes bring the decoder back to the search for a magic byte.\<close>

fun resync_bytes :: "ProtocolFrameDecoder \<Rightarrow> nat" where
  "resync_bytes d =
     (case dec_state d of
        PROTOCOL_DECODER_WAIT_MAGIC_0 \<Rightarrow> 0
      | PROTOCOL_DECODER_WAIT_MAGIC_1 \<Rightarrow> 1
      | PROTOCOL_DECODER_READ_VERSION \<Rightarrow> 1
      | PROTOCOL_DECODER_READ_MESSAGE_TYPE \<Rightarrow> 7
      | PROTOCOL_DECODER_READ_SEQUENCE_HIGH \<Rightarrow> 6
      | PROTOCOL_DECODER_READ_SEQUENCE_LOW \<Rightarrow> 5
      | PROTOCOL_DECODER_READ_LENGTH_HIGH \<Rightarrow> 4
      | PROTOCOL_DECODER_READ_LENGTH_LOW \<Rightarrow> 3
      | PROTOCOL_DECODER_READ_PAYLOAD \<Rightarrow> unat (payload_length (dec_frame d)) - payload_index d + 2
      | PROTOCOL_DECODER_READ_CRC_HIGH \<Rightarrow> 2
      | PROTOCOL_DECODER_READ_CRC_LOW \<Rightarrow> 1)"

lemma resync_reset_search [simp]:
  "resync_bytes (protocol_frame_decoder_reset_search p 0 d) = 0"
  by (simp add: protocol_frame_decoder_reset_search_def)

lemma high_byte_zero_or_large:
  fixes len :: u16
  assumes "take_bit 8 len = 0" and "len \<noteq> 0"
  shows "64 < unat len"
proof -
  have "unat len mod 256 = unat (take_bit 8 len)"
    by (simp add: unsigned_take_bit_eq take_bit_nat_def)
  with assms(1) have "unat len mod 256 = 0" by simp
  moreover have "unat len \<noteq> 0" using assms(2) by (simp add: unat_eq_zero)
  ultimately show ?thesis by presburger
qed

end
