(* ===== verification/Stream_Delivery.thy ===== *)
theory Stream_Delivery
  imports Decoder_Correctness
begin

section \<open>Byte streams and messages through the frame decoder\<close>

text \<open>
  The properties of the decoder on whole byte streams: soundness, completeness with noise
  between the frames, rejection of corrupted frames, memory safety, bounded
  resynchronization, and delivery of typed messages (a payload codec on top of the frame
  codec).
\<close>

subsection \<open>Resynchronization\<close>

lemma resync_feed_zero:
  assumes "decoder_wf d"
  shows "resync_bytes (snd (decoder_feed 0 d)) \<le> resync_bytes d - 1"
proof (cases "dec_state d")
  case PROTOCOL_DECODER_READ_LENGTH_LOW
  let ?len = "payload_length (dec_frame d)"
  from assms PROTOCOL_DECODER_READ_LENGTH_LOW have "?len = 0 \<or> 64 < unat ?len"
    using high_byte_zero_or_large [of ?len] by (auto simp: decoder_wf_def)
  with PROTOCOL_DECODER_READ_LENGTH_LOW show ?thesis
    by (auto simp: feed_simps simp del: resync_bytes.simps) (simp_all add: feed_simps)
next
  case PROTOCOL_DECODER_READ_PAYLOAD
  with assms show ?thesis by (auto simp: feed_simps decoder_wf_def)
qed (auto simp: feed_simps decoder_wf_def protocol_frame_decoder_begin_frame_def
  simp del: resync_bytes.simps, auto simp: feed_simps)

lemma resync_bound: "decoder_wf d \<Longrightarrow> resync_bytes d \<le> 66"
  by (auto simp: decoder_wf_def split: ProtocolFrameDecoderState.splits)

lemma resync_feed_zeros:
  assumes "decoder_wf d"
  shows "resync_bytes (snd (decoder_feed_all (replicate n 0) d)) \<le> resync_bytes d - n \<and>
    decoder_wf (snd (decoder_feed_all (replicate n 0) d))"
  using assms
proof (induction n arbitrary: d)
  case (Suc n)
  obtain r e where e: "decoder_feed 0 d = (r, e)" by fastforce
  with Suc.prems have "decoder_wf e" "resync_bytes e \<le> resync_bytes d - 1"
    using decoder_wf_feed [of d 0] resync_feed_zero [of d] by simp_all
  with Suc.IH [of e] e show ?case
    by (auto split: prod.splits simp del: resync_bytes.simps)
qed simp

lemma resync_idle:
  assumes "decoder_wf d"
  shows "decoder_idle (snd (decoder_feed_all (replicate 66 0) d))"
proof -
  have "resync_bytes (snd (decoder_feed_all (replicate 66 0) d)) = 0"
    and wf: "decoder_wf (snd (decoder_feed_all (replicate 66 0) d))"
    using resync_feed_zeros [OF assms, of 66] resync_bound [OF assms] by (simp_all del: resync_bytes.simps)
  then have "dec_state (snd (decoder_feed_all (replicate 66 0) d)) = PROTOCOL_DECODER_WAIT_MAGIC_0"
    by (auto split: ProtocolFrameDecoderState.splits)
  with wf show ?thesis by (simp add: decoder_idle_def decoder_wf_def)
qed

lemma decoder_wf_feed_all:
  "decoder_wf d \<Longrightarrow> decoder_wf (snd (decoder_feed_all bs d))"
proof (induction bs arbitrary: d)
  case (Cons b bs)
  from Cons.IH [OF decoder_wf_feed [OF Cons.prems, of b]] show ?case
    by (auto split: prod.splits)
qed simp

subsection \<open>Typed messages\<close>

text \<open>The frame the senders build: zeroed, with its header fields and the encoded payload stored.\<close>

definition message :: "u8 \<Rightarrow> u16 \<Rightarrow> u8 list \<Rightarrow> ProtocolFrame" where
  "message ty sq bytes = zero_frame\<lparr>message_type := ty, frame_sequence := sq,
     payload_length := of_nat (length bytes), payload := buffer_write 0 bytes (payload zero_frame)\<rparr>"

lemma message_sendable: "length bytes \<le> 64 \<Longrightarrow> frame_sendable (message ty sq bytes)"
  by (simp add: message_def frame_sendable_def frame_wf_def zero_frame_def unat_of_nat take_bit_nat_eq_self)

lemma message_equiv:
  assumes "frame_equiv (message ty sq bytes) g" and "length bytes \<le> 64"
  shows "message_type g = ty" and "frame_sequence g = sq" and "unat (payload_length g) = length bytes"
    and "\<exists>rest. payload g = bytes @ rest"
proof -
  have n: "unat (of_nat (length bytes) :: u16) = length bytes"
    using assms(2) by (simp add: unat_of_nat take_bit_nat_eq_self)
  with assms(1) show "message_type g = ty" "frame_sequence g = sq" "unat (payload_length g) = length bytes"
    by (auto simp: frame_equiv_def message_def)
  have "take (length bytes) (payload g) = bytes"
    using assms n by (auto simp: frame_equiv_def message_def buffer_write_def)
  then show "\<exists>rest. payload g = bytes @ rest" by (metis append_take_drop_id)
qed

text \<open>
  A payload codec whose images fit into a frame: whoever puts an encoded payload into a
  frame gets it back from the frame the decoder delivers.
\<close>

locale framed_codec = payload_codec +
  assumes fits_frame: "wire_size \<le> PROTOCOL_FRAME_MAX_PAYLOAD_SIZE"
begin

lemma message_delivered:
  assumes "decoder_idle d" and "frame_wf f" and "payload_length f = of_nat wire_size"
    and "take wire_size (payload f) = enc p"
  shows "\<exists>g d'. decoder_feed_all (frame_wire f) d = ([g], d') \<and> decoder_idle d' \<and>
    message_type g = message_type f \<and> frame_sequence g = frame_sequence f \<and>
    payload_length g = of_nat wire_size \<and> dec (payload g) = p"
proof -
  have size: "unat (payload_length f) = wire_size"
    using assms(3) fits_frame by (simp add: unat_of_nat take_bit_nat_eq_self)
  then have "frame_sendable f" using assms(2) fits_frame by (simp add: frame_sendable_def)
  from feed_frame_wire [OF assms(1) this] obtain g d' where
    g: "decoder_feed_all (frame_wire f) d = ([g], d')" "frame_equiv f g" "decoder_idle d'" by metis
  then have "take wire_size (payload g) = enc p"
    using assms(4) size by (simp add: frame_equiv_def)
  then have "payload g = enc p @ drop wire_size (payload g)" by (metis append_take_drop_id)
  then have "dec (payload g) = p" by (metis dec_enc)
  with g assms(3) show ?thesis by (auto simp: frame_equiv_def)
qed

end

interpretation heartbeat_frame: framed_codec heartbeat_encode heartbeat_decode HEARTBEAT_WIRE_SIZE
  by unfold_locales simp

interpretation link_sync_frame: framed_codec link_sync_encode link_sync_decode LINK_SYNC_WIRE_SIZE
  by unfold_locales simp

interpretation motion_ack_frame: framed_codec motion_ack_encode motion_ack_decode MOTION_ACK_WIRE_SIZE
  by unfold_locales simp

interpretation lifecycle_command_frame: framed_codec motion_lifecycle_command_encode
  motion_lifecycle_command_decode MOTION_LIFECYCLE_COMMAND_WIRE_SIZE
  by unfold_locales simp

interpretation motion_response_frame: framed_codec motion_response_encode motion_response_decode
  MOTION_RESPONSE_WIRE_SIZE
  by unfold_locales simp

interpretation wheel_velocity_frame: framed_codec wheel_velocity_payload_encode
  wheel_velocity_payload_decode WHEEL_VELOCITY_PAYLOAD_WIRE_SIZE
  by unfold_locales simp

subsection \<open>Properties\<close>

text \<open>
  C25: Soundness of the decoder on any byte stream, from its initial state. The bytes
  consumed are, in order and without overlap, the complete wire images of the frames
  that were delivered, separated by bytes that were skipped: no frame is invented, and
  none is delivered twice. Every delivered frame has a payload that fits its array.
\<close>

theorem decoder_sound:
  "\<exists>gaps tail.
     let fs = fst (decoder_feed_all bs protocol_frame_decoder_init) in
       length gaps = length fs \<and> bs = interleave_wire gaps fs @ tail \<and> list_all frame_sendable fs"
proof -
  obtain fs d where "decoder_feed_all bs protocol_frame_decoder_init = (fs, d)" by fastforce
  from decoder_feed_all_sound [OF decoder_wf_init tracks_init [of "[]"] this] this show ?thesis
    by auto
qed

text \<open>
  C27: Completeness. Frames that were encoded, sent in any number, with bytes other than the
  first magic byte in front of each, are all delivered, in order, with their message
  type, sequence number, length and payload bytes; no error is counted.
\<close>

theorem decoder_complete:
  assumes "decoder_idle d" and "list_all frame_sendable fs" and "length gaps = length fs"
    and "list_all (\<lambda>gap. PROTOCOL_FRAME_MAGIC_0 \<notin> set gap) gaps"
  shows "\<exists>gs d'. decoder_feed_all (interleave_wire gaps fs) d = (gs, d') \<and>
    list_all2 frame_equiv fs gs \<and> decoder_idle d' \<and>
    crc_error_count d' = crc_error_count d \<and> format_error_count d' = format_error_count d"
  by (rule feed_interleaved [OF assms])

definition sample_frame :: ProtocolFrame where
  "sample_frame = zero_frame\<lparr>message_type := PROTOCOL_MESSAGE_TYPE_HEARTBEAT, frame_sequence := 7,
     payload_length := 5, payload := buffer_write 0 [1, 0, 0, 2, 0xA5] (replicate 64 0)\<rparr>"

lemma sample_frame_sendable: "frame_sendable sample_frame"
  by (simp add: sample_frame_def frame_sendable_def frame_wf_def)

lemma decoder_complete_witness:
  "decoder_idle protocol_frame_decoder_init \<and> frame_sendable sample_frame \<and>
   (\<exists>gs d'. decoder_feed_all (interleave_wire [[1, 2], []] [sample_frame, sample_frame])
       protocol_frame_decoder_init = (gs, d') \<and>
     list_all2 frame_equiv [sample_frame, sample_frame] gs)"
  using decoder_complete [of protocol_frame_decoder_init "[sample_frame, sample_frame]" "[[1, 2], []]"]
    sample_frame_sendable by auto

text \<open>
  C28: Rejection of corrupted frames. If the wire image of a frame is corrupted inside any two
  neighbouring bytes after the magic bytes (a burst of up to sixteen bits), and the
  version and the length field are intact, then nothing is delivered and exactly one
  checksum error is counted.
\<close>

theorem decoder_rejects_burst:
  assumes "frame_sendable f" and "decoder_idle d"
    and "frame_wire f = [PROTOCOL_FRAME_MAGIC_0, PROTOCOL_FRAME_MAGIC_1] @ pre @ [x, y] @ post"
    and "w = [PROTOCOL_FRAME_MAGIC_0, PROTOCOL_FRAME_MAGIC_1] @ pre @ [x', y'] @ post"
    and "(x, y) \<noteq> (x', y')"
    and "w ! 2 = frame_wire f ! 2" "w ! 6 = frame_wire f ! 6" "w ! 7 = frame_wire f ! 7"
  shows "\<exists>d'. decoder_feed_all w d = ([], d') \<and> crc_error_count d' = crc_error_count d + 1 \<and>
    valid_frame_count d' = valid_frame_count d"
  using assms by (rule burst_rejected)

lemma sample_frame_wire:
  "frame_wire sample_frame =
     [0xA5, 0x5A, 1, 3, 0, 7, 0, 5, 1, 0, 0, 2, 0xA5] @
     byte_codec_encode_u16_be (crc16_ccitt_false (frame_body sample_frame) 11)"
proof -
  have body: "frame_body sample_frame = [1, 3, 0, 7, 0, 5, 1, 0, 0, 2, 0xA5]"
    by (simp add: sample_frame_def frame_body_def byte_codec_encode_u16_be_def buffer_write_def)
  then have "length (frame_body sample_frame) = 11" by simp
  then show ?thesis by (simp only: frame_wire_def body append.simps)
qed

lemma decoder_rejects_burst_witness:
  "\<exists>d'. decoder_feed_all ([0xA5, 0x5A, 1, 3, 0, 7, 0, 5, 1, 0, 9, 8, 0xA5] @
       byte_codec_encode_u16_be (crc16_ccitt_false (frame_body sample_frame) 11))
       protocol_frame_decoder_init = ([], d') \<and> crc_error_count d' = 1"
  using decoder_rejects_burst [of sample_frame protocol_frame_decoder_init
      "[1, 3, 0, 7, 0, 5, 1, 0]" 0 2 "0xA5 # byte_codec_encode_u16_be
         (crc16_ccitt_false (frame_body sample_frame) 11)" _ 9 8]
    sample_frame_sendable sample_frame_wire
  by (auto simp: protocol_frame_decoder_init_def [of] decoder_idle_def)

text \<open>
  Memory safety. Whatever bytes arrive, the decoder never stores a payload byte outside
  the sixty-four bytes of its payload array: while it reads a payload the index of the
  next store is below the announced length, which is at most sixty-four.
\<close>

theorem decoder_memory_safe:
  assumes "d = snd (decoder_feed_all bs protocol_frame_decoder_init)"
    and "dec_state d = PROTOCOL_DECODER_READ_PAYLOAD"
  shows "payload_index d < unat (payload_length (dec_frame d)) \<and>
    unat (payload_length (dec_frame d)) \<le> length (payload (dec_frame d)) \<and>
    length (payload (dec_frame d)) = PROTOCOL_FRAME_MAX_PAYLOAD_SIZE"
  using decoder_wf_feed_all [OF decoder_wf_init, of bs] assms
  by (simp add: decoder_wf_def frame_wf_def)

text \<open>
  Bounded resynchronization. After any bytes at all, sixty-six zero bytes bring the decoder
  back to the search for a frame, and the next frame that is sent is delivered.
\<close>

lemma decoder_resynchronizes:
  assumes "frame_sendable f"
  shows "\<exists>g d'. decoder_feed_all (frame_wire f)
      (snd (decoder_feed_all (bs @ replicate 66 0) protocol_frame_decoder_init)) = ([g], d') \<and>
    frame_equiv f g"
proof -
  have "decoder_idle (snd (decoder_feed_all (bs @ replicate 66 0) protocol_frame_decoder_init))"
    using resync_idle [OF decoder_wf_feed_all [OF decoder_wf_init, of bs]]
    by (auto simp: decoder_feed_all_append split: prod.splits)
  from feed_frame_wire [OF this assms] show ?thesis by metis
qed

lemma decoder_resynchronizes_witness:
  "frame_sendable sample_frame \<and>
   (\<exists>g d'. decoder_feed_all (frame_wire sample_frame)
      (snd (decoder_feed_all ([0xA5, 0x5A, 1, 3, 0, 0, 0, 64] @ replicate 66 0)
         protocol_frame_decoder_init)) = ([g], d') \<and> frame_equiv sample_frame g)"
  using decoder_resynchronizes [OF sample_frame_sendable] sample_frame_sendable by blast

text \<open>
  The encoder and the decoder are inverse on the wire. \<open>protocol_frame_encode\<close> stores the
  documented layout into any buffer that is long enough and leaves the rest alone, and
  feeding exactly the bytes it reports gives the frame back.
\<close>

lemma encode_decode_frame:
  assumes "frame_sendable f" and "PROTOCOL_FRAME_MAX_WIRE_SIZE \<le> length out" and "decoder_idle d"
  shows "\<exists>size out' g d'. protocol_frame_encode f out = (size, out') \<and>
    length out' = length out \<and> drop size out' = drop size out \<and>
    size = PROTOCOL_FRAME_HEADER_SIZE + unat (payload_length f) + PROTOCOL_FRAME_CRC_SIZE \<and>
    decoder_feed_all (take size out') d = ([g], d') \<and> frame_equiv f g"
proof -
  have "length (frame_wire f) \<le> length out"
    using assms(1,2) by (simp add: length_frame_wire frame_sendable_def)
  moreover from feed_frame_wire [OF assms(3,1)] obtain g d' where
    "decoder_feed_all (frame_wire f) d = ([g], d')" "frame_equiv f g" by metis
  ultimately show ?thesis
    by (simp add: protocol_frame_encode_wire [OF assms(1)]) (simp add: length_frame_wire [OF assms(1)])
qed

end
