(* ===== verification/Motion_Reliable.thy ===== *)
theory Motion_Reliable
  imports Payload_Codecs
begin

section \<open>Sequence numbers, transactions and the reliable receiver\<close>

text \<open>
  protocol/motion\_sequence.c, motion\_transaction.c and motion\_reliable\_receiver.c: how a
  received command is told apart from a retry, a stale command and a collision. The
  theory shows that the relation of sequence numbers is the one of a half window on the
  circle of 65536 numbers, and the invariant under which the classification of a command
  never ends in the branch for inconsistent state.
\<close>

datatype MotionSequenceRelation =
  MOTION_SEQUENCE_SAME | MOTION_SEQUENCE_NEWER | MOTION_SEQUENCE_STALE

definition motion_sequence_classify :: "u16 \<Rightarrow> u16 \<Rightarrow> MotionSequenceRelation" where
  "motion_sequence_classify reference_sequence received_sequence =
     (let delta = received_sequence - reference_sequence
      in if delta = 0 then MOTION_SEQUENCE_SAME
         else if delta < 0x8000 then MOTION_SEQUENCE_NEWER
         else MOTION_SEQUENCE_STALE)"

record MotionTransaction =
  tx_sequence :: u16
  tx_command :: u8
  tx_motion_session_id :: u32

text \<open>\<^verbatim>\<open>(MotionTransaction)\{0\}\<close>\<close>

definition zero_transaction :: MotionTransaction where
  "zero_transaction = \<lparr>tx_sequence = 0, tx_command = 0, tx_motion_session_id = 0\<rparr>"

fun motion_transaction_equal :: "MotionTransaction option \<Rightarrow> MotionTransaction option \<Rightarrow> bool" where
  "motion_transaction_equal (Some first) (Some second) \<longleftrightarrow>
     tx_sequence first = tx_sequence second \<and> tx_command first = tx_command second \<and>
     tx_motion_session_id first = tx_motion_session_id second"
| "motion_transaction_equal _ _ \<longleftrightarrow> False"

datatype MotionReliableDecision =
    MOTION_RELIABLE_DECISION_INVALID
  | MOTION_RELIABLE_DECISION_NEW
  | MOTION_RELIABLE_DECISION_PENDING_RETRY
  | MOTION_RELIABLE_DECISION_COMPLETED_RETRY
  | MOTION_RELIABLE_DECISION_STALE
  | MOTION_RELIABLE_DECISION_COLLISION

record MotionReliableReceiver =
  latest_sequence_valid :: bool
  latest_sequence :: u16
  pending_valid :: bool
  pending_transaction :: MotionTransaction
  terminal_valid :: bool
  terminal_transaction :: MotionTransaction
  terminal_result :: u8
  new_count :: u32
  pending_retry_count :: u32
  completed_retry_count :: u32
  stale_count :: u32
  collision_count :: u32

definition motion_reliable_receiver_classify ::
  "MotionReliableReceiver option \<Rightarrow> MotionTransaction option \<Rightarrow> MotionReliableDecision" where
  "motion_reliable_receiver_classify receiver transaction =
     (case (receiver, transaction) of
        (Some r, Some t) \<Rightarrow>
          if \<not> latest_sequence_valid r then MOTION_RELIABLE_DECISION_NEW
          else (case motion_sequence_classify (latest_sequence r) (tx_sequence t) of
              MOTION_SEQUENCE_NEWER \<Rightarrow> MOTION_RELIABLE_DECISION_NEW
            | MOTION_SEQUENCE_STALE \<Rightarrow> MOTION_RELIABLE_DECISION_STALE
            | MOTION_SEQUENCE_SAME \<Rightarrow>
                if terminal_valid r \<and> tx_sequence (terminal_transaction r) = latest_sequence r then
                  (if motion_transaction_equal (Some (terminal_transaction r)) (Some t)
                   then MOTION_RELIABLE_DECISION_COMPLETED_RETRY
                   else MOTION_RELIABLE_DECISION_COLLISION)
                else if pending_valid r \<and> tx_sequence (pending_transaction r) = latest_sequence r then
                  (if motion_transaction_equal (Some (pending_transaction r)) (Some t)
                   then MOTION_RELIABLE_DECISION_PENDING_RETRY
                   else MOTION_RELIABLE_DECISION_COLLISION)
                else MOTION_RELIABLE_DECISION_INVALID)
      | _ \<Rightarrow> MOTION_RELIABLE_DECISION_INVALID)"

definition motion_reliable_receiver_init :: MotionReliableReceiver where
  "motion_reliable_receiver_init =
     \<lparr>latest_sequence_valid = False, latest_sequence = 0, pending_valid = False,
      pending_transaction = zero_transaction, terminal_valid = False,
      terminal_transaction = zero_transaction, terminal_result = 0, new_count = 0,
      pending_retry_count = 0, completed_retry_count = 0, stale_count = 0, collision_count = 0\<rparr>"

definition motion_reliable_receiver_reset :: "MotionReliableReceiver \<Rightarrow> MotionReliableReceiver" where
  "motion_reliable_receiver_reset r =
     r\<lparr>latest_sequence_valid := False, latest_sequence := 0, pending_valid := False,
       pending_transaction := zero_transaction, terminal_valid := False,
       terminal_transaction := zero_transaction, terminal_result := 0\<rparr>"

definition motion_reliable_receiver_begin_pending ::
  "MotionTransaction \<Rightarrow> MotionReliableReceiver \<Rightarrow> MotionReliableReceiver" where
  "motion_reliable_receiver_begin_pending transaction r =
     r\<lparr>terminal_valid := False, terminal_transaction := zero_transaction, terminal_result := 0,
       pending_transaction := transaction, latest_sequence := tx_sequence transaction,
       latest_sequence_valid := True, pending_valid := True\<rparr>"

definition motion_reliable_receiver_record_immediate_terminal ::
  "MotionTransaction \<Rightarrow> u8 \<Rightarrow> MotionReliableReceiver \<Rightarrow> MotionReliableReceiver" where
  "motion_reliable_receiver_record_immediate_terminal transaction result r =
     r\<lparr>latest_sequence := tx_sequence transaction, terminal_transaction := transaction,
       terminal_result := result, terminal_valid := True, latest_sequence_valid := True\<rparr>"

definition motion_reliable_receiver_complete_pending ::
  "MotionTransaction \<Rightarrow> u8 \<Rightarrow> MotionReliableReceiver \<Rightarrow> bool \<times> MotionReliableReceiver" where
  "motion_reliable_receiver_complete_pending transaction result r =
     (if \<not> pending_valid r \<or>
         \<not> motion_transaction_equal (Some (pending_transaction r)) (Some transaction)
      then (False, r)
      else
        let pending = pending_transaction r;
            r = r\<lparr>pending_valid := False, pending_transaction := zero_transaction\<rparr>
        in (True,
            if latest_sequence_valid r \<and> tx_sequence pending = latest_sequence r
            then r\<lparr>terminal_transaction := pending, terminal_result := result, terminal_valid := True\<rparr>
            else r))"

lemmas receiver_defs = motion_reliable_receiver_reset_def motion_reliable_receiver_begin_pending_def
  motion_reliable_receiver_record_immediate_terminal_def motion_reliable_receiver_complete_pending_def

subsection \<open>Sequence numbers\<close>

lemma classify_delta:
  "motion_sequence_classify r (r + k) =
     (if k = 0 then MOTION_SEQUENCE_SAME
      else if unat k < 2 ^ 15 then MOTION_SEQUENCE_NEWER else MOTION_SEQUENCE_STALE)"
  by (simp add: motion_sequence_classify_def word_less_nat_alt)

lemma classify_same_iff [simp]:
  "motion_sequence_classify r s = MOTION_SEQUENCE_SAME \<longleftrightarrow> s = r"
  by (auto simp: motion_sequence_classify_def Let_def)

lemma unat_minus_of_nat:
  assumes "0 < k" and "k < 2 ^ 15"
  shows "unat (- of_nat k :: u16) = 2 ^ 16 - k"
proof -
  have "- of_nat k = (word_of_int (- int k) :: u16)" by simp
  then have "uint (- of_nat k :: u16) = (- int k) mod 65536"
    by (simp only: uint_word_of_int_eq take_bit_eq_mod) simp
  also have "\<dots> = 65536 - int k"
    using assms by (simp add: zmod_zminus1_eq_if)
  finally have "nat (uint (- of_nat k :: u16)) = nat (65536 - int k)" by (simp only:)
  with assms show ?thesis by (simp add: nat_diff_distrib')
qed

text \<open>
  Sequence numbers are compared on the circle of 65536 numbers, so the comparison
  survives the wrap-around: a command sent \<open>k\<close> commands after the reference one is newer for
  every \<open>k\<close> from 1 to 32767, the reference is stale with respect to it, and a number
  exactly half the circle away is stale in both directions.
\<close>

theorem sequence_half_window:
  assumes "0 < k" and "k < 2 ^ 15"
  shows "motion_sequence_classify r (r + of_nat k) = MOTION_SEQUENCE_NEWER \<and>
    motion_sequence_classify (r + of_nat k) r = MOTION_SEQUENCE_STALE \<and>
    motion_sequence_classify r (r + 0x8000) = MOTION_SEQUENCE_STALE \<and>
    motion_sequence_classify (r + 0x8000) r = MOTION_SEQUENCE_STALE"
proof -
  have k: "unat (of_nat k :: u16) = k"
    using assms(2) by (simp add: unat_of_nat take_bit_nat_eq_self)
  then have nz: "(of_nat k :: u16) \<noteq> 0" using assms(1) by (metis unat_0 less_numeral_extra(3))
  have neg: "unat (- of_nat k :: u16) = 2 ^ 16 - k"
    using assms by (simp add: unat_minus_of_nat)
  have turn: "motion_sequence_classify (r + c) r = motion_sequence_classify (r + c) ((r + c) + (- c))" for c
    by simp
  have half: "(- 0x8000 :: u16) = 0x8000" by simp
  show ?thesis
    unfolding turn classify_delta
    using assms nz k neg by (simp add: half)
qed

subsection \<open>The receiver's invariant\<close>

definition receiver_wf :: "MotionReliableReceiver \<Rightarrow> bool" where
  "receiver_wf r \<longleftrightarrow>
     (latest_sequence_valid r \<longrightarrow>
        (terminal_valid r \<and> tx_sequence (terminal_transaction r) = latest_sequence r) \<or>
        (pending_valid r \<and> tx_sequence (pending_transaction r) = latest_sequence r))"

lemma receiver_wf_init [simp]: "receiver_wf motion_reliable_receiver_init"
  by (simp add: receiver_wf_def motion_reliable_receiver_init_def)

lemma receiver_wf_reset [simp]: "receiver_wf (motion_reliable_receiver_reset r)"
  by (simp add: receiver_wf_def receiver_defs)

lemma receiver_wf_begin_pending [simp]: "receiver_wf (motion_reliable_receiver_begin_pending t r)"
  by (simp add: receiver_wf_def receiver_defs)

lemma receiver_wf_immediate [simp]:
  "receiver_wf (motion_reliable_receiver_record_immediate_terminal t res r)"
  by (simp add: receiver_wf_def receiver_defs)

lemma receiver_wf_complete [simp]:
  "receiver_wf r \<Longrightarrow> receiver_wf (snd (motion_reliable_receiver_complete_pending t res r))"
  by (auto simp: receiver_wf_def receiver_defs Let_def)

lemma transaction_eq_iff:
  "motion_transaction_equal (Some a) (Some b) \<longleftrightarrow> a = b" for a b :: MotionTransaction
  by (cases a, cases b) auto

lemma classify_not_invalid:
  assumes "receiver_wf r"
  shows "motion_reliable_receiver_classify (Some r) (Some t) \<noteq> MOTION_RELIABLE_DECISION_INVALID"
  using assms
  by (auto simp: motion_reliable_receiver_classify_def receiver_wf_def
      split: MotionSequenceRelation.splits if_splits)

text \<open>What each decision says about the receiver and the transaction.\<close>

lemma classify_pending_retry:
  "motion_reliable_receiver_classify (Some r) (Some t) = MOTION_RELIABLE_DECISION_PENDING_RETRY \<Longrightarrow>
     pending_valid r \<and> pending_transaction r = t \<and> latest_sequence r = tx_sequence t"
  by (auto simp: motion_reliable_receiver_classify_def transaction_eq_iff
      simp del: motion_transaction_equal.simps
      split: MotionSequenceRelation.splits if_splits)

lemma classify_completed_retry:
  "motion_reliable_receiver_classify (Some r) (Some t) = MOTION_RELIABLE_DECISION_COMPLETED_RETRY \<Longrightarrow>
     terminal_valid r \<and> terminal_transaction r = t \<and> latest_sequence r = tx_sequence t"
  by (auto simp: motion_reliable_receiver_classify_def transaction_eq_iff
      simp del: motion_transaction_equal.simps
      split: MotionSequenceRelation.splits if_splits)

lemma classify_after_begin:
  "motion_reliable_receiver_classify (Some (motion_reliable_receiver_begin_pending t r)) (Some t) =
     MOTION_RELIABLE_DECISION_PENDING_RETRY"
  by (simp add: motion_reliable_receiver_classify_def receiver_defs motion_sequence_classify_def)

lemma classify_after_immediate:
  "motion_reliable_receiver_classify (Some (motion_reliable_receiver_record_immediate_terminal t res r)) (Some t) =
     MOTION_RELIABLE_DECISION_COMPLETED_RETRY"
  by (simp add: motion_reliable_receiver_classify_def receiver_defs motion_sequence_classify_def)

end
