(* ===== verification/Motion_Lifecycle.thy ===== *)
theory Motion_Lifecycle
  imports Motion_Reliable
begin

section \<open>The motion lifecycle coordinator (protocol/motion\_lifecycle\_coordinator.c)\<close>

text \<open>
  The state machine of a motion session: a command arrives as a transaction and is
  answered by an action (acknowledge, respond, ensure that the robot stands still); the
  completion of the stop operation is reported back. Each handler is one definition; it
  returns the action and the updated coordinator.
\<close>

datatype MotionLifecycleState =
    MOTION_LIFECYCLE_STATE_NO_SESSION
  | MOTION_LIFECYCLE_STATE_STARTING
  | MOTION_LIFECYCLE_STATE_ACTIVE
  | MOTION_LIFECYCLE_STATE_ENDING

datatype MotionLifecycleOperation =
  MOTION_LIFECYCLE_OPERATION_NONE | MOTION_LIFECYCLE_OPERATION_ENSURE_STOPPED

datatype MotionLifecycleOperationResult =
  MOTION_LIFECYCLE_OPERATION_RESULT_SUCCESS | MOTION_LIFECYCLE_OPERATION_RESULT_FAILED

record MotionLifecycleAction =
  send_ack :: bool
  ack_transaction :: MotionTransaction
  send_response :: bool
  response_transaction :: MotionTransaction
  response_result :: u8
  act_operation :: MotionLifecycleOperation
  act_operation_id :: u32

definition motion_lifecycle_action_none :: MotionLifecycleAction where
  "motion_lifecycle_action_none =
     \<lparr>send_ack = False, ack_transaction = zero_transaction, send_response = False,
      response_transaction = zero_transaction, response_result = 0,
      act_operation = MOTION_LIFECYCLE_OPERATION_NONE, act_operation_id = 0\<rparr>"

record MotionLifecycleCoordinator =
  lifecycle_state :: MotionLifecycleState
  motion_session_id :: u32
  reliable_receiver :: MotionReliableReceiver
  next_operation_id :: u32
  active_operation_id :: u32

definition begin_new_operation :: "MotionLifecycleCoordinator \<Rightarrow> u32 \<times> MotionLifecycleCoordinator" where
  [lifecycle_defs]: "begin_new_operation c =
     (let c = c\<lparr>next_operation_id := next_operation_id c + 1\<rparr>;
          c = (if next_operation_id c = 0 then c\<lparr>next_operation_id := next_operation_id c + 1\<rparr> else c);
          c = c\<lparr>active_operation_id := next_operation_id c\<rparr>
      in (active_operation_id c, c))"

definition motion_lifecycle_coordinator_init :: MotionLifecycleCoordinator where
  "motion_lifecycle_coordinator_init =
     \<lparr>lifecycle_state = MOTION_LIFECYCLE_STATE_NO_SESSION, motion_session_id = 0,
      reliable_receiver = motion_reliable_receiver_init, next_operation_id = 0,
      active_operation_id = 0\<rparr>"

definition motion_lifecycle_coordinator_reset ::
  "MotionLifecycleCoordinator \<Rightarrow> MotionLifecycleCoordinator" where
  [lifecycle_defs]: "motion_lifecycle_coordinator_reset c =
     c\<lparr>lifecycle_state := MOTION_LIFECYCLE_STATE_NO_SESSION, motion_session_id := 0,
       active_operation_id := 0,
       reliable_receiver := motion_reliable_receiver_reset (reliable_receiver c)\<rparr>"

subsection \<open>Handlers of a new transaction\<close>

definition handle_start_no_session ::
  "MotionLifecycleCoordinator \<Rightarrow> MotionTransaction \<Rightarrow> MotionLifecycleAction \<times> MotionLifecycleCoordinator" where
  [lifecycle_defs]: "handle_start_no_session c t =
     (let action = motion_lifecycle_action_none;
          c = c\<lparr>reliable_receiver := motion_reliable_receiver_begin_pending t (reliable_receiver c)\<rparr>;
          c = c\<lparr>lifecycle_state := MOTION_LIFECYCLE_STATE_STARTING\<rparr>;
          c = c\<lparr>motion_session_id := tx_motion_session_id t\<rparr>;
          action = action\<lparr>send_ack := True, ack_transaction := t,
                     act_operation := MOTION_LIFECYCLE_OPERATION_ENSURE_STOPPED\<rparr>;
          (op_id, c) = begin_new_operation c
      in (action\<lparr>act_operation_id := op_id\<rparr>, c))"

definition handle_start_already_active ::
  "MotionLifecycleCoordinator \<Rightarrow> MotionTransaction \<Rightarrow> MotionLifecycleAction \<times> MotionLifecycleCoordinator" where
  [lifecycle_defs]: "handle_start_already_active c t =
     (let c = c\<lparr>reliable_receiver := motion_reliable_receiver_record_immediate_terminal t
                  MOTION_RESPONSE_ALREADY_ACTIVE (reliable_receiver c)\<rparr>
      in (motion_lifecycle_action_none\<lparr>ack_transaction := t, response_transaction := t,
            response_result := MOTION_RESPONSE_ALREADY_ACTIVE, send_ack := True,
            send_response := True\<rparr>, c))"

definition handle_start_replacing_active ::
  "MotionLifecycleCoordinator \<Rightarrow> MotionTransaction \<Rightarrow> MotionLifecycleAction \<times> MotionLifecycleCoordinator" where
  [lifecycle_defs]: "handle_start_replacing_active c t =
     (let action = motion_lifecycle_action_none;
          c = c\<lparr>reliable_receiver := motion_reliable_receiver_begin_pending t (reliable_receiver c)\<rparr>;
          c = c\<lparr>lifecycle_state := MOTION_LIFECYCLE_STATE_STARTING\<rparr>;
          c = c\<lparr>motion_session_id := tx_motion_session_id t\<rparr>;
          action = action\<lparr>send_ack := True, ack_transaction := t,
                     act_operation := MOTION_LIFECYCLE_OPERATION_ENSURE_STOPPED\<rparr>;
          (op_id, c) = begin_new_operation c
      in (action\<lparr>act_operation_id := op_id\<rparr>, c))"

definition handle_end_active ::
  "MotionLifecycleCoordinator \<Rightarrow> MotionTransaction \<Rightarrow> MotionLifecycleAction \<times> MotionLifecycleCoordinator" where
  [lifecycle_defs]: "handle_end_active c t =
     (let action = motion_lifecycle_action_none;
          c = c\<lparr>reliable_receiver := motion_reliable_receiver_begin_pending t (reliable_receiver c)\<rparr>;
          c = c\<lparr>lifecycle_state := MOTION_LIFECYCLE_STATE_ENDING\<rparr>;
          action = action\<lparr>send_ack := True, ack_transaction := t,
                     act_operation := MOTION_LIFECYCLE_OPERATION_ENSURE_STOPPED\<rparr>;
          (op_id, c) = begin_new_operation c
      in (action\<lparr>act_operation_id := op_id\<rparr>, c))"

definition handle_end_session_mismatch ::
  "MotionLifecycleCoordinator \<Rightarrow> MotionTransaction \<Rightarrow> MotionLifecycleAction \<times> MotionLifecycleCoordinator" where
  [lifecycle_defs]: "handle_end_session_mismatch c t =
     (let c = c\<lparr>reliable_receiver := motion_reliable_receiver_record_immediate_terminal t
                  MOTION_RESPONSE_SESSION_MISMATCH (reliable_receiver c)\<rparr>
      in (motion_lifecycle_action_none\<lparr>send_ack := True, ack_transaction := t, send_response := True,
            response_transaction := t, response_result := MOTION_RESPONSE_SESSION_MISMATCH\<rparr>, c))"

definition handle_end_no_session ::
  "MotionLifecycleCoordinator \<Rightarrow> MotionTransaction \<Rightarrow> MotionLifecycleAction \<times> MotionLifecycleCoordinator" where
  [lifecycle_defs]: "handle_end_no_session c t =
     (let c = c\<lparr>reliable_receiver := motion_reliable_receiver_record_immediate_terminal t
                  MOTION_RESPONSE_ALREADY_ENDED (reliable_receiver c)\<rparr>
      in (motion_lifecycle_action_none\<lparr>send_ack := True, ack_transaction := t, send_response := True,
            response_transaction := t, response_result := MOTION_RESPONSE_ALREADY_ENDED\<rparr>, c))"

definition handle_start_while_starting ::
  "MotionLifecycleCoordinator \<Rightarrow> MotionTransaction \<Rightarrow> MotionLifecycleAction \<times> MotionLifecycleCoordinator" where
  [lifecycle_defs]: "handle_start_while_starting c t =
     (let superseded = pending_transaction (reliable_receiver c);
          c = c\<lparr>reliable_receiver := motion_reliable_receiver_begin_pending t (reliable_receiver c)\<rparr>;
          c = c\<lparr>motion_session_id := tx_motion_session_id t\<rparr>
      in (motion_lifecycle_action_none\<lparr>send_ack := True, ack_transaction := t, send_response := True,
            response_transaction := superseded, response_result := MOTION_RESPONSE_SUPERSEDED\<rparr>, c))"

definition handle_end_while_starting ::
  "MotionLifecycleCoordinator \<Rightarrow> MotionTransaction \<Rightarrow> MotionLifecycleAction \<times> MotionLifecycleCoordinator" where
  [lifecycle_defs]: "handle_end_while_starting c t =
     (let superseded = pending_transaction (reliable_receiver c);
          c = c\<lparr>reliable_receiver := motion_reliable_receiver_begin_pending t (reliable_receiver c)\<rparr>;
          c = c\<lparr>lifecycle_state := MOTION_LIFECYCLE_STATE_ENDING\<rparr>
      in (motion_lifecycle_action_none\<lparr>send_ack := True, ack_transaction := t, send_response := True,
            response_transaction := superseded, response_result := MOTION_RESPONSE_SUPERSEDED\<rparr>, c))"

definition handle_end_session_mismatch_while_starting ::
  "MotionLifecycleCoordinator \<Rightarrow> MotionTransaction \<Rightarrow> MotionLifecycleAction \<times> MotionLifecycleCoordinator" where
  [lifecycle_defs]: "handle_end_session_mismatch_while_starting c t =
     (let c = c\<lparr>reliable_receiver := motion_reliable_receiver_record_immediate_terminal t
                  MOTION_RESPONSE_SESSION_MISMATCH (reliable_receiver c)\<rparr>
      in (motion_lifecycle_action_none\<lparr>send_ack := True, ack_transaction := t, send_response := True,
            response_transaction := t, response_result := MOTION_RESPONSE_SESSION_MISMATCH\<rparr>, c))"

definition handle_start_while_ending ::
  "MotionLifecycleCoordinator \<Rightarrow> MotionTransaction \<Rightarrow> MotionLifecycleAction \<times> MotionLifecycleCoordinator" where
  [lifecycle_defs]: "handle_start_while_ending c t =
     (let c = c\<lparr>reliable_receiver := motion_reliable_receiver_record_immediate_terminal t
                  MOTION_RESPONSE_BUSY_STOPPING (reliable_receiver c)\<rparr>
      in (motion_lifecycle_action_none\<lparr>send_ack := True, ack_transaction := t, send_response := True,
            response_transaction := t, response_result := MOTION_RESPONSE_BUSY_STOPPING\<rparr>, c))"

definition handle_end_while_ending ::
  "MotionLifecycleCoordinator \<Rightarrow> MotionTransaction \<Rightarrow> MotionLifecycleAction \<times> MotionLifecycleCoordinator" where
  [lifecycle_defs]: "handle_end_while_ending c t =
     (let superseded = pending_transaction (reliable_receiver c);
          c = c\<lparr>reliable_receiver := motion_reliable_receiver_begin_pending t (reliable_receiver c)\<rparr>
      in (motion_lifecycle_action_none\<lparr>send_ack := True, ack_transaction := t, send_response := True,
            response_transaction := superseded, response_result := MOTION_RESPONSE_SUPERSEDED\<rparr>, c))"

definition handle_end_session_mismatch_while_ending ::
  "MotionLifecycleCoordinator \<Rightarrow> MotionTransaction \<Rightarrow> MotionLifecycleAction \<times> MotionLifecycleCoordinator" where
  [lifecycle_defs]: "handle_end_session_mismatch_while_ending c t =
     (let c = c\<lparr>reliable_receiver := motion_reliable_receiver_record_immediate_terminal t
                  MOTION_RESPONSE_SESSION_MISMATCH (reliable_receiver c)\<rparr>
      in (motion_lifecycle_action_none\<lparr>send_ack := True, ack_transaction := t, send_response := True,
            response_transaction := t, response_result := MOTION_RESPONSE_SESSION_MISMATCH\<rparr>, c))"

definition handle_invalid_command ::
  "MotionLifecycleCoordinator \<Rightarrow> MotionTransaction \<Rightarrow> MotionLifecycleAction \<times> MotionLifecycleCoordinator" where
  [lifecycle_defs]: "handle_invalid_command c t =
     (let c = c\<lparr>reliable_receiver := motion_reliable_receiver_record_immediate_terminal t
                  MOTION_RESPONSE_INVALID_COMMAND (reliable_receiver c)\<rparr>
      in (motion_lifecycle_action_none\<lparr>send_ack := True, ack_transaction := t, send_response := True,
            response_transaction := t, response_result := MOTION_RESPONSE_INVALID_COMMAND\<rparr>, c))"

subsection \<open>The two entry points\<close>

definition motion_lifecycle_coordinator_complete_operation ::
  "MotionLifecycleCoordinator \<Rightarrow> u32 \<Rightarrow> MotionLifecycleOperationResult \<Rightarrow>
     MotionLifecycleAction \<times> MotionLifecycleCoordinator" where
  [lifecycle_defs]: "motion_lifecycle_coordinator_complete_operation c operation_id result =
     (let action = motion_lifecycle_action_none in
      if operation_id = 0 \<or> operation_id \<noteq> active_operation_id c then (action, c)
      else if \<not> pending_valid (reliable_receiver c) then (action, c)
      else if lifecycle_state c \<noteq> MOTION_LIFECYCLE_STATE_STARTING \<and>
              lifecycle_state c \<noteq> MOTION_LIFECYCLE_STATE_ENDING then (action, c)
      else
        let c = c\<lparr>active_operation_id := 0\<rparr>;
            transaction = pending_transaction (reliable_receiver c)
        in if lifecycle_state c = MOTION_LIFECYCLE_STATE_ENDING then
             let res = (if result = MOTION_LIFECYCLE_OPERATION_RESULT_SUCCESS
                        then MOTION_RESPONSE_OK else MOTION_RESPONSE_STOP_FAILED);
                 c = c\<lparr>lifecycle_state := MOTION_LIFECYCLE_STATE_NO_SESSION, motion_session_id := 0\<rparr>;
                 c = c\<lparr>reliable_receiver := snd (motion_reliable_receiver_complete_pending
                            transaction res (reliable_receiver c))\<rparr>
             in (action\<lparr>send_response := True, response_transaction := transaction,
                   response_result := res\<rparr>, c)
           else
             let (res, c) =
                   (if result = MOTION_LIFECYCLE_OPERATION_RESULT_SUCCESS
                    then (MOTION_RESPONSE_OK, c\<lparr>lifecycle_state := MOTION_LIFECYCLE_STATE_ACTIVE\<rparr>)
                    else (MOTION_RESPONSE_STOP_FAILED,
                          c\<lparr>lifecycle_state := MOTION_LIFECYCLE_STATE_NO_SESSION, motion_session_id := 0\<rparr>));
                 c = c\<lparr>reliable_receiver := snd (motion_reliable_receiver_complete_pending
                            transaction res (reliable_receiver c))\<rparr>
             in (action\<lparr>send_response := True, response_transaction := transaction,
                   response_result := res\<rparr>, c))"

text \<open>The tests that follow the switch.\<close>

definition handle_new_transaction ::
  "MotionLifecycleCoordinator \<Rightarrow> MotionTransaction \<Rightarrow> MotionLifecycleAction \<times> MotionLifecycleCoordinator" where
  "handle_new_transaction c t =
     (if lifecycle_state c = MOTION_LIFECYCLE_STATE_STARTING \<and>
         tx_command t = MOTION_LIFECYCLE_COMMAND_START_SESSION
      then handle_start_while_starting c t
      else if lifecycle_state c = MOTION_LIFECYCLE_STATE_NO_SESSION \<and>
         tx_command t = MOTION_LIFECYCLE_COMMAND_START_SESSION
      then handle_start_no_session c t
      else if lifecycle_state c = MOTION_LIFECYCLE_STATE_NO_SESSION \<and>
         tx_command t = MOTION_LIFECYCLE_COMMAND_END_SESSION
      then handle_end_no_session c t
      else if lifecycle_state c = MOTION_LIFECYCLE_STATE_STARTING \<and>
         tx_command t = MOTION_LIFECYCLE_COMMAND_END_SESSION \<and>
         tx_motion_session_id t = motion_session_id c
      then handle_end_while_starting c t
      else if lifecycle_state c = MOTION_LIFECYCLE_STATE_STARTING \<and>
         tx_command t = MOTION_LIFECYCLE_COMMAND_END_SESSION
      then handle_end_session_mismatch_while_starting c t
      else if lifecycle_state c = MOTION_LIFECYCLE_STATE_ENDING \<and>
         tx_command t = MOTION_LIFECYCLE_COMMAND_START_SESSION
      then handle_start_while_ending c t
      else if lifecycle_state c = MOTION_LIFECYCLE_STATE_ENDING \<and>
         tx_command t = MOTION_LIFECYCLE_COMMAND_END_SESSION \<and>
         tx_motion_session_id t = motion_session_id c
      then handle_end_while_ending c t
      else if lifecycle_state c = MOTION_LIFECYCLE_STATE_ENDING \<and>
         tx_command t = MOTION_LIFECYCLE_COMMAND_END_SESSION
      then handle_end_session_mismatch_while_ending c t
      else if tx_command t \<noteq> MOTION_LIFECYCLE_COMMAND_START_SESSION \<and>
         tx_command t \<noteq> MOTION_LIFECYCLE_COMMAND_END_SESSION
      then handle_invalid_command c t
      else (motion_lifecycle_action_none, c))"

definition motion_lifecycle_coordinator_handle_transaction ::
  "MotionLifecycleCoordinator \<Rightarrow> MotionTransaction \<Rightarrow> MotionLifecycleAction \<times> MotionLifecycleCoordinator" where
  "motion_lifecycle_coordinator_handle_transaction c t =
     (let action = motion_lifecycle_action_none in
      case motion_reliable_receiver_classify (Some (reliable_receiver c)) (Some t) of
        MOTION_RELIABLE_DECISION_PENDING_RETRY \<Rightarrow>
          (action\<lparr>send_ack := True, ack_transaction := t\<rparr>, c)
      | MOTION_RELIABLE_DECISION_NEW \<Rightarrow>
          if lifecycle_state c = MOTION_LIFECYCLE_STATE_ACTIVE \<and>
             tx_command t = MOTION_LIFECYCLE_COMMAND_START_SESSION \<and>
             tx_motion_session_id t = motion_session_id c
          then handle_start_already_active c t
          else if lifecycle_state c = MOTION_LIFECYCLE_STATE_ACTIVE \<and>
             tx_command t = MOTION_LIFECYCLE_COMMAND_START_SESSION
          then handle_start_replacing_active c t
          else if lifecycle_state c = MOTION_LIFECYCLE_STATE_ACTIVE \<and>
             tx_command t = MOTION_LIFECYCLE_COMMAND_END_SESSION \<and>
             tx_motion_session_id t = motion_session_id c
          then handle_end_active c t
          else if lifecycle_state c = MOTION_LIFECYCLE_STATE_ACTIVE \<and>
             tx_command t = MOTION_LIFECYCLE_COMMAND_END_SESSION
          then handle_end_session_mismatch c t
          else handle_new_transaction c t
      | MOTION_RELIABLE_DECISION_COMPLETED_RETRY \<Rightarrow>
          (action\<lparr>send_ack := True, ack_transaction := terminal_transaction (reliable_receiver c),
             send_response := True,
             response_transaction := terminal_transaction (reliable_receiver c),
             response_result := terminal_result (reliable_receiver c)\<rparr>, c)
      | _ \<Rightarrow> (action, c))"

lemmas handle_defs = motion_lifecycle_coordinator_handle_transaction_def handle_new_transaction_def

end
