(* ===== verification/Lifecycle_Correctness.thy ===== *)
theory Lifecycle_Correctness
  imports Motion_Lifecycle "HOL-Library.Multiset"
begin

section \<open>The coordinator implements the session table\<close>

text \<open>
  An abstract session machine in the shape of the transition table, and the proof that
  the chain of tests and handlers of the coordinator implements it. The invariant of the
  coordinator, the accounting of accepted commands and the retry behaviour are then
  proved from the table.
\<close>

subsection \<open>The session table\<close>

datatype session = No_Session | Starting u32 | Active u32 | Ending u32

datatype verdict =
    Answer u8      \<comment> \<open>acknowledge and respond at once\<close>
  | Begin          \<comment> \<open>acknowledge, start a stop operation, respond when it completes\<close>
  | Supersede      \<comment> \<open>acknowledge, take over the running stop operation\<close>

fun session_on_start :: "session \<Rightarrow> u32 \<Rightarrow> verdict \<times> session" where
  "session_on_start No_Session sid = (Begin, Starting sid)"
| "session_on_start (Starting a) sid = (Supersede, Starting sid)"
| "session_on_start (Active a) sid =
     (if sid = a then (Answer MOTION_RESPONSE_ALREADY_ACTIVE, Active a) else (Begin, Starting sid))"
| "session_on_start (Ending a) sid = (Answer MOTION_RESPONSE_BUSY_STOPPING, Ending a)"

fun session_on_end :: "session \<Rightarrow> u32 \<Rightarrow> verdict \<times> session" where
  "session_on_end No_Session sid = (Answer MOTION_RESPONSE_ALREADY_ENDED, No_Session)"
| "session_on_end (Starting a) sid =
     (if sid = a then (Supersede, Ending a) else (Answer MOTION_RESPONSE_SESSION_MISMATCH, Starting a))"
| "session_on_end (Active a) sid =
     (if sid = a then (Begin, Ending a) else (Answer MOTION_RESPONSE_SESSION_MISMATCH, Active a))"
| "session_on_end (Ending a) sid =
     (if sid = a then (Supersede, Ending a) else (Answer MOTION_RESPONSE_SESSION_MISMATCH, Ending a))"

definition session_on_command :: "session \<Rightarrow> MotionTransaction \<Rightarrow> verdict \<times> session" where
  "session_on_command s t =
     (if tx_command t = MOTION_LIFECYCLE_COMMAND_START_SESSION
      then session_on_start s (tx_motion_session_id t)
      else if tx_command t = MOTION_LIFECYCLE_COMMAND_END_SESSION
      then session_on_end s (tx_motion_session_id t)
      else (Answer MOTION_RESPONSE_INVALID_COMMAND, s))"

fun session_on_stopped :: "session \<Rightarrow> MotionLifecycleOperationResult \<Rightarrow> u8 \<times> session" where
  "session_on_stopped (Starting a) MOTION_LIFECYCLE_OPERATION_RESULT_SUCCESS = (MOTION_RESPONSE_OK, Active a)"
| "session_on_stopped _ MOTION_LIFECYCLE_OPERATION_RESULT_SUCCESS = (MOTION_RESPONSE_OK, No_Session)"
| "session_on_stopped _ MOTION_LIFECYCLE_OPERATION_RESULT_FAILED = (MOTION_RESPONSE_STOP_FAILED, No_Session)"

text \<open>The session a coordinator is in, and the coordinator put into a session.\<close>

fun session_of :: "MotionLifecycleCoordinator \<Rightarrow> session" where
  "session_of c =
     (case lifecycle_state c of
        MOTION_LIFECYCLE_STATE_NO_SESSION \<Rightarrow> No_Session
      | MOTION_LIFECYCLE_STATE_STARTING \<Rightarrow> Starting (motion_session_id c)
      | MOTION_LIFECYCLE_STATE_ACTIVE \<Rightarrow> Active (motion_session_id c)
      | MOTION_LIFECYCLE_STATE_ENDING \<Rightarrow> Ending (motion_session_id c))"

fun enter_session :: "session \<Rightarrow> MotionLifecycleCoordinator \<Rightarrow> MotionLifecycleCoordinator" where
  "enter_session No_Session c =
     c\<lparr>lifecycle_state := MOTION_LIFECYCLE_STATE_NO_SESSION, motion_session_id := 0\<rparr>"
| "enter_session (Starting a) c =
     c\<lparr>lifecycle_state := MOTION_LIFECYCLE_STATE_STARTING, motion_session_id := a\<rparr>"
| "enter_session (Active a) c =
     c\<lparr>lifecycle_state := MOTION_LIFECYCLE_STATE_ACTIVE, motion_session_id := a\<rparr>"
| "enter_session (Ending a) c =
     c\<lparr>lifecycle_state := MOTION_LIFECYCLE_STATE_ENDING, motion_session_id := a\<rparr>"

text \<open>What a verdict makes of the coordinator and the action.\<close>

definition new_operation_id :: "u32 \<Rightarrow> u32" where
  "new_operation_id n = (if n + 1 = 0 then 1 else n + 1)"

fun carry_out :: "verdict \<times> session \<Rightarrow> MotionTransaction \<Rightarrow> MotionLifecycleCoordinator \<Rightarrow>
    MotionLifecycleAction \<times> MotionLifecycleCoordinator" where
  "carry_out (Answer r, s) t c =
     (motion_lifecycle_action_none\<lparr>send_ack := True, ack_transaction := t, send_response := True,
        response_transaction := t, response_result := r\<rparr>,
      c\<lparr>reliable_receiver := motion_reliable_receiver_record_immediate_terminal t r (reliable_receiver c)\<rparr>)"
| "carry_out (Begin, s) t c =
     (let i = new_operation_id (next_operation_id c) in
      (motion_lifecycle_action_none\<lparr>send_ack := True, ack_transaction := t,
         act_operation := MOTION_LIFECYCLE_OPERATION_ENSURE_STOPPED, act_operation_id := i\<rparr>,
       (enter_session s c)\<lparr>reliable_receiver := motion_reliable_receiver_begin_pending t (reliable_receiver c),
         next_operation_id := i, active_operation_id := i\<rparr>))"
| "carry_out (Supersede, s) t c =
     (motion_lifecycle_action_none\<lparr>send_ack := True, ack_transaction := t, send_response := True,
        response_transaction := pending_transaction (reliable_receiver c),
        response_result := MOTION_RESPONSE_SUPERSEDED\<rparr>,
      (enter_session s c)\<lparr>reliable_receiver := motion_reliable_receiver_begin_pending t (reliable_receiver c)\<rparr>)"

lemma session_of_enter [simp]:
  "session_of (enter_session s c) = s"
  by (cases s) simp_all

lemma begin_new_operation_id:
  "begin_new_operation c =
     (let i = new_operation_id (next_operation_id c)
      in (i, c\<lparr>next_operation_id := i, active_operation_id := i\<rparr>))"
  by (simp add: begin_new_operation_def new_operation_id_def Let_def)

lemma new_operation_id_nonzero [simp]: "new_operation_id n \<noteq> 0"
  by (simp add: new_operation_id_def)

subsection \<open>The handlers implement the table\<close>

abbreviation (input) decision :: "MotionLifecycleCoordinator \<Rightarrow> MotionTransaction \<Rightarrow> MotionReliableDecision" where
  "decision c t \<equiv> motion_reliable_receiver_classify (Some (reliable_receiver c)) (Some t)"

lemma handle_new:
  assumes "decision c t = MOTION_RELIABLE_DECISION_NEW"
  shows "motion_lifecycle_coordinator_handle_transaction c t =
    carry_out (session_on_command (session_of c) t) t c"
proof (cases "lifecycle_state c")
  case MOTION_LIFECYCLE_STATE_NO_SESSION
  with assms show ?thesis
    by (simp add: handle_defs session_on_command_def lifecycle_defs begin_new_operation_id
        del: begin_new_operation_def, cases c, simp add: Let_def new_operation_id_def)
next
  case MOTION_LIFECYCLE_STATE_STARTING
  with assms show ?thesis
    by (cases c) (simp add: handle_defs session_on_command_def lifecycle_defs)
next
  case MOTION_LIFECYCLE_STATE_ACTIVE
  with assms show ?thesis
    by (cases c) (simp add: handle_defs session_on_command_def lifecycle_defs Let_def new_operation_id_def)
next
  case MOTION_LIFECYCLE_STATE_ENDING
  with assms show ?thesis
    by (cases c) (simp add: handle_defs session_on_command_def lifecycle_defs)
qed

lemma handle_retry:
  "decision c t = MOTION_RELIABLE_DECISION_PENDING_RETRY \<Longrightarrow>
     motion_lifecycle_coordinator_handle_transaction c t =
       (motion_lifecycle_action_none\<lparr>send_ack := True, ack_transaction := t\<rparr>, c)"
  "decision c t = MOTION_RELIABLE_DECISION_COMPLETED_RETRY \<Longrightarrow>
     motion_lifecycle_coordinator_handle_transaction c t =
       (motion_lifecycle_action_none\<lparr>send_ack := True, ack_transaction := t, send_response := True,
          response_transaction := t, response_result := terminal_result (reliable_receiver c)\<rparr>, c)"
  using classify_completed_retry [of "reliable_receiver c" t]
  by (simp_all add: motion_lifecycle_coordinator_handle_transaction_def)

lemma handle_ignored:
  assumes "decision c t \<in> {MOTION_RELIABLE_DECISION_INVALID, MOTION_RELIABLE_DECISION_STALE,
    MOTION_RELIABLE_DECISION_COLLISION}"
  shows "motion_lifecycle_coordinator_handle_transaction c t = (motion_lifecycle_action_none, c)"
  using assms by (auto simp: motion_lifecycle_coordinator_handle_transaction_def)

subsection \<open>The invariant of the coordinator\<close>

definition stopping :: "session \<Rightarrow> bool" where
  "stopping s \<longleftrightarrow> (\<exists>a. s = Starting a \<or> s = Ending a)"

definition pending_matches :: "session \<Rightarrow> MotionTransaction \<Rightarrow> bool" where
  "pending_matches s t \<longleftrightarrow>
     (case s of
        Starting a \<Rightarrow> tx_command t = MOTION_LIFECYCLE_COMMAND_START_SESSION \<and> tx_motion_session_id t = a
      | Ending a \<Rightarrow> tx_command t = MOTION_LIFECYCLE_COMMAND_END_SESSION \<and> tx_motion_session_id t = a
      | _ \<Rightarrow> True)"

definition coordinator_wf :: "MotionLifecycleCoordinator \<Rightarrow> bool" where
  "coordinator_wf c \<longleftrightarrow>
     receiver_wf (reliable_receiver c) \<and>
     (pending_valid (reliable_receiver c) \<longleftrightarrow> stopping (session_of c)) \<and>
     (active_operation_id c \<noteq> 0 \<longleftrightarrow> stopping (session_of c)) \<and>
     (active_operation_id c \<noteq> 0 \<longrightarrow> active_operation_id c = next_operation_id c) \<and>
     pending_matches (session_of c) (pending_transaction (reliable_receiver c)) \<and>
     (session_of c = No_Session \<longrightarrow> motion_session_id c = 0)"

lemma stopping_simps [simp]:
  "\<not> stopping No_Session" "stopping (Starting a)" "\<not> stopping (Active a)" "stopping (Ending a)"
  by (simp_all add: stopping_def)

lemma pending_matches_simps [simp]:
  "pending_matches No_Session t" "pending_matches (Active a) t"
  "pending_matches (Starting a) t \<longleftrightarrow>
     tx_command t = MOTION_LIFECYCLE_COMMAND_START_SESSION \<and> tx_motion_session_id t = a"
  "pending_matches (Ending a) t \<longleftrightarrow>
     tx_command t = MOTION_LIFECYCLE_COMMAND_END_SESSION \<and> tx_motion_session_id t = a"
  by (simp_all add: pending_matches_def)

lemma session_of_frame [simp]:
  "session_of (c\<lparr>reliable_receiver := r\<rparr>) = session_of c"
  "session_of (c\<lparr>next_operation_id := i\<rparr>) = session_of c"
  "session_of (c\<lparr>active_operation_id := i\<rparr>) = session_of c"
  by (simp_all split: MotionLifecycleState.split)

lemma enter_session_frame [simp]:
  "reliable_receiver (enter_session s c) = reliable_receiver c"
  "next_operation_id (enter_session s c) = next_operation_id c"
  "active_operation_id (enter_session s c) = active_operation_id c"
  by (cases s; simp)+

declare session_of.simps [simp del]

lemma receiver_frame [simp]:
  "pending_valid (motion_reliable_receiver_begin_pending t r)"
  "pending_transaction (motion_reliable_receiver_begin_pending t r) = t"
  "\<not> terminal_valid (motion_reliable_receiver_begin_pending t r)"
  "pending_valid (motion_reliable_receiver_record_immediate_terminal t res r) = pending_valid r"
  "pending_transaction (motion_reliable_receiver_record_immediate_terminal t res r) = pending_transaction r"
  "terminal_result (motion_reliable_receiver_record_immediate_terminal t res r) = res"
  by (simp_all add: receiver_defs)

text \<open>The shape of the table: what each verdict leads to.\<close>

lemma session_verdicts:
  assumes "session_on_command s t = (v, s')"
  shows "(\<exists>r. v = Answer r) \<and> s' = s \<or>
    v = Begin \<and> \<not> stopping s \<and> stopping s' \<and> pending_matches s' t \<or>
    v = Supersede \<and> stopping s \<and> stopping s' \<and> pending_matches s' t"
  using assms by (cases s) (auto simp: session_on_command_def split: if_splits)

lemma stopping_not_none: "stopping s \<Longrightarrow> s \<noteq> No_Session"
  by auto

lemma coordinator_wf_init [simp]: "coordinator_wf motion_lifecycle_coordinator_init"
  by (simp add: coordinator_wf_def motion_lifecycle_coordinator_init_def session_of.simps
      receiver_wf_def motion_reliable_receiver_init_def)

lemma coordinator_wf_reset [simp]: "coordinator_wf (motion_lifecycle_coordinator_reset c)"
  by (simp add: coordinator_wf_def motion_lifecycle_coordinator_reset_def session_of.simps receiver_defs
      receiver_wf_def)

lemma coordinator_wf_carry_out:
  assumes "coordinator_wf c"
  shows "coordinator_wf (snd (carry_out (session_on_command (session_of c) t) t c))"
proof -
  obtain v s where vs: "session_on_command (session_of c) t = (v, s)" by fastforce
  from session_verdicts [OF this] consider
      r where "v = Answer r" "s = session_of c"
    | "v = Begin" "\<not> stopping (session_of c)" "stopping s" "pending_matches s t"
    | "v = Supersede" "stopping (session_of c)" "stopping s" "pending_matches s t"
    by blast
  then show ?thesis
    by cases (use assms vs stopping_not_none in \<open>auto simp: coordinator_wf_def Let_def\<close>)
qed

lemma coordinator_wf_handle:
  assumes "coordinator_wf c"
  shows "coordinator_wf (snd (motion_lifecycle_coordinator_handle_transaction c t))"
proof (cases "decision c t")
  case MOTION_RELIABLE_DECISION_NEW
  then show ?thesis using coordinator_wf_carry_out [OF assms] by (simp add: handle_new)
qed (use assms in \<open>simp_all add: handle_retry handle_ignored\<close>)

text \<open>Completion of the stop operation.\<close>

lemma complete_ignored:
  assumes "operation_id = 0 \<or> operation_id \<noteq> active_operation_id c"
  shows "motion_lifecycle_coordinator_complete_operation c operation_id result =
    (motion_lifecycle_action_none, c)"
  using assms by (auto simp: motion_lifecycle_coordinator_complete_operation_def)

lemma complete_active:
  assumes "coordinator_wf c" and "operation_id = active_operation_id c" and "operation_id \<noteq> 0"
    and "session_on_stopped (session_of c) result = (r, s)"
  shows "motion_lifecycle_coordinator_complete_operation c operation_id result =
    (motion_lifecycle_action_none\<lparr>send_response := True,
       response_transaction := pending_transaction (reliable_receiver c), response_result := r\<rparr>,
     (enter_session s c)\<lparr>active_operation_id := 0,
       reliable_receiver := snd (motion_reliable_receiver_complete_pending
         (pending_transaction (reliable_receiver c)) r (reliable_receiver c))\<rparr>)"
proof -
  from assms have st: "stopping (session_of c)" and pend: "pending_valid (reliable_receiver c)"
    by (auto simp: coordinator_wf_def)
  consider "lifecycle_state c = MOTION_LIFECYCLE_STATE_STARTING" "session_of c = Starting (motion_session_id c)"
    | "lifecycle_state c = MOTION_LIFECYCLE_STATE_ENDING" "session_of c = Ending (motion_session_id c)"
    using st by (cases "lifecycle_state c") (simp_all add: session_of.simps)
  then show ?thesis
  proof cases
    case 1
    with assms(2-4) pend show ?thesis
      by (cases result) (auto simp: motion_lifecycle_coordinator_complete_operation_def Let_def
          intro!: MotionLifecycleCoordinator.equality)
  next
    case 2
    with assms(2-4) pend show ?thesis
      by (cases result) (auto simp: motion_lifecycle_coordinator_complete_operation_def Let_def
          intro!: MotionLifecycleCoordinator.equality)
  qed
qed

lemma pending_completed [simp]:
  "pending_valid r \<Longrightarrow>
     \<not> pending_valid (snd (motion_reliable_receiver_complete_pending (pending_transaction r) res r))"
  by (simp add: motion_reliable_receiver_complete_pending_def Let_def)

lemma session_on_stopped_not_stopping:
  "session_on_stopped s result = (r, s') \<Longrightarrow> \<not> stopping s'"
  by (cases "(s, result)" rule: session_on_stopped.cases) auto

lemma coordinator_wf_complete:
  assumes "coordinator_wf c"
  shows "coordinator_wf (snd (motion_lifecycle_coordinator_complete_operation c operation_id result))"
proof (cases "operation_id = 0 \<or> operation_id \<noteq> active_operation_id c")
  case True
  with assms show ?thesis by (simp add: complete_ignored)
next
  case False
  obtain r s where rs: "session_on_stopped (session_of c) result = (r, s)" by fastforce
  have st: "stopping (session_of c)" "pending_valid (reliable_receiver c)"
    using False assms by (auto simp: coordinator_wf_def)
  have "\<not> stopping s" by (rule session_on_stopped_not_stopping [OF rs])
  moreover from this have "pending_matches s t" for t by (cases s) auto
  moreover have "s = No_Session \<Longrightarrow> motion_session_id (enter_session s c) = 0" by simp
  moreover have "motion_lifecycle_coordinator_complete_operation c operation_id result =
    (motion_lifecycle_action_none\<lparr>send_response := True,
       response_transaction := pending_transaction (reliable_receiver c), response_result := r\<rparr>,
     (enter_session s c)\<lparr>active_operation_id := 0,
       reliable_receiver := snd (motion_reliable_receiver_complete_pending
         (pending_transaction (reliable_receiver c)) r (reliable_receiver c))\<rparr>)"
    using False by (intro complete_active [OF assms _ _ rs]) auto
  ultimately show ?thesis
    using assms st by (simp add: coordinator_wf_def)
qed

end
