(* ===== verification/Lifecycle_Runs.thy ===== *)
theory Lifecycle_Runs
  imports Lifecycle_Correctness
begin

section \<open>Runs of the coordinator\<close>

text \<open>
  The coordinator under any sequence of received commands, completions and resets: which
  states are reachable, what becomes of every accepted command, what a retry does and
  when a stop operation is started.
\<close>

datatype lifecycle_event =
    Receive MotionTransaction
  | Complete u32 MotionLifecycleOperationResult
  | Reset

fun coordinator_step :: "lifecycle_event \<Rightarrow> MotionLifecycleCoordinator \<Rightarrow>
    MotionLifecycleAction \<times> MotionLifecycleCoordinator" where
  "coordinator_step (Receive t) c = motion_lifecycle_coordinator_handle_transaction c t"
| "coordinator_step (Complete i r) c = motion_lifecycle_coordinator_complete_operation c i r"
| "coordinator_step Reset c = (motion_lifecycle_action_none, motion_lifecycle_coordinator_reset c)"

inductive lifecycle_transition :: "MotionLifecycleCoordinator \<Rightarrow> MotionLifecycleCoordinator \<Rightarrow> bool" where
  "lifecycle_transition c (snd (coordinator_step e c))"

inductive_cases lifecycle_transitionE: "lifecycle_transition c c'"

abbreviation (input) lifecycle_reachable :: "MotionLifecycleCoordinator \<Rightarrow> bool" where
  "lifecycle_reachable \<equiv>
     reachable (\<lambda>c. c = motion_lifecycle_coordinator_init) lifecycle_transition"

lemma coordinator_wf_step: "coordinator_wf c \<Longrightarrow> coordinator_wf (snd (coordinator_step e c))"
  by (cases e) (simp_all add: coordinator_wf_handle coordinator_wf_complete)

interpretation lifecycle: inductive_invariant
  "\<lambda>c. c = motion_lifecycle_coordinator_init" lifecycle_transition coordinator_wf
  by unfold_locales (auto elim!: lifecycle_transitionE simp: coordinator_wf_step)

primrec coordinator_run :: "lifecycle_event list \<Rightarrow> MotionLifecycleCoordinator \<Rightarrow> MotionLifecycleCoordinator" where
  "coordinator_run [] c = c"
| "coordinator_run (e # es) c = coordinator_run es (snd (coordinator_step e c))"

lemma coordinator_wf_run: "coordinator_wf c \<Longrightarrow> coordinator_wf (coordinator_run es c)"
  by (induction es arbitrary: c) (simp_all add: coordinator_wf_step)

subsection \<open>Accounting of accepted commands\<close>

text \<open>
  A command is accepted when it is classified as new. It is settled by a response other
  than the repetition of an earlier one, or abandoned when a reset forgets it.
\<close>

fun accepted :: "lifecycle_event \<Rightarrow> MotionLifecycleCoordinator \<Rightarrow> MotionTransaction multiset" where
  "accepted (Receive t) c =
     (if decision c t = MOTION_RELIABLE_DECISION_NEW then {#t#} else {#})"
| "accepted _ c = {#}"

fun settled :: "lifecycle_event \<Rightarrow> MotionLifecycleCoordinator \<Rightarrow> MotionTransaction multiset" where
  "settled (Receive t) c =
     (let action = fst (coordinator_step (Receive t) c)
      in if decision c t = MOTION_RELIABLE_DECISION_NEW \<and> send_response action
         then {#response_transaction action#} else {#})"
| "settled (Complete i r) c =
     (let action = fst (coordinator_step (Complete i r) c)
      in if send_response action then {#response_transaction action#} else {#})"
| "settled Reset c = {#}"

definition pending :: "MotionLifecycleCoordinator \<Rightarrow> MotionTransaction multiset" where
  "pending c = (if pending_valid (reliable_receiver c)
     then {#pending_transaction (reliable_receiver c)#} else {#})"

fun abandoned :: "lifecycle_event \<Rightarrow> MotionLifecycleCoordinator \<Rightarrow> MotionTransaction multiset" where
  "abandoned Reset c = pending c"
| "abandoned _ c = {#}"

primrec run_total ::
  "(lifecycle_event \<Rightarrow> MotionLifecycleCoordinator \<Rightarrow> MotionTransaction multiset) \<Rightarrow>
     lifecycle_event list \<Rightarrow> MotionLifecycleCoordinator \<Rightarrow> MotionTransaction multiset" where
  "run_total f [] c = {#}"
| "run_total f (e # es) c = f e c + run_total f es (snd (coordinator_step e c))"

lemma action_none_simps [simp]:
  "\<not> send_ack motion_lifecycle_action_none" "\<not> send_response motion_lifecycle_action_none"
  "act_operation motion_lifecycle_action_none = MOTION_LIFECYCLE_OPERATION_NONE"
  by (simp_all add: motion_lifecycle_action_none_def)

lemma balance_new:
  assumes "coordinator_wf c" and "carry_out (session_on_command (session_of c) t) t c = (a, c')"
  shows "{#t#} + pending c = (if send_response a then {#response_transaction a#} else {#}) + pending c'"
proof -
  obtain v s where vs: "session_on_command (session_of c) t = (v, s)" by fastforce
  from session_verdicts [OF this] consider
      r where "v = Answer r" | "v = Begin" "\<not> stopping (session_of c)"
    | "v = Supersede" "stopping (session_of c)" by blast
  then show ?thesis
    by cases (use assms vs in \<open>auto simp: pending_def coordinator_wf_def Let_def\<close>)
qed

lemma balance_complete:
  assumes "coordinator_wf c"
  shows "pending c = settled (Complete i r) c + pending (snd (coordinator_step (Complete i r) c))"
proof (cases "i = 0 \<or> i \<noteq> active_operation_id c")
  case True
  then show ?thesis by (simp add: complete_ignored)
next
  case False
  obtain res s where rs: "session_on_stopped (session_of c) r = (res, s)" by fastforce
  from False have "i = active_operation_id c" "i \<noteq> 0" by auto
  from complete_active [OF assms this rs] False assms show ?thesis
    by (auto simp: pending_def coordinator_wf_def)
qed

lemma balance_step:
  assumes "coordinator_wf c"
  shows "accepted e c + pending c =
    settled e c + abandoned e c + pending (snd (coordinator_step e c))"
proof (cases e)
  case (Receive t)
  obtain a c' where "carry_out (session_on_command (session_of c) t) t c = (a, c')" by fastforce
  with balance_new [OF assms this] Receive show ?thesis
    by (cases "decision c t") (simp_all add: handle_new handle_retry handle_ignored)
next
  case (Complete i r)
  with balance_complete [OF assms, of i r] show ?thesis by simp
next
  case Reset
  then show ?thesis by (simp add: pending_def motion_lifecycle_coordinator_reset_def receiver_defs)
qed

lemma balance_run:
  assumes "coordinator_wf c"
  shows "run_total accepted es c + pending c =
    run_total settled es c + run_total abandoned es c + pending (coordinator_run es c)"
  using assms
proof (induction es arbitrary: c)
  case (Cons e es)
  let ?c = "snd (coordinator_step e c)"
  have "run_total accepted es ?c + pending ?c =
      run_total settled es ?c + run_total abandoned es ?c + pending (coordinator_run es ?c)"
    using Cons.prems by (intro Cons.IH coordinator_wf_step)
  with balance_step [OF Cons.prems, of e] show ?case
    by (simp add: ac_simps) (metis (no_types, lifting) add.assoc add.commute)
qed simp

subsection \<open>Operation identifiers\<close>

text \<open>The \<open>n\<close>-th identifier: the counter never stands at zero after the first one.\<close>

primrec operation_id_after :: "nat \<Rightarrow> u32" where
  "operation_id_after 0 = 0"
| "operation_id_after (Suc n) = new_operation_id (operation_id_after n)"

lemma operation_id_closed_form:
  "unat (operation_id_after (Suc n)) = n mod (2 ^ 32 - 1) + 1"
proof (induction n)
  case 0
  then show ?case by (simp add: new_operation_id_def)
next
  case (Suc n)
  let ?i = "operation_id_after (Suc n)"
  show ?case
  proof (cases "n mod (2 ^ 32 - 1) = 2 ^ 32 - 2")
    case True
    then have "unat ?i = 2 ^ 32 - 1" using Suc by simp
    then have "of_nat (unat ?i) = (of_nat (2 ^ 32 - 1) :: u32)" by (simp only:)
    then have "?i = - 1" by simp
    then have "operation_id_after (Suc (Suc n)) = 1"
      by (simp add: new_operation_id_def)
    moreover have "Suc n mod (2 ^ 32 - 1) = 0" using True by (simp add: mod_Suc)
    ultimately show ?thesis by simp
  next
    case False
    then have "n mod 4294967295 \<noteq> 4294967294" by simp
    moreover have "n mod 4294967295 < 4294967295" by simp
    ultimately have "n mod 4294967295 + 2 < 4294967296" by linarith
    then have lt: "unat ?i + 1 < 2 ^ 32"
      using Suc by (simp del: operation_id_after.simps)
    then have "unat (?i + 1) = unat ?i + 1" by (simp add: unat_add_lem [THEN iffD1])
    moreover from this have "?i + 1 \<noteq> 0" by (metis unat_0 add_is_0 zero_neq_one)
    moreover have "Suc n mod (2 ^ 32 - 1) = Suc (n mod (2 ^ 32 - 1))"
      using False by (simp add: mod_Suc)
    ultimately show ?thesis using Suc by (simp add: new_operation_id_def)
  qed
qed

lemma operation_id_inj:
  assumes "i < j" and "j < i + (2 ^ 32 - 1)"
  shows "operation_id_after (Suc i) \<noteq> operation_id_after (Suc j)"
proof
  assume "operation_id_after (Suc i) = operation_id_after (Suc j)"
  then have "i mod (2 ^ 32 - 1) = j mod (2 ^ 32 - 1)"
    using operation_id_closed_form by (metis add_right_cancel)
  then have "(2 ^ 32 - 1) dvd j - i" using assms(1) by (metis mod_eq_dvd_iff_nat less_imp_le)
  with assms show False by (auto dest: dvd_imp_le)
qed

text \<open>The identifier counter follows this sequence whatever happens.\<close>

definition starts_operation :: "lifecycle_event \<Rightarrow> MotionLifecycleCoordinator \<Rightarrow> bool" where
  "starts_operation e c \<longleftrightarrow>
     act_operation (fst (coordinator_step e c)) = MOTION_LIFECYCLE_OPERATION_ENSURE_STOPPED"

lemma carry_out_operation:
  assumes "carry_out (v, s) t c = (a, c')"
  shows "act_operation a = MOTION_LIFECYCLE_OPERATION_ENSURE_STOPPED \<longleftrightarrow> v = Begin"
    and "v = Begin \<Longrightarrow> act_operation_id a = new_operation_id (next_operation_id c) \<and>
      next_operation_id c' = act_operation_id a \<and> active_operation_id c' = act_operation_id a"
    and "v \<noteq> Begin \<Longrightarrow> next_operation_id c' = next_operation_id c"
  using assms by (cases v; auto simp: Let_def)+

lemma step_operation_id:
  "next_operation_id (snd (coordinator_step e c)) =
     (if starts_operation e c then new_operation_id (next_operation_id c) else next_operation_id c)"
proof (cases e)
  case (Receive t)
  obtain v s a c' where vs: "session_on_command (session_of c) t = (v, s)"
    and co: "carry_out (v, s) t c = (a, c')" by fastforce
  show ?thesis
    using Receive vs co carry_out_operation [OF co]
    by (cases "decision c t"; cases "v = Begin")
       (simp_all add: starts_operation_def handle_new handle_retry handle_ignored)
next
  case (Complete i r)
  then show ?thesis
    by (simp add: starts_operation_def motion_lifecycle_coordinator_complete_operation_def Let_def)
next
  case Reset
  then show ?thesis by (simp add: starts_operation_def motion_lifecycle_coordinator_reset_def)
qed

primrec operations_started :: "lifecycle_event list \<Rightarrow> MotionLifecycleCoordinator \<Rightarrow> nat" where
  "operations_started [] c = 0"
| "operations_started (e # es) c =
     (if starts_operation e c then 1 else 0) + operations_started es (snd (coordinator_step e c))"

lemma run_operation_id:
  "next_operation_id c = operation_id_after n \<Longrightarrow>
     next_operation_id (coordinator_run es c) = operation_id_after (n + operations_started es c)"
proof (induction es arbitrary: c n)
  case (Cons e es)
  show ?case
  proof (cases "starts_operation e c")
    case True
    then have "next_operation_id (snd (coordinator_step e c)) = operation_id_after (Suc n)"
      using Cons.prems by (simp add: step_operation_id)
    from Cons.IH [OF this] True show ?thesis by simp
  next
    case False
    then show ?thesis using Cons by (simp add: step_operation_id)
  qed
qed simp

subsection \<open>Reachable coordinators\<close>

lemma run_reachable: "lifecycle_reachable c \<Longrightarrow> lifecycle_reachable (coordinator_run es c)"
  by (induction es arbitrary: c) (auto intro: reachable_step lifecycle_transition.intros)

lemma init_reachable: "lifecycle_reachable motion_lifecycle_coordinator_init"
  by (rule reachable_init) simp

lemma reachable_wf: "lifecycle_reachable c \<Longrightarrow> coordinator_wf c"
  by (rule lifecycle.inv_reachable)

lemma step_session:
  assumes "coordinator_wf c"
  shows "session_of (snd (coordinator_step (Receive t) c)) =
      (if decision c t = MOTION_RELIABLE_DECISION_NEW
       then snd (session_on_command (session_of c) t) else session_of c)"
    and "session_of (snd (coordinator_step (Complete i r) c)) =
      (if i \<noteq> 0 \<and> i = active_operation_id c
       then snd (session_on_stopped (session_of c) r) else session_of c)"
    and "session_of (snd (coordinator_step Reset c)) = No_Session"
proof -
  obtain v s where vs: "session_on_command (session_of c) t = (v, s)" by fastforce
  have "session_of (snd (carry_out (v, s) t c)) = s"
    using session_verdicts [OF vs] by (cases v) (auto simp: Let_def)
  with vs show "session_of (snd (coordinator_step (Receive t) c)) =
      (if decision c t = MOTION_RELIABLE_DECISION_NEW
       then snd (session_on_command (session_of c) t) else session_of c)"
    by (cases "decision c t") (simp_all add: handle_new handle_retry handle_ignored)
  obtain res s' where rs: "session_on_stopped (session_of c) r = (res, s')" by fastforce
  show "session_of (snd (coordinator_step (Complete i r) c)) =
      (if i \<noteq> 0 \<and> i = active_operation_id c
       then snd (session_on_stopped (session_of c) r) else session_of c)"
    using complete_active [OF assms _ _ rs, of i] complete_ignored [of i c r] rs by auto
  show "session_of (snd (coordinator_step Reset c)) = No_Session"
    by (simp add: motion_lifecycle_coordinator_reset_def session_of.simps)
qed

lemma step_active_zero:
  assumes "coordinator_wf c" and "active_operation_id c = 0" and "\<not> starts_operation e c"
  shows "active_operation_id (snd (coordinator_step e c)) = 0"
proof (cases e)
  case (Receive t)
  obtain v s where vs: "session_on_command (session_of c) t = (v, s)" by fastforce
  then show ?thesis
    using Receive assms session_verdicts [OF vs]
    by (cases "decision c t")
       (auto simp: starts_operation_def handle_new handle_retry handle_ignored coordinator_wf_def Let_def)
next
  case (Complete i r)
  then show ?thesis using assms(2) complete_ignored [of i c r] by auto
qed (simp add: motion_lifecycle_coordinator_reset_def)

lemma run_active_zero:
  assumes "coordinator_wf c" and "active_operation_id c = 0" and "operations_started es c = 0"
  shows "active_operation_id (coordinator_run es c) = 0"
  using assms
  by (induction es arbitrary: c) (auto simp: step_active_zero coordinator_wf_step split: if_splits)

lemma run_reset_inactive:
  assumes "coordinator_wf c" and "Reset \<in> set es" and "operations_started es c = 0"
  shows "active_operation_id (coordinator_run es c) = 0"
  using assms
proof (induction es arbitrary: c)
  case (Cons e es)
  let ?c = "snd (coordinator_step e c)"
  have wf: "coordinator_wf ?c" and ops: "operations_started es ?c = 0"
    using Cons.prems by (simp_all add: coordinator_wf_step split: if_splits)
  show ?case
  proof (cases "e = Reset")
    case True
    then have "active_operation_id ?c = 0" by (simp add: motion_lifecycle_coordinator_reset_def)
    with wf ops show ?thesis by (simp add: run_active_zero)
  next
    case False
    with Cons.prems(2) have "Reset \<in> set es" by simp
    from Cons.IH [OF wf this ops] show ?thesis by simp
  qed
qed simp

lemma reachable_operation_id:
  "lifecycle_reachable c \<Longrightarrow> \<exists>n. next_operation_id c = operation_id_after n"
proof (induction rule: reachable.induct)
  case (reachable_init c)
  then show ?case by (intro exI [of _ 0]) (simp add: motion_lifecycle_coordinator_init_def)
next
  case (reachable_step c c')
  then obtain n e where "next_operation_id c = operation_id_after n" "c' = snd (coordinator_step e c)"
    by (auto elim!: lifecycle_transitionE)
  then show ?case
    by (intro exI [of _ "if starts_operation e c then Suc n else n"]) (simp add: step_operation_id)
qed

lemma outdated_completion:
  assumes c: "lifecycle_reachable c" and i: "i = active_operation_id c" "i \<noteq> 0"
    and ops: "operations_started es c < 2 ^ 32 - 1"
    and moved: "Reset \<in> set es \<or> 0 < operations_started es c"
  shows "active_operation_id (coordinator_run es c) \<noteq> i"
proof (cases "operations_started es c = 0")
  case True
  with moved have "Reset \<in> set es" by simp
  from run_reset_inactive [OF reachable_wf [OF c] this True] i show ?thesis by simp
next
  case False
  let ?k = "operations_started es c" and ?c = "coordinator_run es c"
  from reachable_operation_id [OF c] obtain n where n: "next_operation_id c = operation_id_after n" ..
  have "active_operation_id c = next_operation_id c"
    using reachable_wf [OF c] i by (simp add: coordinator_wf_def)
  with i n have idn: "i = operation_id_after n" by simp
  with i(2) obtain m where m: "n = Suc m" by (cases n) auto
  have "operation_id_after (Suc m) \<noteq> operation_id_after (Suc (m + ?k))"
    using False ops by (intro operation_id_inj) auto
  then have "next_operation_id ?c \<noteq> i"
    using run_operation_id [OF n, of es] idn m by simp
  moreover have "active_operation_id ?c = 0 \<or> active_operation_id ?c = next_operation_id ?c"
    using reachable_wf [OF run_reachable [OF c, of es]] by (auto simp: coordinator_wf_def)
  ultimately show ?thesis using i by auto
qed

end
