(* ===== verification/Lifecycle_Properties.thy ===== *)
theory Lifecycle_Properties
  imports Lifecycle_Runs
begin

section \<open>Properties of the motion lifecycle\<close>

text \<open>
  The guarantees of the coordinator for every sequence of received commands, completed
  stop operations and resets, from its initialization.
\<close>

definition sample_start :: MotionTransaction where
  "sample_start = \<lparr>tx_sequence = 0xFFFF, tx_command = MOTION_LIFECYCLE_COMMAND_START_SESSION,
     tx_motion_session_id = 7\<rparr>"

definition sample_starting :: MotionLifecycleCoordinator where
  "sample_starting = coordinator_run [Receive sample_start] motion_lifecycle_coordinator_init"

lemma sample_starting_reachable: "lifecycle_reachable sample_starting"
  unfolding sample_starting_def by (rule run_reachable [OF init_reachable])

lemma init_decision: "decision motion_lifecycle_coordinator_init t = MOTION_RELIABLE_DECISION_NEW"
  by (simp add: motion_reliable_receiver_classify_def motion_lifecycle_coordinator_init_def
      motion_reliable_receiver_init_def)

lemma init_start:
  "motion_lifecycle_coordinator_handle_transaction motion_lifecycle_coordinator_init sample_start =
     carry_out (Begin, Starting 7) sample_start motion_lifecycle_coordinator_init"
proof -
  have "session_of motion_lifecycle_coordinator_init = No_Session"
    by (simp add: motion_lifecycle_coordinator_init_def session_of.simps)
  then have "session_on_command (session_of motion_lifecycle_coordinator_init) sample_start =
      (Begin, Starting 7)"
    by (simp add: session_on_command_def sample_start_def)
  with handle_new [OF init_decision] show ?thesis by metis
qed

lemma sample_starting_fields:
  "session_of sample_starting = Starting 7" "active_operation_id sample_starting = 1"
  "reliable_receiver sample_starting =
     motion_reliable_receiver_begin_pending sample_start motion_reliable_receiver_init"
  unfolding sample_starting_def coordinator_run.simps coordinator_step.simps init_start
  by (simp_all add: Let_def,
      simp_all add: motion_lifecycle_coordinator_init_def new_operation_id_def session_of.simps)

text \<open>
  The invariant of the lifecycle. In every reachable state a command is pending exactly
  while the session is starting or ending, exactly then a stop operation is active, the
  pending command is the one that put the session there and names its session, and no
  received command is ever classified as invalid for lack of consistent state.
\<close>

lemma lifecycle_invariant:
  assumes "lifecycle_reachable c"
  shows "(pending_valid (reliable_receiver c) \<longleftrightarrow>
      lifecycle_state c \<in> {MOTION_LIFECYCLE_STATE_STARTING, MOTION_LIFECYCLE_STATE_ENDING}) \<and>
    (active_operation_id c \<noteq> 0 \<longleftrightarrow> pending_valid (reliable_receiver c)) \<and>
    pending_matches (session_of c) (pending_transaction (reliable_receiver c)) \<and>
    (lifecycle_state c = MOTION_LIFECYCLE_STATE_NO_SESSION \<longrightarrow> motion_session_id c = 0) \<and>
    motion_reliable_receiver_classify (Some (reliable_receiver c)) (Some t) \<noteq>
      MOTION_RELIABLE_DECISION_INVALID"
  using reachable_wf [OF assms] classify_not_invalid [of "reliable_receiver c" t]
  by (auto simp: coordinator_wf_def session_of.simps split: MotionLifecycleState.splits)

lemma lifecycle_invariant_witness:
  "lifecycle_reachable sample_starting \<and> active_operation_id sample_starting \<noteq> 0 \<and>
   pending_matches (Starting 7) (pending_transaction (reliable_receiver sample_starting))"
  using lifecycle_invariant [OF sample_starting_reachable] sample_starting_reachable
    sample_starting_fields by simp

text \<open>
  C18: Refinement. The chain of tests and handlers of the coordinator implements the session
  table: a new command changes the session as the table says and nothing else does, and
  the completion of the active stop operation changes it as the table says, while any
  other completion changes nothing.
\<close>

theorem coordinator_refines_table:
  assumes "lifecycle_reachable c"
  shows "session_of (snd (motion_lifecycle_coordinator_handle_transaction c t)) =
      (if motion_reliable_receiver_classify (Some (reliable_receiver c)) (Some t) =
          MOTION_RELIABLE_DECISION_NEW
       then snd (session_on_command (session_of c) t) else session_of c) \<and>
    (motion_reliable_receiver_classify (Some (reliable_receiver c)) (Some t) =
        MOTION_RELIABLE_DECISION_NEW \<longrightarrow>
      motion_lifecycle_coordinator_handle_transaction c t =
        carry_out (session_on_command (session_of c) t) t c) \<and>
    session_of (snd (motion_lifecycle_coordinator_complete_operation c i r)) =
      (if i \<noteq> 0 \<and> i = active_operation_id c
       then snd (session_on_stopped (session_of c) r) else session_of c)"
  using step_session [OF reachable_wf [OF assms]] handle_new by auto

lemma coordinator_refines_table_witness:
  "session_of (snd (motion_lifecycle_coordinator_complete_operation sample_starting 1
      MOTION_LIFECYCLE_OPERATION_RESULT_SUCCESS)) = Active 7"
  using coordinator_refines_table [OF sample_starting_reachable, of sample_start 1
      MOTION_LIFECYCLE_OPERATION_RESULT_SUCCESS] sample_starting_fields by simp

text \<open>
  C19: Every accepted command is answered exactly once. Over any run from initialization, the
  commands accepted as new are, counted with multiplicity, the commands answered (at
  once, superseded or by the completion of the stop), the ones a reset abandoned and the
  one still pending.
\<close>

theorem accepted_commands_answered_once:
  "run_total accepted es motion_lifecycle_coordinator_init =
     run_total settled es motion_lifecycle_coordinator_init +
     run_total abandoned es motion_lifecycle_coordinator_init +
     pending (coordinator_run es motion_lifecycle_coordinator_init)"
  using balance_run [OF coordinator_wf_init, of es]
  by (simp add: pending_def motion_lifecycle_coordinator_init_def [of] motion_reliable_receiver_init_def)

text \<open>
  Retries are idempotent. Handling the same transaction a second time changes nothing,
  starts no operation, acknowledges it again if it was acknowledged, and if the first
  handling answered it, repeats that answer.
\<close>

theorem retry_idempotent:
  assumes "motion_lifecycle_coordinator_handle_transaction c t = (a, c')"
    and "motion_lifecycle_coordinator_handle_transaction c' t = (a', c'')"
  shows "c'' = c' \<and> act_operation a' = MOTION_LIFECYCLE_OPERATION_NONE \<and>
    send_ack a' = send_ack a \<and> (send_ack a \<longrightarrow> ack_transaction a' = t) \<and>
    (send_response a \<and> response_transaction a = t \<and> t \<noteq> pending_transaction (reliable_receiver c) \<longrightarrow>
       send_response a' \<and> response_transaction a' = t \<and> response_result a' = response_result a)"
proof (cases "decision c t")
  case MOTION_RELIABLE_DECISION_NEW
  obtain v s where vs: "session_on_command (session_of c) t = (v, s)" by fastforce
  with assms(1) MOTION_RELIABLE_DECISION_NEW have co: "carry_out (v, s) t c = (a, c')"
    by (simp add: handle_new)
  show ?thesis
  proof (cases v)
    case (Answer r)
    with co have "decision c' t = MOTION_RELIABLE_DECISION_COMPLETED_RETRY"
      by (auto simp: classify_after_immediate)
    from handle_retry(2) [OF this] assms(2) co Answer show ?thesis by auto
  next
    case Begin
    with co have "decision c' t = MOTION_RELIABLE_DECISION_PENDING_RETRY"
      by (auto simp: classify_after_begin Let_def)
    from handle_retry(1) [OF this] assms(2) co Begin show ?thesis by (auto simp: Let_def)
  next
    case Supersede
    with co have "decision c' t = MOTION_RELIABLE_DECISION_PENDING_RETRY"
      by (auto simp: classify_after_begin)
    from handle_retry(1) [OF this] assms(2) co Supersede show ?thesis by auto
  qed
next
  case MOTION_RELIABLE_DECISION_PENDING_RETRY
  from handle_retry(1) [OF this] assms show ?thesis by auto
next
  case MOTION_RELIABLE_DECISION_COMPLETED_RETRY
  from handle_retry(2) [OF this] assms show ?thesis by auto
qed (use assms handle_ignored [of c t] in auto)

text \<open>
  Stop operations never overlap. An event starts a stop operation only when none is active
  and the session is idle or active, never while it is starting or ending; the new
  operation gets a non-zero identifier, which is then the active one.
\<close>

theorem operations_never_overlap:
  assumes "lifecycle_reachable c" and "coordinator_step e c = (a, c')"
    and "act_operation a = MOTION_LIFECYCLE_OPERATION_ENSURE_STOPPED"
  shows "active_operation_id c = 0 \<and> \<not> stopping (session_of c) \<and> stopping (session_of c') \<and>
    act_operation_id a \<noteq> 0 \<and> active_operation_id c' = act_operation_id a"
proof (cases e)
  case (Receive t)
  obtain v s where vs: "session_on_command (session_of c) t = (v, s)" by fastforce
  have new: "decision c t = MOTION_RELIABLE_DECISION_NEW"
    using assms(2,3) Receive by (cases "decision c t") (auto simp: handle_retry handle_ignored)
  with assms(2) Receive vs have co: "carry_out (v, s) t c = (a, c')" by (simp add: handle_new)
  with assms(3) have "v = Begin" using carry_out_operation(1) by simp
  with session_verdicts [OF vs] co reachable_wf [OF assms(1)] show ?thesis
    by (auto simp: Let_def coordinator_wf_def)
next
  case (Complete i r)
  with assms show ?thesis
    by (auto simp: motion_lifecycle_coordinator_complete_operation_def Let_def split: if_splits)
qed (use assms in auto)

text \<open>
  Late completions are ignored. Once a reset has happened or a newer stop operation was
  started, the completion of an earlier operation changes nothing and sends nothing, as
  long as fewer than \<open>2 ^ 32 - 1\<close> operations were started in between (the identifiers repeat
  only after that many).
\<close>

theorem late_completion_ignored:
  assumes "lifecycle_reachable c" and "i = active_operation_id c" and "i \<noteq> 0"
    and "operations_started es c < 2 ^ 32 - 1"
    and "Reset \<in> set es \<or> 0 < operations_started es c"
  shows "motion_lifecycle_coordinator_complete_operation (coordinator_run es c) i r =
    (motion_lifecycle_action_none, coordinator_run es c)"
  using outdated_completion [OF assms] by (intro complete_ignored) auto

text \<open>
  C20: A session becomes active only after the robot was brought to a stop: the only event that
  leads into an active session is the successful completion of the stop operation of a
  pending start command that names this session.
\<close>

theorem active_only_after_stop:
  assumes "lifecycle_reachable c" and "c' = snd (coordinator_step e c)"
    and "session_of c' = Active sid" and "session_of c \<noteq> Active sid"
  shows "e = Complete (active_operation_id c) MOTION_LIFECYCLE_OPERATION_RESULT_SUCCESS \<and>
    session_of c = Starting sid \<and> pending_valid (reliable_receiver c) \<and>
    tx_command (pending_transaction (reliable_receiver c)) = MOTION_LIFECYCLE_COMMAND_START_SESSION \<and>
    tx_motion_session_id (pending_transaction (reliable_receiver c)) = sid"
proof (cases e)
  case (Receive t)
  obtain v s where vs: "session_on_command (session_of c) t = (v, s)" by fastforce
  with session_verdicts [OF vs] Receive assms step_session(1) [OF reachable_wf [OF assms(1)], of t]
  show ?thesis by (auto simp: stopping_def split: if_splits)
next
  case (Complete i r)
  have wf: "coordinator_wf c" by (rule reachable_wf [OF assms(1)])
  from Complete assms step_session(2) [OF wf, of i r]
  have i: "i \<noteq> 0" "i = active_operation_id c" and s: "snd (session_on_stopped (session_of c) r) = Active sid"
    by (auto split: if_splits)
  from s have "session_of c = Starting sid \<and> r = MOTION_LIFECYCLE_OPERATION_RESULT_SUCCESS"
    by (cases "(session_of c, r)" rule: session_on_stopped.cases) auto
  with wf i Complete show ?thesis by (auto simp: coordinator_wf_def)
next
  case Reset
  with assms step_session(3) [OF reachable_wf [OF assms(1)]] show ?thesis by simp
qed

lemma active_only_after_stop_witness:
  "tx_motion_session_id (pending_transaction (reliable_receiver sample_starting)) = 7"
  using active_only_after_stop [OF sample_starting_reachable refl, of "Complete 1
      MOTION_LIFECYCLE_OPERATION_RESULT_SUCCESS" 7]
    step_session(2) [OF reachable_wf [OF sample_starting_reachable], of 1
      MOTION_LIFECYCLE_OPERATION_RESULT_SUCCESS] sample_starting_fields
  by simp

end
