(* ===== verification/Motion_Frames.thy ===== *)
theory Motion_Frames
  imports Stream_Delivery Motion_Lifecycle
begin

section \<open>Command frames in, acknowledgement and response frames out\<close>

text \<open>
  protocol/motion\_command\_handler.c and motion\_command\_frames.c: a received command
  frame becomes a transaction for the coordinator, and the coordinator's action becomes
  up to two frames.
\<close>

definition motion_command_handler_handle ::
  "MotionLifecycleCoordinator \<Rightarrow> ProtocolFrame \<Rightarrow> MotionLifecycleAction \<times> MotionLifecycleCoordinator" where
  "motion_command_handler_handle coordinator frame =
     (let decoded = motion_lifecycle_command_decode (payload frame);
          transaction = \<lparr>tx_sequence = frame_sequence frame, tx_command = lc_command decoded,
                         tx_motion_session_id = lc_motion_session_id decoded\<rparr>
      in motion_lifecycle_coordinator_handle_transaction coordinator transaction)"

record MotionCommandFrames =
  ack_valid :: bool
  ack_frame :: ProtocolFrame
  response_valid :: bool
  response_frame :: ProtocolFrame

definition motion_command_frames_build :: "MotionLifecycleAction \<Rightarrow> MotionCommandFrames" where
  "motion_command_frames_build action =
     (let frames = \<lparr>ack_valid = False, ack_frame = zero_frame,
                    response_valid = False, response_frame = zero_frame\<rparr>;
          frames =
            (if send_ack action then
               let p = \<lparr>ack_status = MOTION_ACK_ACCEPTED\<rparr>;
                   f = ack_frame frames;
                   f = f\<lparr>message_type := PROTOCOL_MESSAGE_TYPE_MOTION_ACK,
                         frame_sequence := tx_sequence (ack_transaction action),
                         payload_length := of_nat MOTION_ACK_WIRE_SIZE,
                         payload := buffer_write 0 (motion_ack_encode p) (payload f)\<rparr>
               in frames\<lparr>ack_frame := f, ack_valid := True\<rparr>
             else frames);
          frames =
            (if send_response action then
               let t = response_transaction action;
                   p = \<lparr>resp_command = tx_command t, resp_motion_session_id = tx_motion_session_id t,
                        resp_result = response_result action\<rparr>;
                   f = response_frame frames;
                   f = f\<lparr>message_type := PROTOCOL_MESSAGE_TYPE_MOTION_RESPONSE,
                         frame_sequence := tx_sequence t,
                         payload_length := of_nat MOTION_RESPONSE_WIRE_SIZE,
                         payload := buffer_write 0 (motion_response_encode p) (payload f)\<rparr>
               in frames\<lparr>response_frame := f, response_valid := True\<rparr>
             else frames)
      in frames)"

lemma frames_build_valid [simp]:
  "ack_valid (motion_command_frames_build a) = send_ack a"
  "response_valid (motion_command_frames_build a) = send_response a"
  by (simp_all add: motion_command_frames_build_def Let_def)

lemma frames_build_ack:
  "send_ack a \<Longrightarrow> ack_frame (motion_command_frames_build a) =
     zero_frame\<lparr>message_type := PROTOCOL_MESSAGE_TYPE_MOTION_ACK,
       frame_sequence := tx_sequence (ack_transaction a), payload_length := of_nat MOTION_ACK_WIRE_SIZE,
       payload := buffer_write 0 (motion_ack_encode \<lparr>ack_status = MOTION_ACK_ACCEPTED\<rparr>) (payload zero_frame)\<rparr>"
  by (simp add: motion_command_frames_build_def Let_def)

lemma frames_build_response:
  "send_response a \<Longrightarrow> response_frame (motion_command_frames_build a) =
     zero_frame\<lparr>message_type := PROTOCOL_MESSAGE_TYPE_MOTION_RESPONSE,
       frame_sequence := tx_sequence (response_transaction a),
       payload_length := of_nat MOTION_RESPONSE_WIRE_SIZE,
       payload := buffer_write 0 (motion_response_encode
         \<lparr>resp_command = tx_command (response_transaction a),
          resp_motion_session_id = tx_motion_session_id (response_transaction a),
          resp_result = response_result a\<rparr>) (payload zero_frame)\<rparr>"
  by (simp add: motion_command_frames_build_def Let_def)

lemma frames_build_wf:
  "send_ack a \<Longrightarrow> frame_sendable (ack_frame (motion_command_frames_build a))"
  "send_response a \<Longrightarrow> frame_sendable (response_frame (motion_command_frames_build a))"
  by (simp_all add: frames_build_ack frames_build_response frame_sendable_def frame_wf_def
      zero_frame_def motion_ack.enc_length motion_response.enc_length)

text \<open>
  The answer to a command reaches the peer. When the coordinator's action carries a
  response, the frame built for it passes through the wire format and the decoder as
  exactly one frame of type response, with the sequence number of the answered command,
  and its payload decodes to the command, the session and the result of the action.
\<close>

theorem response_reaches_peer:
  assumes "send_response a" and "decoder_idle d"
  shows "\<exists>g d'. decoder_feed_all (frame_wire (response_frame (motion_command_frames_build a))) d = ([g], d') \<and>
    protocol_ingress_route (Some g) = PROTOCOL_INGRESS_ROUTE_MOTION_RESPONSE \<and>
    frame_sequence g = tx_sequence (response_transaction a) \<and>
    motion_response_decode (payload g) =
      \<lparr>resp_command = tx_command (response_transaction a),
       resp_motion_session_id = tx_motion_session_id (response_transaction a),
       resp_result = response_result a\<rparr>"
proof -
  let ?f = "response_frame (motion_command_frames_build a)"
  have "\<exists>g d'. decoder_feed_all (frame_wire ?f) d = ([g], d') \<and> decoder_idle d' \<and>
    message_type g = message_type ?f \<and> frame_sequence g = frame_sequence ?f \<and>
    payload_length g = of_nat MOTION_RESPONSE_WIRE_SIZE \<and> motion_response_decode (payload g) =
      \<lparr>resp_command = tx_command (response_transaction a),
       resp_motion_session_id = tx_motion_session_id (response_transaction a),
       resp_result = response_result a\<rparr>"
    using assms frames_build_wf(2) [OF assms(1)]
    by (intro motion_response_frame.message_delivered)
       (simp_all add: frames_build_response motion_response.enc_length frame_sendable_def)
  moreover have "protocol_ingress_route (Some g) = PROTOCOL_INGRESS_ROUTE_MOTION_RESPONSE"
    if "message_type g = message_type ?f" "payload_length g = of_nat MOTION_RESPONSE_WIRE_SIZE" for g
    using that by (simp add: frames_build_response [OF assms(1)])
  moreover have "frame_sequence ?f = tx_sequence (response_transaction a)"
    by (simp add: frames_build_response [OF assms(1)])
  ultimately show ?thesis by metis
qed

end
