(* ===== verification/Motor_Driver.thy ===== *)
theory Motor_Driver
  imports Prelude
begin

section \<open>The motor driver interface (App/Inc/motor\_driver.h)\<close>

text \<open>
  The command struct, the timer the two board ports write to, and the interface the
  command guard calls: three functions, bound at link time to one of two drivers. In the
  model a driver is a record of these functions on the driver's own state; the locale
  states what every driver promises, and both drivers are interpretations of it.

  The timer peripheral is reached through the vendor's HAL. Its state is what the ports
  use of it: whether the handle was set up for TIM8, the auto-reload period, the four
  compare registers and the channels started. What \<^verbatim>\<open>HAL_TIM_PWM_Start\<close> answers for
  a channel is the parameter \<open>tim_pwm_start_ok\<close>.
\<close>

abbreviation (input) MOTOR_DRIVER_COMMAND_MIN :: int where "MOTOR_DRIVER_COMMAND_MIN \<equiv> -1000"
abbreviation (input) MOTOR_DRIVER_COMMAND_MAX :: int where "MOTOR_DRIVER_COMMAND_MAX \<equiv> 1000"

record MotorDriverCommand =
  cmd_left :: i16
  cmd_right :: i16

definition zero_command :: MotorDriverCommand where
  "zero_command = \<lparr>cmd_left = 0, cmd_right = 0\<rparr>"

definition command_in_range :: "MotorDriverCommand \<Rightarrow> bool" where
  "command_in_range c \<longleftrightarrow>
     MOTOR_DRIVER_COMMAND_MIN \<le> sint (cmd_left c) \<and> sint (cmd_left c) \<le> MOTOR_DRIVER_COMMAND_MAX \<and>
     MOTOR_DRIVER_COMMAND_MIN \<le> sint (cmd_right c) \<and> sint (cmd_right c) \<le> MOTOR_DRIVER_COMMAND_MAX"

record Tim8 =
  tim_is_TIM8 :: bool
  tim_period :: u32
  tim_ccr1 :: u32
  tim_ccr2 :: u32
  tim_ccr3 :: u32
  tim_ccr4 :: u32
  tim_started :: "nat list"
  tim_pwm_start_ok :: "nat \<Rightarrow> bool"

definition compare_from_duty :: "Tim8 \<Rightarrow> u16 \<Rightarrow> u32" where
  "compare_from_duty htim8 duty = (ucast duty * (tim_period htim8 + 1)) div 1000"

text \<open>The period the board configuration sets.\<close>

definition TIM8_PERIOD :: u32 where "TIM8_PERIOD = 17999"

lemma compare_from_duty_exact:
  assumes "tim_period t = TIM8_PERIOD" and "unat duty \<le> 1000"
  shows "unat (compare_from_duty t duty) = 18 * unat duty"
proof -
  have "unat (ucast duty :: u32) = unat duty"
    using assms(2) by (simp add: unsigned_ucast_eq take_bit_nat_eq_self)
  moreover have "unat (ucast duty * 18000 :: u32) = unat duty * 18000"
    using assms(2) calculation by (subst unat_mult_lem [THEN iffD1]) simp_all
  ultimately show ?thesis
    using assms(1) by (simp add: compare_from_duty_def TIM8_PERIOD_def unat_div)
qed

lemma compare_zero [simp]: "compare_from_duty t 0 = 0"
  by (simp add: compare_from_duty_def)

lemma duty_bound:
  "- 1000 \<le> sint v \<Longrightarrow> sint v \<le> 1000 \<Longrightarrow> 0 < sint v \<Longrightarrow> unat v \<le> 1000"
  "- 1000 \<le> sint v \<Longrightarrow> sint v \<le> 1000 \<Longrightarrow> sint v < 0 \<Longrightarrow> unat (- v) \<le> 1000" for v :: i16
  using unat_nonneg [of v] unat_neg [of v] by linarith+

subsection \<open>The interface\<close>

record 'd MotorDriver =
  md_init :: "'d \<Rightarrow> bool \<times> 'd"
  md_apply :: "u32 \<Rightarrow> MotorDriverCommand option \<Rightarrow> 'd \<Rightarrow> bool \<times> 'd"
  md_stop :: "'d \<Rightarrow> bool \<times> 'd"

text \<open>
  The first argument of \<open>md_apply\<close> is what the tick counter reads during the call.
  \<open>still\<close> says that neither wheel is driven, \<open>ready\<close> that the driver was initialized and
  its hardware is in place.
\<close>

locale motor_driver_contract =
  fixes ops :: "'d MotorDriver"
    and driver_inv :: "'d \<Rightarrow> bool" and still :: "'d \<Rightarrow> bool" and ready :: "'d \<Rightarrow> bool"
  assumes init_ok: "md_init ops d = (True, d') \<Longrightarrow> ready d' \<and> still d' \<and> driver_inv d'"
    and apply_inv: "driver_inv d \<Longrightarrow> driver_inv (snd (md_apply ops now c d))"
    and stop_inv: "driver_inv d \<Longrightarrow> driver_inv (snd (md_stop ops d))"
    and apply_ready: "ready (snd (md_apply ops now c d)) = ready d"
    and stop_ready: "ready (snd (md_stop ops d)) = ready d"
    and apply_accepts: "ready d \<Longrightarrow> fst (md_apply ops now (Some cmd) d) = command_in_range cmd"
    and apply_fail: "\<not> fst (md_apply ops now c d) \<Longrightarrow> still (snd (md_apply ops now c d)) = still d"
    and apply_zero: "driver_inv d \<Longrightarrow> fst (md_apply ops now (Some zero_command) d) \<Longrightarrow>
        still (snd (md_apply ops now (Some zero_command) d))"
    and stop_works: "ready d \<Longrightarrow> fst (md_stop ops d)"
    and stop_still: "fst (md_stop ops d) \<Longrightarrow> still (snd (md_stop ops d))"
    and stop_fail: "\<not> fst (md_stop ops d) \<Longrightarrow> still (snd (md_stop ops d)) = still d"
begin

lemma zero_in_range: "command_in_range zero_command"
  by (simp add: command_in_range_def zero_command_def)

lemma zero_stops: "driver_inv d \<Longrightarrow> ready d \<Longrightarrow> still (snd (md_apply ops now (Some zero_command) d))"
  by (rule apply_zero) (simp_all add: apply_accepts zero_in_range)

lemma ready_stops: "ready d \<Longrightarrow> still (snd (md_stop ops d))"
  by (rule stop_still) (rule stop_works)

end

end
