(* ===== verification/Dri0041.thy ===== *)
theory Dri0041
  imports Motor_Driver
begin

section \<open>The DRI0041 driver and its board port\<close>

text \<open>
  App/Src/motor\_driver\_dri0041.c and Port/motor\_driver\_dri0041\_port\_stm32.c. The static
  variables of the driver come in pairs with one copy per wheel, and so does the code of
  \<open>motor_driver_apply\<close>; the model keeps a record per wheel and one definition for each
  piece of code that occurs twice. The port writes four direction pins and the compare
  registers of channel 4 (left) and channel 3 (right).
\<close>

subsection \<open>The port\<close>

record Dri0041PortControl =
  ctl_left_duty :: u16
  ctl_left_in1 :: bool
  ctl_left_in2 :: bool
  ctl_right_duty :: u16
  ctl_right_in3 :: bool
  ctl_right_in4 :: bool

definition zero_dri0041_control :: Dri0041PortControl where
  "zero_dri0041_control =
     \<lparr>ctl_left_duty = 0, ctl_left_in1 = False, ctl_left_in2 = False,
      ctl_right_duty = 0, ctl_right_in3 = False, ctl_right_in4 = False\<rparr>"

record Dri0041Port =
  d41_port_initialized :: bool
  d41_tim8 :: Tim8
  pin_left_in1 :: bool
  pin_left_in2 :: bool
  pin_right_in3 :: bool
  pin_right_in4 :: bool

definition set_direction_pins :: "Dri0041PortControl \<Rightarrow> Dri0041Port \<Rightarrow> Dri0041Port" where
  [driver_defs]: "set_direction_pins control p =
     p\<lparr>pin_left_in1 := ctl_left_in1 control, pin_left_in2 := ctl_left_in2 control,
       pin_right_in3 := ctl_right_in3 control, pin_right_in4 := ctl_right_in4 control\<rparr>"

definition motor_driver_dri0041_port_init :: "Dri0041Port \<Rightarrow> bool \<times> Dri0041Port" where
  [driver_defs]: "motor_driver_dri0041_port_init p =
     (let p = p\<lparr>d41_port_initialized := False\<rparr>;
          p = set_direction_pins zero_dri0041_control p
      in if \<not> tim_is_TIM8 (d41_tim8 p) then (False, p)
         else
           let p = p\<lparr>d41_tim8 := (d41_tim8 p)\<lparr>tim_ccr4 := 0, tim_ccr3 := 0\<rparr>\<rparr>
           in if \<not> tim_pwm_start_ok (d41_tim8 p) 4 then (False, p)
              else
                let p = p\<lparr>d41_tim8 := (d41_tim8 p)\<lparr>tim_started := 4 # tim_started (d41_tim8 p)\<rparr>\<rparr>
                in if \<not> tim_pwm_start_ok (d41_tim8 p) 3
                   then (False, p\<lparr>d41_tim8 := (d41_tim8 p)
                           \<lparr>tim_started := removeAll 4 (tim_started (d41_tim8 p))\<rparr>\<rparr>)
                   else (True, p\<lparr>d41_tim8 := (d41_tim8 p)
                           \<lparr>tim_started := 3 # tim_started (d41_tim8 p)\<rparr>,
                           d41_port_initialized := True\<rparr>))"

definition motor_driver_dri0041_port_apply ::
  "Dri0041PortControl option \<Rightarrow> Dri0041Port \<Rightarrow> bool \<times> Dri0041Port" where
  [driver_defs]: "motor_driver_dri0041_port_apply ctl p =
     (case ctl of
        None \<Rightarrow> (False, p)
      | Some control \<Rightarrow>
          if \<not> d41_port_initialized p \<or> \<not> tim_is_TIM8 (d41_tim8 p) then (False, p)
          else if unat (ctl_left_duty control) > 1000 \<or> unat (ctl_right_duty control) > 1000
          then (False, p)
          else
            let left_compare = compare_from_duty (d41_tim8 p) (ctl_left_duty control);
                right_compare = compare_from_duty (d41_tim8 p) (ctl_right_duty control);
                p = set_direction_pins control p
            in (True, p\<lparr>d41_tim8 := (d41_tim8 p)\<lparr>tim_ccr4 := left_compare, tim_ccr3 := right_compare\<rparr>\<rparr>))"

subsection \<open>The driver\<close>

datatype Dri0041Direction =
  DRI0041_DIRECTION_STOPPED | DRI0041_DIRECTION_FORWARD | DRI0041_DIRECTION_REVERSE

abbreviation (input) DRI0041_REVERSAL_BRAKE_MS :: u32 where "DRI0041_REVERSAL_BRAKE_MS \<equiv> 100"

text \<open>The static variables \<^verbatim>\<open>left_...\<close> or \<^verbatim>\<open>right_...\<close>.\<close>

record Dri0041Wheel =
  wheel_direction :: Dri0041Direction
  reversal_pending :: bool
  reversal_direction :: Dri0041Direction
  reversal_started_ms :: u32

record Dri0041 =
  d41_initialized :: bool
  d41_left :: Dri0041Wheel
  d41_right :: Dri0041Wheel
  d41_port :: Dri0041Port

definition direction_from_command :: "i16 \<Rightarrow> Dri0041Direction" where
  "direction_from_command command =
     (if sint command > 0 then DRI0041_DIRECTION_FORWARD
      else if sint command < 0 then DRI0041_DIRECTION_REVERSE
      else DRI0041_DIRECTION_STOPPED)"

definition direction_reverses :: "Dri0041Direction \<Rightarrow> Dri0041Direction \<Rightarrow> bool" where
  "direction_reverses current requested \<longleftrightarrow>
     current \<noteq> DRI0041_DIRECTION_STOPPED \<and> requested \<noteq> DRI0041_DIRECTION_STOPPED \<and> current \<noteq> requested"

definition dri0041_control_from_command :: "MotorDriverCommand option \<Rightarrow> Dri0041PortControl option" where
  "dri0041_control_from_command command =
     (case command of
        None \<Rightarrow> None
      | Some c \<Rightarrow>
          if sint (cmd_left c) > MOTOR_DRIVER_COMMAND_MAX \<or> sint (cmd_left c) < MOTOR_DRIVER_COMMAND_MIN \<or>
             sint (cmd_right c) > MOTOR_DRIVER_COMMAND_MAX \<or> sint (cmd_right c) < MOTOR_DRIVER_COMMAND_MIN
          then None
          else
            let control = zero_dri0041_control;
                control = (if sint (cmd_left c) > 0
                           then control\<lparr>ctl_left_duty := cmd_left c, ctl_left_in1 := True\<rparr>
                           else if sint (cmd_left c) < 0
                           then control\<lparr>ctl_left_duty := - cmd_left c, ctl_left_in2 := True\<rparr>
                           else control);
                control = (if sint (cmd_right c) > 0
                           then control\<lparr>ctl_right_duty := cmd_right c, ctl_right_in3 := True\<rparr>
                           else if sint (cmd_right c) < 0
                           then control\<lparr>ctl_right_duty := - cmd_right c, ctl_right_in4 := True\<rparr>
                           else control)
            in Some control)"

definition initial_wheel :: Dri0041Wheel where
  "initial_wheel =
     \<lparr>wheel_direction = DRI0041_DIRECTION_STOPPED, reversal_pending = False,
      reversal_direction = DRI0041_DIRECTION_STOPPED, reversal_started_ms = 0\<rparr>"

definition motor_driver_init_dri0041 :: "Dri0041 \<Rightarrow> bool \<times> Dri0041" where
  [driver_defs]: "motor_driver_init_dri0041 d =
     (let d = d\<lparr>d41_initialized := False, d41_left := initial_wheel, d41_right := initial_wheel\<rparr>;
          (ok, p) = motor_driver_dri0041_port_init (d41_port d);
          d = d\<lparr>d41_port := p\<rparr>
      in if \<not> ok then (False, d) else (True, d\<lparr>d41_initialized := True\<rparr>))"

text \<open>
  Before the port is written: whether the wheel's outputs are forced to zero, whether a
  reversal starts, and the wheel with its pending flag updated.
\<close>

definition wheel_gate ::
  "Dri0041Wheel \<Rightarrow> Dri0041Direction \<Rightarrow> u32 \<Rightarrow> bool \<times> bool \<times> Dri0041Wheel" where
  "wheel_gate w requested now_ms =
     (if reversal_pending w then
        if requested = DRI0041_DIRECTION_STOPPED then (True, False, w)
        else if requested = wheel_direction w then (False, False, w\<lparr>reversal_pending := False\<rparr>)
        else if requested = reversal_direction w then
          (let elapsed_ms = now_ms - reversal_started_ms w
           in (elapsed_ms < DRI0041_REVERSAL_BRAKE_MS, False, w))
        else (False, False, w)
      else if direction_reverses (wheel_direction w) requested then (True, True, w)
      else (False, False, w))"

text \<open>After the port was written.\<close>

definition wheel_commit ::
  "bool \<Rightarrow> Dri0041Direction \<Rightarrow> u32 \<Rightarrow> Dri0041Wheel \<Rightarrow> Dri0041Wheel" where
  "wheel_commit start_reversal requested now_ms w =
     (if start_reversal then
        w\<lparr>reversal_pending := True, reversal_direction := requested, reversal_started_ms := now_ms\<rparr>
      else if reversal_pending w then
        if requested = DRI0041_DIRECTION_STOPPED
        then w\<lparr>reversal_pending := False, wheel_direction := DRI0041_DIRECTION_STOPPED\<rparr>
        else if requested = wheel_direction w then w\<lparr>reversal_pending := False\<rparr>
        else if requested = reversal_direction w \<and>
                now_ms - reversal_started_ms w \<ge> DRI0041_REVERSAL_BRAKE_MS
        then w\<lparr>reversal_pending := False, wheel_direction := requested\<rparr>
        else w
      else w\<lparr>wheel_direction := requested\<rparr>)"

definition motor_driver_apply_dri0041 ::
  "u32 \<Rightarrow> MotorDriverCommand option \<Rightarrow> Dri0041 \<Rightarrow> bool \<times> Dri0041" where
  [driver_defs]: "motor_driver_apply_dri0041 now_ms command d =
     (case command of
        None \<Rightarrow> (False, d)
      | Some c \<Rightarrow>
        if \<not> d41_initialized d then (False, d)
        else case dri0041_control_from_command (Some c) of
          None \<Rightarrow> (False, d)
        | Some control \<Rightarrow>
            let requested_left = direction_from_command (cmd_left c);
                requested_right = direction_from_command (cmd_right c);
                (brake_left, start_left, left) = wheel_gate (d41_left d) requested_left now_ms;
                d = d\<lparr>d41_left := left\<rparr>;
                control = (if brake_left
                           then control\<lparr>ctl_left_duty := 0, ctl_left_in1 := False, ctl_left_in2 := False\<rparr>
                           else control);
                (brake_right, start_right, right) = wheel_gate (d41_right d) requested_right now_ms;
                d = d\<lparr>d41_right := right\<rparr>;
                control = (if brake_right
                           then control\<lparr>ctl_right_duty := 0, ctl_right_in3 := False, ctl_right_in4 := False\<rparr>
                           else control);
                (ok, p) = motor_driver_dri0041_port_apply (Some control) (d41_port d);
                d = d\<lparr>d41_port := p\<rparr>
            in if \<not> ok then (False, d)
               else (True, d\<lparr>d41_left := wheel_commit start_left requested_left now_ms (d41_left d),
                             d41_right := wheel_commit start_right requested_right now_ms (d41_right d)\<rparr>))"

definition motor_driver_stop_dri0041 :: "Dri0041 \<Rightarrow> bool \<times> Dri0041" where
  [driver_defs]: "motor_driver_stop_dri0041 d =
     (if \<not> d41_initialized d then (False, d)
      else
        let (ok, p) = motor_driver_dri0041_port_apply (Some zero_dri0041_control) (d41_port d);
            d = d\<lparr>d41_port := p\<rparr>
        in if \<not> ok then (False, d)
           else (True,
             d\<lparr>d41_left := (d41_left d)\<lparr>reversal_pending := False, wheel_direction := DRI0041_DIRECTION_STOPPED\<rparr>,
               d41_right := (d41_right d)\<lparr>reversal_pending := False, wheel_direction := DRI0041_DIRECTION_STOPPED\<rparr>\<rparr>))"

definition dri0041 :: "Dri0041 MotorDriver" where
  "dri0041 = \<lparr>md_init = motor_driver_init_dri0041, md_apply = motor_driver_apply_dri0041,
     md_stop = motor_driver_stop_dri0041\<rparr>"

subsection \<open>What reaches the port\<close>

definition dri0041_control_ok :: "Dri0041PortControl \<Rightarrow> bool" where
  "dri0041_control_ok c \<longleftrightarrow>
     unat (ctl_left_duty c) \<le> 1000 \<and> unat (ctl_right_duty c) \<le> 1000 \<and>
     \<not> (ctl_left_in1 c \<and> ctl_left_in2 c) \<and> \<not> (ctl_right_in3 c \<and> ctl_right_in4 c) \<and>
     (ctl_left_duty c \<noteq> 0 \<longrightarrow> ctl_left_in1 c \<noteq> ctl_left_in2 c) \<and>
     (ctl_right_duty c \<noteq> 0 \<longrightarrow> ctl_right_in3 c \<noteq> ctl_right_in4 c)"

lemma zero_control_ok [simp]: "dri0041_control_ok zero_dri0041_control"
  by (simp add: dri0041_control_ok_def zero_dri0041_control_def)

lemma control_braked_ok [simp]:
  "dri0041_control_ok c \<Longrightarrow>
     dri0041_control_ok (c\<lparr>ctl_left_duty := 0, ctl_left_in1 := False, ctl_left_in2 := False\<rparr>)"
  "dri0041_control_ok c \<Longrightarrow>
     dri0041_control_ok (c\<lparr>ctl_right_duty := 0, ctl_right_in3 := False, ctl_right_in4 := False\<rparr>)"
  by (simp_all add: dri0041_control_ok_def)

lemma control_from_command_iff:
  "dri0041_control_from_command (Some c) \<noteq> None \<longleftrightarrow> command_in_range c"
  by (auto simp: dri0041_control_from_command_def command_in_range_def Let_def)

lemma control_from_command_ok:
  assumes "dri0041_control_from_command (Some c) = Some control"
  shows "dri0041_control_ok control"
proof -
  have range: "- 1000 \<le> sint (cmd_left c)" "sint (cmd_left c) \<le> 1000"
    "- 1000 \<le> sint (cmd_right c)" "sint (cmd_right c) \<le> 1000"
    using assms control_from_command_iff [of c] by (auto simp: command_in_range_def)
  with assms show ?thesis
    by (auto simp: dri0041_control_from_command_def dri0041_control_ok_def Let_def zero_dri0041_control_def
        duty_bound split: if_splits)
qed

lemma port_apply_ok:
  assumes "dri0041_control_ok control"
  shows "fst (motor_driver_dri0041_port_apply (Some control) p) \<longleftrightarrow>
    d41_port_initialized p \<and> tim_is_TIM8 (d41_tim8 p)"
  using assms by (simp add: driver_defs dri0041_control_ok_def Let_def)

lemma port_apply_fail:
  "\<not> fst (motor_driver_dri0041_port_apply ctl p) \<Longrightarrow> snd (motor_driver_dri0041_port_apply ctl p) = p"
  by (auto simp: driver_defs Let_def split: option.splits if_splits)

subsection \<open>The outputs\<close>

definition dri0041_still :: "Dri0041 \<Rightarrow> bool" where
  "dri0041_still d \<longleftrightarrow> tim_ccr4 (d41_tim8 (d41_port d)) = 0 \<and> tim_ccr3 (d41_tim8 (d41_port d)) = 0"

definition dri0041_ready :: "Dri0041 \<Rightarrow> bool" where
  "dri0041_ready d \<longleftrightarrow>
     d41_initialized d \<and> d41_port_initialized (d41_port d) \<and> tim_is_TIM8 (d41_tim8 (d41_port d))"

definition wheel_wf :: "Dri0041Wheel \<Rightarrow> bool" where
  "wheel_wf w \<longleftrightarrow>
     (reversal_pending w \<longrightarrow> direction_reverses (wheel_direction w) (reversal_direction w))"

text \<open>
  The bridge is never shorted by the pins, a wheel is driven only with exactly one
  direction pin set, and the compare values stay within the timer period.
\<close>

definition port_safe :: "Dri0041Port \<Rightarrow> bool" where
  "port_safe p \<longleftrightarrow>
     \<not> (pin_left_in1 p \<and> pin_left_in2 p) \<and> \<not> (pin_right_in3 p \<and> pin_right_in4 p) \<and>
     (tim_ccr4 (d41_tim8 p) \<noteq> 0 \<longrightarrow> pin_left_in1 p \<noteq> pin_left_in2 p) \<and>
     (tim_ccr3 (d41_tim8 p) \<noteq> 0 \<longrightarrow> pin_right_in3 p \<noteq> pin_right_in4 p) \<and>
     (tim_period (d41_tim8 p) = TIM8_PERIOD \<longrightarrow>
        unat (tim_ccr4 (d41_tim8 p)) \<le> unat TIM8_PERIOD + 1 \<and>
        unat (tim_ccr3 (d41_tim8 p)) \<le> unat TIM8_PERIOD + 1)"

definition dri0041_inv :: "Dri0041 \<Rightarrow> bool" where
  "dri0041_inv d \<longleftrightarrow> wheel_wf (d41_left d) \<and> wheel_wf (d41_right d) \<and> port_safe (d41_port d)"

lemma port_safe_apply:
  assumes "dri0041_control_ok control" and "port_safe p"
  shows "port_safe (snd (motor_driver_dri0041_port_apply (Some control) p))"
proof (cases "d41_port_initialized p \<and> tim_is_TIM8 (d41_tim8 p)")
  case True
  then have "fst (motor_driver_dri0041_port_apply (Some control) p)"
    using port_apply_ok [OF assms(1)] by simp
  moreover have "tim_period (d41_tim8 p) = TIM8_PERIOD \<Longrightarrow>
      unat (compare_from_duty (d41_tim8 p) duty) \<le> unat TIM8_PERIOD + 1" if "unat duty \<le> 1000" for duty
    using compare_from_duty_exact [OF _ that, of "d41_tim8 p"] that by (simp add: TIM8_PERIOD_def)
  ultimately show ?thesis
    using True assms
    by (cases "ctl_left_duty control = 0"; cases "ctl_right_duty control = 0")
       (simp_all add: driver_defs dri0041_control_ok_def port_safe_def Let_def)
next
  case False
  with assms show ?thesis
    using port_apply_fail port_apply_ok [OF assms(1)] by metis
qed

lemma wheel_wf_initial [simp]: "wheel_wf initial_wheel"
  by (simp add: wheel_wf_def initial_wheel_def)

lemma wheel_wf_gate: "wheel_wf w \<Longrightarrow> wheel_wf (snd (snd (wheel_gate w req now)))"
  by (simp add: wheel_wf_def wheel_gate_def Let_def)

lemma wheel_wf_commit:
  "wheel_wf w \<Longrightarrow> wheel_gate w req now = (brake, start, w') \<Longrightarrow>
     wheel_wf (wheel_commit start req now w')"
  by (auto simp: wheel_wf_def wheel_gate_def wheel_commit_def Let_def split: if_splits)

subsection \<open>The contract\<close>

definition brake_wheels :: "bool \<Rightarrow> bool \<Rightarrow> Dri0041PortControl \<Rightarrow> Dri0041PortControl" where
  "brake_wheels left right control =
     (let control = (if left then control\<lparr>ctl_left_duty := 0, ctl_left_in1 := False, ctl_left_in2 := False\<rparr>
                     else control)
      in if right then control\<lparr>ctl_right_duty := 0, ctl_right_in3 := False, ctl_right_in4 := False\<rparr>
         else control)"

lemma brake_wheels_ok [simp]:
  "dri0041_control_ok control \<Longrightarrow> dri0041_control_ok (brake_wheels l r control)"
  by (auto simp: brake_wheels_def Let_def)

lemma apply_dri0041:
  assumes "d41_initialized d" and "dri0041_control_from_command (Some c) = Some control"
    and "wheel_gate (d41_left d) (direction_from_command (cmd_left c)) now = (bl, sl, l)"
    and "wheel_gate (d41_right d) (direction_from_command (cmd_right c)) now = (br, sr, r)"
    and "motor_driver_dri0041_port_apply (Some (brake_wheels bl br control)) (d41_port d) = (ok, p)"
  shows "motor_driver_apply_dri0041 now (Some c) d =
    (ok, d\<lparr>d41_left := if ok then wheel_commit sl (direction_from_command (cmd_left c)) now l else l,
           d41_right := if ok then wheel_commit sr (direction_from_command (cmd_right c)) now r else r,
           d41_port := p\<rparr>)"
proof -
  have "motor_driver_dri0041_port_apply (Some (if br then
        (if bl then control\<lparr>ctl_left_duty := 0, ctl_left_in1 := False, ctl_left_in2 := False\<rparr> else control)
          \<lparr>ctl_right_duty := 0, ctl_right_in3 := False, ctl_right_in4 := False\<rparr>
      else if bl then control\<lparr>ctl_left_duty := 0, ctl_left_in1 := False, ctl_left_in2 := False\<rparr>
      else control)) (d41_port d) = (ok, p)"
    using assms(5) by (simp add: brake_wheels_def Let_def)
  then show ?thesis
    using assms(1-4) unfolding motor_driver_apply_dri0041_def Let_def
    by (cases ok) (simp_all split: if_splits)
qed

lemma apply_dri0041_rejected:
  assumes "\<not> d41_initialized d \<or> cmd = None \<or> dri0041_control_from_command cmd = None"
  shows "motor_driver_apply_dri0041 now cmd d = (False, d)"
  using assms by (cases cmd) (auto simp: motor_driver_apply_dri0041_def)

text \<open>Every call is one of the two.\<close>

lemma apply_dri0041_cases:
  obtains (rejected) "motor_driver_apply_dri0041 now cmd d = (False, d)"
      "\<not> d41_initialized d \<or> cmd = None \<or> dri0041_control_from_command cmd = None"
    | (written) c control bl sl l br sr r ok p where "cmd = Some c" and "d41_initialized d"
      "dri0041_control_from_command (Some c) = Some control"
      "wheel_gate (d41_left d) (direction_from_command (cmd_left c)) now = (bl, sl, l)"
      "wheel_gate (d41_right d) (direction_from_command (cmd_right c)) now = (br, sr, r)"
      "motor_driver_dri0041_port_apply (Some (brake_wheels bl br control)) (d41_port d) = (ok, p)"
      "motor_driver_apply_dri0041 now cmd d =
        (ok, d\<lparr>d41_left := if ok then wheel_commit sl (direction_from_command (cmd_left c)) now l else l,
               d41_right := if ok then wheel_commit sr (direction_from_command (cmd_right c)) now r else r,
               d41_port := p\<rparr>)"
proof (cases "\<not> d41_initialized d \<or> cmd = None \<or> dri0041_control_from_command cmd = None")
  case True
  with apply_dri0041_rejected rejected show thesis by blast
next
  case False
  then obtain c control where c: "cmd = Some c" "d41_initialized d"
    "dri0041_control_from_command (Some c) = Some control" by auto
  obtain bl sl l br sr r ok p where g:
    "wheel_gate (d41_left d) (direction_from_command (cmd_left c)) now = (bl, sl, l)"
    "wheel_gate (d41_right d) (direction_from_command (cmd_right c)) now = (br, sr, r)"
    "motor_driver_dri0041_port_apply (Some (brake_wheels bl br control)) (d41_port d) = (ok, p)"
    by (metis prod_cases3 surj_pair)
  show thesis
    by (rule written [OF c g]) (simp add: c(1) apply_dri0041 [OF c(2,3) g])
qed

lemma dri0041_apply_inv:
  assumes "dri0041_inv d"
  shows "dri0041_inv (snd (motor_driver_apply_dri0041 now cmd d))"
proof (cases rule: apply_dri0041_cases [of now cmd d])
  case rejected
  with assms show ?thesis by simp
next
  case (written c control bl sl l br sr r ok p)
  have "port_safe p"
    using port_safe_apply [of "brake_wheels bl br control" "d41_port d"] assms
      control_from_command_ok [OF written(3)] written(6) by (simp add: dri0041_inv_def)
  moreover have "wheel_wf l" "wheel_wf r" "wheel_wf (wheel_commit sl (direction_from_command (cmd_left c)) now l)"
    "wheel_wf (wheel_commit sr (direction_from_command (cmd_right c)) now r)"
    using assms wheel_wf_gate wheel_wf_commit written(4,5)
    by (metis dri0041_inv_def snd_conv)+
  ultimately show ?thesis using written(7) by (simp add: dri0041_inv_def)
qed

lemma port_apply_frame:
  "d41_port_initialized (snd (motor_driver_dri0041_port_apply ctl p)) = d41_port_initialized p"
  "tim_is_TIM8 (d41_tim8 (snd (motor_driver_dri0041_port_apply ctl p))) = tim_is_TIM8 (d41_tim8 p)"
  "tim_period (d41_tim8 (snd (motor_driver_dri0041_port_apply ctl p))) = tim_period (d41_tim8 p)"
  by (auto simp: driver_defs Let_def split: option.splits)

lemma dri0041_apply_ready:
  "dri0041_ready (snd (motor_driver_apply_dri0041 now cmd d)) = dri0041_ready d"
proof (cases rule: apply_dri0041_cases [of now cmd d])
  case (written c control bl sl l br sr r ok p)
  with port_apply_frame [of "Some (brake_wheels bl br control)" "d41_port d"] show ?thesis
    by (simp add: dri0041_ready_def)
qed simp

lemma dri0041_apply_accepts:
  assumes "dri0041_ready d"
  shows "fst (motor_driver_apply_dri0041 now (Some c) d) = command_in_range c"
proof (cases rule: apply_dri0041_cases [of now "Some c" d])
  case rejected
  with assms control_from_command_iff [of c] show ?thesis by (auto simp: dri0041_ready_def)
next
  case (written c' control bl sl l br sr r ok p)
  with assms port_apply_ok [of "brake_wheels bl br control" "d41_port d"]
    control_from_command_ok [OF written(3)] control_from_command_iff [of c]
  show ?thesis by (auto simp: dri0041_ready_def)
qed

lemma dri0041_apply_fail:
  assumes "\<not> fst (motor_driver_apply_dri0041 now cmd d)"
  shows "dri0041_still (snd (motor_driver_apply_dri0041 now cmd d)) = dri0041_still d"
proof (cases rule: apply_dri0041_cases [of now cmd d])
  case (written c control bl sl l br sr r ok p)
  with assms port_apply_fail [of "Some (brake_wheels bl br control)" "d41_port d"] show ?thesis
    by (simp add: dri0041_still_def)
qed simp

lemma dri0041_apply_zero:
  assumes "fst (motor_driver_apply_dri0041 now (Some zero_command) d)"
  shows "dri0041_still (snd (motor_driver_apply_dri0041 now (Some zero_command) d))"
proof (cases rule: apply_dri0041_cases [of now "Some zero_command" d])
  case rejected
  with assms show ?thesis by simp
next
  case (written c control bl sl l br sr r ok p)
  from written(1,3) have "control = zero_dri0041_control"
    by (auto simp: dri0041_control_from_command_def zero_command_def)
  then have "brake_wheels bl br control = zero_dri0041_control"
    by (simp add: brake_wheels_def zero_dri0041_control_def Let_def)
  with written(6) have "motor_driver_dri0041_port_apply (Some zero_dri0041_control) (d41_port d) = (ok, p)"
    by simp
  with written(7) assms show ?thesis
    by (auto simp: dri0041_still_def driver_defs zero_dri0041_control_def Let_def split: if_splits)
qed

interpretation dri0041_driver: motor_driver_contract dri0041 dri0041_inv dri0041_still dri0041_ready
proof
  fix d d'
  assume "md_init dri0041 d = (True, d')"
  then show "dri0041_ready d' \<and> dri0041_still d' \<and> dri0041_inv d'"
    by (auto simp: dri0041_def driver_defs dri0041_ready_def dri0041_still_def dri0041_inv_def
        port_safe_def zero_dri0041_control_def Let_def split: if_splits)
next
  fix d assume "dri0041_inv d"
  then show "dri0041_inv (snd (md_stop dri0041 d))"
    using port_safe_apply [OF zero_control_ok, of "d41_port d"]
    by (auto simp: dri0041_def motor_driver_stop_dri0041_def dri0041_inv_def wheel_wf_def Let_def split: prod.splits)
next
  fix d show "dri0041_ready (snd (md_stop dri0041 d)) = dri0041_ready d"
    using port_apply_frame [of "Some zero_dri0041_control" "d41_port d"]
    by (auto simp: dri0041_def motor_driver_stop_dri0041_def dri0041_ready_def Let_def split: prod.splits)
next
  fix d assume "dri0041_ready d"
  then show "fst (md_stop dri0041 d)"
    using port_apply_ok [OF zero_control_ok, of "d41_port d"]
    by (auto simp: dri0041_def motor_driver_stop_dri0041_def dri0041_ready_def Let_def split: prod.splits)
next
  fix d assume "fst (md_stop dri0041 d)"
  then show "dri0041_still (snd (md_stop dri0041 d))"
    by (auto simp: dri0041_def driver_defs dri0041_still_def zero_dri0041_control_def Let_def split: if_splits)
next
  fix d assume "\<not> fst (md_stop dri0041 d)"
  then show "dri0041_still (snd (md_stop dri0041 d)) = dri0041_still d"
    using port_apply_fail [of "Some zero_dri0041_control" "d41_port d"]
    by (auto simp: dri0041_def motor_driver_stop_dri0041_def dri0041_still_def Let_def split: prod.splits if_splits)
qed (simp_all add: dri0041_def dri0041_apply_inv dri0041_apply_ready dri0041_apply_accepts
    dri0041_apply_fail dri0041_apply_zero)

end
