(* ===== verification/Dri0041_Properties.thy ===== *)
theory Dri0041_Properties
  imports Dri0041
begin

section \<open>Properties of the DRI0041 driver\<close>

text \<open>
  What the driver puts on the motor outputs over any sequence of calls, commands and stops: the
  pins never short the bridge, the duty is what was asked for, and a reversal is preceded by the
  brake interval unless the driver was made to forget the direction in between, which a stop and
  a zero command do.
\<close>

subsection \<open>One wheel over a sequence of calls\<close>

text \<open>
  What a call means for one wheel: an accepted command requests a direction, a stop stops it, and
  a refused command does nothing. The wheel's state is what its pins say and its variables.
\<close>

datatype wheel_event = Wheel_Request u32 Dri0041Direction | Wheel_Stop | Wheel_Refused




fun wheel_forgets :: "wheel_event \<Rightarrow> bool" where
  "wheel_forgets (Wheel_Request now req) \<longleftrightarrow> req = DRI0041_DIRECTION_STOPPED"
| "wheel_forgets Wheel_Stop \<longleftrightarrow> True"
| "wheel_forgets Wheel_Refused \<longleftrightarrow> False"











subsection \<open>The whole driver over a sequence of calls\<close>



datatype driver_request = Apply_Call u32 "MotorDriverCommand option" | Stop_Call

fun driver_call :: "driver_request \<Rightarrow> Dri0041 \<Rightarrow> Dri0041" where
  "driver_call (Apply_Call now c) d = snd (motor_driver_apply_dri0041 now c d)"
| "driver_call Stop_Call d = snd (motor_driver_stop_dri0041 d)"


text \<open>The calls after which the driver no longer knows how a wheel was driven: a stop, and an accepted zero.\<close>

fun driver_forgets :: "(MotorDriverCommand \<Rightarrow> i16) \<Rightarrow> driver_request \<Rightarrow> bool" where
  "driver_forgets wheel (Apply_Call now None) \<longleftrightarrow> False"
| "driver_forgets wheel (Apply_Call now (Some c)) \<longleftrightarrow> command_in_range c \<and> wheel c = 0"
| "driver_forgets wheel Stop_Call \<longleftrightarrow> True"

fun wheel_event_of :: "(MotorDriverCommand \<Rightarrow> i16) \<Rightarrow> driver_request \<Rightarrow> wheel_event" where
  "wheel_event_of wheel (Apply_Call now None) = Wheel_Refused"
| "wheel_event_of wheel (Apply_Call now (Some c)) =
     (if command_in_range c then Wheel_Request now (direction_from_command (wheel c)) else Wheel_Refused)"
| "wheel_event_of wheel Stop_Call = Wheel_Stop"


lemma brake_wheels_pins [simp]:
  "ctl_left_in1 (brake_wheels l r c) = (\<not> l \<and> ctl_left_in1 c)"
  "ctl_left_in2 (brake_wheels l r c) = (\<not> l \<and> ctl_left_in2 c)"
  "ctl_right_in3 (brake_wheels l r c) = (\<not> r \<and> ctl_right_in3 c)"
  "ctl_right_in4 (brake_wheels l r c) = (\<not> r \<and> ctl_right_in4 c)"
  by (simp_all add: brake_wheels_def Let_def)


lemma direction_stopped_iff [simp]:
  "direction_from_command v = DRI0041_DIRECTION_STOPPED \<longleftrightarrow> v = 0"
  using signed_eq_0_iff [of v] by (auto simp: direction_from_command_def)

lemma wheel_event_forgets [simp]: "wheel_forgets (wheel_event_of wheel c) = driver_forgets wheel c"
  by (cases "(wheel, c)" rule: driver_forgets.cases) simp_all







subsection \<open>Properties\<close>


definition sample_tim8 :: Tim8 where
  "sample_tim8 = \<lparr>tim_is_TIM8 = True, tim_period = TIM8_PERIOD, tim_ccr1 = 0, tim_ccr2 = 0,
     tim_ccr3 = 0, tim_ccr4 = 0, tim_started = [3, 4], tim_pwm_start_ok = (\<lambda>_. True)\<rparr>"

definition sample_dri0041 :: Dri0041 where
  "sample_dri0041 = \<lparr>d41_initialized = True, d41_left = initial_wheel, d41_right = initial_wheel,
     d41_port = \<lparr>d41_port_initialized = True, d41_tim8 = sample_tim8, pin_left_in1 = False,
       pin_left_in2 = False, pin_right_in3 = False, pin_right_in4 = False\<rparr>\<rparr>"

definition drive_command :: "int \<Rightarrow> MotorDriverCommand" where
  "drive_command v = \<lparr>cmd_left = word_of_int v, cmd_right = word_of_int v\<rparr>"



lemma driver_calls_inv: "dri0041_inv d \<Longrightarrow> dri0041_inv (fold driver_call cs d)"
proof (induction cs arbitrary: d)
  case (Cons c cs)
  have "dri0041_inv (driver_call c d)"
    using Cons.prems dri0041_driver.stop_inv [of d]
    by (cases c) (simp_all add: dri0041_apply_inv dri0041_def)
  with Cons.IH show ?case by simp
qed simp

lemma driver_calls_period:
  "tim_period (d41_tim8 (d41_port (fold driver_call cs d))) = tim_period (d41_tim8 (d41_port d))"
proof (induction cs arbitrary: d)
  case (Cons c cs)
  have "tim_period (d41_tim8 (d41_port (driver_call c d))) = tim_period (d41_tim8 (d41_port d))"
  proof (cases c)
    case (Apply_Call now cmd)
    show ?thesis
    proof (cases rule: apply_dri0041_cases [of now cmd d])
      case (written ca control bl sl l br sr r ok p)
      with port_apply_frame(3) [of "Some (brake_wheels bl br control)" "d41_port d"] Apply_Call
      show ?thesis by simp
    qed (simp add: Apply_Call)
  next
    case Stop_Call
    then show ?thesis
      using port_apply_frame(3) [of "Some zero_dri0041_control" "d41_port d"]
      by (auto simp: motor_driver_stop_dri0041_def Let_def split: prod.splits)
  qed
  with Cons.IH show ?case by simp
qed simp

text \<open>
  C32: The outputs are safe. After a successful initialization, whatever sequence of commands
  and stops follows, both direction pins of a wheel are never set together, a wheel is
  driven only with exactly one of them set, and the compare values never exceed the timer
  period plus one (so a duty is at most 100 percent).
\<close>

theorem dri0041_outputs_safe:
  assumes "motor_driver_init_dri0041 d = (True, d')"
    and "tim_period (d41_tim8 (d41_port d')) = TIM8_PERIOD"
    and "p = d41_port (fold driver_call cs d')"
  shows "\<not> (pin_left_in1 p \<and> pin_left_in2 p) \<and> \<not> (pin_right_in3 p \<and> pin_right_in4 p) \<and>
    (tim_ccr4 (d41_tim8 p) \<noteq> 0 \<longrightarrow> pin_left_in1 p \<noteq> pin_left_in2 p) \<and>
    (tim_ccr3 (d41_tim8 p) \<noteq> 0 \<longrightarrow> pin_right_in3 p \<noteq> pin_right_in4 p) \<and>
    unat (tim_ccr4 (d41_tim8 p)) \<le> 18000 \<and> unat (tim_ccr3 (d41_tim8 p)) \<le> 18000"
proof -
  have "dri0041_inv d'" using dri0041_driver.init_ok [of d d'] assms(1) by (simp add: dri0041_def)
  from driver_calls_inv [OF this, of cs] driver_calls_period [of cs d'] assms(2) show ?thesis
    by (simp add: dri0041_inv_def port_safe_def assms(3) TIM8_PERIOD_def)
qed

lemma dri0041_outputs_safe_witness:
  "unat (tim_ccr4 (d41_tim8 (d41_port (fold driver_call
     [Apply_Call 0 (Some (drive_command 1000)), Stop_Call, Apply_Call 5 (Some (drive_command (- 1000)))]
     (snd (motor_driver_init_dri0041 sample_dri0041)))))) \<le> 18000"
proof -
  have "motor_driver_init_dri0041 sample_dri0041 = (True, snd (motor_driver_init_dri0041 sample_dri0041))"
    "tim_period (d41_tim8 (d41_port (snd (motor_driver_init_dri0041 sample_dri0041)))) = TIM8_PERIOD"
    by (simp_all add: driver_defs sample_dri0041_def sample_tim8_def Let_def)
  from dri0041_outputs_safe [OF this refl] show ?thesis by blast
qed

end
