(* ===== verification/Drv8833.thy ===== *)
theory Drv8833
  imports Motor_Driver
begin

section \<open>The DRV8833 driver and its board port\<close>

text \<open>
  App/Src/motor\_driver\_drv8833.c and Port/motor\_driver\_drv8833\_port\_stm32.c, the driver
  for the earlier motor board: four PWM inputs, two per motor, and a standby pin. The
  update-disable bit the port sets and clears around the four register writes is back at
  zero when the function returns and has no field.
\<close>

record Drv8833PortControl =
  ain1_duty :: u16
  ain2_duty :: u16
  bin1_duty :: u16
  bin2_duty :: u16

record Drv8833ChannelControl =
  in1_duty :: u16
  in2_duty :: u16

record Drv8833Port =
  d33_port_initialized :: bool
  d33_tim8 :: Tim8
  pin_stby :: bool

record Drv8833 =
  d33_initialized :: bool
  d33_port :: Drv8833Port

definition drv8833_channel_control :: "i16 \<Rightarrow> Drv8833ChannelControl option" where
  "drv8833_channel_control command =
     (if sint command > MOTOR_DRIVER_COMMAND_MAX \<or> sint command < MOTOR_DRIVER_COMMAND_MIN then None
      else
        let m_control = \<lparr>in1_duty = 0, in2_duty = 0\<rparr>
        in if sint command > 0 then Some (m_control\<lparr>in1_duty := command\<rparr>)
           else if sint command < 0 then Some (m_control\<lparr>in2_duty := - command\<rparr>)
           else Some m_control)"

definition drv8833_control_from_command :: "MotorDriverCommand option \<Rightarrow> Drv8833PortControl option" where
  "drv8833_control_from_command command =
     (case command of
        None \<Rightarrow> None
      | Some c \<Rightarrow>
          (case drv8833_channel_control (cmd_left c) of
             None \<Rightarrow> None
           | Some channel_a \<Rightarrow>
               (case drv8833_channel_control (cmd_right c) of
                  None \<Rightarrow> None
                | Some channel_b \<Rightarrow>
                    Some \<lparr>ain1_duty = in1_duty channel_a, ain2_duty = in2_duty channel_a,
                          bin1_duty = in1_duty channel_b, bin2_duty = in2_duty channel_b\<rparr>)))"

definition drv8833_brake_control :: Drv8833PortControl where
  "drv8833_brake_control = \<lparr>ain1_duty = 1000, ain2_duty = 1000, bin1_duty = 1000, bin2_duty = 1000\<rparr>"

subsection \<open>The port\<close>

text \<open>The channels are started one after the other; the first that fails leads to the common exit.\<close>

fun start_channels :: "nat list \<Rightarrow> Tim8 \<Rightarrow> bool \<times> Tim8" where
  "start_channels [] t = (True, t)"
| "start_channels (ch # chs) t =
     (if \<not> tim_pwm_start_ok t ch then (False, t)
      else start_channels chs (t\<lparr>tim_started := ch # tim_started t\<rparr>))"

definition motor_driver_drv8833_port_init :: "Drv8833Port \<Rightarrow> bool \<times> Drv8833Port" where
  [driver_defs]: "motor_driver_drv8833_port_init p =
     (let p = p\<lparr>d33_port_initialized := False\<rparr>;
          p = p\<lparr>pin_stby := False\<rparr>
      in if \<not> tim_is_TIM8 (d33_tim8 p) then (False, p)
         else
           let p = p\<lparr>d33_tim8 := (d33_tim8 p)\<lparr>tim_ccr1 := 0, tim_ccr2 := 0, tim_ccr3 := 0, tim_ccr4 := 0\<rparr>\<rparr>;
               (ok, t) = start_channels [1, 2, 3, 4] (d33_tim8 p);
               p = p\<lparr>d33_tim8 := t\<rparr>
           in if ok then (True, p\<lparr>d33_port_initialized := True\<rparr>)
              else
                (False, p\<lparr>pin_stby := False,
                   d33_tim8 := (d33_tim8 p)\<lparr>tim_started := filter (\<lambda>ch. ch \<notin> {1, 2, 3, 4}) (tim_started (d33_tim8 p))\<rparr>\<rparr>))"

definition motor_driver_drv8833_port_apply ::
  "Drv8833PortControl option \<Rightarrow> Drv8833Port \<Rightarrow> bool \<times> Drv8833Port" where
  [driver_defs]: "motor_driver_drv8833_port_apply ctl p =
     (case ctl of
        None \<Rightarrow> (False, p)
      | Some control \<Rightarrow>
          if \<not> d33_port_initialized p \<or> \<not> tim_is_TIM8 (d33_tim8 p) then (False, p)
          else if unat (ain1_duty control) > 1000 \<or> unat (ain2_duty control) > 1000 \<or>
                  unat (bin1_duty control) > 1000 \<or> unat (bin2_duty control) > 1000
          then (False, p)
          else
            let ccr1 = compare_from_duty (d33_tim8 p) (ain1_duty control);
                ccr2 = compare_from_duty (d33_tim8 p) (ain2_duty control);
                ccr3 = compare_from_duty (d33_tim8 p) (bin1_duty control);
                ccr4 = compare_from_duty (d33_tim8 p) (bin2_duty control)
            in (True, p\<lparr>d33_tim8 := (d33_tim8 p)\<lparr>tim_ccr1 := ccr1, tim_ccr2 := ccr2,
                        tim_ccr3 := ccr3, tim_ccr4 := ccr4\<rparr>, pin_stby := True\<rparr>))"

subsection \<open>The driver\<close>

definition motor_driver_init_drv8833 :: "Drv8833 \<Rightarrow> bool \<times> Drv8833" where
  [driver_defs]: "motor_driver_init_drv8833 d =
     (let d = d\<lparr>d33_initialized := False\<rparr>;
          (ok, p) = motor_driver_drv8833_port_init (d33_port d);
          d = d\<lparr>d33_port := p\<rparr>
      in if \<not> ok then (False, d) else (True, d\<lparr>d33_initialized := True\<rparr>))"

definition motor_driver_apply_drv8833 ::
  "u32 \<Rightarrow> MotorDriverCommand option \<Rightarrow> Drv8833 \<Rightarrow> bool \<times> Drv8833" where
  [driver_defs]: "motor_driver_apply_drv8833 now_ms command d =
     (if \<not> d33_initialized d \<or> command = None then (False, d)
      else case drv8833_control_from_command command of
        None \<Rightarrow> (False, d)
      | Some control \<Rightarrow>
          let (ok, p) = motor_driver_drv8833_port_apply (Some control) (d33_port d);
              d = d\<lparr>d33_port := p\<rparr>
          in if \<not> ok then (False, d) else (True, d))"

definition motor_driver_stop_drv8833 :: "Drv8833 \<Rightarrow> bool \<times> Drv8833" where
  [driver_defs]: "motor_driver_stop_drv8833 d =
     (if \<not> d33_initialized d then (False, d)
      else
        let control = drv8833_brake_control;
            (ok, p) = motor_driver_drv8833_port_apply (Some control) (d33_port d);
            d = d\<lparr>d33_port := p\<rparr>
        in if \<not> ok then (False, d) else (True, d))"

definition drv8833 :: "Drv8833 MotorDriver" where
  "drv8833 = \<lparr>md_init = motor_driver_init_drv8833, md_apply = motor_driver_apply_drv8833,
     md_stop = motor_driver_stop_drv8833\<rparr>"

subsection \<open>The contract\<close>

text \<open>A motor is driven when its two inputs differ: equal inputs coast or brake.\<close>

definition drv8833_still :: "Drv8833 \<Rightarrow> bool" where
  "drv8833_still d \<longleftrightarrow>
     (let t = d33_tim8 (d33_port d) in tim_ccr1 t = tim_ccr2 t \<and> tim_ccr3 t = tim_ccr4 t)"

definition drv8833_ready :: "Drv8833 \<Rightarrow> bool" where
  "drv8833_ready d \<longleftrightarrow>
     d33_initialized d \<and> d33_port_initialized (d33_port d) \<and> tim_is_TIM8 (d33_tim8 (d33_port d))"

definition drv8833_inv :: "Drv8833 \<Rightarrow> bool" where
  "drv8833_inv d \<longleftrightarrow>
     (let t = d33_tim8 (d33_port d)
      in (tim_ccr1 t = 0 \<or> tim_ccr2 t = 0 \<or> tim_ccr1 t = tim_ccr2 t) \<and>
         (tim_ccr3 t = 0 \<or> tim_ccr4 t = 0 \<or> tim_ccr3 t = tim_ccr4 t))"

definition drv8833_control_ok :: "Drv8833PortControl \<Rightarrow> bool" where
  "drv8833_control_ok c \<longleftrightarrow>
     unat (ain1_duty c) \<le> 1000 \<and> unat (ain2_duty c) \<le> 1000 \<and>
     unat (bin1_duty c) \<le> 1000 \<and> unat (bin2_duty c) \<le> 1000 \<and>
     (ain1_duty c = 0 \<or> ain2_duty c = 0 \<or> ain1_duty c = ain2_duty c) \<and>
     (bin1_duty c = 0 \<or> bin2_duty c = 0 \<or> bin1_duty c = bin2_duty c)"

lemma brake_control_ok [simp]: "drv8833_control_ok drv8833_brake_control"
  by (simp add: drv8833_control_ok_def drv8833_brake_control_def)

lemma channel_control:
  assumes "drv8833_channel_control v = Some ch"
  shows "unat (in1_duty ch) \<le> 1000 \<and> unat (in2_duty ch) \<le> 1000 \<and> (in1_duty ch = 0 \<or> in2_duty ch = 0)"
  using assms by (auto simp: drv8833_channel_control_def Let_def duty_bound split: if_splits)

lemma channel_control_iff:
  "drv8833_channel_control v \<noteq> None \<longleftrightarrow>
     MOTOR_DRIVER_COMMAND_MIN \<le> sint v \<and> sint v \<le> MOTOR_DRIVER_COMMAND_MAX"
  by (auto simp: drv8833_channel_control_def Let_def)

lemma drv8833_control:
  "drv8833_control_from_command (Some c) = Some control \<Longrightarrow> drv8833_control_ok control"
  by (auto simp: drv8833_control_from_command_def drv8833_control_ok_def dest!: channel_control
      split: option.splits)

lemma drv8833_control_iff:
  "drv8833_control_from_command (Some c) \<noteq> None \<longleftrightarrow> command_in_range c"
  using channel_control_iff [of "cmd_left c"] channel_control_iff [of "cmd_right c"]
  by (auto simp: drv8833_control_from_command_def command_in_range_def split: option.splits)

lemma drv8833_port_apply:
  assumes "drv8833_control_ok control" and "d33_port_initialized p" and "tim_is_TIM8 (d33_tim8 p)"
  shows "motor_driver_drv8833_port_apply (Some control) p =
    (True, p\<lparr>d33_tim8 := (d33_tim8 p)\<lparr>
        tim_ccr1 := compare_from_duty (d33_tim8 p) (ain1_duty control),
        tim_ccr2 := compare_from_duty (d33_tim8 p) (ain2_duty control),
        tim_ccr3 := compare_from_duty (d33_tim8 p) (bin1_duty control),
        tim_ccr4 := compare_from_duty (d33_tim8 p) (bin2_duty control)\<rparr>, pin_stby := True\<rparr>)"
  using assms by (simp add: driver_defs drv8833_control_ok_def)

lemma drv8833_port_apply_fail:
  "\<not> (d33_port_initialized p \<and> tim_is_TIM8 (d33_tim8 p)) \<Longrightarrow>
     motor_driver_drv8833_port_apply ctl p = (False, p)"
  by (auto simp: driver_defs split: option.splits)

text \<open>Every apply either leaves the driver alone or writes a legal control.\<close>

lemma apply_drv8833_cases:
  obtains (rejected) "motor_driver_apply_drv8833 now cmd d = (False, d)"
      "\<not> drv8833_ready d \<or> (\<forall>c. cmd = Some c \<longrightarrow> \<not> command_in_range c)"
    | (written) c control where "cmd = Some c" "drv8833_ready d" "command_in_range c"
      "drv8833_control_from_command (Some c) = Some control" "drv8833_control_ok control"
      "motor_driver_apply_drv8833 now cmd d =
        (True, d\<lparr>d33_port := snd (motor_driver_drv8833_port_apply (Some control) (d33_port d))\<rparr>)"
proof (cases "drv8833_ready d \<and> (\<exists>c. cmd = Some c \<and> command_in_range c)")
  case True
  then obtain c where c: "cmd = Some c" "command_in_range c" and r: "drv8833_ready d" by auto
  then obtain control where ctl: "drv8833_control_from_command (Some c) = Some control"
    using drv8833_control_iff [of c] by auto
  have "motor_driver_apply_drv8833 now cmd d =
      (True, d\<lparr>d33_port := snd (motor_driver_drv8833_port_apply (Some control) (d33_port d))\<rparr>)"
    using c r ctl drv8833_port_apply [OF drv8833_control [OF ctl], of "d33_port d"]
    by (simp add: motor_driver_apply_drv8833_def drv8833_ready_def)
  with written [OF c(1) r c(2) ctl drv8833_control [OF ctl]] show thesis .
next
  case False
  have "motor_driver_apply_drv8833 now cmd d = (False, d)"
  proof (cases "drv8833_ready d")
    case True
    with False drv8833_control_iff show ?thesis
      by (auto simp: motor_driver_apply_drv8833_def split: option.splits)
  next
    case False
    then show ?thesis
      using drv8833_port_apply_fail [of "d33_port d"]
      by (auto simp: motor_driver_apply_drv8833_def drv8833_ready_def split: option.splits)
  qed
  with rejected False show thesis by blast
qed

lemma stop_drv8833:
  "motor_driver_stop_drv8833 d =
     (if drv8833_ready d
      then (True, d\<lparr>d33_port := snd (motor_driver_drv8833_port_apply (Some drv8833_brake_control) (d33_port d))\<rparr>)
      else (False, d))"
  using drv8833_port_apply [OF brake_control_ok, of "d33_port d"]
    drv8833_port_apply_fail [of "d33_port d" "Some drv8833_brake_control"]
  by (auto simp: motor_driver_stop_drv8833_def drv8833_ready_def)

lemma drv8833_written:
  assumes "drv8833_control_ok control" and "drv8833_ready d"
  defines "d' \<equiv> d\<lparr>d33_port := snd (motor_driver_drv8833_port_apply (Some control) (d33_port d))\<rparr>"
  shows "drv8833_inv d'" and "drv8833_ready d'"
    and "ain1_duty control = ain2_duty control \<Longrightarrow> bin1_duty control = bin2_duty control \<Longrightarrow> drv8833_still d'"
  using assms drv8833_port_apply [OF assms(1), of "d33_port d"]
  by (auto simp: drv8833_inv_def drv8833_ready_def drv8833_still_def drv8833_control_ok_def Let_def)

lemma start_channels_frame:
  "start_channels chs t = (ok, t') \<Longrightarrow>
     tim_is_TIM8 t' = tim_is_TIM8 t \<and> tim_ccr1 t' = tim_ccr1 t \<and> tim_ccr2 t' = tim_ccr2 t \<and>
     tim_ccr3 t' = tim_ccr3 t \<and> tim_ccr4 t' = tim_ccr4 t"
  by (induction chs t rule: start_channels.induct) (auto split: if_splits)

lemma init_drv8833:
  assumes "motor_driver_init_drv8833 d = (True, d')"
  shows "drv8833_ready d' \<and> drv8833_still d' \<and> drv8833_inv d'"
proof -
  let ?t = "(d33_tim8 (d33_port d))\<lparr>tim_ccr1 := 0, tim_ccr2 := 0, tim_ccr3 := 0, tim_ccr4 := 0\<rparr>"
  obtain ok t where start: "start_channels [1, 2, 3, 4] ?t = (ok, t)" by fastforce
  from start_channels_frame [OF start] show ?thesis
    using assms start
    by (simp add: driver_defs Let_def drv8833_ready_def drv8833_still_def drv8833_inv_def
        del: start_channels.simps split: if_splits) auto
qed

interpretation drv8833_driver: motor_driver_contract drv8833 drv8833_inv drv8833_still drv8833_ready
proof
  fix d d' assume "md_init drv8833 d = (True, d')"
  then show "drv8833_ready d' \<and> drv8833_still d' \<and> drv8833_inv d'"
    by (simp add: drv8833_def init_drv8833)
next
  fix d now c assume "drv8833_inv d"
  then show "drv8833_inv (snd (md_apply drv8833 now c d))"
    by (cases rule: apply_drv8833_cases [of now c d]) (simp_all add: drv8833_def drv8833_written)
next
  fix d assume "drv8833_inv d"
  then show "drv8833_inv (snd (md_stop drv8833 d))"
    by (simp add: drv8833_def stop_drv8833 drv8833_written)
next
  fix d now c show "drv8833_ready (snd (md_apply drv8833 now c d)) = drv8833_ready d"
    by (cases rule: apply_drv8833_cases [of now c d]) (simp_all add: drv8833_def drv8833_written)
next
  fix d show "drv8833_ready (snd (md_stop drv8833 d)) = drv8833_ready d"
    by (simp add: drv8833_def stop_drv8833 drv8833_written)
next
  fix d now cmd assume "drv8833_ready d"
  then show "fst (md_apply drv8833 now (Some cmd) d) = command_in_range cmd"
    by (cases rule: apply_drv8833_cases [of now "Some cmd" d]) (auto simp: drv8833_def)
next
  fix d now c assume "\<not> fst (md_apply drv8833 now c d)"
  then show "drv8833_still (snd (md_apply drv8833 now c d)) = drv8833_still d"
    by (cases rule: apply_drv8833_cases [of now c d]) (simp_all add: drv8833_def)
next
  fix d now assume "fst (md_apply drv8833 now (Some zero_command) d)"
  then show "drv8833_still (snd (md_apply drv8833 now (Some zero_command) d))"
    by (cases rule: apply_drv8833_cases [of now "Some zero_command" d])
       (auto simp: drv8833_def zero_command_def drv8833_control_from_command_def
          drv8833_channel_control_def drv8833_written)
next
  fix d assume "fst (md_stop drv8833 d)"
  then show "drv8833_still (snd (md_stop drv8833 d))"
    using drv8833_written(3) [OF brake_control_ok, of d]
    by (simp add: drv8833_def stop_drv8833 drv8833_brake_control_def split: if_splits)
qed (auto simp: drv8833_def stop_drv8833)

end
