(* ===== verification/Motion_Guard.thy ===== *)
theory Motion_Guard
  imports Dri0041_Properties Drv8833
begin

section \<open>The motion watchdog and the command guard\<close>

text \<open>
  App/Src/motion\_watchdog.c and motion\_command\_guard.c. The guard is the only module that
  calls the motor driver; it is modelled over an arbitrary driver record. Its safety
  argument (a driven wheel is always watched) is proved once, from the driver contract,
  and holds for both drivers.

  \<open>motion_command_guard_apply\<close> has two times: \<open>now_ms\<close>, the argument of the C function, and
  \<open>tick\<close>, what the tick counter reads inside the driver.
\<close>

subsection \<open>The watchdog\<close>

record MotionWatchdogState =
  wd_armed :: bool
  wd_initialized :: bool
  wd_timeout_ms :: u32
  wd_last_refresh_ms :: u32

definition zero_watchdog :: MotionWatchdogState where
  "zero_watchdog = \<lparr>wd_armed = False, wd_initialized = False, wd_timeout_ms = 0, wd_last_refresh_ms = 0\<rparr>"

definition motion_watchdog_init :: "u32 \<Rightarrow> bool \<times> MotionWatchdogState" where
  "motion_watchdog_init timeout_ms =
     (let s = zero_watchdog
      in if timeout_ms > 0 then (True, s\<lparr>wd_timeout_ms := timeout_ms, wd_initialized := True\<rparr>)
         else (False, s))"

definition motion_watchdog_refresh :: "u32 \<Rightarrow> MotionWatchdogState \<Rightarrow> bool \<times> MotionWatchdogState" where
  "motion_watchdog_refresh now_ms s =
     (if \<not> wd_initialized s then (False, s)
      else (True, s\<lparr>wd_last_refresh_ms := now_ms, wd_armed := True\<rparr>))"

definition motion_watchdog_disarm :: "MotionWatchdogState \<Rightarrow> MotionWatchdogState" where
  "motion_watchdog_disarm s = s\<lparr>wd_armed := False\<rparr>"

definition motion_watchdog_is_armed :: "MotionWatchdogState \<Rightarrow> bool" where
  "motion_watchdog_is_armed s = wd_armed s"

definition motion_watchdog_expired :: "u32 \<Rightarrow> MotionWatchdogState \<Rightarrow> bool" where
  "motion_watchdog_expired now_ms s =
     (if \<not> wd_initialized s \<or> \<not> wd_armed s then False
      else now_ms - wd_last_refresh_ms s \<ge> wd_timeout_ms s)"

subsection \<open>The guard\<close>

datatype MotionCommandGuardUpdate =
    MOTION_COMMAND_GUARD_UPDATE_NONE
  | MOTION_COMMAND_GUARD_UPDATE_STOPPED
  | MOTION_COMMAND_GUARD_UPDATE_STOP_FAILED

text \<open>The guard's static state, with the two modules it owns.\<close>

record 'd MotionCommandGuard =
  guard_initialized :: bool
  guard_stop_pending :: bool
  guard_watchdog :: MotionWatchdogState
  guard_driver :: 'd

definition motion_command_guard_try_stop ::
  "'d MotorDriver \<Rightarrow> 'd MotionCommandGuard \<Rightarrow> bool \<times> 'd MotionCommandGuard" where
  "motion_command_guard_try_stop drv g =
     (let (ok, d) = md_stop drv (guard_driver g);
          g = g\<lparr>guard_driver := d\<rparr>
      in if ok
         then (True, g\<lparr>guard_watchdog := motion_watchdog_disarm (guard_watchdog g), guard_stop_pending := False\<rparr>)
         else (False, g\<lparr>guard_stop_pending := True\<rparr>))"

definition motion_command_guard_init ::
  "'d MotorDriver \<Rightarrow> u32 \<Rightarrow> 'd MotionCommandGuard \<Rightarrow> bool \<times> 'd MotionCommandGuard" where
  "motion_command_guard_init drv timeout_ms g =
     (let g = g\<lparr>guard_initialized := False, guard_stop_pending := False\<rparr>;
          (motor_initialized, d) = md_init drv (guard_driver g);
          g = g\<lparr>guard_driver := d\<rparr>;
          (watchdog_initialized, w) = motion_watchdog_init timeout_ms;
          g = g\<lparr>guard_watchdog := w\<rparr>
      in if \<not> motor_initialized \<or> \<not> watchdog_initialized then (False, g)
         else (True, g\<lparr>guard_initialized := True\<rparr>))"

definition motion_command_guard_stop ::
  "'d MotorDriver \<Rightarrow> 'd MotionCommandGuard \<Rightarrow> bool \<times> 'd MotionCommandGuard" where
  "motion_command_guard_stop drv g =
     (if \<not> guard_initialized g then (False, g) else motion_command_guard_try_stop drv g)"

definition motion_command_guard_apply ::
  "'d MotorDriver \<Rightarrow> u32 \<Rightarrow> MotorDriverCommand option \<Rightarrow> u32 \<Rightarrow> 'd MotionCommandGuard \<Rightarrow>
     bool \<times> 'd MotionCommandGuard" where
  "motion_command_guard_apply drv tick command now_ms g =
     (case command of
        None \<Rightarrow> (False, g)
      | Some c \<Rightarrow>
          if \<not> guard_initialized g \<or> guard_stop_pending g then (False, g)
          else
            let (ok, d) = md_apply drv tick (Some c) (guard_driver g);
                g = g\<lparr>guard_driver := d\<rparr>
            in if \<not> ok then (False, snd (motion_command_guard_try_stop drv g))
               else if cmd_left c = 0 \<and> cmd_right c = 0
               then (True, g\<lparr>guard_watchdog := motion_watchdog_disarm (guard_watchdog g)\<rparr>)
               else
                 let (refreshed, w) = motion_watchdog_refresh now_ms (guard_watchdog g);
                     g = g\<lparr>guard_watchdog := w\<rparr>
                 in if \<not> refreshed then (False, snd (motion_command_guard_try_stop drv g))
                    else (True, g))"

definition motion_command_guard_update ::
  "'d MotorDriver \<Rightarrow> u32 \<Rightarrow> 'd MotionCommandGuard \<Rightarrow> MotionCommandGuardUpdate \<times> 'd MotionCommandGuard" where
  "motion_command_guard_update drv now_ms g =
     (if \<not> guard_initialized g then (MOTION_COMMAND_GUARD_UPDATE_NONE, g)
      else if \<not> guard_stop_pending g \<and> \<not> motion_watchdog_expired now_ms (guard_watchdog g)
      then (MOTION_COMMAND_GUARD_UPDATE_NONE, g)
      else
        let (stopped, g) = motion_command_guard_try_stop drv g
        in if stopped then (MOTION_COMMAND_GUARD_UPDATE_STOPPED, g)
           else (MOTION_COMMAND_GUARD_UPDATE_STOP_FAILED, g))"

lemmas watchdog_defs = motion_watchdog_init_def motion_watchdog_refresh_def motion_watchdog_disarm_def
  motion_watchdog_is_armed_def motion_watchdog_expired_def zero_watchdog_def

lemmas guard_defs = motion_command_guard_stop_def motion_command_guard_apply_def
  motion_command_guard_update_def

subsection \<open>What the guard guarantees of any driver\<close>

definition guard_wf :: "('d \<Rightarrow> bool) \<Rightarrow> ('d \<Rightarrow> bool) \<Rightarrow> 'd MotionCommandGuard \<Rightarrow> bool" where
  "guard_wf driver_inv still g \<longleftrightarrow>
     driver_inv (guard_driver g) \<and>
     (guard_initialized g \<longrightarrow> wd_initialized (guard_watchdog g)) \<and>
     (guard_initialized g \<longrightarrow> \<not> still (guard_driver g) \<longrightarrow>
        wd_armed (guard_watchdog g) \<or> guard_stop_pending g)"

text \<open>Once initialized, the driver stays ready and a stop is never left pending.\<close>

definition guard_ready ::
  "('d \<Rightarrow> bool) \<Rightarrow> ('d \<Rightarrow> bool) \<Rightarrow> ('d \<Rightarrow> bool) \<Rightarrow> 'd MotionCommandGuard \<Rightarrow> bool" where
  "guard_ready driver_inv still ready g \<longleftrightarrow>
     guard_wf driver_inv still g \<and> guard_initialized g \<and> ready (guard_driver g) \<and> \<not> guard_stop_pending g"

text \<open>Any sequence of calls of the guard.\<close>

datatype guard_request =
    Guard_Apply u32 "MotorDriverCommand option" u32
  | Guard_Stop
  | Guard_Update u32

fun guard_call :: "'d MotorDriver \<Rightarrow> guard_request \<Rightarrow> 'd MotionCommandGuard \<Rightarrow> 'd MotionCommandGuard" where
  "guard_call drv (Guard_Apply tick c now) g = snd (motion_command_guard_apply drv tick c now g)"
| "guard_call drv Guard_Stop g = snd (motion_command_guard_stop drv g)"
| "guard_call drv (Guard_Update now) g = snd (motion_command_guard_update drv now g)"

context motor_driver_contract
begin

lemma try_stop_cases:
  obtains (stopped) d where "motion_command_guard_try_stop ops g =
        (True, g\<lparr>guard_driver := d, guard_watchdog := motion_watchdog_disarm (guard_watchdog g),
                 guard_stop_pending := False\<rparr>)"
      "still d" "ready d = ready (guard_driver g)" "driver_inv (guard_driver g) \<longrightarrow> driver_inv d"
    | (failed) d where "motion_command_guard_try_stop ops g =
        (False, g\<lparr>guard_driver := d, guard_stop_pending := True\<rparr>)"
      "\<not> ready (guard_driver g)" "\<not> ready d" "driver_inv (guard_driver g) \<longrightarrow> driver_inv d"
proof (cases "fst (md_stop ops (guard_driver g))")
  case True
  let ?d = "snd (md_stop ops (guard_driver g))"
  have "motion_command_guard_try_stop ops g =
      (True, g\<lparr>guard_driver := ?d, guard_watchdog := motion_watchdog_disarm (guard_watchdog g),
               guard_stop_pending := False\<rparr>)"
    using True by (simp add: motion_command_guard_try_stop_def case_prod_beta Let_def)
  then show thesis
    by (rule stopped) (use True stop_still stop_ready stop_inv in auto)
next
  case False
  let ?d = "snd (md_stop ops (guard_driver g))"
  have "motion_command_guard_try_stop ops g = (False, g\<lparr>guard_driver := ?d, guard_stop_pending := True\<rparr>)"
    using False by (simp add: motion_command_guard_try_stop_def case_prod_beta Let_def)
  then show thesis
    by (rule failed) (use False stop_works stop_ready stop_inv in auto)
qed

lemma try_stop_wf:
  "guard_wf driver_inv still g \<or> driver_inv (guard_driver g) \<and> (guard_initialized g \<longrightarrow> wd_initialized (guard_watchdog g)) \<Longrightarrow>
     guard_wf driver_inv still (snd (motion_command_guard_try_stop ops g))"
  by (cases rule: try_stop_cases [of g]) (auto simp: guard_wf_def motion_watchdog_disarm_def)

lemma guard_stop_wf: "guard_wf driver_inv still g \<Longrightarrow> guard_wf driver_inv still (snd (motion_command_guard_stop ops g))"
  using try_stop_wf [of g] by (simp add: motion_command_guard_stop_def)

lemma guard_update_wf: "guard_wf driver_inv still g \<Longrightarrow> guard_wf driver_inv still (snd (motion_command_guard_update ops now g))"
  using try_stop_wf [of g] by (simp add: motion_command_guard_update_def case_prod_beta Let_def)

lemma guard_apply_wf:
  assumes "guard_wf driver_inv still g"
  shows "guard_wf driver_inv still (snd (motion_command_guard_apply ops tick command now g))"
proof (cases "command = None \<or> \<not> guard_initialized g \<or> guard_stop_pending g")
  case True
  with assms show ?thesis by (cases command) (auto simp: motion_command_guard_apply_def)
next
  case False
  then obtain c where c: "command = Some c" and g: "guard_initialized g" "\<not> guard_stop_pending g" by auto
  obtain ok d where d: "md_apply ops tick (Some c) (guard_driver g) = (ok, d)" by fastforce
  have inv: "driver_inv d" using apply_inv [of "guard_driver g" tick "Some c"] assms d by (simp add: guard_wf_def)
  have wd: "wd_initialized (guard_watchdog g)" using assms g by (simp add: guard_wf_def)
  have zero: "still d" if "ok" "cmd_left c = 0" "cmd_right c = 0"
  proof -
    have "c = zero_command" using that by (simp add: zero_command_def)
    with apply_zero [of "guard_driver g" tick] assms d that(1) show ?thesis by (simp add: guard_wf_def)
  qed
  show ?thesis
    using c g d inv wd zero try_stop_wf [of "g\<lparr>guard_driver := d\<rparr>"]
    by (auto simp: motion_command_guard_apply_def guard_wf_def motion_watchdog_refresh_def
        motion_watchdog_disarm_def Let_def)
qed

lemma guard_init_wf:
  assumes "motion_command_guard_init ops timeout g = (True, g')"
  shows "guard_wf driver_inv still g' \<and> guard_initialized g' \<and> ready (guard_driver g') \<and> still (guard_driver g') \<and>
    \<not> guard_stop_pending g' \<and> wd_timeout_ms (guard_watchdog g') = timeout \<and> \<not> wd_armed (guard_watchdog g')"
proof -
  obtain d where "md_init ops (guard_driver g) = (True, d)"
    and "g' = g\<lparr>guard_initialized := True, guard_stop_pending := False, guard_driver := d,
      guard_watchdog := zero_watchdog\<lparr>wd_timeout_ms := timeout, wd_initialized := True\<rparr>\<rparr>"
    using assms
    by (auto simp: motion_command_guard_init_def motion_watchdog_init_def Let_def split: prod.splits if_splits)
  with init_ok [of "guard_driver g" d] show ?thesis by (simp add: guard_wf_def zero_watchdog_def)
qed

lemma try_stop_ready:
  assumes "guard_initialized g" and "ready (guard_driver g)" and "driver_inv (guard_driver g)"
    and "wd_initialized (guard_watchdog g)"
  shows "\<exists>d. motion_command_guard_try_stop ops g =
      (True, g\<lparr>guard_driver := d, guard_watchdog := motion_watchdog_disarm (guard_watchdog g),
               guard_stop_pending := False\<rparr>) \<and> still d \<and> ready d \<and> driver_inv d"
  using assms by (cases rule: try_stop_cases [of g]) auto

lemma guard_readyD:
  assumes "guard_ready driver_inv still ready g"
  shows "guard_initialized g" "ready (guard_driver g)" "\<not> guard_stop_pending g" "driver_inv (guard_driver g)"
    "wd_initialized (guard_watchdog g)" "still (guard_driver g) \<or> wd_armed (guard_watchdog g)"
  using assms by (auto simp: guard_ready_def guard_wf_def)

lemma guard_stop_ready:
  assumes "guard_ready driver_inv still ready g"
  shows "fst (motion_command_guard_stop ops g)"
    and "still (guard_driver (snd (motion_command_guard_stop ops g)))"
    and "\<not> wd_armed (guard_watchdog (snd (motion_command_guard_stop ops g)))"
    and "guard_ready driver_inv still ready (snd (motion_command_guard_stop ops g))"
    and "wd_timeout_ms (guard_watchdog (snd (motion_command_guard_stop ops g))) = wd_timeout_ms (guard_watchdog g)"
  using guard_readyD [OF assms] try_stop_ready [of g]
  by (auto simp: motion_command_guard_stop_def guard_ready_def guard_wf_def motion_watchdog_disarm_def)

text \<open>A command is applied, or the wheels are stopped.\<close>

lemma guard_apply_ready:
  fixes tick c now
  assumes "guard_ready driver_inv still ready g"
  defines "r \<equiv> motion_command_guard_apply ops tick (Some c) now g"
  shows "guard_ready driver_inv still ready (snd r)"
    and "fst r = command_in_range c"
    and "\<not> fst r \<Longrightarrow> still (guard_driver (snd r)) \<and> \<not> wd_armed (guard_watchdog (snd r))"
    and "fst r \<Longrightarrow> guard_driver (snd r) = snd (md_apply ops tick (Some c) (guard_driver g))"
    and "fst r \<Longrightarrow> c = zero_command \<Longrightarrow> still (guard_driver (snd r)) \<and> \<not> wd_armed (guard_watchdog (snd r))"
    and "fst r \<Longrightarrow> c \<noteq> zero_command \<Longrightarrow>
      wd_armed (guard_watchdog (snd r)) \<and> wd_last_refresh_ms (guard_watchdog (snd r)) = now"
    and "wd_timeout_ms (guard_watchdog (snd r)) = wd_timeout_ms (guard_watchdog g)"
proof -
  note g = guard_readyD [OF assms(1)]
  obtain ok d where d: "md_apply ops tick (Some c) (guard_driver g) = (ok, d)" by fastforce
  have ok: "ok = command_in_range c" and rdy: "ready d" and inv: "driver_inv d"
    using apply_accepts [OF g(2), of tick c] apply_ready [of tick "Some c" "guard_driver g"]
      apply_inv [OF g(4), of tick "Some c"] g(2) d by simp_all
  have zero: "still d" if "ok" "c = zero_command"
    using apply_zero [OF g(4), of tick] that d by simp
  have zero_iff: "cmd_left c = 0 \<and> cmd_right c = 0 \<longleftrightarrow> c = zero_command"
    by (cases c) (auto simp: zero_command_def)
  obtain e where stop: "motion_command_guard_try_stop ops (g\<lparr>guard_driver := d\<rparr>) =
      (True, g\<lparr>guard_driver := e, guard_watchdog := motion_watchdog_disarm (guard_watchdog g),
               guard_stop_pending := False\<rparr>)" "still e" "ready e" "driver_inv e"
    using try_stop_ready [of "g\<lparr>guard_driver := d\<rparr>"] g rdy inv by auto
  have r: "r = (if \<not> ok then (False, g\<lparr>guard_driver := e,
        guard_watchdog := motion_watchdog_disarm (guard_watchdog g), guard_stop_pending := False\<rparr>)
      else if c = zero_command
      then (True, g\<lparr>guard_driver := d, guard_watchdog := motion_watchdog_disarm (guard_watchdog g)\<rparr>)
      else (True, g\<lparr>guard_driver := d, guard_watchdog := (guard_watchdog g)\<lparr>wd_last_refresh_ms := now, wd_armed := True\<rparr>\<rparr>))"
    using g d stop(1) by (simp add: r_def motion_command_guard_apply_def motion_watchdog_refresh_def zero_iff Let_def)
  show "guard_ready driver_inv still ready (snd r)"
    using g rdy inv zero stop unfolding r
    by (simp add: guard_ready_def guard_wf_def motion_watchdog_disarm_def)
  show "fst r = command_in_range c"
    and "\<not> fst r \<Longrightarrow> still (guard_driver (snd r)) \<and> \<not> wd_armed (guard_watchdog (snd r))"
    and "fst r \<Longrightarrow> guard_driver (snd r) = snd (md_apply ops tick (Some c) (guard_driver g))"
    and "fst r \<Longrightarrow> c = zero_command \<Longrightarrow> still (guard_driver (snd r)) \<and> \<not> wd_armed (guard_watchdog (snd r))"
    and "fst r \<Longrightarrow> c \<noteq> zero_command \<Longrightarrow>
      wd_armed (guard_watchdog (snd r)) \<and> wd_last_refresh_ms (guard_watchdog (snd r)) = now"
    and "wd_timeout_ms (guard_watchdog (snd r)) = wd_timeout_ms (guard_watchdog g)"
    using g d ok stop zero unfolding r by (auto simp: motion_watchdog_disarm_def)
qed

text \<open>After an update a driven wheel has a fresh command.\<close>

lemma guard_update_ready:
  fixes now
  assumes "guard_ready driver_inv still ready g"
  defines "r \<equiv> motion_command_guard_update ops now g"
  shows "guard_ready driver_inv still ready (snd r)"
    and "\<not> still (guard_driver (snd r)) \<Longrightarrow>
      wd_armed (guard_watchdog (snd r)) \<and>
      now - wd_last_refresh_ms (guard_watchdog (snd r)) < wd_timeout_ms (guard_watchdog (snd r))"
    and "fst r \<noteq> MOTION_COMMAND_GUARD_UPDATE_STOP_FAILED"
    and "fst r = MOTION_COMMAND_GUARD_UPDATE_STOPPED \<longleftrightarrow> motion_watchdog_expired now (guard_watchdog g)"
    and "motion_watchdog_expired now (guard_watchdog g) \<Longrightarrow>
      still (guard_driver (snd r)) \<and> \<not> wd_armed (guard_watchdog (snd r))"
    and "\<not> motion_watchdog_expired now (guard_watchdog g) \<Longrightarrow> snd r = g"
    and "wd_timeout_ms (guard_watchdog (snd r)) = wd_timeout_ms (guard_watchdog g)"
  using guard_readyD [OF assms(1)] assms(1) try_stop_ready [of g]
  by (auto simp: r_def motion_command_guard_update_def guard_ready_def guard_wf_def
      motion_watchdog_disarm_def motion_watchdog_expired_def not_le split: if_splits)

lemma guard_calls:
  assumes "guard_ready driver_inv still ready g"
  shows "guard_ready driver_inv still ready (fold (guard_call ops) es g) \<and>
    wd_timeout_ms (guard_watchdog (fold (guard_call ops) es g)) = wd_timeout_ms (guard_watchdog g)"
  using assms
proof (induction es arbitrary: g)
  case (Cons e es)
  have "guard_ready driver_inv still ready (guard_call ops e g) \<and>
      wd_timeout_ms (guard_watchdog (guard_call ops e g)) = wd_timeout_ms (guard_watchdog g)"
  proof (cases e)
    case (Guard_Apply tick c now)
    then show ?thesis
      using Cons.prems guard_apply_ready(1,7) [OF Cons.prems]
      by (cases c) (simp_all add: motion_command_guard_apply_def [of _ _ None])
  next
    case Guard_Stop
    then show ?thesis using guard_stop_ready(4,5) [OF Cons.prems] by simp
  next
    case (Guard_Update now)
    then show ?thesis using guard_update_ready(1,7) [OF Cons.prems] by simp
  qed
  with Cons.IH [of "guard_call ops e g"] show ?case by simp
qed simp

lemma guarded_run:
  assumes "motion_command_guard_init ops timeout g0 = (True, g)" and "g' = fold (guard_call ops) es g"
    and "motion_command_guard_update ops now g' = (u, g'')"
  shows "(still (guard_driver g') \<or> wd_armed (guard_watchdog g')) \<and> \<not> guard_stop_pending g' \<and>
    u \<noteq> MOTION_COMMAND_GUARD_UPDATE_STOP_FAILED \<and>
    (still (guard_driver g'') \<or> now - wd_last_refresh_ms (guard_watchdog g'') < timeout)"
proof -
  from guard_init_wf [OF assms(1)] have g: "guard_ready driver_inv still ready g"
    "wd_timeout_ms (guard_watchdog g) = timeout" by (auto simp: guard_ready_def)
  with guard_calls [OF g(1), of es] assms(2) have g': "guard_ready driver_inv still ready g'"
    "wd_timeout_ms (guard_watchdog g') = timeout" by auto
  from guard_readyD [OF g'(1)] guard_update_ready [OF g'(1), of now] assms(3) g'(2) show ?thesis by auto
qed

end

subsection \<open>Properties\<close>

text \<open>
  A driven wheel is always watched. After the guard was initialized over the DRI0041
  driver, whatever commands, stops and updates follow: while a wheel is driven the
  watchdog is armed, no stop ever fails or is left pending, and after every update the
  wheels stand still unless the last accepted non-zero command is younger than the
  timeout (on the wrapping millisecond clock).
\<close>

theorem guard_watches_dri0041:
  assumes "motion_command_guard_init dri0041 timeout g0 = (True, g)"
    and "g' = fold (guard_call dri0041) es g"
    and "motion_command_guard_update dri0041 now g' = (u, g'')"
  shows "(dri0041_still (guard_driver g') \<or> wd_armed (guard_watchdog g')) \<and> \<not> guard_stop_pending g' \<and>
    u \<noteq> MOTION_COMMAND_GUARD_UPDATE_STOP_FAILED \<and>
    (dri0041_still (guard_driver g'') \<or> now - wd_last_refresh_ms (guard_watchdog g'') < timeout)"
  using assms by (rule dri0041_driver.guarded_run)

definition sample_guard :: "Dri0041 MotionCommandGuard" where
  "sample_guard = \<lparr>guard_initialized = False, guard_stop_pending = False, guard_watchdog = zero_watchdog,
     guard_driver = sample_dri0041\<rparr>"

lemma sample_guard_init:
  "fst (motion_command_guard_init dri0041 250 sample_guard)"
  by (simp add: motion_command_guard_init_def motion_watchdog_init_def dri0041_def driver_defs
      sample_guard_def sample_dri0041_def sample_tim8_def Let_def)

text \<open>
  The same guarantee holds over the DRV8833 driver, because both drivers fulfil the
  contract the guard relies on.
\<close>

lemma guard_watches_drv8833:
  assumes "motion_command_guard_init drv8833 timeout g0 = (True, g)"
    and "g' = fold (guard_call drv8833) es g"
    and "motion_command_guard_update drv8833 now g' = (u, g'')"
  shows "(drv8833_still (guard_driver g') \<or> wd_armed (guard_watchdog g')) \<and> \<not> guard_stop_pending g' \<and>
    u \<noteq> MOTION_COMMAND_GUARD_UPDATE_STOP_FAILED \<and>
    (drv8833_still (guard_driver g'') \<or> now - wd_last_refresh_ms (guard_watchdog g'') < timeout)"
  using assms by (rule drv8833_driver.guarded_run)

text \<open>
  The watchdog is exact and survives the wrap-around of the clock: if \<open>d\<close> milliseconds
  passed since the last refresh, it has expired if and only if \<open>d\<close> reached the timeout.
\<close>

lemma watchdog_exact:
  assumes "motion_watchdog_refresh start s = (True, s')" and "d < 2 ^ 32"
  shows "motion_watchdog_expired (start + of_nat d) s' \<longleftrightarrow> unat (wd_timeout_ms s) \<le> d"
  using assms elapsed_ge_iff [OF assms(2), of "wd_timeout_ms s" start]
  by (auto simp: motion_watchdog_refresh_def motion_watchdog_expired_def split: if_splits)

end
