(* ===== verification/Feedforward.thy ===== *)
theory Feedforward
  imports Motor_Driver Payload_Codecs
begin

section \<open>Open-loop velocity conversion (App/Src/wheel\_velocity\_feedforward.c)\<close>

text \<open>
  A requested wheel velocity becomes a motor command, computed in 32-bit unsigned
  arithmetic. The theory shows the exact value, in particular that nothing overflows, and
  from it the bounds, the sign, the dead-zone offset, saturation and monotonicity.
\<close>

record WheelVelocityFeedforwardConfig =
  max_velocity_mm_s :: u16
  minimum_start_command :: u16

definition wheel_velocity_feedforward_convert_one ::
  "WheelVelocityFeedforwardConfig option \<Rightarrow> i16 \<Rightarrow> i16 option" where
  "wheel_velocity_feedforward_convert_one config velocity_mm_s =
     (case config of
        None \<Rightarrow> None
      | Some cfg \<Rightarrow>
          if max_velocity_mm_s cfg = 0 \<or> unat (minimum_start_command cfg) > 1000 then None
          else if velocity_mm_s = 0 then Some 0
          else
            let signed_velocity = sint velocity_mm_s;
                magnitude = (if signed_velocity < 0 then word_of_int (- signed_velocity)
                             else word_of_int signed_velocity) :: u32;
                magnitude = (if magnitude > ucast (max_velocity_mm_s cfg)
                             then ucast (max_velocity_mm_s cfg) else magnitude);
                command_range = (1000 :: u32) - ucast (minimum_start_command cfg);
                command_magnitude = ucast (minimum_start_command cfg) +
                  (magnitude * command_range) div ucast (max_velocity_mm_s cfg)
            in Some (if signed_velocity < 0 then - ucast command_magnitude else ucast command_magnitude))"

definition wheel_velocity_feedforward_convert ::
  "WheelVelocityFeedforwardConfig option \<Rightarrow> WheelVelocityCommand option \<Rightarrow> MotorDriverCommand option" where
  "wheel_velocity_feedforward_convert config velocity =
     (if config = None then None
      else case velocity of
        None \<Rightarrow> None
      | Some v \<Rightarrow>
          (case wheel_velocity_feedforward_convert_one config (left_velocity_mm_s v) of
             None \<Rightarrow> None
           | Some left \<Rightarrow>
               (case wheel_velocity_feedforward_convert_one config (right_velocity_mm_s v) of
                  None \<Rightarrow> None
                | Some right \<Rightarrow> Some \<lparr>cmd_left = left, cmd_right = right\<rparr>)))"

subsection \<open>The exact value\<close>

definition config_valid :: "WheelVelocityFeedforwardConfig \<Rightarrow> bool" where
  "config_valid cfg \<longleftrightarrow> max_velocity_mm_s cfg \<noteq> 0 \<and> unat (minimum_start_command cfg) \<le> 1000"

definition feedforward_magnitude :: "WheelVelocityFeedforwardConfig \<Rightarrow> nat \<Rightarrow> nat" where
  "feedforward_magnitude cfg v =
     (let vmax = unat (max_velocity_mm_s cfg); start = unat (minimum_start_command cfg)
      in start + min v vmax * (1000 - start) div vmax)"

lemma feedforward_magnitude_bounds:
  assumes "config_valid cfg"
  shows "unat (minimum_start_command cfg) \<le> feedforward_magnitude cfg v"
    and "feedforward_magnitude cfg v \<le> 1000"
    and "unat (max_velocity_mm_s cfg) \<le> v \<Longrightarrow> feedforward_magnitude cfg v = 1000"
    and "v \<le> w \<Longrightarrow> feedforward_magnitude cfg v \<le> feedforward_magnitude cfg w"
proof -
  let ?max = "unat (max_velocity_mm_s cfg)" and ?s = "unat (minimum_start_command cfg)"
  have max: "0 < ?max" and s: "?s \<le> 1000"
    using assms by (simp_all add: config_valid_def unat_gt_0)
  show "?s \<le> feedforward_magnitude cfg v" by (simp add: feedforward_magnitude_def Let_def)
  have "min v ?max * (1000 - ?s) div ?max \<le> ?max * (1000 - ?s) div ?max"
    by (intro div_le_mono mult_le_mono1) simp
  also have "\<dots> = 1000 - ?s" using max by simp
  finally show "feedforward_magnitude cfg v \<le> 1000" using s by (simp add: feedforward_magnitude_def Let_def)
  show "feedforward_magnitude cfg v = 1000" if "?max \<le> v"
    using that max s by (simp add: feedforward_magnitude_def Let_def min_def)
  show "feedforward_magnitude cfg v \<le> feedforward_magnitude cfg w" if "v \<le> w"
    using that by (auto simp: feedforward_magnitude_def Let_def intro!: div_le_mono mult_le_mono1)
qed

lemma ucast_word_unat:
  "unat (ucast (w :: u16) :: u32) = unat w"
  using unat_16_bound [of w] by (simp add: unsigned_ucast_eq take_bit_nat_eq_self)

lemma unat_word_of_int_u32:
  assumes "0 \<le> k" and "k < 2 ^ 32"
  shows "unat (word_of_int k :: u32) = nat k"
proof -
  have "uint (word_of_int k :: u32) = k"
    using assms by (simp add: uint_word_of_int_eq take_bit_int_eq_self)
  then show ?thesis by (metis unat_eq_nat_uint)
qed

text \<open>The 32-bit computation gives this value: nothing overflows.\<close>

lemma command_magnitude_exact:
  fixes m :: u32
  assumes "config_valid cfg"
  defines "m' \<equiv> if m > ucast (max_velocity_mm_s cfg) then ucast (max_velocity_mm_s cfg) else m"
  shows "unat (ucast (minimum_start_command cfg) +
      (m' * ((1000 :: u32) - ucast (minimum_start_command cfg))) div ucast (max_velocity_mm_s cfg)) =
    feedforward_magnitude cfg (unat m)"
proof -
  let ?max = "unat (max_velocity_mm_s cfg)" and ?s = "unat (minimum_start_command cfg)"
  have max: "0 < ?max" "?max < 65536" and s: "?s \<le> 1000"
    using assms(1) unat_16_bound [of "max_velocity_mm_s cfg"] by (simp_all add: config_valid_def unat_gt_0)
  have m': "unat m' = min (unat m) ?max"
    by (auto simp: m'_def word_less_nat_alt ucast_word_unat)
  have range: "unat ((1000 :: u32) - ucast (minimum_start_command cfg)) = 1000 - ?s"
    using s by (subst unat_sub) (simp_all add: word_le_nat_alt ucast_word_unat)
  have "min (unat m) ?max * (1000 - ?s) \<le> 65535 * 1000"
    using max(2) by (intro mult_le_mono) simp_all
  then have "unat m' * unat ((1000 :: u32) - ucast (minimum_start_command cfg)) < 2 ^ 32"
    by (simp add: m' range)
  then have "unat (m' * ((1000 :: u32) - ucast (minimum_start_command cfg))) = min (unat m) ?max * (1000 - ?s)"
    by (subst unat_mult_lem [THEN iffD1]) (simp_all add: m' range)
  then have quot: "unat ((m' * ((1000 :: u32) - ucast (minimum_start_command cfg))) div ucast (max_velocity_mm_s cfg)) =
      min (unat m) ?max * (1000 - ?s) div ?max"
    by (simp add: unat_div ucast_word_unat)
  have sum: "?s + min (unat m) ?max * (1000 - ?s) div ?max \<le> 1000"
    using feedforward_magnitude_bounds(2) [OF assms(1), of "unat m"]
    by (simp add: feedforward_magnitude_def Let_def)
  show ?thesis
    using sum by (subst unat_add_lem [THEN iffD1])
      (simp_all add: quot ucast_word_unat feedforward_magnitude_def Let_def)
qed

lemma ucast_u32_small: "unat (w :: u32) \<le> 1000 \<Longrightarrow> sint (ucast w :: i16) = int (unat w)"
proof -
  assume w: "unat w \<le> 1000"
  then have "unat (ucast w :: u16) = unat w"
    by (simp add: unsigned_ucast_eq take_bit_nat_eq_self)
  then have "int (unat (ucast w :: u16)) = int (unat w)" by (simp only:)
  then have u: "uint (ucast w :: u16) = int (unat w)" by (simp only: uint_nat)
  have "int (unat w) \<le> 32767" using w by linarith
  then show ?thesis unfolding sint_16_eq u by (simp only: if_True)
qed

lemma feedforward_exact:
  assumes "config_valid cfg"
  shows "\<exists>c. wheel_velocity_feedforward_convert_one (Some cfg) v = Some c \<and>
    sint c = (if v = 0 then 0 else if sint v < 0 then - int (feedforward_magnitude cfg (nat \<bar>sint v\<bar>))
              else int (feedforward_magnitude cfg (nat \<bar>sint v\<bar>)))"
proof -
  let ?m = "(if sint v < 0 then word_of_int (- sint v) else word_of_int (sint v)) :: u32"
  let ?m' = "if ?m > ucast (max_velocity_mm_s cfg) then ucast (max_velocity_mm_s cfg) else ?m"
  let ?c = "ucast (minimum_start_command cfg) +
      (?m' * ((1000 :: u32) - ucast (minimum_start_command cfg))) div ucast (max_velocity_mm_s cfg)"
  have v: "- 32768 \<le> sint v" "sint v < 32768" using sint_ge [of v] sint_lt [of v] by simp_all
  have "unat ?m = nat \<bar>sint v\<bar>"
  proof (cases "sint v < 0")
    case True
    then show ?thesis using v unat_word_of_int_u32 [of "- sint v"] by (simp only: if_True) simp
  next
    case False
    then show ?thesis using v unat_word_of_int_u32 [of "sint v"] by (simp only: if_False) simp
  qed
  then have c: "unat ?c = feedforward_magnitude cfg (nat \<bar>sint v\<bar>)"
    using command_magnitude_exact [OF assms, of ?m] by simp
  then have "sint (ucast ?c :: i16) = int (feedforward_magnitude cfg (nat \<bar>sint v\<bar>))"
    using feedforward_magnitude_bounds(2) [OF assms] by (simp add: ucast_u32_small)
  moreover from this have "sint (- (ucast ?c :: i16)) = - int (feedforward_magnitude cfg (nat \<bar>sint v\<bar>))"
    using sint_minus [of "ucast ?c"] by simp
  moreover have "wheel_velocity_feedforward_convert_one (Some cfg) v =
      (if v = 0 then Some 0 else Some (if sint v < 0 then - ucast ?c else ucast ?c))"
    using assms by (simp add: wheel_velocity_feedforward_convert_one_def config_valid_def Let_def)
  ultimately show ?thesis by (cases "v = 0"; cases "sint v < 0") simp_all
qed

subsection \<open>Property\<close>

lemma convert_one_range:
  assumes "config_valid cfg" and "wheel_velocity_feedforward_convert_one (Some cfg) v = Some c"
  shows "- 1000 \<le> sint c \<and> sint c \<le> 1000"
  using feedforward_exact [OF assms(1), of v] feedforward_magnitude_bounds(2) [OF assms(1), of "nat \<bar>sint v\<bar>"]
    assms(2) by (auto split: if_splits)

lemma convert_in_range:
  assumes "wheel_velocity_feedforward_convert (Some cfg) (Some v) = Some c"
  shows "command_in_range c"
proof -
  have "config_valid cfg"
    using assms by (auto simp: wheel_velocity_feedforward_convert_def
        wheel_velocity_feedforward_convert_one_def config_valid_def split: option.splits if_splits)
  with assms convert_one_range [of cfg] show ?thesis
    by (auto simp: wheel_velocity_feedforward_convert_def command_in_range_def split: option.splits)
qed

lemma convert_total:
  assumes "config_valid cfg"
  shows "\<exists>c. wheel_velocity_feedforward_convert (Some cfg) (Some v) = Some c"
  using feedforward_exact [OF assms, of "left_velocity_mm_s v"]
    feedforward_exact [OF assms, of "right_velocity_mm_s v"]
  by (auto simp: wheel_velocity_feedforward_convert_def)

text \<open>
  C33: The conversion never fails for a valid calibration and always gives a command the
  driver accepts. A zero velocity gives zero; any other velocity gives a command of the
  same sign whose magnitude is the dead-zone offset plus the proportional part of the
  exact integer formula, saturates at 1000 from the calibrated maximum on, and grows with
  the velocity. The smallest 16-bit velocity is handled like any other.
\<close>

theorem feedforward_conversion:
  assumes "config_valid cfg"
  shows "\<exists>c. wheel_velocity_feedforward_convert (Some cfg) (Some v) = Some c \<and> command_in_range c \<and>
    (\<forall>(vel, cmd) \<in> {(left_velocity_mm_s v, cmd_left c), (right_velocity_mm_s v, cmd_right c)}.
       sint cmd = (if vel = 0 then 0 else sgn (sint vel) * int (feedforward_magnitude cfg (nat \<bar>sint vel\<bar>)))) \<and>
    (\<forall>x y. x \<le> y \<longrightarrow> feedforward_magnitude cfg x \<le> feedforward_magnitude cfg y) \<and>
    (\<forall>x. unat (minimum_start_command cfg) \<le> feedforward_magnitude cfg x \<and> feedforward_magnitude cfg x \<le> 1000) \<and>
    (\<forall>x \<ge> unat (max_velocity_mm_s cfg). feedforward_magnitude cfg x = 1000)"
proof -
  obtain l r where l: "wheel_velocity_feedforward_convert_one (Some cfg) (left_velocity_mm_s v) = Some l"
    and r: "wheel_velocity_feedforward_convert_one (Some cfg) (right_velocity_mm_s v) = Some r"
    using feedforward_exact [OF assms] by blast
  have exact: "sint cmd = (if vel = 0 then 0 else sgn (sint vel) * int (feedforward_magnitude cfg (nat \<bar>sint vel\<bar>)))"
    if "wheel_velocity_feedforward_convert_one (Some cfg) vel = Some cmd" for vel cmd
    using feedforward_exact [OF assms, of vel] that signed_eq_0_iff [of vel]
    by (cases "sint vel < 0") (auto simp: sgn_if split: if_splits)
  have c: "wheel_velocity_feedforward_convert (Some cfg) (Some v) = Some \<lparr>cmd_left = l, cmd_right = r\<rparr>"
    using l r by (simp add: wheel_velocity_feedforward_convert_def)
  show ?thesis
    using convert_in_range [OF c] exact [OF l] exact [OF r] feedforward_magnitude_bounds [OF assms] c
    by (intro exI [of _ "\<lparr>cmd_left = l, cmd_right = r\<rparr>"]) simp
qed

lemma feedforward_conversion_witness:
  "\<exists>c. wheel_velocity_feedforward_convert
      (Some \<lparr>max_velocity_mm_s = 600, minimum_start_command = 250\<rparr>)
      (Some \<lparr>left_velocity_mm_s = 0x8000, right_velocity_mm_s = 300\<rparr>) = Some c \<and>
    sint (cmd_left c) = - 1000 \<and> sint (cmd_right c) = 625"
proof -
  have "config_valid \<lparr>max_velocity_mm_s = 600, minimum_start_command = 250\<rparr>"
    by (simp add: config_valid_def)
  from feedforward_conversion [OF this, of "\<lparr>left_velocity_mm_s = 0x8000, right_velocity_mm_s = 300\<rparr>"]
  show ?thesis by (auto simp: feedforward_magnitude_def Let_def)
qed

end
