(* ===== verification/Motion_Stop.thy ===== *)
theory Motion_Stop
  imports Prelude
begin

section \<open>Wheel encoders and the physical stop (App/Src/wheel\_encoder.c, motion\_stop.c)\<close>

text \<open>
  The encoder counters are advanced by the wheels, so every read may see any value: the
  board state carries the sequence of values the reads will return and how many reads
  were made. \<^verbatim>\<open>HAL_TIM_Base_Start\<close> belongs to the vendor's library; what it answers
  for the two timers is a parameter of the state. Clearing the counters at initialization
  precedes every read and leaves no trace in this model.

  A stop operation watches the counters: it succeeds when they have not changed for 200 ms
  and fails after 1000 ms.
\<close>

record WheelEncoderCounts =
  enc_left :: u32
  enc_right :: u32

record WheelEncoderPort =
  enc_samples :: "nat \<Rightarrow> WheelEncoderCounts"
  enc_reads :: nat
  enc_tim3_start_ok :: bool
  enc_tim4_start_ok :: bool
  enc_tim3_running :: bool
  enc_tim4_running :: bool

definition wheel_encoder_port_init :: "WheelEncoderPort \<Rightarrow> bool \<times> WheelEncoderPort" where
  "wheel_encoder_port_init p =
     (if \<not> enc_tim3_start_ok p then (False, p)
      else
        let p = p\<lparr>enc_tim3_running := True\<rparr>
        in if \<not> enc_tim4_start_ok p then (False, p\<lparr>enc_tim3_running := False\<rparr>)
           else (True, p\<lparr>enc_tim4_running := True\<rparr>))"

definition wheel_encoder_port_read :: "WheelEncoderPort \<Rightarrow> WheelEncoderCounts \<times> WheelEncoderPort" where
  "wheel_encoder_port_read p = (enc_samples p (enc_reads p), p\<lparr>enc_reads := enc_reads p + 1\<rparr>)"

definition wheel_encoder_init :: "WheelEncoderPort \<Rightarrow> bool \<times> WheelEncoderPort" where
  "wheel_encoder_init p = wheel_encoder_port_init p"

definition wheel_encoder_read :: "WheelEncoderPort \<Rightarrow> WheelEncoderCounts \<times> WheelEncoderPort" where
  "wheel_encoder_read p = wheel_encoder_port_read p"

definition zero_counts :: WheelEncoderCounts where
  "zero_counts = \<lparr>enc_left = 0, enc_right = 0\<rparr>"

subsection \<open>The stop operation\<close>

datatype MotionStopResult =
  MOTION_STOP_RESULT_NONE | MOTION_STOP_RESULT_SUCCESS | MOTION_STOP_RESULT_FAILED

record MotionStopCompletion =
  stop_completed :: bool
  stop_operation_id :: u32
  stop_result :: MotionStopResult

abbreviation (input) MOTION_STOP_SETTLE_TIME_MS :: u32 where "MOTION_STOP_SETTLE_TIME_MS \<equiv> 200"
abbreviation (input) MOTION_STOP_TIMEOUT_MS :: u32 where "MOTION_STOP_TIMEOUT_MS \<equiv> 1000"

record MotionStopState =
  stop_active :: bool
  stop_op_id :: u32
  stop_started_at_ms :: u32
  stop_last_movement_at_ms :: u32
  stop_previous_counts :: WheelEncoderCounts

definition zero_stop_state :: MotionStopState where
  "zero_stop_state = \<lparr>stop_active = False, stop_op_id = 0, stop_started_at_ms = 0,
     stop_last_movement_at_ms = 0, stop_previous_counts = zero_counts\<rparr>"

definition no_completion :: MotionStopCompletion where
  "no_completion = \<lparr>stop_completed = False, stop_operation_id = 0, stop_result = MOTION_STOP_RESULT_NONE\<rparr>"

definition motion_stop_begin ::
  "u32 \<Rightarrow> u32 \<Rightarrow> WheelEncoderPort \<Rightarrow> MotionStopState \<Rightarrow> bool \<times> WheelEncoderPort \<times> MotionStopState" where
  "motion_stop_begin operation_id now_ms enc s =
     (if operation_id = 0 then (False, enc, s)
      else
        let s = zero_stop_state\<lparr>stop_op_id := operation_id, stop_started_at_ms := now_ms,
                  stop_last_movement_at_ms := now_ms\<rparr>;
            (counts, enc) = wheel_encoder_read enc
        in (True, enc, s\<lparr>stop_previous_counts := counts, stop_active := True\<rparr>))"

definition motion_stop_update ::
  "u32 \<Rightarrow> WheelEncoderPort \<Rightarrow> MotionStopState \<Rightarrow>
     MotionStopCompletion \<times> WheelEncoderPort \<times> MotionStopState" where
  "motion_stop_update now_ms enc s =
     (if \<not> stop_active s then (no_completion, enc, s)
      else
        let (current_counts, enc) = wheel_encoder_read enc;
            s = (if enc_left current_counts \<noteq> enc_left (stop_previous_counts s) \<or>
                    enc_right current_counts \<noteq> enc_right (stop_previous_counts s)
                 then s\<lparr>stop_previous_counts := current_counts, stop_last_movement_at_ms := now_ms\<rparr>
                 else s)
        in if now_ms - stop_started_at_ms s \<ge> MOTION_STOP_TIMEOUT_MS
           then (\<lparr>stop_completed = True, stop_operation_id = stop_op_id s,
                  stop_result = MOTION_STOP_RESULT_FAILED\<rparr>, enc, s\<lparr>stop_active := False\<rparr>)
           else if now_ms - stop_last_movement_at_ms s \<ge> MOTION_STOP_SETTLE_TIME_MS
           then (\<lparr>stop_completed = True, stop_operation_id = stop_op_id s,
                  stop_result = MOTION_STOP_RESULT_SUCCESS\<rparr>, enc, s\<lparr>stop_active := False\<rparr>)
           else (no_completion, enc, s))"

definition motion_stop_cancel :: MotionStopState where
  "motion_stop_cancel = zero_stop_state"

subsection \<open>A whole stop operation\<close>

text \<open>
  An observation is the time since the start, in milliseconds, and the counts read then.
  \<open>observe\<close> is one update of an active operation on such an observation.
\<close>

type_synonym observation = "nat \<times> WheelEncoderCounts"

definition observe :: "u32 \<Rightarrow> observation \<Rightarrow> MotionStopState \<Rightarrow> MotionStopCompletion \<times> MotionStopState" where
  "observe start ob s =
     (case motion_stop_update (start + of_nat (fst ob))
             \<lparr>enc_samples = (\<lambda>_. snd ob), enc_reads = 0, enc_tim3_start_ok = True, enc_tim4_start_ok = True,
              enc_tim3_running = True, enc_tim4_running = True\<rparr> s
      of (c, _, s') \<Rightarrow> (c, s'))"

fun observe_all :: "u32 \<Rightarrow> observation list \<Rightarrow> MotionStopState \<Rightarrow> MotionStopCompletion list \<times> MotionStopState" where
  "observe_all start [] s = ([], s)"
| "observe_all start (ob # obs) s =
     (case observe start ob s of (c, s') \<Rightarrow>
        case observe_all start obs s' of (cs, s'') \<Rightarrow> (c # cs, s''))"

text \<open>The update depends on the encoder port only through the value it reads.\<close>

lemma update_is_observe:
  assumes "motion_stop_update now enc s = (c, enc', s')"
  shows "observe now (0, enc_samples enc (enc_reads enc)) s = (c, s') \<and>
    (stop_active s \<longrightarrow> enc' = enc\<lparr>enc_reads := enc_reads enc + 1\<rparr>)"
  using assms
  by (auto simp: observe_def motion_stop_update_def wheel_encoder_read_def wheel_encoder_port_read_def
      Let_def split: if_splits)

text \<open>
  What is known while the operation runs: when the counters were last seen to change, in
  milliseconds since the start, and the counts seen then.
\<close>

definition stop_watching :: "u32 \<Rightarrow> u32 \<Rightarrow> nat \<Rightarrow> WheelEncoderCounts \<Rightarrow> MotionStopState \<Rightarrow> bool" where
  "stop_watching start op moved counts s \<longleftrightarrow>
     stop_active s \<and> stop_op_id s = op \<and> stop_started_at_ms s = start \<and>
     stop_last_movement_at_ms s = start + of_nat moved \<and> stop_previous_counts s = counts"

lemma counts_differ:
  "enc_left a \<noteq> enc_left b \<or> enc_right a \<noteq> enc_right b \<longleftrightarrow> a \<noteq> b" for a b :: WheelEncoderCounts
  by (cases a, cases b) auto

lemma observe_watching:
  fixes c
  assumes w: "stop_watching start op moved counts s" and time: "moved \<le> d" "d < 2 ^ 32"
  defines "moved' \<equiv> if c = counts then moved else d"
  shows "observe start (d, c) s =
    (if 1000 \<le> d then
       (\<lparr>stop_completed = True, stop_operation_id = op, stop_result = MOTION_STOP_RESULT_FAILED\<rparr>,
        s\<lparr>stop_previous_counts := c, stop_last_movement_at_ms := start + of_nat moved', stop_active := False\<rparr>)
     else if 200 \<le> d - moved' then
       (\<lparr>stop_completed = True, stop_operation_id = op, stop_result = MOTION_STOP_RESULT_SUCCESS\<rparr>,
        s\<lparr>stop_previous_counts := c, stop_last_movement_at_ms := start + of_nat moved', stop_active := False\<rparr>)
     else (no_completion,
        s\<lparr>stop_previous_counts := c, stop_last_movement_at_ms := start + of_nat moved'\<rparr>))"
proof -
  have timeout: "MOTION_STOP_TIMEOUT_MS \<le> (start + of_nat d) - start \<longleftrightarrow> 1000 \<le> d"
    using elapsed_ge_iff [OF time(2), of 1000 start] by simp
  have "moved' \<le> d" using time(1) by (simp add: moved'_def)
  then have "start + of_nat d = (start + of_nat moved') + of_nat (d - moved')" by (simp add: of_nat_diff)
  moreover have "d - moved' < 2 ^ 32" using time(2) by simp
  ultimately have settle: "MOTION_STOP_SETTLE_TIME_MS \<le> (start + of_nat d) - (start + of_nat moved') \<longleftrightarrow>
      200 \<le> d - moved'"
    using elapsed_ge_iff [of "d - moved'" 200 "start + of_nat moved'"] by simp
  have s: "stop_active s" "stop_op_id s = op" "stop_started_at_ms s = start"
    "stop_last_movement_at_ms s = start + of_nat moved" "stop_previous_counts s = counts"
    using w by (simp_all add: stop_watching_def)
  show ?thesis
  proof (cases "c = counts")
    case True
    have "s = s\<lparr>stop_previous_counts := c, stop_last_movement_at_ms := start + of_nat moved\<rparr>"
      using s True by (cases s) simp
    with True s timeout settle show ?thesis
      by (simp add: observe_def motion_stop_update_def wheel_encoder_read_def wheel_encoder_port_read_def moved'_def)
  next
    case False
    then have "enc_left c \<noteq> enc_left counts \<or> enc_right c \<noteq> enc_right counts"
      by (simp only: counts_differ) simp
    with False s timeout settle show ?thesis
      by (simp add: observe_def motion_stop_update_def wheel_encoder_read_def wheel_encoder_port_read_def moved'_def)
  qed
qed

subsection \<open>The outcome of a stop operation\<close>

text \<open>The first observation that ends the operation decides.\<close>

fun stop_outcome :: "nat \<Rightarrow> WheelEncoderCounts \<Rightarrow> observation list \<Rightarrow> MotionStopResult option" where
  "stop_outcome moved counts [] = None"
| "stop_outcome moved counts ((d, c) # obs) =
     (let moved' = (if c = counts then moved else d)
      in if 1000 \<le> d then Some MOTION_STOP_RESULT_FAILED
         else if 200 \<le> d - moved' then Some MOTION_STOP_RESULT_SUCCESS
         else stop_outcome moved' c obs)"

definition timely :: "nat \<Rightarrow> observation list \<Rightarrow> bool" where
  "timely from obs \<longleftrightarrow> sorted (from # map fst obs) \<and> list_all (\<lambda>ob. fst ob < 2 ^ 32) obs"

definition completions :: "MotionStopCompletion list \<Rightarrow> MotionStopCompletion list" where
  "completions = filter stop_completed"

lemma observe_all_inactive:
  assumes "\<not> stop_active s"
  shows "completions (fst (observe_all start obs s)) = []"
proof -
  have "observe start ob s = (no_completion, s)" for ob
    using assms by (simp add: observe_def motion_stop_update_def)
  then have "observe_all start obs s = (map (\<lambda>_. no_completion) obs, s)"
    by (induction obs) simp_all
  then show ?thesis by (simp add: completions_def no_completion_def filter_empty_conv)
qed

lemma observe_all_outcome:
  assumes "stop_watching start op moved counts s" and "timely moved obs"
  shows "completions (fst (observe_all start obs s)) =
    (case stop_outcome moved counts obs of
       None \<Rightarrow> []
     | Some r \<Rightarrow> [\<lparr>stop_completed = True, stop_operation_id = op, stop_result = r\<rparr>])"
  using assms
proof (induction obs arbitrary: moved counts s)
  case (Cons ob obs)
  obtain d c where ob: "ob = (d, c)" by fastforce
  let ?moved = "if c = counts then moved else d"
  have time: "moved \<le> d" "d < 2 ^ 32" and rest: "timely ?moved obs"
    using Cons.prems(2) ob by (auto simp: timely_def)
  note obs = observe_watching [OF Cons.prems(1) time, of c]
  show ?case
  proof (cases "1000 \<le> d \<or> 200 \<le> d - ?moved")
    case True
    obtain r s' where r: "observe start ob s = (\<lparr>stop_completed = True, stop_operation_id = op, stop_result = r\<rparr>, s')"
      "\<not> stop_active s'" "stop_outcome moved counts (ob # obs) = Some r"
      using True obs ob by (auto simp: Let_def split: if_splits)
    with observe_all_inactive [OF r(2), of start obs] show ?thesis
      by (auto simp: completions_def split: prod.splits)
  next
    case False
    let ?s = "s\<lparr>stop_previous_counts := c, stop_last_movement_at_ms := start + of_nat ?moved\<rparr>"
    have "observe start ob s = (no_completion, ?s)" using False obs ob by simp
    moreover have "stop_watching start op ?moved c ?s" using Cons.prems(1) by (simp add: stop_watching_def)
    moreover have "stop_outcome moved counts (ob # obs) = stop_outcome ?moved c obs"
      using False ob by (simp add: Let_def)
    ultimately show ?thesis
      using Cons.IH [OF _ rest, of c ?s]
      by (auto simp: completions_def no_completion_def split: prod.splits)
  qed
qed (simp add: completions_def)

lemma begin_watching:
  assumes "motion_stop_begin op start enc s0 = (True, enc', s)"
  shows "stop_watching start op 0 (enc_samples enc (enc_reads enc)) s"
  using assms
  by (auto simp: motion_stop_begin_def wheel_encoder_read_def wheel_encoder_port_read_def stop_watching_def
      zero_stop_state_def split: if_splits)

lemma outcome_by_timeout:
  "\<exists>ob \<in> set obs. 1000 \<le> fst ob \<Longrightarrow> stop_outcome moved counts obs \<noteq> None"
  by (induction obs arbitrary: moved counts) (auto simp: Let_def, (metis fst_conv)+)

text \<open>
  The counts were constant over a window of at least 200 ms, inside the first second.
\<close>

definition settled_window :: "observation list \<Rightarrow> bool" where
  "settled_window obs \<longleftrightarrow>
     (\<exists>pre win post c. obs = pre @ win @ post \<and> win \<noteq> [] \<and> (\<forall>ob \<in> set win. snd ob = c) \<and>
        fst (hd win) + 200 \<le> fst (last win) \<and> fst (last win) < 1000)"

lemma settled_window_prefix: "settled_window obs \<Longrightarrow> settled_window (hist @ obs)"
  unfolding settled_window_def by (metis append_assoc)

lemma success_settled:
  assumes "stop_outcome moved counts obs = Some MOTION_STOP_RESULT_SUCCESS"
    and "hist \<noteq> []" and "fst (hd hist) = moved" and "\<forall>ob \<in> set hist. snd ob = counts"
  shows "settled_window (hist @ obs)"
  using assms
proof (induction obs arbitrary: moved counts hist)
  case (Cons ob obs)
  obtain d c where ob: "ob = (d, c)" by fastforce
  show ?case
  proof (cases "c = counts")
    case same: True
    show ?thesis
    proof (cases "d < 1000 \<and> 200 \<le> d - moved")
      case True
      then show ?thesis
        using Cons.prems same ob unfolding settled_window_def
        by (intro exI [of _ "[]"] exI [of _ "hist @ [ob]"] exI [of _ obs] exI [of _ c]) auto
    next
      case False
      then have "stop_outcome moved c obs = Some MOTION_STOP_RESULT_SUCCESS"
        using Cons.prems(1) ob same by (auto simp: Let_def split: if_splits)
      from Cons.IH [OF this, of "hist @ [ob]"] Cons.prems same ob show ?thesis by auto
    qed
  next
    case False
    then have "stop_outcome d c obs = Some MOTION_STOP_RESULT_SUCCESS"
      using Cons.prems(1) ob by (auto simp: Let_def split: if_splits)
    from Cons.IH [OF this, of "[ob]"] ob have "settled_window ([ob] @ obs)" by simp
    from settled_window_prefix [OF this, of hist] show ?thesis by simp
  qed
qed simp

lemma standing_success:
  assumes "\<forall>ob \<in> set obs. snd ob = counts" and "dropWhile (\<lambda>ob. fst ob < 200) obs = ob # rest"
    and "fst ob < 1000"
  shows "stop_outcome 0 counts obs = Some MOTION_STOP_RESULT_SUCCESS"
  using assms
  by (induction obs) (auto simp: Let_def split: if_splits)

subsection \<open>Properties\<close>

text \<open>
  C34: A stop operation always ends, and is reported exactly once. From its begin, over any
  series of updates at non-decreasing times that reaches 1000 ms, exactly one completion
  is reported; it carries the identifier the operation was begun with, and the result is
  success or failure. The clock may wrap around in between.
\<close>

theorem stop_reported_once:
  assumes "motion_stop_begin op start enc s0 = (True, enc', s)" and "timely 0 obs"
    and "\<exists>ob \<in> set obs. 1000 \<le> fst ob"
  shows "\<exists>r \<in> {MOTION_STOP_RESULT_SUCCESS, MOTION_STOP_RESULT_FAILED}.
    completions (fst (observe_all start obs s)) =
      [\<lparr>stop_completed = True, stop_operation_id = op, stop_result = r\<rparr>]"
proof -
  let ?c = "enc_samples enc (enc_reads enc)"
  obtain r where r: "stop_outcome 0 ?c obs = Some r" using outcome_by_timeout [OF assms(3), of 0 ?c] by auto
  have "r \<noteq> MOTION_STOP_RESULT_NONE" if "stop_outcome moved c obs = Some r" for moved c
    using that by (induction obs arbitrary: moved c) (auto simp: Let_def split: if_splits)
  with r have "r \<in> {MOTION_STOP_RESULT_SUCCESS, MOTION_STOP_RESULT_FAILED}"
    by (cases r) auto
  with observe_all_outcome [OF begin_watching [OF assms(1)] assms(2)] r show ?thesis by auto
qed

definition sample_encoder :: WheelEncoderPort where
  "sample_encoder = \<lparr>enc_samples = (\<lambda>n. \<lparr>enc_left = of_nat n, enc_right = 0\<rparr>), enc_reads = 4,
     enc_tim3_start_ok = True, enc_tim4_start_ok = True, enc_tim3_running = True, enc_tim4_running = True\<rparr>"

definition sample_stop :: MotionStopState where
  "sample_stop = snd (snd (motion_stop_begin 9 0xFFFFFF00 sample_encoder zero_stop_state))"

lemma sample_stop_begin:
  "motion_stop_begin 9 0xFFFFFF00 sample_encoder zero_stop_state =
     (True, sample_encoder\<lparr>enc_reads := 5\<rparr>, sample_stop)"
  by (simp add: sample_stop_def sample_encoder_def motion_stop_begin_def wheel_encoder_read_def
      wheel_encoder_port_read_def)

lemma stop_reported_once_witness:
  "\<exists>r. completions (fst (observe_all 0xFFFFFF00 [(500, zero_counts), (1200, zero_counts)] sample_stop)) =
      [\<lparr>stop_completed = True, stop_operation_id = 9, stop_result = r\<rparr>]"
  using stop_reported_once [OF sample_stop_begin, of "[(500, zero_counts), (1200, zero_counts)]"]
  by (auto simp: timely_def)

text \<open>
  C35: Success means that the wheels stood still. Success is reported only if the counts of
  both encoders were the same at every observation of a window of at least 200 ms that
  ends within the first second; and if the wheels do not move at all, the first update
  from 200 ms on, if it comes before 1000 ms, reports success.
\<close>

theorem stop_success_means_settled:
  assumes "motion_stop_begin op start enc s0 = (True, enc', s)" and "timely 0 obs"
    and "c0 = enc_samples enc (enc_reads enc)"
  shows "(\<lparr>stop_completed = True, stop_operation_id = op, stop_result = MOTION_STOP_RESULT_SUCCESS\<rparr>
      \<in> set (completions (fst (observe_all start obs s))) \<longrightarrow> settled_window ((0, c0) # obs)) \<and>
    ((\<forall>ob \<in> set obs. snd ob = c0) \<and> dropWhile (\<lambda>ob. fst ob < 200) obs = ob # rest \<and> fst ob < 1000 \<longrightarrow>
      completions (fst (observe_all start obs s)) =
        [\<lparr>stop_completed = True, stop_operation_id = op, stop_result = MOTION_STOP_RESULT_SUCCESS\<rparr>])"
proof -
  note out = observe_all_outcome [OF begin_watching [OF assms(1)] assms(2), folded assms(3)]
  have "settled_window ((0, c0) # obs)" if "stop_outcome 0 c0 obs = Some MOTION_STOP_RESULT_SUCCESS"
    using success_settled [OF that, of "[(0, c0)]"] by simp
  with out standing_success [of obs c0 ob rest] show ?thesis by (auto split: option.splits)
qed

lemma stop_success_means_settled_witness:
  "completions (fst (observe_all 0xFFFFFF00 [(150, \<lparr>enc_left = 4, enc_right = 0\<rparr>),
      (210, \<lparr>enc_left = 4, enc_right = 0\<rparr>)] sample_stop)) =
    [\<lparr>stop_completed = True, stop_operation_id = 9, stop_result = MOTION_STOP_RESULT_SUCCESS\<rparr>]"
proof -
  let ?c = "\<lparr>enc_left = 4, enc_right = 0\<rparr>"
  have "?c = enc_samples sample_encoder (enc_reads sample_encoder)" by (simp add: sample_encoder_def)
  moreover have "timely 0 [(150, ?c), (210, ?c)]" by (simp add: timely_def)
  ultimately show ?thesis
    using stop_success_means_settled [OF sample_stop_begin, of "[(150, ?c), (210, ?c)]" ?c "(210, ?c)" "[]"]
    by (simp del: observe_all.simps)
qed

end
