(* ===== verification/Speed_Estimator.thy ===== *)
theory Speed_Estimator
  imports Complex_Main Motion_Stop
begin

section \<open>Wheel speed estimation (App/Src/wheel\_speed\_estimator.c)\<close>

text \<open>
  The estimator divides the distance of an encoder delta by the elapsed time in
  single-precision arithmetic. The rounding of one operation to single precision is the
  parameter \<open>rnd\<close> of the model: every constant, conversion and operation of the source is
  rounded once.
\<close>

record WheelSpeedEstimate =
  left_mm_s :: real
  right_mm_s :: real
  estimate_valid :: bool

record WheelSpeedEstimator =
  est_previous_counts :: WheelEncoderCounts
  est_previous_time_ms :: u32
  est_initialized :: bool

definition WHEEL_CIRCUMFERENCE_MM :: "(real \<Rightarrow> real) \<Rightarrow> real" where
  "WHEEL_CIRCUMFERENCE_MM rnd = rnd (rnd 68.5 * rnd 3.14159265)"

definition COUNTS_PER_REV :: "(real \<Rightarrow> real) \<Rightarrow> real" where
  "COUNTS_PER_REV rnd = rnd 1000"

definition wheel_speed_estimator_init :: WheelSpeedEstimator where
  "wheel_speed_estimator_init =
     \<lparr>est_previous_counts = zero_counts, est_previous_time_ms = 0, est_initialized = False\<rparr>"

text \<open>The expression that occurs once per wheel.\<close>

definition speed_mm_s :: "(real \<Rightarrow> real) \<Rightarrow> u16 \<Rightarrow> u32 \<Rightarrow> real" where
  "speed_mm_s rnd delta elapsed_ms =
     rnd (rnd (rnd (rnd (real (unat delta)) * WHEEL_CIRCUMFERENCE_MM rnd) * rnd 1000) /
          rnd (COUNTS_PER_REV rnd * rnd (real (unat elapsed_ms))))"

definition wheel_speed_estimator_update ::
  "(real \<Rightarrow> real) \<Rightarrow> WheelEncoderCounts \<Rightarrow> u32 \<Rightarrow> WheelSpeedEstimator \<Rightarrow>
     WheelSpeedEstimate \<times> WheelSpeedEstimator" where
  "wheel_speed_estimator_update rnd counts now_ms e =
     (let result = \<lparr>left_mm_s = 0, right_mm_s = 0, estimate_valid = False\<rparr>
      in if \<not> est_initialized e
         then (result, e\<lparr>est_previous_counts := counts, est_previous_time_ms := now_ms, est_initialized := True\<rparr>)
         else
           let elapsed_ms = now_ms - est_previous_time_ms e
           in if elapsed_ms = 0 then (result, e)
              else
                let left_delta = (ucast (enc_left counts - enc_left (est_previous_counts e)) :: u16);
                    right_delta = (ucast (enc_right counts - enc_right (est_previous_counts e)) :: u16);
                    result = result\<lparr>left_mm_s := speed_mm_s rnd left_delta elapsed_ms,
                               right_mm_s := speed_mm_s rnd right_delta elapsed_ms, estimate_valid := True\<rparr>
                in (result, e\<lparr>est_previous_counts := counts, est_previous_time_ms := now_ms\<rparr>))"

subsection \<open>The distance is exact across the wrap of the counters\<close>

text \<open>A 16-bit hardware counter after \<open>k\<close> more pulses.\<close>

definition advance_counter :: "nat \<Rightarrow> u32 \<Rightarrow> u32" where
  "advance_counter k c = of_nat ((unat c + k) mod 2 ^ 16)"

lemma counter_delta:
  assumes "unat c < 2 ^ 16" and "k < 2 ^ 16"
  shows "(ucast (advance_counter k c - c) :: u16) = of_nat k"
proof -
  let ?a = "advance_counter k c"
  have "uint ?a = (uint c + int k) mod 65536"
  proof -
    have "(unat c + k) mod 65536 < 2 ^ 32" by (rule less_trans [of _ 65536]) simp_all
    then have "unat ?a = (unat c + k) mod 65536"
      by (simp add: advance_counter_def unat_of_nat take_bit_nat_eq_self)
    then have "int (unat ?a) = int ((unat c + k) mod 65536)" by (simp only:)
    then show ?thesis by (simp add: zmod_int)
  qed
  then have "uint (ucast (?a - c) :: u16) = (((uint c + int k) mod 65536 - uint c) mod 4294967296) mod 65536"
    by (simp add: unsigned_ucast_eq take_bit_eq_mod uint_word_ariths(2))
  also have "\<dots> = ((uint c + int k) mod 65536 - uint c) mod 65536"
    by (rule mod_mod_cancel) simp
  also have "\<dots> = int k mod 65536" by (simp add: mod_diff_left_eq)
  finally have "uint (ucast (?a - c) :: u16) = int k mod 65536" .
  moreover have "uint (of_nat k :: u16) = int k mod 65536"
    by (simp add: unsigned_of_nat take_bit_eq_mod zmod_int)
  ultimately show ?thesis by (simp add: word_uint_eq_iff)
qed

subsection \<open>Property\<close>

text \<open>
  The estimate is the distance of the pulses counted divided by the time that passed. If
  the 16-bit counters advanced by fewer than 65536 pulses and \<open>d > 0\<close> milliseconds passed
  since the previous sample, the estimate is valid and is, for each wheel, the rounded
  quotient for exactly that many pulses and exactly \<open>d\<close> milliseconds, however the counters
  and the clock wrapped; two samples in the same millisecond give no estimate and leave
  the estimator unchanged.
\<close>

lemma estimate_of_pulses:
  assumes "est_initialized e" and "est_previous_counts e = prev"
    and "unat (enc_left prev) < 2 ^ 16" and "unat (enc_right prev) < 2 ^ 16"
    and "l < 2 ^ 16" and "r < 2 ^ 16" and "d < 2 ^ 32"
    and "counts = \<lparr>enc_left = advance_counter l (enc_left prev), enc_right = advance_counter r (enc_right prev)\<rparr>"
    and "wheel_speed_estimator_update rnd counts (est_previous_time_ms e + of_nat d) e = (est, e')"
  shows "(0 < d \<longrightarrow> estimate_valid est \<and>
      left_mm_s est = rnd (rnd (rnd (rnd (real l) * WHEEL_CIRCUMFERENCE_MM rnd) * rnd 1000) /
        rnd (COUNTS_PER_REV rnd * rnd (real d))) \<and>
      right_mm_s est = rnd (rnd (rnd (rnd (real r) * WHEEL_CIRCUMFERENCE_MM rnd) * rnd 1000) /
        rnd (COUNTS_PER_REV rnd * rnd (real d))) \<and>
      est_previous_counts e' = counts) \<and>
    (d = 0 \<longrightarrow> \<not> estimate_valid est \<and> e' = e)"
proof -
  have time: "unat (of_nat d :: u32) = d"
    using elapsed_exact [OF assms(7), of 0] by simp
  then have zero: "(of_nat d :: u32) = 0 \<longleftrightarrow> d = 0" by (metis unat_eq_zero)
  have l: "unat (ucast (enc_left counts - enc_left prev) :: u16) = l"
    and r: "unat (ucast (enc_right counts - enc_right prev) :: u16) = r"
    using assms(3-6,8) by (simp_all add: counter_delta unat_of_nat take_bit_nat_eq_self)
  have "wheel_speed_estimator_update rnd counts (est_previous_time_ms e + of_nat d) e =
      (if d = 0 then (\<lparr>left_mm_s = 0, right_mm_s = 0, estimate_valid = False\<rparr>, e)
       else (\<lparr>left_mm_s = speed_mm_s rnd (ucast (enc_left counts - enc_left prev)) (of_nat d),
              right_mm_s = speed_mm_s rnd (ucast (enc_right counts - enc_right prev)) (of_nat d),
              estimate_valid = True\<rparr>,
             e\<lparr>est_previous_counts := counts,
               est_previous_time_ms := est_previous_time_ms e + of_nat d\<rparr>))"
    using assms(1,2) zero by (simp add: wheel_speed_estimator_update_def Let_def)
  with assms(9) show ?thesis
    unfolding speed_mm_s_def l r time by (auto split: if_splits)
qed

lemma estimate_of_pulses_witness:
  "left_mm_s (fst (wheel_speed_estimator_update id
      \<lparr>enc_left = advance_counter 100 0xFFF0, enc_right = advance_counter 0 5\<rparr> (7 + of_nat 20)
      \<lparr>est_previous_counts = \<lparr>enc_left = 0xFFF0, enc_right = 5\<rparr>, est_previous_time_ms = 7,
       est_initialized = True\<rparr>)) = 100 * (68.5 * 3.14159265) * 1000 / (1000 * 20)"
proof -
  let ?e = "\<lparr>est_previous_counts = \<lparr>enc_left = 0xFFF0, enc_right = 5\<rparr>, est_previous_time_ms = 7,
       est_initialized = True\<rparr>"
  obtain est e' where u: "wheel_speed_estimator_update id
      \<lparr>enc_left = advance_counter 100 0xFFF0, enc_right = advance_counter 0 5\<rparr>
      (est_previous_time_ms ?e + of_nat 20) ?e = (est, e')" by fastforce
  from estimate_of_pulses [OF _ _ _ _ _ _ _ _ u, of "\<lparr>enc_left = 0xFFF0, enc_right = 5\<rparr>" 100 0]
  have "left_mm_s est = 100 * (68.5 * 3.14159265) * 1000 / (1000 * 20)"
    by (simp add: WHEEL_CIRCUMFERENCE_MM_def COUNTS_PER_REV_def)
  with u show ?thesis by simp
qed

end
