(* ===== verification/Uart_Queue.thy ===== *)
theory Uart_Queue
  imports Prelude "HOL-Library.Sublist"
begin

section \<open>The receive queue (App/Src/uart\_rx\_queue.c)\<close>

text \<open>
  A ring of 256 bytes between the receive interrupt, which pushes, and the main loop,
  which pops and resets. The two counters are free-running 32-bit numbers; the slot of a
  byte is the low part of its counter. The theory shows that the ring is a first-in
  first-out queue whatever the counters are, that every operation of the main loop may be
  interrupted by pushes between any two of its accesses to the shared fields, and states
  the queue's contract as a locale the receiver is verified against.

  A pointer the code compares with \<^verbatim>\<open>NULL\<close> is an option.
\<close>

abbreviation (input) UART_RX_QUEUE_CAPACITY :: nat where "UART_RX_QUEUE_CAPACITY \<equiv> 256"

record UartRxQueue =
  q_data :: "u8 list"
  q_read_count :: u32
  q_write_count :: u32
  q_overflowed :: bool

definition zero_queue :: UartRxQueue where
  "zero_queue = \<lparr>q_data = replicate UART_RX_QUEUE_CAPACITY 0, q_read_count = 0, q_write_count = 0,
     q_overflowed = False\<rparr>"

definition uart_rx_queue_init :: "UartRxQueue option \<Rightarrow> UartRxQueue option" where
  "uart_rx_queue_init queue = (case queue of None \<Rightarrow> None | Some q \<Rightarrow> Some zero_queue)"

definition uart_rx_queue_reset :: "UartRxQueue option \<Rightarrow> UartRxQueue option" where
  "uart_rx_queue_reset queue =
     (case queue of
        None \<Rightarrow> None
      | Some q \<Rightarrow>
          let q = q\<lparr>q_overflowed := True\<rparr>;
              q = q\<lparr>q_read_count := q_write_count q\<rparr>;
              q = q\<lparr>q_overflowed := False\<rparr>
          in Some q)"

definition uart_rx_queue_push :: "UartRxQueue option \<Rightarrow> u8 \<Rightarrow> bool \<times> UartRxQueue option" where
  "uart_rx_queue_push queue byte =
     (case queue of
        None \<Rightarrow> (False, None)
      | Some q \<Rightarrow>
          if q_overflowed q then (False, Some q)
          else
            let used = q_write_count q - q_read_count q
            in if used \<ge> of_nat UART_RX_QUEUE_CAPACITY
               then (False, Some (q\<lparr>q_overflowed := True\<rparr>))
               else
                 let index = q_write_count q AND 255
                 in (True, Some (q\<lparr>q_data := (q_data q)[unat index := byte],
                                   q_write_count := q_write_count q + 1\<rparr>)))"

text \<open>The byte read is returned; \<open>byte_out\<close> says whether the caller's pointer is non-null.\<close>

definition uart_rx_queue_pop :: "UartRxQueue option \<Rightarrow> bool \<Rightarrow> u8 option \<times> UartRxQueue option" where
  "uart_rx_queue_pop queue byte_out =
     (case queue of
        None \<Rightarrow> (None, None)
      | Some q \<Rightarrow>
          if \<not> byte_out \<or> q_overflowed q then (None, Some q)
          else if q_read_count q = q_write_count q then (None, Some q)
          else
            let index = q_read_count q AND 255
            in (Some (q_data q ! unat index), Some (q\<lparr>q_read_count := q_read_count q + 1\<rparr>)))"

definition uart_rx_queue_has_overflowed :: "UartRxQueue option \<Rightarrow> bool" where
  "uart_rx_queue_has_overflowed queue = (case queue of None \<Rightarrow> False | Some q \<Rightarrow> q_overflowed q)"

text \<open>The same operations on a queue that is there.\<close>

abbreviation queue_push :: "u8 \<Rightarrow> UartRxQueue \<Rightarrow> bool \<times> UartRxQueue" where
  "queue_push byte q \<equiv> map_prod id the (uart_rx_queue_push (Some q) byte)"

abbreviation queue_pop :: "UartRxQueue \<Rightarrow> u8 option \<times> UartRxQueue" where
  "queue_pop q \<equiv> map_prod id the (uart_rx_queue_pop (Some q) True)"

abbreviation queue_reset :: "UartRxQueue \<Rightarrow> UartRxQueue" where
  "queue_reset q \<equiv> the (uart_rx_queue_reset (Some q))"

lemmas queue_defs = uart_rx_queue_push_def uart_rx_queue_pop_def uart_rx_queue_reset_def

subsection \<open>Contents\<close>

definition queue_used :: "UartRxQueue \<Rightarrow> nat" where
  "queue_used q = unat (q_write_count q - q_read_count q)"

definition queue_slot :: "UartRxQueue \<Rightarrow> nat \<Rightarrow> u8" where
  "queue_slot q k = q_data q ! unat ((q_read_count q + of_nat k) AND 255)"

definition queue_contents :: "UartRxQueue \<Rightarrow> u8 list" where
  "queue_contents q = map (queue_slot q) [0..<queue_used q]"

definition queue_wf :: "UartRxQueue \<Rightarrow> bool" where
  "queue_wf q \<longleftrightarrow> length (q_data q) = UART_RX_QUEUE_CAPACITY \<and> queue_used q \<le> UART_RX_QUEUE_CAPACITY"

lemma length_contents [simp]: "length (queue_contents q) = queue_used q"
  by (simp add: queue_contents_def)

lemma mask_index: "unat (c AND 255 :: u32) = unat c mod 256"
proof -
  have "c AND 255 = take_bit 8 c" using take_bit_eq_mask [of 8 c] by (simp add: mask_eq_decr_exp)
  then show ?thesis by (simp add: take_bit_eq_mod unat_mod)
qed

lemma slot_index: "unat ((r + of_nat k) AND 255 :: u32) = (unat r + k) mod 256"
proof -
  have "unat (r + of_nat k) = (unat r + k) mod 2 ^ 32"
    by (simp add: unat_word_ariths unat_of_nat take_bit_eq_mod mod_add_right_eq)
  then have "unat (r + of_nat k) mod 256 = (unat r + k) mod 2 ^ 32 mod 256" by (simp only:)
  also have "\<dots> = (unat r + k) mod 256" by (rule mod_mod_cancel) simp
  finally show ?thesis by (simp only: mask_index)
qed

lemma slots_distinct:
  assumes "k < u" and "u < 256"
  shows "(a + k) mod 256 \<noteq> (a + u) mod (256 :: nat)"
proof
  assume "(a + k) mod 256 = (a + u) mod 256"
  then have "256 dvd (a + u) - (a + k)" using assms(1) mod_eq_dvd_iff_nat [of "a + k" "a + u" 256] by simp
  then have "256 dvd u - k" by simp
  with assms show False by (auto dest: dvd_imp_le)
qed

lemma write_count_used: "q_write_count q = q_read_count q + of_nat (queue_used q)"
  by (simp add: queue_used_def)

lemma used_full: "of_nat UART_RX_QUEUE_CAPACITY \<le> q_write_count q - q_read_count q \<longleftrightarrow> UART_RX_QUEUE_CAPACITY \<le> queue_used q"
  by (simp add: queue_used_def word_le_nat_alt)

lemma used_zero: "queue_used q = 0 \<longleftrightarrow> q_read_count q = q_write_count q"
  by (auto simp: queue_used_def unat_eq_zero)

lemma contents_empty: "queue_contents q = [] \<longleftrightarrow> q_read_count q = q_write_count q"
  by (simp add: queue_contents_def used_zero)

lemma push_contents:
  assumes "queue_wf q"
  shows "queue_push b q =
    (if q_overflowed q then (False, q)
     else if queue_used q = UART_RX_QUEUE_CAPACITY then (False, q\<lparr>q_overflowed := True\<rparr>)
     else (True, snd (queue_push b q)))"
    and "\<not> q_overflowed q \<Longrightarrow> queue_used q < UART_RX_QUEUE_CAPACITY \<Longrightarrow>
      queue_contents (snd (queue_push b q)) = queue_contents q @ [b] \<and>
      queue_wf (snd (queue_push b q)) \<and> \<not> q_overflowed (snd (queue_push b q))"
proof -
  show "queue_push b q =
    (if q_overflowed q then (False, q)
     else if queue_used q = UART_RX_QUEUE_CAPACITY then (False, q\<lparr>q_overflowed := True\<rparr>)
     else (True, snd (queue_push b q)))"
    using assms used_full [of q] by (auto simp: uart_rx_queue_push_def queue_wf_def Let_def)
next
  assume free: "\<not> q_overflowed q" "queue_used q < UART_RX_QUEUE_CAPACITY"
  let ?u = "queue_used q" and ?r = "q_read_count q"
  let ?q = "q\<lparr>q_data := (q_data q)[unat (q_write_count q AND 255) := b], q_write_count := q_write_count q + 1\<rparr>"
  have q: "snd (queue_push b q) = ?q"
    using free used_full [of q] by (simp add: uart_rx_queue_push_def Let_def)
  have len: "length (q_data q) = 256" using assms by (simp add: queue_wf_def)
  have index: "unat (q_write_count q AND 255) = (unat ?r + ?u) mod 256"
    using slot_index [of ?r ?u] by (simp only: write_count_used [symmetric])
  have used: "queue_used ?q = Suc ?u"
  proof -
    have "q_write_count q + 1 - ?r = of_nat (Suc ?u)" by (subst write_count_used) simp
    then have "unat (q_write_count q + 1 - ?r) = unat (of_nat (Suc ?u) :: u32)" by (simp only:)
    also have "\<dots> = Suc ?u" using free(2) by (simp add: unat_of_nat take_bit_nat_eq_self del: of_nat_Suc)
    finally show ?thesis by (simp add: queue_used_def)
  qed
  have old: "queue_slot ?q k = queue_slot q k" if "k < ?u" for k
    using that free(2) slots_distinct [OF that free(2), of "unat ?r"]
    by (simp add: queue_slot_def slot_index index)
  have new: "queue_slot ?q ?u = b"
    using len by (simp add: queue_slot_def slot_index index)
  have "queue_contents ?q = queue_contents q @ [b]"
    using old new by (simp add: queue_contents_def used)
  then show "queue_contents (snd (queue_push b q)) = queue_contents q @ [b] \<and>
      queue_wf (snd (queue_push b q)) \<and> \<not> q_overflowed (snd (queue_push b q))"
    using q used free len by (simp add: queue_wf_def)
qed

lemma contents_overflowed [simp]:
  "queue_contents (q\<lparr>q_overflowed := v\<rparr>) = queue_contents q"
  "queue_wf (q\<lparr>q_overflowed := v\<rparr>) = queue_wf q"
  "queue_used (q\<lparr>q_overflowed := v\<rparr>) = queue_used q"
  by (simp_all add: queue_contents_def queue_wf_def queue_used_def queue_slot_def [abs_def])

text \<open>Advancing the read counter removes the first byte.\<close>

lemma contents_advance:
  assumes "q_read_count q \<noteq> q_write_count q"
  shows "queue_contents q = queue_slot q 0 # queue_contents (q\<lparr>q_read_count := q_read_count q + 1\<rparr>)"
    and "queue_used q = Suc (queue_used (q\<lparr>q_read_count := q_read_count q + 1\<rparr>))"
proof -
  let ?q = "q\<lparr>q_read_count := q_read_count q + 1\<rparr>"
  have pos: "0 < queue_used q" using assms used_zero [of q] by simp
  have "q_write_count q - (q_read_count q + 1) = of_nat (queue_used q - 1)"
    using pos by (subst write_count_used) (simp add: of_nat_diff)
  moreover have "queue_used q - 1 < 2 ^ 32"
    using unsigned_less [of "q_write_count q - q_read_count q", where 'a = nat] by (simp add: queue_used_def)
  ultimately have "unat (q_write_count q - (q_read_count q + 1)) = queue_used q - 1"
    by (simp add: unat_of_nat take_bit_nat_eq_self)
  with pos show used: "queue_used q = Suc (queue_used ?q)" by (simp add: queue_used_def)
  have "queue_slot q (Suc k) = queue_slot ?q k" for k
    by (simp add: queue_slot_def add.assoc)
  then show "queue_contents q = queue_slot q 0 # queue_contents ?q"
    by (simp add: queue_contents_def used upt_conv_Cons map_Suc_upt [symmetric] del: upt_Suc)
qed

lemma pop_contents:
  assumes "queue_wf q"
  shows "queue_pop q =
    (if q_overflowed q \<or> queue_contents q = [] then (None, q)
     else (Some (hd (queue_contents q)), q\<lparr>q_read_count := q_read_count q + 1\<rparr>))"
    and "queue_contents q \<noteq> [] \<Longrightarrow>
      queue_contents (q\<lparr>q_read_count := q_read_count q + 1\<rparr>) = tl (queue_contents q) \<and>
      queue_wf (q\<lparr>q_read_count := q_read_count q + 1\<rparr>)"
proof -
  show "queue_pop q =
    (if q_overflowed q \<or> queue_contents q = [] then (None, q)
     else (Some (hd (queue_contents q)), q\<lparr>q_read_count := q_read_count q + 1\<rparr>))"
    using contents_advance(1) [of q]
    by (auto simp: uart_rx_queue_pop_def contents_empty queue_slot_def Let_def)
  show "queue_contents (q\<lparr>q_read_count := q_read_count q + 1\<rparr>) = tl (queue_contents q) \<and>
      queue_wf (q\<lparr>q_read_count := q_read_count q + 1\<rparr>)" if "queue_contents q \<noteq> []"
    using assms that contents_advance [of q] by (simp add: contents_empty queue_wf_def)
qed

lemma reset_contents:
  "queue_contents (queue_reset q) = []" "\<not> q_overflowed (queue_reset q)"
  "queue_wf q \<Longrightarrow> queue_wf (queue_reset q)"
  by (simp_all add: uart_rx_queue_reset_def Let_def queue_contents_def queue_used_def queue_wf_def)

subsection \<open>The contract\<close>

text \<open>
  The interrupt's enqueue loop (uart\_rx\_port\_stm32.c): push byte after byte until a push
  is refused. It is generic in the push operation, like the request sequences below.
\<close>

fun push_all :: "(u8 \<Rightarrow> 'q \<Rightarrow> bool \<times> 'q) \<Rightarrow> u8 list \<Rightarrow> 'q \<Rightarrow> bool \<times> 'q" where
  "push_all push [] q = (True, q)"
| "push_all push (b # bs) q =
     (case push b q of (ok, q') \<Rightarrow> if ok then push_all push bs q' else (False, q'))"

datatype queue_request = Push u8 | Pop

text \<open>The bytes accepted, the bytes delivered, and the queue left behind.\<close>

fun queue_run ::
  "(u8 \<Rightarrow> 'q \<Rightarrow> bool \<times> 'q) \<Rightarrow> ('q \<Rightarrow> u8 option \<times> 'q) \<Rightarrow> queue_request list \<Rightarrow> 'q \<Rightarrow>
     u8 list \<times> u8 list \<times> 'q" where
  "queue_run push pop [] q = ([], [], q)"
| "queue_run push pop (Push b # rs) q =
     (case push b q of (ok, q') \<Rightarrow>
        case queue_run push pop rs q' of (acc, del, q'') \<Rightarrow> (if ok then b # acc else acc, del, q''))"
| "queue_run push pop (Pop # rs) q =
     (case pop q of (r, q') \<Rightarrow>
        case queue_run push pop rs q' of (acc, del, q'') \<Rightarrow>
          (acc, case r of None \<Rightarrow> del | Some b \<Rightarrow> b # del, q''))"

locale byte_queue =
  fixes push :: "u8 \<Rightarrow> 'q \<Rightarrow> bool \<times> 'q" and pop :: "'q \<Rightarrow> u8 option \<times> 'q" and reset :: "'q \<Rightarrow> 'q"
    and overflowed :: "'q \<Rightarrow> bool" and contents :: "'q \<Rightarrow> u8 list" and queue_inv :: "'q \<Rightarrow> bool"
    and capacity :: nat
  assumes push_inv: "queue_inv q \<Longrightarrow> queue_inv (snd (push b q))"
    and push_accepts: "queue_inv q \<Longrightarrow> fst (push b q) \<longleftrightarrow> \<not> overflowed q \<and> length (contents q) < capacity"
    and push_stores: "queue_inv q \<Longrightarrow>
        contents (snd (push b q)) = (if fst (push b q) then contents q @ [b] else contents q)"
    and push_overflow: "queue_inv q \<Longrightarrow> overflowed (snd (push b q)) \<longleftrightarrow> \<not> fst (push b q)"
    and pop_inv: "queue_inv q \<Longrightarrow> queue_inv (snd (pop q))"
    and pop_takes: "queue_inv q \<Longrightarrow>
        fst (pop q) = (if overflowed q \<or> contents q = [] then None else Some (hd (contents q)))"
    and pop_leaves: "queue_inv q \<Longrightarrow>
        contents (snd (pop q)) = (if fst (pop q) = None then contents q else tl (contents q))"
    and pop_overflow: "queue_inv q \<Longrightarrow> overflowed (snd (pop q)) = overflowed q"
    and reset_inv: "queue_inv q \<Longrightarrow> queue_inv (reset q)"
    and reset_empty: "queue_inv q \<Longrightarrow> contents (reset q) = [] \<and> \<not> overflowed (reset q)"
begin

lemma push_all_spec:
  assumes "queue_inv q" and "push_all push bs q = (ok, q')"
  shows "queue_inv q' \<and> (\<exists>n \<le> length bs. contents q' = contents q @ take n bs \<and> (ok \<longleftrightarrow> n = length bs) \<and>
    (overflowed q' \<longleftrightarrow> overflowed q \<or> n < length bs))"
  using assms
proof (induction bs arbitrary: q)
  case (Cons b bs)
  obtain ok1 q1 where p: "push b q = (ok1, q1)" by fastforce
  have inv: "queue_inv q1" using push_inv [OF Cons.prems(1), of b] p by simp
  note laws = push_accepts [OF Cons.prems(1), of b] push_stores [OF Cons.prems(1), of b]
    push_overflow [OF Cons.prems(1), of b]
  show ?case
  proof (cases ok1)
    case True
    with Cons.prems(2) p have "push_all push bs q1 = (ok, q')" by simp
    from Cons.IH [OF inv this] obtain n where "queue_inv q'" "n \<le> length bs" "contents q' = contents q1 @ take n bs"
      "ok \<longleftrightarrow> n = length bs" "overflowed q' \<longleftrightarrow> overflowed q1 \<or> n < length bs" by blast
    with True laws p show ?thesis by (intro conjI exI [of _ "Suc n"]) auto
  next
    case False
    with Cons.prems(2) p inv laws show ?thesis by (intro conjI exI [of _ 0]) auto
  qed
qed auto

lemma push_all_room:
  assumes "queue_inv q" and "\<not> overflowed q" and "length (contents q) + length bs \<le> capacity"
  shows "fst (push_all push bs q)"
  using assms
proof (induction bs arbitrary: q)
  case (Cons b bs)
  obtain ok q1 where p: "push b q = (ok, q1)" by fastforce
  with push_accepts [OF Cons.prems(1), of b] push_stores [OF Cons.prems(1), of b]
    push_overflow [OF Cons.prems(1), of b] push_inv [OF Cons.prems(1), of b] Cons.prems
  have "ok" "queue_inv q1" "\<not> overflowed q1" "contents q1 = contents q @ [b]" by auto
  with Cons.IH [of q1] Cons.prems p show ?case by simp
qed simp

lemma run_fifo:
  assumes "queue_inv q" and "queue_run push pop rs q = (accepted, delivered, q')"
  shows "queue_inv q' \<and> delivered @ contents q' = contents q @ accepted"
  using assms
proof (induction rs arbitrary: q accepted delivered)
  case (Cons r rs)
  show ?case
  proof (cases r)
    case (Push b)
    obtain ok q1 where p: "push b q = (ok, q1)" by fastforce
    obtain acc del where run: "queue_run push pop rs q1 = (acc, del, q')"
      using Cons.prems(2) Push p by (auto split: prod.splits)
    have "queue_inv q1" using push_inv [OF Cons.prems(1), of b] p by simp
    from Cons.IH [OF this run] push_stores [OF Cons.prems(1), of b] Cons.prems(2) Push p run
    show ?thesis by (auto split: if_splits)
  next
    case Pop
    obtain x q1 where p: "pop q = (x, q1)" by fastforce
    obtain acc del where run: "queue_run push pop rs q1 = (acc, del, q')"
      using Cons.prems(2) Pop p by (auto split: prod.splits)
    have "queue_inv q1" using pop_inv [OF Cons.prems(1)] p by simp
    from Cons.IH [OF this run] pop_takes [OF Cons.prems(1)] pop_leaves [OF Cons.prems(1)] Cons.prems(2) Pop p run
    show ?thesis by (cases "contents q") (auto split: if_splits)
  qed
qed auto

end

text \<open>The ring fulfils it, with its 256 slots.\<close>

interpretation rx_queue: byte_queue queue_push queue_pop queue_reset q_overflowed queue_contents queue_wf
  UART_RX_QUEUE_CAPACITY
proof
  fix q :: UartRxQueue and b :: u8
  assume wf: "queue_wf q"
  then have bound: "queue_used q \<le> UART_RX_QUEUE_CAPACITY" by (simp add: queue_wf_def)
  note push = push_contents [OF wf, of b] and pop = pop_contents [OF wf]
  show "queue_wf (snd (queue_push b q))"
    using wf push bound by (cases "q_overflowed q"; cases "queue_used q = 256") simp_all
  show "fst (queue_push b q) \<longleftrightarrow> \<not> q_overflowed q \<and> length (queue_contents q) < UART_RX_QUEUE_CAPACITY"
    using bound by (subst push(1)) auto
  show "queue_contents (snd (queue_push b q)) =
      (if fst (queue_push b q) then queue_contents q @ [b] else queue_contents q)"
    using push bound by (cases "q_overflowed q"; cases "queue_used q = 256") simp_all
  show "q_overflowed (snd (queue_push b q)) \<longleftrightarrow> \<not> fst (queue_push b q)"
    using push bound by (cases "q_overflowed q"; cases "queue_used q = 256") simp_all
  show "queue_wf (snd (queue_pop q))" using wf pop by simp
  show "fst (queue_pop q) =
      (if q_overflowed q \<or> queue_contents q = [] then None else Some (hd (queue_contents q)))"
    using pop by simp
  show "queue_contents (snd (queue_pop q)) =
      (if fst (queue_pop q) = None then queue_contents q else tl (queue_contents q))"
    using pop by simp
  show "q_overflowed (snd (queue_pop q)) = q_overflowed q" using pop by simp
qed (simp_all add: reset_contents)

text \<open>
  The ring is a first-in first-out queue, wherever its free-running counters stand. Over
  any sequence of pushes and pops, the bytes delivered followed by the bytes still queued
  are the bytes that were queued before followed by the bytes accepted, in order; at most
  256 bytes are queued; and a push is accepted exactly when there is room and no overflow
  is pending.
\<close>

theorem queue_is_fifo:
  assumes "queue_wf q" and "queue_run queue_push queue_pop rs q = (accepted, delivered, q')"
  shows "delivered @ queue_contents q' = queue_contents q @ accepted \<and>
    length (queue_contents q') \<le> UART_RX_QUEUE_CAPACITY \<and>
    (fst (queue_push b q') \<longleftrightarrow> \<not> q_overflowed q' \<and> length (queue_contents q') < UART_RX_QUEUE_CAPACITY)"
proof -
  have "queue_wf q'" and "delivered @ queue_contents q' = queue_contents q @ accepted"
    using rx_queue.run_fifo [OF assms] by simp_all
  then show ?thesis using rx_queue.push_accepts [of q' b] by (simp add: queue_wf_def)
qed

subsection \<open>Interrupts between the accesses of the main loop\<close>

text \<open>
  The interrupt handler runs to completion, so a push is one step. The main loop's pop and
  reset access the shared fields one after the other, and the interrupt may push between
  any two accesses. The two ghost fields record the bytes accepted and delivered since
  the last reset.
\<close>

datatype queue_pc =
    Idle
  | Pop_Compare          \<comment> \<open>\<open>overflowed\<close> was read as false\<close>
  | Pop_Index            \<comment> \<open>the counters were seen to differ\<close>
  | Pop_Load u32         \<comment> \<open>the index is computed\<close>
  | Pop_Advance u8       \<comment> \<open>the byte is read, the counter not yet advanced\<close>
  | Reset_Read           \<comment> \<open>\<open>overflowed\<close> is set\<close>
  | Reset_Store u32      \<comment> \<open>the write counter is read\<close>
  | Reset_Clear          \<comment> \<open>the read counter is stored\<close>

record queue_system =
  qs_queue :: UartRxQueue
  qs_pc :: queue_pc
  qs_accepted :: "u8 list"
  qs_delivered :: "u8 list"

definition queue_system_init :: "queue_system \<Rightarrow> bool" where
  "queue_system_init s \<longleftrightarrow>
     s = \<lparr>qs_queue = zero_queue, qs_pc = Idle, qs_accepted = [], qs_delivered = []\<rparr>"

inductive queue_step :: "queue_system \<Rightarrow> queue_system \<Rightarrow> bool" where
  interrupt: "queue_push b (qs_queue s) = (ok, q') \<Longrightarrow>
    queue_step s (s\<lparr>qs_queue := q', qs_accepted := (if ok then qs_accepted s @ [b] else qs_accepted s)\<rparr>)"
| pop_begin: "qs_pc s = Idle \<Longrightarrow> \<not> q_overflowed (qs_queue s) \<Longrightarrow> queue_step s (s\<lparr>qs_pc := Pop_Compare\<rparr>)"
| pop_empty: "qs_pc s = Pop_Compare \<Longrightarrow> q_read_count (qs_queue s) = q_write_count (qs_queue s) \<Longrightarrow>
    queue_step s (s\<lparr>qs_pc := Idle\<rparr>)"
| pop_nonempty: "qs_pc s = Pop_Compare \<Longrightarrow> q_read_count (qs_queue s) \<noteq> q_write_count (qs_queue s) \<Longrightarrow>
    queue_step s (s\<lparr>qs_pc := Pop_Index\<rparr>)"
| pop_index: "qs_pc s = Pop_Index \<Longrightarrow> queue_step s (s\<lparr>qs_pc := Pop_Load (q_read_count (qs_queue s) AND 255)\<rparr>)"
| pop_load: "qs_pc s = Pop_Load index \<Longrightarrow>
    queue_step s (s\<lparr>qs_pc := Pop_Advance (q_data (qs_queue s) ! unat index)\<rparr>)"
| pop_advance: "qs_pc s = Pop_Advance byte \<Longrightarrow>
    queue_step s (s\<lparr>qs_pc := Idle, qs_delivered := qs_delivered s @ [byte],
      qs_queue := (qs_queue s)\<lparr>q_read_count := q_read_count (qs_queue s) + 1\<rparr>\<rparr>)"
| reset_mark: "qs_pc s = Idle \<Longrightarrow>
    queue_step s (s\<lparr>qs_pc := Reset_Read, qs_queue := (qs_queue s)\<lparr>q_overflowed := True\<rparr>\<rparr>)"
| reset_read: "qs_pc s = Reset_Read \<Longrightarrow> queue_step s (s\<lparr>qs_pc := Reset_Store (q_write_count (qs_queue s))\<rparr>)"
| reset_store: "qs_pc s = Reset_Store count \<Longrightarrow>
    queue_step s (s\<lparr>qs_pc := Reset_Clear, qs_queue := (qs_queue s)\<lparr>q_read_count := count\<rparr>\<rparr>)"
| reset_clear: "qs_pc s = Reset_Clear \<Longrightarrow>
    queue_step s (s\<lparr>qs_pc := Idle, qs_queue := (qs_queue s)\<lparr>q_overflowed := False\<rparr>,
      qs_accepted := [], qs_delivered := []\<rparr>)"

text \<open>Left alone, the steps of the main loop add up to the operations above.\<close>

lemma pop_steps:
  assumes "qs_pc s = Idle" and "queue_pop (qs_queue s) = (Some b, q')"
  shows "queue_step\<^sup>*\<^sup>* s (s\<lparr>qs_queue := q', qs_delivered := qs_delivered s @ [b]\<rparr>)"
proof -
  let ?q = "qs_queue s" and ?i = "q_read_count (qs_queue s) AND 255"
  have q: "\<not> q_overflowed ?q" "q_read_count ?q \<noteq> q_write_count ?q" "b = q_data ?q ! unat ?i"
    "q' = ?q\<lparr>q_read_count := q_read_count ?q + 1\<rparr>"
    using assms(2) by (auto simp: uart_rx_queue_pop_def Let_def split: if_splits)
  have "queue_step s (s\<lparr>qs_pc := Pop_Compare\<rparr>)" using assms(1) q(1) by (rule pop_begin)
  moreover have "queue_step (s\<lparr>qs_pc := Pop_Compare\<rparr>) (s\<lparr>qs_pc := Pop_Index\<rparr>)"
    using pop_nonempty [of "s\<lparr>qs_pc := Pop_Compare\<rparr>"] q(2) by simp
  moreover have "queue_step (s\<lparr>qs_pc := Pop_Index\<rparr>) (s\<lparr>qs_pc := Pop_Load ?i\<rparr>)"
    using pop_index [of "s\<lparr>qs_pc := Pop_Index\<rparr>"] by simp
  moreover have "queue_step (s\<lparr>qs_pc := Pop_Load ?i\<rparr>) (s\<lparr>qs_pc := Pop_Advance b\<rparr>)"
    using pop_load [of "s\<lparr>qs_pc := Pop_Load ?i\<rparr>"] q(3) by simp
  moreover have "queue_step (s\<lparr>qs_pc := Pop_Advance b\<rparr>) (s\<lparr>qs_queue := q', qs_delivered := qs_delivered s @ [b]\<rparr>)"
    using pop_advance [of "s\<lparr>qs_pc := Pop_Advance b\<rparr>"] q(4) assms(1) by (cases s) simp
  ultimately show ?thesis by (meson converse_rtranclp_into_rtranclp rtranclp.rtrancl_refl)
qed

lemma reset_steps:
  assumes "qs_pc s = Idle"
  shows "queue_step\<^sup>*\<^sup>* s (s\<lparr>qs_queue := queue_reset (qs_queue s), qs_accepted := [], qs_delivered := []\<rparr>)"
proof -
  let ?q = "(qs_queue s)\<lparr>q_overflowed := True\<rparr>" and ?w = "q_write_count (qs_queue s)"
  let ?s = "\<lambda>pc q. s\<lparr>qs_pc := pc, qs_queue := q\<rparr>"
  have "queue_step s (?s Reset_Read ?q)" using assms by (rule reset_mark)
  moreover have "queue_step (?s Reset_Read ?q) (?s (Reset_Store ?w) ?q)"
    using reset_read [of "?s Reset_Read ?q"] by (cases s) simp
  moreover have "queue_step (?s (Reset_Store ?w) ?q) (?s Reset_Clear (?q\<lparr>q_read_count := ?w\<rparr>))"
    using reset_store [of "?s (Reset_Store ?w) ?q" ?w] by (cases s) simp
  moreover have "queue_step (?s Reset_Clear (?q\<lparr>q_read_count := ?w\<rparr>))
      (s\<lparr>qs_queue := queue_reset (qs_queue s), qs_accepted := [], qs_delivered := []\<rparr>)"
    using reset_clear [of "?s Reset_Clear (?q\<lparr>q_read_count := ?w\<rparr>)"] assms
    by (cases s) (simp add: uart_rx_queue_reset_def Let_def)
  ultimately show ?thesis by (meson converse_rtranclp_into_rtranclp rtranclp.rtrancl_refl)
qed

text \<open>What holds at each point of the main loop, whatever the interrupts did.\<close>

definition queue_system_inv :: "queue_system \<Rightarrow> bool" where
  "queue_system_inv s \<longleftrightarrow>
     (let q = qs_queue s; in_order = (qs_delivered s @ queue_contents q = qs_accepted s)
      in queue_wf q \<and> prefix (qs_delivered s) (qs_accepted s) \<and>
         (case qs_pc s of
            Idle \<Rightarrow> in_order
          | Pop_Compare \<Rightarrow> in_order
          | Pop_Index \<Rightarrow> in_order \<and> queue_contents q \<noteq> []
          | Pop_Load index \<Rightarrow> in_order \<and> queue_contents q \<noteq> [] \<and> index = (q_read_count q AND 255)
          | Pop_Advance byte \<Rightarrow> in_order \<and> queue_contents q \<noteq> [] \<and> byte = hd (queue_contents q)
          | Reset_Read \<Rightarrow> in_order \<and> q_overflowed q
          | Reset_Store count \<Rightarrow> q_overflowed q \<and> count = q_write_count q
          | Reset_Clear \<Rightarrow> q_overflowed q \<and> queue_contents q = []))"

lemma push_frame:
  "q_read_count (snd (queue_push b q)) = q_read_count q"
  "q_overflowed q \<Longrightarrow> queue_push b q = (False, q)"
  by (simp_all add: uart_rx_queue_push_def Let_def)

lemma inv_interrupt:
  assumes "queue_system_inv s" and "queue_push b (qs_queue s) = (ok, q')"
  shows "queue_system_inv (s\<lparr>qs_queue := q',
    qs_accepted := (if ok then qs_accepted s @ [b] else qs_accepted s)\<rparr>)"
proof -
  have wf: "queue_wf (qs_queue s)" using assms(1) by (simp add: queue_system_inv_def Let_def)
  have q': "queue_wf q'" "queue_contents q' = (if ok then queue_contents (qs_queue s) @ [b] else queue_contents (qs_queue s))"
    "q_read_count q' = q_read_count (qs_queue s)"
    "q_overflowed (qs_queue s) \<Longrightarrow> \<not> ok \<and> q' = qs_queue s"
    using rx_queue.push_inv [OF wf, of b] rx_queue.push_stores [OF wf, of b] push_frame [where b = b and q = "qs_queue s"] assms(2)
    by auto
  from assms(1) q' show ?thesis
    by (cases ok; cases "qs_pc s") (auto simp: queue_system_inv_def Let_def prefix_def)
qed

lemma inv_main_step:
  assumes "queue_system_inv s" and "queue_step s t" and "qs_pc t \<noteq> qs_pc s"
  shows "queue_system_inv t"
  using assms(2,1,3)
proof (cases rule: queue_step.cases)
  case (pop_load index)
  then have "queue_contents (qs_queue s) \<noteq> []" and "index = (q_read_count (qs_queue s) AND 255)"
    using assms(1) by (simp_all add: queue_system_inv_def Let_def)
  with contents_advance(1) [of "qs_queue s"]
  have "q_data (qs_queue s) ! unat index = hd (queue_contents (qs_queue s))"
    by (simp add: contents_empty queue_slot_def)
  with pop_load assms(1) show ?thesis by (simp add: queue_system_inv_def Let_def)
next
  case (pop_advance byte)
  have wf: "queue_wf (qs_queue s)" using assms(1) by (simp add: queue_system_inv_def Let_def)
  let ?q = "(qs_queue s)\<lparr>q_read_count := q_read_count (qs_queue s) + 1\<rparr>"
  have "queue_contents (qs_queue s) = byte # queue_contents ?q" and "queue_wf ?q"
    and "qs_delivered s @ queue_contents (qs_queue s) = qs_accepted s"
    using pop_advance assms(1) pop_contents(2) [OF wf] by (auto simp: queue_system_inv_def Let_def)
  with pop_advance show ?thesis by (auto simp: queue_system_inv_def Let_def prefix_def dest: sym)
next
  case (reset_store count)
  with assms(1) show ?thesis
    by (simp add: queue_system_inv_def Let_def queue_wf_def queue_used_def contents_empty)
qed (auto simp: queue_system_inv_def Let_def contents_empty)

interpretation queue_system: inductive_invariant queue_system_init queue_step queue_system_inv
proof
  show "queue_system_inv s" if "queue_system_init s" for s
    using that by (simp add: queue_system_init_def queue_system_inv_def zero_queue_def queue_wf_def
        queue_used_def contents_empty Let_def)
  show "queue_system_inv t" if "queue_system_inv s" "queue_step s t" for s t
    using that(2)
  proof (cases rule: queue_step.cases)
    case (interrupt b ok q')
    with inv_interrupt [OF that(1)] show ?thesis by blast
  qed (rule inv_main_step [OF that], simp)+
qed

text \<open>
  C40: Interrupts at any point of the main loop's pop and reset lose, repeat or reorder nothing.
  In every reachable state the bytes delivered since the last reset are a prefix of those
  accepted; between operations, the queue holds exactly the rest, and the next pop, unless
  an overflow is pending, delivers the next byte; while a reset runs, no push is accepted,
  so a reset leaves the queue empty.
\<close>

theorem queue_survives_interrupts:
  assumes "reachable queue_system_init queue_step s"
  shows "prefix (qs_delivered s) (qs_accepted s) \<and>
    (qs_pc s = Idle \<longrightarrow> qs_delivered s @ queue_contents (qs_queue s) = qs_accepted s \<and>
       (\<not> q_overflowed (qs_queue s) \<and> qs_delivered s \<noteq> qs_accepted s \<longrightarrow>
          fst (uart_rx_queue_pop (Some (qs_queue s)) True) = Some (qs_accepted s ! length (qs_delivered s)))) \<and>
    (qs_pc s \<in> {Reset_Read, Reset_Store count, Reset_Clear} \<longrightarrow>
       uart_rx_queue_push (Some (qs_queue s)) b = (False, Some (qs_queue s))) \<and>
    (qs_pc s = Reset_Clear \<longrightarrow> queue_contents (qs_queue s) = [])"
proof -
  have inv: "queue_system_inv s" using assms by (rule queue_system.inv_reachable)
  then have wf: "queue_wf (qs_queue s)" by (simp add: queue_system_inv_def Let_def)
  have pop: "fst (uart_rx_queue_pop (Some (qs_queue s)) True) = Some (qs_accepted s ! length (qs_delivered s))"
    if "qs_delivered s @ queue_contents (qs_queue s) = qs_accepted s" "\<not> q_overflowed (qs_queue s)"
      "qs_delivered s \<noteq> qs_accepted s"
  proof -
    have ne: "queue_contents (qs_queue s) \<noteq> []" using that by auto
    have "qs_accepted s ! length (qs_delivered s) = hd (queue_contents (qs_queue s))"
      using ne by (subst that(1) [symmetric]) (simp add: nth_append hd_conv_nth)
    with rx_queue.pop_takes [OF wf] that ne show ?thesis by simp
  qed
  have refused: "uart_rx_queue_push (Some (qs_queue s)) b = (False, Some (qs_queue s))"
    if "q_overflowed (qs_queue s)" using that by (simp add: uart_rx_queue_push_def)
  from inv pop refused show ?thesis by (auto simp: queue_system_inv_def Let_def)
qed

lemma queue_survives_interrupts_witness:
  "\<exists>s. reachable queue_system_init queue_step s \<and> qs_accepted s = [7] \<and> prefix (qs_delivered s) [7]"
proof -
  let ?s = "\<lparr>qs_queue = zero_queue, qs_pc = Idle, qs_accepted = [], qs_delivered = []\<rparr>"
  obtain q' where "queue_push 7 zero_queue = (True, q')"
    by (simp add: uart_rx_queue_push_def zero_queue_def Let_def)
  then have "queue_step ?s (?s\<lparr>qs_queue := q', qs_accepted := [7]\<rparr>)"
    using interrupt [where b = 7 and s = ?s and ok = True] by simp
  moreover have "reachable queue_system_init queue_step ?s"
    by (rule reachable_init) (simp add: queue_system_init_def)
  ultimately have "reachable queue_system_init queue_step (?s\<lparr>qs_queue := q', qs_accepted := [7]\<rparr>)"
    by (rule reachable_step [rotated])
  from this queue_survives_interrupts [OF this, of 0 0] show ?thesis
    by (intro exI [of _ "?s\<lparr>qs_queue := q', qs_accepted := [7]\<rparr>"]) simp
qed

end
