(* ===== verification/Uart_Rx_Port.thy ===== *)
theory Uart_Rx_Port
  imports Uart_Queue
begin

section \<open>The receive interrupt (Port/uart\_rx\_port\_stm32.c)\<close>

text \<open>
  The vendor's driver lets the DMA controller fill a ring of 128 bytes and calls back with
  the position it has reached. The port keeps the position of the previous call and pushes
  the bytes between the two into the receive queue. The contents of the DMA ring, the
  positions reported and the answer to the request that starts the transfer come from that
  driver: the ring is a field it writes, the position an argument, the answer a parameter.
\<close>

abbreviation (input) UART_RX_DMA_BUFFER_SIZE :: nat where "UART_RX_DMA_BUFFER_SIZE \<equiv> 128"

text \<open>\<open>rx_bound\<close> says that \<^verbatim>\<open>rx_queue\<close>, which points at the one queue there is, is not null.\<close>

record UartRxPort =
  rx_bound :: bool
  dma_buffer :: "u8 list"
  previous_position :: u16
  rx_is_USART2 :: bool
  rx_dma_start_ok :: bool

definition uart_rx_port_enqueue_range ::
  "u16 \<Rightarrow> u16 \<Rightarrow> UartRxPort \<Rightarrow> UartRxQueue \<Rightarrow> bool \<times> UartRxQueue" where
  "uart_rx_port_enqueue_range first stop port queue =
     (if \<not> rx_bound port \<or> first > stop \<or> unat stop > UART_RX_DMA_BUFFER_SIZE then (False, queue)
      else push_all queue_push (map (\<lambda>i. dma_buffer port ! i) [unat first..<unat stop]) queue)"

definition HAL_UARTEx_RxEventCallback ::
  "bool \<Rightarrow> u16 \<Rightarrow> UartRxPort \<Rightarrow> UartRxQueue \<Rightarrow> UartRxPort \<times> UartRxQueue" where
  "HAL_UARTEx_RxEventCallback is_huart2 rx_size port queue =
     (if \<not> is_huart2 \<or> \<not> rx_bound port \<or> unat rx_size > UART_RX_DMA_BUFFER_SIZE then (port, queue)
      else
        let queue =
          (if rx_size > previous_position port
           then snd (uart_rx_port_enqueue_range (previous_position port) rx_size port queue)
           else if rx_size < previous_position port
           then
             let (ok, queue) = uart_rx_port_enqueue_range (previous_position port)
                                 (of_nat UART_RX_DMA_BUFFER_SIZE) port queue
             in if ok then snd (uart_rx_port_enqueue_range 0 rx_size port queue) else queue
           else queue)
        in (port\<lparr>previous_position := rx_size\<rparr>, queue))"

definition uart_rx_port_init ::
  "UartRxQueue option \<Rightarrow> UartRxPort \<Rightarrow> bool \<times> UartRxPort \<times> UartRxQueue option" where
  "uart_rx_port_init queue port =
     (if queue = None \<or> \<not> rx_is_USART2 port then (False, port, queue)
      else
        let queue = uart_rx_queue_init queue;
            port = port\<lparr>previous_position := 0, rx_bound := True\<rparr>
        in if \<not> rx_dma_start_ok port then (False, port\<lparr>rx_bound := False\<rparr>, queue)
           else (True, port, queue))"

subsection \<open>The bytes between two positions\<close>

lemma push_all_append:
  "push_all push (xs @ ys) q =
     (case push_all push xs q of (ok, q') \<Rightarrow> if ok then push_all push ys q' else (False, q'))"
  by (induction xs arbitrary: q) (auto split: prod.splits)

definition received_range :: "u16 \<Rightarrow> u16 \<Rightarrow> u8 list \<Rightarrow> u8 list" where
  "received_range prev rx_size buf =
     (if rx_size > prev then map ((!) buf) [unat prev..<unat rx_size]
      else if rx_size < prev then map ((!) buf) [unat prev..<UART_RX_DMA_BUFFER_SIZE] @ map ((!) buf) [0..<unat rx_size]
      else [])"

lemma enqueue_range_wf:
  "queue_wf q \<Longrightarrow> queue_wf (snd (uart_rx_port_enqueue_range first stop port q))"
  using rx_queue.push_all_spec [of q _ _ "snd (push_all queue_push (map ((!) (dma_buffer port)) [unat first..<unat stop]) q)"]
  by (auto simp: uart_rx_port_enqueue_range_def intro: prod.collapse [symmetric])

lemma callback_wf:
  "queue_wf q \<Longrightarrow> queue_wf (snd (HAL_UARTEx_RxEventCallback is_huart2 rx_size port q))"
  by (auto simp: HAL_UARTEx_RxEventCallback_def enqueue_range_wf case_prod_beta Let_def)

lemma callback_pushes:
  assumes "rx_bound port" and "unat rx_size \<le> UART_RX_DMA_BUFFER_SIZE"
    and "unat (previous_position port) \<le> UART_RX_DMA_BUFFER_SIZE"
  shows "HAL_UARTEx_RxEventCallback True rx_size port queue =
    (port\<lparr>previous_position := rx_size\<rparr>,
     snd (push_all queue_push (received_range (previous_position port) rx_size (dma_buffer port)) queue))"
proof -
  have "previous_position port \<le> 128" using assms(3) by (simp add: word_le_nat_alt)
  with assms show ?thesis
    by (auto simp: HAL_UARTEx_RxEventCallback_def uart_rx_port_enqueue_range_def received_range_def
        push_all_append Let_def not_less word_less_nat_alt word_le_nat_alt split: prod.splits)
qed

text \<open>
  The byte stream of the line: \<open>stream i\<close> is the i-th byte received. After \<open>n\<close> bytes the ring
  holds the last 128 of them; the position reported for \<open>n\<close> bytes is the fill level of the
  ring, 128 when it is full (the half-full, full and idle events of the vendor's driver).
\<close>

definition dma_holds :: "(nat \<Rightarrow> u8) \<Rightarrow> nat \<Rightarrow> u8 list \<Rightarrow> bool" where
  "dma_holds stream n buf \<longleftrightarrow> (\<forall>i. n \<le> i + UART_RX_DMA_BUFFER_SIZE \<and> i < n \<longrightarrow>
     buf ! (i mod UART_RX_DMA_BUFFER_SIZE) = stream i)"

definition position_of :: "nat \<Rightarrow> nat" where
  "position_of n = (if n = 0 then 0 else (n - 1) mod UART_RX_DMA_BUFFER_SIZE + 1)"

lemma position_bound: "position_of n \<le> 128"
  by (simp add: position_of_def Suc_le_eq)

lemma position_base:
  obtains a where "n = 128 * a + position_of n"
proof
  show "n = 128 * ((n - 1) div 128) + position_of n"
    using mult_div_mod_eq [of 128 "n - 1"] by (simp add: position_of_def)
qed

lemma map_shift_upt:
  assumes "\<And>i. a \<le> i \<Longrightarrow> i < b \<Longrightarrow> f i = g (m + i)"
  shows "map f [a..<b] = map g [m + a..<m + b]"
  using assms by (intro nth_equalityI) (simp_all add: add.assoc)

text \<open>
  Positions inside the same lap of the ring, or the reported one in the next lap.
\<close>

lemma same_lap:
  fixes m n a b p s :: nat
  assumes "m = 128 * a + p" and "n = 128 * b + s" and "p < s" and "s \<le> 128" and "m \<le> n" and "n - m < 128"
    and "p = 0 \<Longrightarrow> a = 0"
  shows "a = b"
proof (rule ccontr)
  assume "a \<noteq> b"
  then have "128 * b + 128 \<le> 128 * a \<and> b < a \<or> 128 * a + 128 \<le> 128 * b" by linarith
  then consider "128 * b + 128 \<le> 128 * a" "b < a" | "128 * a + 128 \<le> 128 * b" by blast
  then show False
  proof cases
    case 1
    with assms have "p = 0" by linarith
    with 1 assms(7) show False by simp
  next
    case 2
    with assms show False by linarith
  qed
qed

lemma next_lap:
  fixes m n a b p s :: nat
  assumes "m = 128 * a + p" and "n = 128 * b + s" and "s < p" and "p \<le> 128" and "m \<le> n" and "n - m < 128"
  shows "b = a + 1"
proof (rule ccontr)
  assume "b \<noteq> a + 1"
  then have "128 * b \<le> 128 * a \<or> 128 * a + 256 \<le> 128 * b" by linarith
  then consider "128 * b \<le> 128 * a" | "128 * a + 256 \<le> 128 * b" by blast
  then show False by cases (use assms in linarith)+
qed

lemma received_range_stream:
  assumes "\<And>i. m \<le> i \<Longrightarrow> i < n \<Longrightarrow> buf ! (i mod 128) = stream i" and "m \<le> n" and "n - m < 128"
    and "unat prev = position_of m" and "unat rx_size = position_of n"
  shows "received_range prev rx_size buf = map stream [m..<n]"
proof -
  obtain a where m: "m = 128 * a + unat prev" using position_base [of m] assms(4) by metis
  obtain b where n: "n = 128 * b + unat rx_size" using position_base [of n] assms(5) by metis
  have bounds: "unat prev \<le> 128" "unat rx_size \<le> 128" using position_bound assms(4,5) by simp_all
  have ring: "buf ! i = stream (128 * c + i)" if "i < 128" "m \<le> 128 * c + i" "128 * c + i < n" for i c
    using assms(1) [of "128 * c + i"] that by simp
  have zero: "a = 0" if "unat prev = 0"
  proof -
    have "position_of m = 0" using that assms(4) by simp
    then have "m = 0" by (simp add: position_of_def split: if_splits)
    with m show ?thesis by simp
  qed
  consider "prev < rx_size" | "prev = rx_size" | "rx_size < prev" by force
  then show ?thesis
  proof cases
    case 1
    then have "a = b"
      using same_lap [OF m n _ bounds(2) assms(2,3) zero] by (simp add: word_less_nat_alt)
    moreover from this have "map ((!) buf) [unat prev..<unat rx_size] = map stream [128 * b + unat prev..<128 * b + unat rx_size]"
      using m n bounds by (intro map_shift_upt ring) auto
    ultimately show ?thesis using 1 m n by (simp add: received_range_def)
  next
    case 2
    then have "a = b" using m n assms(2,3) by simp
    with 2 m n show ?thesis by (simp add: received_range_def)
  next
    case 3
    then have lt: "unat rx_size < unat prev" by (simp add: word_less_nat_alt)
    have b: "b = a + 1" using next_lap [OF m n lt bounds(1) assms(2,3)] .
    have first: "map ((!) buf) [unat prev..<128] = map stream [128 * a + unat prev..<128 * a + 128]"
      using m n lt b by (intro map_shift_upt ring) auto
    have second: "map ((!) buf) [0..<unat rx_size] = map stream [128 * b + 0..<128 * b + unat rx_size]"
      using m n b bounds by (intro map_shift_upt ring) auto
    have "m \<le> 128 * b" "n = 128 * b + unat rx_size" "128 * b = 128 * a + 128" using m n b bounds by simp_all
    then have "[m..<n] = [m..<128 * b] @ [128 * b..<n]" using upt_add_eq_append [of m "128 * b" "unat rx_size"] by simp
    with 3 first second m n b show ?thesis by (simp add: received_range_def add.commute)
  qed
qed

end
