(* ===== verification/Hal_Uart.thy ===== *)
theory Hal_Uart
  imports Uart_Rx_Port
begin

section \<open>Reception in the vendor's library (stm32f4xx\_hal\_uart.c, stm32f4xx\_hal\_dma.c)\<close>

text \<open>
  The path of the vendor's library that the receive port uses: the start of a reception
  until the line is idle, the DMA interrupt with its half and full transfer callbacks, and
  the UART interrupt with its error and idle branches. It ends in the callback of the port.

  Registers are records of the bits these functions read or write. Function pointers of the
  DMA handle are values of a datatype; the weak callbacks that the program does not define
  do nothing. \<^verbatim>\<open>hdmarx\<close> is linked by the generated set-up, so its null check is left out, and
  so is the transmit part of the UART interrupt: the program transmits by polling and never
  enables it. \<^verbatim>\<open>UART_Receive_IT\<close>, which the handler calls when the byte interrupt is enabled,
  is an argument of the handler; it is never called (the interrupt stays disabled).
\<close>

datatype HAL_StatusTypeDef = HAL_OK | HAL_ERROR | HAL_BUSY | HAL_TIMEOUT

datatype HAL_DMA_StateTypeDef =
    HAL_DMA_STATE_RESET | HAL_DMA_STATE_READY | HAL_DMA_STATE_BUSY | HAL_DMA_STATE_TIMEOUT
  | HAL_DMA_STATE_ERROR | HAL_DMA_STATE_ABORT

datatype HAL_UART_StateTypeDef =
    HAL_UART_STATE_RESET | HAL_UART_STATE_READY | HAL_UART_STATE_BUSY | HAL_UART_STATE_BUSY_TX
  | HAL_UART_STATE_BUSY_RX | HAL_UART_STATE_BUSY_TX_RX | HAL_UART_STATE_TIMEOUT | HAL_UART_STATE_ERROR

datatype HAL_UART_RxTypeTypeDef = HAL_UART_RECEPTION_STANDARD | HAL_UART_RECEPTION_TOIDLE

datatype HAL_UART_RxEventTypeTypeDef = HAL_UART_RXEVENT_TC | HAL_UART_RXEVENT_HT | HAL_UART_RXEVENT_IDLE

abbreviation (input) HAL_UART_ERROR_NONE :: u32 where "HAL_UART_ERROR_NONE \<equiv> 0x00"
abbreviation (input) HAL_UART_ERROR_PE :: u32 where "HAL_UART_ERROR_PE \<equiv> 0x01"
abbreviation (input) HAL_UART_ERROR_NE :: u32 where "HAL_UART_ERROR_NE \<equiv> 0x02"
abbreviation (input) HAL_UART_ERROR_FE :: u32 where "HAL_UART_ERROR_FE \<equiv> 0x04"
abbreviation (input) HAL_UART_ERROR_ORE :: u32 where "HAL_UART_ERROR_ORE \<equiv> 0x08"
abbreviation (input) HAL_UART_ERROR_DMA :: u32 where "HAL_UART_ERROR_DMA \<equiv> 0x10"
abbreviation (input) HAL_DMA_ERROR_NONE :: u32 where "HAL_DMA_ERROR_NONE \<equiv> 0x00"
abbreviation (input) HAL_DMA_ERROR_TE :: u32 where "HAL_DMA_ERROR_TE \<equiv> 0x01"
abbreviation (input) HAL_DMA_ERROR_FE :: u32 where "HAL_DMA_ERROR_FE \<equiv> 0x02"
abbreviation (input) HAL_DMA_ERROR_DME :: u32 where "HAL_DMA_ERROR_DME \<equiv> 0x04"
abbreviation (input) HAL_DMA_ERROR_TIMEOUT :: u32 where "HAL_DMA_ERROR_TIMEOUT \<equiv> 0x20"
abbreviation (input) HAL_DMA_ERROR_NO_XFER :: u32 where "HAL_DMA_ERROR_NO_XFER \<equiv> 0x80"

text \<open>The functions the pointers of the DMA handle point to.\<close>

datatype DmaCallback = UART_DMA_RECEIVE_CPLT | UART_DMA_RX_HALF_CPLT | UART_DMA_ERROR | UART_DMA_ABORT_ON_ERROR

text \<open>
  The DMA handle with its control, counter and flag registers. \<open>dma_reload\<close> is the length the
  counter is reloaded with; \<open>dma_stuck\<close> says that the hardware leaves the stream enabled
  after the program clears the enable bit, until the wait for it times out.
\<close>

record DmaHandle =
  dma_State :: HAL_DMA_StateTypeDef
  dma_Locked :: bool
  dma_ErrorCode :: u32
  dma_Init_circular :: bool
  dma_EN :: bool
  dma_stuck :: bool
  dma_CIRC :: bool
  dma_DBM :: bool
  dma_CT :: bool
  dma_TCIE :: bool
  dma_HTIE :: bool
  dma_TEIE :: bool
  dma_DMEIE :: bool
  dma_FEIE :: bool
  dma_NDTR :: nat
  dma_reload :: nat
  dma_TCIF :: bool
  dma_HTIF :: bool
  dma_TEIF :: bool
  dma_DMEIF :: bool
  dma_FEIF :: bool
  XferCpltCallback :: "DmaCallback option"
  XferHalfCpltCallback :: "DmaCallback option"
  XferM1CpltCallback :: "DmaCallback option"
  XferM1HalfCpltCallback :: "DmaCallback option"
  XferErrorCallback :: "DmaCallback option"
  XferAbortCallback :: "DmaCallback option"

text \<open>The UART handle with its control registers, and the status register as the handler reads it.\<close>

record UartHandle =
  gState :: HAL_UART_StateTypeDef
  RxState :: HAL_UART_StateTypeDef
  ReceptionType :: HAL_UART_RxTypeTypeDef
  RxEventType :: HAL_UART_RxEventTypeTypeDef
  RxXferSize :: u16
  RxXferCount :: u16
  TxXferCount :: u16
  ErrorCode :: u32
  Init_parity_none :: bool
  cr1_RXNEIE :: bool
  cr1_PEIE :: bool
  cr1_IDLEIE :: bool
  cr1_TXEIE :: bool
  cr1_TCIE :: bool
  cr3_EIE :: bool
  cr3_DMAR :: bool
  cr3_DMAT :: bool

record UartStatus =
  sr_PE :: bool
  sr_FE :: bool
  sr_NE :: bool
  sr_ORE :: bool
  sr_RXNE :: bool
  sr_IDLE :: bool

text \<open>Everything the receive path works on.\<close>

record UartRx =
  huart :: UartHandle
  hdmarx :: DmaHandle
  rx_port :: UartRxPort
  rx_queue :: UartRxQueue

subsection \<open>Callbacks\<close>

text \<open>The weak callbacks the program leaves undefined.\<close>

definition HAL_UART_ErrorCallback :: "UartRx \<Rightarrow> UartRx" where "HAL_UART_ErrorCallback w = w"
definition HAL_UART_RxCpltCallback :: "UartRx \<Rightarrow> UartRx" where "HAL_UART_RxCpltCallback w = w"
definition HAL_UART_RxHalfCpltCallback :: "UartRx \<Rightarrow> UartRx" where "HAL_UART_RxHalfCpltCallback w = w"

text \<open>The callback of the port, called for \<^verbatim>\<open>huart2\<close>.\<close>

definition rx_event_callback :: "u16 \<Rightarrow> UartRx \<Rightarrow> UartRx" where
  "rx_event_callback rx_size w =
     (let (port, queue) = HAL_UARTEx_RxEventCallback True rx_size (rx_port w) (rx_queue w)
      in w\<lparr>rx_port := port, rx_queue := queue\<rparr>)"

definition UART_EndTxTransfer :: "UartHandle \<Rightarrow> UartHandle" where
  "UART_EndTxTransfer u = u\<lparr>cr1_TXEIE := False, cr1_TCIE := False, gState := HAL_UART_STATE_READY\<rparr>"

definition UART_EndRxTransfer :: "UartHandle \<Rightarrow> UartHandle" where
  "UART_EndRxTransfer u =
     (let u = u\<lparr>cr1_RXNEIE := False, cr1_PEIE := False, cr3_EIE := False\<rparr>;
          u = (if ReceptionType u = HAL_UART_RECEPTION_TOIDLE then u\<lparr>cr1_IDLEIE := False\<rparr> else u)
      in u\<lparr>RxState := HAL_UART_STATE_READY, ReceptionType := HAL_UART_RECEPTION_STANDARD\<rparr>)"

definition UART_DMAReceiveCplt :: "UartRx \<Rightarrow> UartRx" where
  "UART_DMAReceiveCplt w =
     (let u = huart w;
          u = (if \<not> dma_CIRC (hdmarx w) then
                 let u = u\<lparr>RxXferCount := 0, cr1_PEIE := False, cr3_EIE := False, cr3_DMAR := False,
                           RxState := HAL_UART_STATE_READY\<rparr>
                 in if ReceptionType u = HAL_UART_RECEPTION_TOIDLE then u\<lparr>cr1_IDLEIE := False\<rparr> else u
               else u);
          w = w\<lparr>huart := u\<lparr>RxEventType := HAL_UART_RXEVENT_TC\<rparr>\<rparr>
      in if ReceptionType (huart w) = HAL_UART_RECEPTION_TOIDLE
         then rx_event_callback (RxXferSize (huart w)) w
         else HAL_UART_RxCpltCallback w)"

definition UART_DMARxHalfCplt :: "UartRx \<Rightarrow> UartRx" where
  "UART_DMARxHalfCplt w =
     (let w = w\<lparr>huart := (huart w)\<lparr>RxEventType := HAL_UART_RXEVENT_HT\<rparr>\<rparr>
      in if ReceptionType (huart w) = HAL_UART_RECEPTION_TOIDLE
         then rx_event_callback (RxXferSize (huart w) div 2) w
         else HAL_UART_RxHalfCpltCallback w)"

definition UART_DMAError :: "UartRx \<Rightarrow> UartRx" where
  "UART_DMAError w =
     (let u = huart w;
          u = (if gState u = HAL_UART_STATE_BUSY_TX \<and> cr3_DMAT u
               then UART_EndTxTransfer (u\<lparr>TxXferCount := 0\<rparr>) else u);
          u = (if RxState u = HAL_UART_STATE_BUSY_RX \<and> cr3_DMAR u
               then UART_EndRxTransfer (u\<lparr>RxXferCount := 0\<rparr>) else u);
          u = u\<lparr>ErrorCode := ErrorCode u OR HAL_UART_ERROR_DMA\<rparr>
      in HAL_UART_ErrorCallback (w\<lparr>huart := u\<rparr>))"

definition UART_DMAAbortOnError :: "UartRx \<Rightarrow> UartRx" where
  "UART_DMAAbortOnError w = HAL_UART_ErrorCallback (w\<lparr>huart := (huart w)\<lparr>RxXferCount := 0\<rparr>\<rparr>)"

text \<open>A call through a pointer of the DMA handle, if it is not null.\<close>

fun dma_call :: "DmaCallback option \<Rightarrow> UartRx \<Rightarrow> UartRx" where
  "dma_call None w = w"
| "dma_call (Some UART_DMA_RECEIVE_CPLT) w = UART_DMAReceiveCplt w"
| "dma_call (Some UART_DMA_RX_HALF_CPLT) w = UART_DMARxHalfCplt w"
| "dma_call (Some UART_DMA_ERROR) w = UART_DMAError w"
| "dma_call (Some UART_DMA_ABORT_ON_ERROR) w = UART_DMAAbortOnError w"

subsection \<open>The DMA stream\<close>

text \<open>\<^verbatim>\<open>__HAL_DMA_DISABLE\<close>.\<close>

definition dma_disable :: "DmaHandle \<Rightarrow> DmaHandle" where
  "dma_disable h = h\<lparr>dma_EN := dma_EN h \<and> dma_stuck h\<rparr>"

text \<open>The two addresses, always the data register and the ring of the port, are left out.\<close>

definition DMA_SetConfig :: "nat \<Rightarrow> DmaHandle \<Rightarrow> DmaHandle" where
  "DMA_SetConfig len h = h\<lparr>dma_DBM := False, dma_NDTR := len, dma_reload := len\<rparr>"

definition HAL_DMA_Start_IT :: "nat \<Rightarrow> DmaHandle \<Rightarrow> HAL_StatusTypeDef \<times> DmaHandle" where
  "HAL_DMA_Start_IT len h =
     (if dma_Locked h then (HAL_BUSY, h)
      else
        let h = h\<lparr>dma_Locked := True\<rparr>
        in if dma_State h = HAL_DMA_STATE_READY then
             let h = h\<lparr>dma_State := HAL_DMA_STATE_BUSY, dma_ErrorCode := HAL_DMA_ERROR_NONE\<rparr>;
                 h = DMA_SetConfig len h;
                 h = h\<lparr>dma_TCIF := False, dma_HTIF := False, dma_TEIF := False, dma_DMEIF := False, dma_FEIF := False\<rparr>;
                 h = h\<lparr>dma_TCIE := True, dma_TEIE := True, dma_DMEIE := True\<rparr>;
                 h = (if XferHalfCpltCallback h \<noteq> None then h\<lparr>dma_HTIE := True\<rparr> else h)
             in (HAL_OK, h\<lparr>dma_EN := True\<rparr>)
           else (HAL_BUSY, h\<lparr>dma_Locked := False\<rparr>))"

definition HAL_DMA_Abort_IT :: "DmaHandle \<Rightarrow> HAL_StatusTypeDef \<times> DmaHandle" where
  "HAL_DMA_Abort_IT h =
     (if dma_State h \<noteq> HAL_DMA_STATE_BUSY then (HAL_ERROR, h\<lparr>dma_ErrorCode := HAL_DMA_ERROR_NO_XFER\<rparr>)
      else (HAL_OK, dma_disable (h\<lparr>dma_State := HAL_DMA_STATE_ABORT\<rparr>)))"

text \<open>The blocking abort waits until the stream is disabled or 5 ms have passed.\<close>

definition HAL_DMA_Abort :: "DmaHandle \<Rightarrow> HAL_StatusTypeDef \<times> DmaHandle" where
  "HAL_DMA_Abort h =
     (if dma_State h \<noteq> HAL_DMA_STATE_BUSY
      then (HAL_ERROR, h\<lparr>dma_ErrorCode := HAL_DMA_ERROR_NO_XFER, dma_Locked := False\<rparr>)
      else
        let h = h\<lparr>dma_TCIE := False, dma_TEIE := False, dma_DMEIE := False, dma_FEIE := False\<rparr>;
            h = (if XferHalfCpltCallback h \<noteq> None \<or> XferM1HalfCpltCallback h \<noteq> None
                 then h\<lparr>dma_HTIE := False\<rparr> else h);
            h = dma_disable h
        in if dma_EN h
           then (HAL_TIMEOUT, h\<lparr>dma_ErrorCode := HAL_DMA_ERROR_TIMEOUT, dma_State := HAL_DMA_STATE_TIMEOUT, dma_Locked := False\<rparr>)
           else
             let h = h\<lparr>dma_TCIF := False, dma_HTIF := False, dma_TEIF := False, dma_DMEIF := False, dma_FEIF := False\<rparr>
             in (HAL_OK, h\<lparr>dma_State := HAL_DMA_STATE_READY, dma_Locked := False\<rparr>))"

text \<open>
  The sections of the interrupt handler. Each of the first three records its error; the flags
  are those read on entry.
\<close>

definition dma_irq_errors :: "DmaHandle \<Rightarrow> DmaHandle" where
  "dma_irq_errors h =
     (let isr = h;
          h = (if dma_TEIF isr \<and> dma_TEIE h
               then h\<lparr>dma_TEIE := False, dma_TEIF := False, dma_ErrorCode := dma_ErrorCode h OR HAL_DMA_ERROR_TE\<rparr> else h);
          h = (if dma_FEIF isr \<and> dma_FEIE h
               then h\<lparr>dma_FEIF := False, dma_ErrorCode := dma_ErrorCode h OR HAL_DMA_ERROR_FE\<rparr> else h)
      in if dma_DMEIF isr \<and> dma_DMEIE h
         then h\<lparr>dma_DMEIF := False, dma_ErrorCode := dma_ErrorCode h OR HAL_DMA_ERROR_DME\<rparr> else h)"

definition dma_irq_half :: "DmaHandle \<Rightarrow> UartRx \<Rightarrow> UartRx" where
  "dma_irq_half isr w =
     (if dma_HTIF isr \<and> dma_HTIE (hdmarx w) then
        let w = w\<lparr>hdmarx := (hdmarx w)\<lparr>dma_HTIF := False\<rparr>\<rparr>
        in if dma_DBM (hdmarx w) then
             (if \<not> dma_CT (hdmarx w) then dma_call (XferHalfCpltCallback (hdmarx w)) w
              else dma_call (XferM1HalfCpltCallback (hdmarx w)) w)
           else
             let w = (if \<not> dma_CIRC (hdmarx w) then w\<lparr>hdmarx := (hdmarx w)\<lparr>dma_HTIE := False\<rparr>\<rparr> else w)
             in dma_call (XferHalfCpltCallback (hdmarx w)) w
      else w)"

text \<open>The full transfer section; the first component says that the handler returns here.\<close>

definition dma_irq_complete :: "DmaHandle \<Rightarrow> UartRx \<Rightarrow> bool \<times> UartRx" where
  "dma_irq_complete isr w =
     (if dma_TCIF isr \<and> dma_TCIE (hdmarx w) then
        let w = w\<lparr>hdmarx := (hdmarx w)\<lparr>dma_TCIF := False\<rparr>\<rparr>
        in if dma_State (hdmarx w) = HAL_DMA_STATE_ABORT then
             let h = hdmarx w;
                 h = h\<lparr>dma_TCIE := False, dma_TEIE := False, dma_DMEIE := False, dma_FEIE := False\<rparr>;
                 h = (if XferHalfCpltCallback h \<noteq> None \<or> XferM1HalfCpltCallback h \<noteq> None
                      then h\<lparr>dma_HTIE := False\<rparr> else h);
                 h = h\<lparr>dma_TCIF := False, dma_HTIF := False, dma_TEIF := False, dma_DMEIF := False, dma_FEIF := False\<rparr>;
                 h = h\<lparr>dma_State := HAL_DMA_STATE_READY, dma_Locked := False\<rparr>
             in (True, dma_call (XferAbortCallback h) (w\<lparr>hdmarx := h\<rparr>))
           else if dma_DBM (hdmarx w) then
             (False, if \<not> dma_CT (hdmarx w) then dma_call (XferM1CpltCallback (hdmarx w)) w
                     else dma_call (XferCpltCallback (hdmarx w)) w)
           else
             let w = (if \<not> dma_CIRC (hdmarx w)
                      then w\<lparr>hdmarx := (hdmarx w)\<lparr>dma_TCIE := False, dma_State := HAL_DMA_STATE_READY, dma_Locked := False\<rparr>\<rparr>
                      else w)
             in (False, dma_call (XferCpltCallback (hdmarx w)) w)
      else (False, w))"

text \<open>The end of the handler; its wait for the stream to be disabled is bounded and has no other effect.\<close>

definition dma_irq_report :: "UartRx \<Rightarrow> UartRx" where
  "dma_irq_report w =
     (if dma_ErrorCode (hdmarx w) \<noteq> HAL_DMA_ERROR_NONE then
        let w = (if dma_ErrorCode (hdmarx w) AND HAL_DMA_ERROR_TE \<noteq> 0
                 then w\<lparr>hdmarx := (dma_disable (hdmarx w))\<lparr>dma_State := HAL_DMA_STATE_READY, dma_Locked := False\<rparr>\<rparr>
                 else w)
        in dma_call (XferErrorCallback (hdmarx w)) w
      else w)"

definition HAL_DMA_IRQHandler :: "UartRx \<Rightarrow> UartRx" where
  "HAL_DMA_IRQHandler w =
     (let isr = hdmarx w;
          w = w\<lparr>hdmarx := dma_irq_errors (hdmarx w)\<rparr>;
          w = dma_irq_half isr w;
          (returned, w) = dma_irq_complete isr w
      in if returned then w else dma_irq_report w)"

subsection \<open>The start of the reception\<close>

definition UART_Start_Receive_DMA :: "u16 \<Rightarrow> UartRx \<Rightarrow> HAL_StatusTypeDef \<times> UartRx" where
  "UART_Start_Receive_DMA len w =
     (let u = (huart w)\<lparr>RxXferSize := len, ErrorCode := HAL_UART_ERROR_NONE, RxState := HAL_UART_STATE_BUSY_RX\<rparr>;
          h = (hdmarx w)\<lparr>XferCpltCallback := Some UART_DMA_RECEIVE_CPLT,
                XferHalfCpltCallback := Some UART_DMA_RX_HALF_CPLT, XferErrorCallback := Some UART_DMA_ERROR,
                XferAbortCallback := None\<rparr>;
          (status, h) = HAL_DMA_Start_IT (unat len) h
      in if status \<noteq> HAL_OK
         then (HAL_ERROR, w\<lparr>huart := u\<lparr>ErrorCode := HAL_UART_ERROR_DMA, RxState := HAL_UART_STATE_READY\<rparr>, hdmarx := h\<rparr>)
         else
           let u = (if \<not> Init_parity_none u then u\<lparr>cr1_PEIE := True\<rparr> else u);
               u = u\<lparr>cr3_EIE := True, cr3_DMAR := True\<rparr>
           in (HAL_OK, w\<lparr>huart := u, hdmarx := h\<rparr>))"

definition HAL_UARTEx_ReceiveToIdle_DMA :: "bool \<Rightarrow> u16 \<Rightarrow> UartRx \<Rightarrow> HAL_StatusTypeDef \<times> UartRx" where
  "HAL_UARTEx_ReceiveToIdle_DMA data_given len w =
     (if RxState (huart w) = HAL_UART_STATE_READY then
        if \<not> data_given \<or> len = 0 then (HAL_ERROR, w)
        else
          let w = w\<lparr>huart := (huart w)\<lparr>ReceptionType := HAL_UART_RECEPTION_TOIDLE, RxEventType := HAL_UART_RXEVENT_TC\<rparr>\<rparr>;
              (status, w) = UART_Start_Receive_DMA len w
          in if ReceptionType (huart w) = HAL_UART_RECEPTION_TOIDLE
             then (status, w\<lparr>huart := (huart w)\<lparr>cr1_IDLEIE := True\<rparr>\<rparr>)
             else (HAL_ERROR, w)
      else (HAL_BUSY, w))"

subsection \<open>The UART interrupt\<close>

definition uart_irq_error_code :: "UartStatus \<Rightarrow> UartHandle \<Rightarrow> u32" where
  "uart_irq_error_code sr u =
     (let code = ErrorCode u;
          code = (if sr_PE sr \<and> cr1_PEIE u then code OR HAL_UART_ERROR_PE else code);
          code = (if sr_NE sr \<and> cr3_EIE u then code OR HAL_UART_ERROR_NE else code);
          code = (if sr_FE sr \<and> cr3_EIE u then code OR HAL_UART_ERROR_FE else code)
      in if sr_ORE sr \<and> (cr1_RXNEIE u \<or> cr3_EIE u) then code OR HAL_UART_ERROR_ORE else code)"

text \<open>A blocking error ends the reception and aborts the DMA stream.\<close>

definition uart_irq_abort :: "UartRx \<Rightarrow> UartRx" where
  "uart_irq_abort w =
     (let w = w\<lparr>huart := UART_EndRxTransfer (huart w)\<rparr>
      in if cr3_DMAR (huart w) then
           let w = w\<lparr>huart := (huart w)\<lparr>cr3_DMAR := False\<rparr>,
                     hdmarx := (hdmarx w)\<lparr>XferAbortCallback := Some UART_DMA_ABORT_ON_ERROR\<rparr>\<rparr>;
               (status, h) = HAL_DMA_Abort_IT (hdmarx w);
               w = w\<lparr>hdmarx := h\<rparr>
           in if status \<noteq> HAL_OK then dma_call (XferAbortCallback (hdmarx w)) w else w
         else HAL_UART_ErrorCallback w)"

definition uart_irq_error :: "(UartRx \<Rightarrow> UartRx) \<Rightarrow> UartStatus \<Rightarrow> UartRx \<Rightarrow> UartRx" where
  "uart_irq_error receive_it sr w =
     (let cr1_rxneie = cr1_RXNEIE (huart w);
          w = w\<lparr>huart := (huart w)\<lparr>ErrorCode := uart_irq_error_code sr (huart w)\<rparr>\<rparr>
      in if ErrorCode (huart w) \<noteq> HAL_UART_ERROR_NONE then
           let w = (if sr_RXNE sr \<and> cr1_rxneie then receive_it w else w)
           in if ErrorCode (huart w) AND HAL_UART_ERROR_ORE \<noteq> 0 \<or> cr3_DMAR (huart w)
              then uart_irq_abort w
              else
                let w = HAL_UART_ErrorCallback w
                in w\<lparr>huart := (huart w)\<lparr>ErrorCode := HAL_UART_ERROR_NONE\<rparr>\<rparr>
         else w)"

text \<open>The line became idle during a DMA reception.\<close>

definition uart_irq_idle_dma :: "UartRx \<Rightarrow> UartRx" where
  "uart_irq_idle_dma w =
     (let nb_remaining_rx_data = of_nat (dma_NDTR (hdmarx w)) :: u16
      in if 0 < nb_remaining_rx_data \<and> nb_remaining_rx_data < RxXferSize (huart w) then
           let w = w\<lparr>huart := (huart w)\<lparr>RxXferCount := nb_remaining_rx_data\<rparr>\<rparr>;
               w = (if \<not> dma_Init_circular (hdmarx w) then
                      w\<lparr>huart := (huart w)\<lparr>cr1_PEIE := False, cr3_EIE := False, cr3_DMAR := False,
                          RxState := HAL_UART_STATE_READY, ReceptionType := HAL_UART_RECEPTION_STANDARD,
                          cr1_IDLEIE := False\<rparr>,
                        hdmarx := snd (HAL_DMA_Abort (hdmarx w))\<rparr>
                    else w);
               w = w\<lparr>huart := (huart w)\<lparr>RxEventType := HAL_UART_RXEVENT_IDLE\<rparr>\<rparr>
           in rx_event_callback (RxXferSize (huart w) - RxXferCount (huart w)) w
         else if nb_remaining_rx_data = RxXferSize (huart w) \<and> dma_Init_circular (hdmarx w) then
           let w = w\<lparr>huart := (huart w)\<lparr>RxEventType := HAL_UART_RXEVENT_IDLE\<rparr>\<rparr>
           in rx_event_callback (RxXferSize (huart w)) w
         else w)"

text \<open>The line became idle during a reception by interrupts.\<close>

definition uart_irq_idle_it :: "UartRx \<Rightarrow> UartRx" where
  "uart_irq_idle_it w =
     (let nb_rx_data = RxXferSize (huart w) - RxXferCount (huart w)
      in if 0 < RxXferCount (huart w) \<and> 0 < nb_rx_data then
           let w = w\<lparr>huart := (huart w)\<lparr>cr1_RXNEIE := False, cr1_PEIE := False, cr3_EIE := False,
                       RxState := HAL_UART_STATE_READY, ReceptionType := HAL_UART_RECEPTION_STANDARD,
                       cr1_IDLEIE := False, RxEventType := HAL_UART_RXEVENT_IDLE\<rparr>\<rparr>
           in rx_event_callback nb_rx_data w
         else w)"

definition HAL_UART_IRQHandler :: "(UartRx \<Rightarrow> UartRx) \<Rightarrow> UartStatus \<Rightarrow> UartRx \<Rightarrow> UartRx" where
  "HAL_UART_IRQHandler receive_it sr w =
     (let errorflags = (sr_PE sr \<or> sr_FE sr \<or> sr_ORE sr \<or> sr_NE sr)
      in if \<not> errorflags \<and> sr_RXNE sr \<and> cr1_RXNEIE (huart w) then receive_it w
         else if errorflags \<and> (cr3_EIE (huart w) \<or> cr1_RXNEIE (huart w) \<or> cr1_PEIE (huart w))
         then uart_irq_error receive_it sr w
         else if ReceptionType (huart w) = HAL_UART_RECEPTION_TOIDLE \<and> sr_IDLE sr \<and> cr1_IDLEIE (huart w)
         then (if cr3_DMAR (huart w) then uart_irq_idle_dma w else uart_irq_idle_it w)
         else w)"

end
