(* ===== verification/Hal_Uart_Line.thy ===== *)
theory Hal_Uart_Line
  imports Hal_Uart
begin

section \<open>From the serial line to the receive queue\<close>

text \<open>
  The receive path with its environment: the bytes and errors of the serial line, the DMA
  controller, the two interrupts and the main program, as steps of one system in any order.
  The theory shows that the reception runs with no byte lost, repeated or reordered until a
  line error aborts it, and that it never resumes after one.
\<close>

subsection \<open>The line\<close>

text \<open>
  The serial line and the DMA controller, as the reference manual of the chip describes the
  circular mode: an enabled stream writes each byte at the position its counter gives, raises
  the half and full transfer flags when the counter passes half and zero, and reloads the
  counter. Four fields only record the history: \<open>ln_bytes\<close> the bytes transferred, \<open>ln_taken\<close>
  how many of them the interrupts have reported to the port, \<open>ln_reset\<close> how many they had
  when the main program last reset the queue, and \<open>ln_delivered\<close> those the main program has
  popped since.
\<close>

record RxLine =
  ln_rx :: UartRx
  ln_bytes :: "u8 list"
  ln_taken :: nat
  ln_reset :: nat
  ln_delivered :: "u8 list"

definition line_byte :: "u8 \<Rightarrow> RxLine \<Rightarrow> RxLine" where
  "line_byte b l =
     (let w = ln_rx l; h = hdmarx w
      in if dma_EN h \<and> cr3_DMAR (huart w) then
           let buf = (dma_buffer (rx_port w))[dma_reload h - dma_NDTR h := b];
               n = dma_NDTR h - 1;
               h = (if n = dma_reload h div 2 then h\<lparr>dma_HTIF := True\<rparr> else h);
               h = (if n = 0 then (if dma_CIRC h then h\<lparr>dma_TCIF := True, dma_NDTR := dma_reload h\<rparr>
                                   else h\<lparr>dma_TCIF := True, dma_NDTR := 0, dma_EN := False\<rparr>)
                    else h\<lparr>dma_NDTR := n\<rparr>)
           in l\<lparr>ln_rx := w\<lparr>hdmarx := h, rx_port := (rx_port w)\<lparr>dma_buffer := buf\<rparr>\<rparr>, ln_bytes := ln_bytes l @ [b]\<rparr>
         else l)"

lemma line_byte_history [simp]:
  "ln_reset (line_byte b l) = ln_reset l" "ln_delivered (line_byte b l) = ln_delivered l"
  by (simp_all add: line_byte_def Let_def)

abbreviation dma_pending :: "RxLine \<Rightarrow> bool" where
  "dma_pending l \<equiv> dma_HTIF (hdmarx (ln_rx l)) \<or> dma_TCIF (hdmarx (ln_rx l))"

abbreviation receiving :: "RxLine \<Rightarrow> bool" where
  "receiving l \<equiv> ReceptionType (huart (ln_rx l)) = HAL_UART_RECEPTION_TOIDLE"

text \<open>The last half of the ring that is complete after \<open>n\<close> bytes.\<close>

definition half_done :: "nat \<Rightarrow> nat" where "half_done n = n - n mod 64"

definition dma_interrupt :: "RxLine \<Rightarrow> RxLine" where
  "dma_interrupt l = l\<lparr>ln_rx := HAL_DMA_IRQHandler (ln_rx l),
     ln_taken := (if receiving l \<and> dma_pending l then half_done (length (ln_bytes l)) else ln_taken l)\<rparr>"

definition idle_status :: UartStatus where
  "idle_status = \<lparr>sr_PE = False, sr_FE = False, sr_NE = False, sr_ORE = False, sr_RXNE = False, sr_IDLE = True\<rparr>"

definition idle_interrupt :: "(UartRx \<Rightarrow> UartRx) \<Rightarrow> RxLine \<Rightarrow> RxLine" where
  "idle_interrupt receive_it l = l\<lparr>ln_rx := HAL_UART_IRQHandler receive_it idle_status (ln_rx l),
     ln_taken := (if receiving l then length (ln_bytes l) else ln_taken l)\<rparr>"

definition error_interrupt :: "(UartRx \<Rightarrow> UartRx) \<Rightarrow> UartStatus \<Rightarrow> RxLine \<Rightarrow> RxLine" where
  "error_interrupt receive_it sr l = l\<lparr>ln_rx := HAL_UART_IRQHandler receive_it sr (ln_rx l)\<rparr>"

text \<open>
  The steps. A transfer flag is served before the next one is due (64 bytes later, more than
  5 ms at the configured rate) and before an idle event, whose interrupt has the same
  priority and the higher number. An idle event follows a received byte. A stream that was
  disabled raises its full transfer flag. The main program pops and resets; it starts the
  reception once, before the first step.
\<close>

inductive rx_step :: "(UartRx \<Rightarrow> UartRx) \<Rightarrow> RxLine \<Rightarrow> RxLine \<Rightarrow> bool" for receive_it :: "UartRx \<Rightarrow> UartRx" where
  byte: "(Suc (length (ln_bytes l)) mod 64 = 0 \<longrightarrow> \<not> dma_pending l) \<Longrightarrow> rx_step receive_it l (line_byte b l)"
| transfer: "dma_pending l \<Longrightarrow> rx_step receive_it l (dma_interrupt l)"
| idle: "\<not> dma_pending l \<Longrightarrow> ln_bytes l \<noteq> [] \<Longrightarrow> rx_step receive_it l (idle_interrupt receive_it l)"
| line_error: "sr_FE sr \<or> sr_NE sr \<or> sr_ORE sr \<Longrightarrow> rx_step receive_it l (error_interrupt receive_it sr l)"
| aborted: "\<not> dma_EN (hdmarx (ln_rx l)) \<Longrightarrow>
    rx_step receive_it l (l\<lparr>ln_rx := (ln_rx l)\<lparr>hdmarx := (hdmarx (ln_rx l))\<lparr>dma_TCIF := True\<rparr>\<rparr>\<rparr>)"
| main_pop: "queue_pop (rx_queue (ln_rx l)) = (Some b, q) \<Longrightarrow>
    rx_step receive_it l (l\<lparr>ln_rx := (ln_rx l)\<lparr>rx_queue := q\<rparr>, ln_delivered := ln_delivered l @ [b]\<rparr>)"
| main_reset: "rx_step receive_it l (l\<lparr>ln_rx := (ln_rx l)\<lparr>rx_queue := queue_reset (rx_queue (ln_rx l))\<rparr>,
    ln_delivered := [], ln_reset := ln_taken l\<rparr>)"

text \<open>
  The board as the generated set-up leaves it, with a DMA stream that can be disabled. The
  port then binds its queue and starts the reception, and the reception is granted.
\<close>

definition rx_configured :: "UartRx \<Rightarrow> bool" where
  "rx_configured w \<longleftrightarrow>
     RxState (huart w) = HAL_UART_STATE_READY \<and> Init_parity_none (huart w) \<and>
     \<not> cr1_RXNEIE (huart w) \<and> \<not> cr1_PEIE (huart w) \<and>
     dma_State (hdmarx w) = HAL_DMA_STATE_READY \<and> \<not> dma_Locked (hdmarx w) \<and>
     dma_Init_circular (hdmarx w) \<and> dma_CIRC (hdmarx w) \<and> \<not> dma_stuck (hdmarx w) \<and>
     length (dma_buffer (rx_port w)) = UART_RX_DMA_BUFFER_SIZE"

definition rx_line_started :: "RxLine \<Rightarrow> bool" where
  "rx_line_started l \<longleftrightarrow>
     (\<exists>w port queue. rx_configured w \<and>
        uart_rx_port_init (Some (rx_queue w)) (rx_port w) = (True, port, Some queue) \<and>
        HAL_UARTEx_ReceiveToIdle_DMA True (of_nat UART_RX_DMA_BUFFER_SIZE)
          (w\<lparr>rx_port := port, rx_queue := queue\<rparr>) = (HAL_OK, ln_rx l)) \<and>
     ln_bytes l = [] \<and> ln_taken l = 0 \<and> ln_reset l = 0 \<and> ln_delivered l = []"

subsection \<open>The invariant\<close>

text \<open>The reception runs.\<close>

definition stream_running :: "nat \<Rightarrow> DmaHandle \<Rightarrow> bool" where
  "stream_running n h \<longleftrightarrow>
     dma_EN h \<and> \<not> dma_stuck h \<and> dma_CIRC h \<and> dma_Init_circular h \<and> \<not> dma_DBM h \<and> dma_TCIE h \<and> dma_HTIE h \<and>
     \<not> dma_TEIF h \<and> \<not> dma_DMEIF h \<and> \<not> dma_FEIF h \<and> dma_ErrorCode h = 0 \<and> dma_State h = HAL_DMA_STATE_BUSY \<and>
     dma_reload h = 128 \<and> dma_NDTR h = 128 - n mod 128 \<and>
     XferCpltCallback h = Some UART_DMA_RECEIVE_CPLT \<and> XferHalfCpltCallback h = Some UART_DMA_RX_HALF_CPLT"

definition uart_receiving :: "UartHandle \<Rightarrow> bool" where
  "uart_receiving u \<longleftrightarrow>
     ReceptionType u = HAL_UART_RECEPTION_TOIDLE \<and> cr3_DMAR u \<and> cr3_EIE u \<and> cr1_IDLEIE u \<and>
     \<not> cr1_RXNEIE u \<and> \<not> cr1_PEIE u \<and> RxXferSize u = 128"

definition ring_tracks :: "u8 list \<Rightarrow> nat \<Rightarrow> UartRxPort \<Rightarrow> bool" where
  "ring_tracks bs m port \<longleftrightarrow>
     rx_bound port \<and> length (dma_buffer port) = 128 \<and> unat (previous_position port) = position_of m \<and>
     dma_holds ((!) bs) (length bs) (dma_buffer port) \<and> m \<le> length bs"

text \<open>A raised flag stands for the last complete half, of which not everything was reported yet.\<close>

definition flags_track :: "nat \<Rightarrow> nat \<Rightarrow> DmaHandle \<Rightarrow> bool" where
  "flags_track n m h \<longleftrightarrow>
     (if dma_HTIF h \<or> dma_TCIF h
      then m < half_done n \<and> half_done n \<le> m + 64 \<and> dma_HTIF h = (half_done n mod 128 = 64) \<and>
           dma_TCIF h = (half_done n mod 128 = 0)
      else half_done n \<le> m)"

definition rx_running :: "RxLine \<Rightarrow> bool" where
  "rx_running l \<longleftrightarrow>
     uart_receiving (huart (ln_rx l)) \<and> stream_running (length (ln_bytes l)) (hdmarx (ln_rx l)) \<and>
     ring_tracks (ln_bytes l) (ln_taken l) (rx_port (ln_rx l)) \<and>
     flags_track (length (ln_bytes l)) (ln_taken l) (hdmarx (ln_rx l))"

text \<open>The reception was aborted.\<close>

definition rx_dead :: "RxLine \<Rightarrow> bool" where
  "rx_dead l \<longleftrightarrow>
     (let u = huart (ln_rx l); h = hdmarx (ln_rx l)
      in ReceptionType u = HAL_UART_RECEPTION_STANDARD \<and> \<not> cr3_DMAR u \<and> \<not> cr3_EIE u \<and> \<not> cr1_RXNEIE u \<and> \<not> cr1_PEIE u \<and>
         \<not> dma_EN h \<and> \<not> dma_DBM h \<and> dma_CIRC h \<and> \<not> dma_TEIF h \<and> \<not> dma_DMEIF h \<and> \<not> dma_FEIF h \<and> dma_ErrorCode h = 0 \<and>
         XferCpltCallback h = Some UART_DMA_RECEIVE_CPLT \<and> XferHalfCpltCallback h = Some UART_DMA_RX_HALF_CPLT \<and>
         XferAbortCallback h = Some UART_DMA_ABORT_ON_ERROR)"

lemma started_running: "rx_line_started l \<Longrightarrow> rx_running l"
  by (cases l) (auto simp: rx_line_started_def rx_configured_def uart_rx_port_init_def HAL_UARTEx_ReceiveToIdle_DMA_def UART_Start_Receive_DMA_def
      HAL_DMA_Start_IT_def DMA_SetConfig_def rx_running_def uart_receiving_def stream_running_def ring_tracks_def
      flags_track_def half_done_def position_of_def dma_holds_def Let_def split: if_splits)

lemma half_done_bounds: "half_done n \<le> n" "n < half_done n + 64"
  by (simp_all add: half_done_def)

lemma half_done_Suc: "half_done (Suc n) = (if Suc n mod 64 = 0 then Suc n else half_done n)"
proof (cases "Suc n mod 64 = 0")
  case False
  then have "Suc n mod 64 = Suc (n mod 64)" by (simp add: mod_Suc split: if_splits)
  then show ?thesis using False by (simp add: half_done_def)
qed (simp add: half_done_def)

lemma mod_128: "n mod 128 = 64 * (n div 64 mod 2) + n mod (64::nat)"
  using mod_mult2_eq [of n 64 2] by simp

lemma mod_64_iff: "n mod 64 = 0 \<longleftrightarrow> n mod 128 = 0 \<or> n mod 128 = (64::nat)"
proof -
  have "n div 64 mod 2 = 0 \<or> n div 64 mod 2 = 1" by linarith
  moreover have "n mod 64 \<noteq> 64" using mod_less_divisor [of 64 n] by linarith
  ultimately show ?thesis unfolding mod_128 by (elim disjE) simp_all
qed

lemma half_done_mod: "half_done n mod 128 = 0 \<or> half_done n mod 128 = 64"
proof -
  have "half_done n mod 64 = 0" by (simp add: half_done_def minus_mod_eq_mult_div)
  then show ?thesis by (simp add: mod_64_iff)
qed

lemma dma_holds_snoc:
  assumes "dma_holds ((!) bs) (length bs) buf" and "length buf = 128"
  shows "dma_holds ((!) (bs @ [b])) (Suc (length bs)) (buf[length bs mod 128 := b])"
  unfolding dma_holds_def
proof (intro allI impI)
  fix i :: nat
  assume i: "Suc (length bs) \<le> i + 128 \<and> i < Suc (length bs)"
  show "buf[length bs mod 128 := b] ! (i mod 128) = (bs @ [b]) ! i"
  proof (cases "i = length bs")
    case False
    have "i mod 128 \<noteq> length bs mod 128"
    proof
      assume "i mod 128 = length bs mod 128"
      then have "128 dvd length bs - i" using i by (simp add: mod_eq_dvd_iff_nat [symmetric])
      with i False show False by (auto dest!: dvd_imp_le)
    qed
    with False i assms show ?thesis by (simp add: dma_holds_def nth_append)
  qed (use assms(2) in simp)
qed

lemma stream_byte:
  assumes "stream_running n h"
  shows "dma_reload h - dma_NDTR h = n mod 128"
    "dma_NDTR h - 1 = dma_reload h div 2 \<longleftrightarrow> Suc n mod 128 = 64" "dma_NDTR h - 1 = 0 \<longleftrightarrow> Suc n mod 128 = 0"
    "Suc n mod 128 \<noteq> 0 \<Longrightarrow> dma_NDTR h - 1 = 128 - Suc n mod 128"
  using assms by (auto simp: stream_running_def mod_Suc)

lemma byte_running:
  assumes "rx_running l" and "Suc (length (ln_bytes l)) mod 64 = 0 \<longrightarrow> \<not> dma_pending l"
  shows "rx_running (line_byte b l)" "ln_bytes (line_byte b l) = ln_bytes l @ [b]"
    "ln_taken (line_byte b l) = ln_taken l" "rx_queue (ln_rx (line_byte b l)) = rx_queue (ln_rx l)"
proof -
  let ?n = "length (ln_bytes l)" and ?h = "hdmarx (ln_rx l)"
  have run: "stream_running ?n ?h" "dma_EN ?h" "dma_CIRC ?h" "cr3_DMAR (huart (ln_rx l))"
    using assms(1) by (simp_all add: rx_running_def stream_running_def uart_receiving_def)
  note byte = stream_byte [OF run(1)]
  show 1: "ln_bytes (line_byte b l) = ln_bytes l @ [b]" "ln_taken (line_byte b l) = ln_taken l"
    "rx_queue (ln_rx (line_byte b l)) = rx_queue (ln_rx l)"
    using run by (simp_all add: line_byte_def Let_def)
  have 2: "huart (ln_rx (line_byte b l)) = huart (ln_rx l)"
    "hdmarx (ln_rx (line_byte b l)) =
      (if Suc ?n mod 128 = 0 then ?h\<lparr>dma_TCIF := True, dma_NDTR := 128\<rparr>
       else if Suc ?n mod 128 = 64 then ?h\<lparr>dma_HTIF := True, dma_NDTR := 128 - Suc ?n mod 128\<rparr>
       else ?h\<lparr>dma_NDTR := 128 - Suc ?n mod 128\<rparr>)"
    "rx_port (ln_rx (line_byte b l)) =
      (rx_port (ln_rx l))\<lparr>dma_buffer := (dma_buffer (rx_port (ln_rx l)))[?n mod 128 := b]\<rparr>"
    using run byte by (auto simp: line_byte_def Let_def stream_running_def)
  have "stream_running (Suc ?n) (hdmarx (ln_rx (line_byte b l)))"
    using run(1) by (auto simp: 2 stream_running_def)
  moreover have "ring_tracks (ln_bytes l @ [b]) (ln_taken l) (rx_port (ln_rx (line_byte b l)))"
    using assms(1) dma_holds_snoc by (simp add: 2 rx_running_def ring_tracks_def)
  moreover have "flags_track (Suc ?n) (ln_taken l) (hdmarx (ln_rx (line_byte b l)))"
  proof (cases "Suc ?n mod 64 = 0")
    case True
    then have "\<not> dma_pending l" "half_done ?n \<le> ln_taken l" "ln_taken l \<le> ?n" "Suc ?n = half_done ?n + 64"
      using assms half_done_bounds [of ?n]
      by (auto simp: rx_running_def flags_track_def ring_tracks_def half_done_def mod_Suc split: if_splits)
    with True show ?thesis by (auto simp: 2 flags_track_def half_done_Suc mod_64_iff)
  next
    case False
    with assms(1) show ?thesis by (auto simp: 2 flags_track_def rx_running_def half_done_Suc mod_64_iff)
  qed
  ultimately show "rx_running (line_byte b l)" using assms(1) by (simp add: rx_running_def 1 2(1))
qed

text \<open>A report of the first \<open>k\<close> bytes queues those the port has not seen.\<close>

lemma report_bytes:
  assumes "ring_tracks bs m (rx_port w)" and "m \<le> k" and "k \<le> length bs" and "length bs - m < 128"
    and "unat rx_size = position_of k"
  shows "rx_event_callback rx_size w = w\<lparr>rx_port := (rx_port w)\<lparr>previous_position := rx_size\<rparr>,
      rx_queue := snd (push_all queue_push (map ((!) bs) [m..<k]) (rx_queue w))\<rparr>"
    "ring_tracks bs k ((rx_port w)\<lparr>previous_position := rx_size\<rparr>)"
proof -
  have ring: "dma_buffer (rx_port w) ! (i mod 128) = bs ! i" if "m \<le> i" "i < k" for i
    using assms that by (simp add: ring_tracks_def dma_holds_def)
  have "received_range (previous_position (rx_port w)) rx_size (dma_buffer (rx_port w)) = map ((!) bs) [m..<k]"
    using assms by (intro received_range_stream ring) (auto simp: ring_tracks_def)
  moreover have "unat rx_size \<le> 128" "unat (previous_position (rx_port w)) \<le> 128" "rx_bound (rx_port w)"
    using assms position_bound by (simp_all add: ring_tracks_def)
  ultimately show "rx_event_callback rx_size w = w\<lparr>rx_port := (rx_port w)\<lparr>previous_position := rx_size\<rparr>,
      rx_queue := snd (push_all queue_push (map ((!) bs) [m..<k]) (rx_queue w))\<rparr>"
    using callback_pushes [of "rx_port w" rx_size "rx_queue w"] by (simp add: rx_event_callback_def)
  show "ring_tracks bs k ((rx_port w)\<lparr>previous_position := rx_size\<rparr>)"
    using assms by (simp add: ring_tracks_def)
qed

text \<open>The queue after the bytes from \<open>m\<close> to \<open>k\<close> were pushed, and the state the interrupts leave.\<close>

abbreviation bytes_pushed :: "u8 list \<Rightarrow> nat \<Rightarrow> nat \<Rightarrow> UartRxQueue \<Rightarrow> UartRxQueue" where
  "bytes_pushed bs m k q \<equiv> snd (push_all queue_push (map ((!) bs) [m..<k]) q)"

lemma position_multiple:
  "0 < k \<Longrightarrow> k mod 128 = 64 \<Longrightarrow> position_of k = 64" "0 < k \<Longrightarrow> k mod 128 = 0 \<Longrightarrow> position_of k = 128"
  "k mod 128 \<noteq> 0 \<Longrightarrow> position_of k = k mod 128"
  by (cases k; simp add: position_of_def mod_Suc split: if_splits)+

lemmas running_defs = rx_running_def uart_receiving_def stream_running_def flags_track_def

lemma reported_running:
  assumes "rx_running l" and "ln_taken l \<le> k" and "half_done (length (ln_bytes l)) \<le> k" and "k \<le> length (ln_bytes l)"
    and "length (ln_bytes l) - ln_taken l < 128" and "unat p = position_of k"
    and "uart_receiving u" and "stream_running (length (ln_bytes l)) h" and "\<not> dma_HTIF h" and "\<not> dma_TCIF h"
  shows "rx_running (l\<lparr>ln_taken := k, ln_rx := (ln_rx l)\<lparr>huart := u, hdmarx := h,
    rx_port := (rx_port (ln_rx l))\<lparr>previous_position := p\<rparr>,
    rx_queue := bytes_pushed (ln_bytes l) (ln_taken l) k (rx_queue (ln_rx l))\<rparr>\<rparr>)"
  using assms report_bytes(2) [of "ln_bytes l" "ln_taken l" "ln_rx l" k p]
  by (simp add: rx_running_def flags_track_def)

lemma transfer_running:
  assumes "rx_running l" and "dma_pending l"
  shows "rx_running (dma_interrupt l)"
    "ln_taken (dma_interrupt l) = half_done (length (ln_bytes l))" "ln_bytes (dma_interrupt l) = ln_bytes l"
    "rx_queue (ln_rx (dma_interrupt l)) =
       bytes_pushed (ln_bytes l) (ln_taken l) (half_done (length (ln_bytes l))) (rx_queue (ln_rx l))"
proof -
  let ?n = "length (ln_bytes l)" and ?w = "ln_rx l" and ?m = "ln_taken l"
  let ?k = "half_done ?n"
  let ?after = "\<lambda>u h p. l\<lparr>ln_taken := ?k, ln_rx := ?w\<lparr>huart := u, hdmarx := h,
    rx_port := (rx_port ?w)\<lparr>previous_position := p\<rparr>, rx_queue := bytes_pushed (ln_bytes l) ?m ?k (rx_queue ?w)\<rparr>\<rparr>"
  have pos: "?m < ?k" "?k \<le> ?m + 64" "ring_tracks (ln_bytes l) ?m (rx_port ?w)"
    using assms by (auto simp: rx_running_def flags_track_def)
  then have lt: "?m \<le> ?k" "?n - ?m < 128" "0 < ?k" using half_done_bounds [of ?n] by linarith+
  note report = report_bytes(1) [OF _ lt(1) half_done_bounds(1) lt(2)]
  note handler = dma_interrupt_def HAL_DMA_IRQHandler_def dma_irq_errors_def dma_irq_half_def dma_irq_complete_def
    dma_irq_report_def UART_DMARxHalfCplt_def UART_DMAReceiveCplt_def running_defs Let_def
  have "\<exists>u h p. dma_interrupt l = ?after u h p \<and>
      uart_receiving u \<and> stream_running ?n h \<and> \<not> dma_HTIF h \<and> \<not> dma_TCIF h \<and> unat p = position_of ?k"
  proof (cases "?k mod 128 = 64")
    case True
    have "dma_HTIF (hdmarx ?w)" "\<not> dma_TCIF (hdmarx ?w)" using True assms by (auto simp: running_defs)
    then show ?thesis using assms(1) pos report position_multiple(1) [OF lt(3) True]
      by (intro exI [of _ "(huart ?w)\<lparr>RxEventType := HAL_UART_RXEVENT_HT\<rparr>"]
          exI [of _ "(hdmarx ?w)\<lparr>dma_HTIF := False\<rparr>"] exI [of _ 64]) (simp add: handler)
  next
    case False
    then have z: "?k mod 128 = 0" using half_done_mod by blast
    have "\<not> dma_HTIF (hdmarx ?w)" "dma_TCIF (hdmarx ?w)" using z assms by (auto simp: running_defs)
    then show ?thesis using assms(1) pos report position_multiple(2) [OF lt(3) z]
      by (intro exI [of _ "(huart ?w)\<lparr>RxEventType := HAL_UART_RXEVENT_TC\<rparr>"]
          exI [of _ "(hdmarx ?w)\<lparr>dma_TCIF := False\<rparr>"] exI [of _ 128]) (simp add: handler)
  qed
  then obtain u h p where step: "dma_interrupt l = ?after u h p" and
    inv: "unat p = position_of ?k" "uart_receiving u" "stream_running ?n h" "\<not> dma_HTIF h" "\<not> dma_TCIF h" by blast
  show "rx_running (dma_interrupt l)"
    unfolding step by (rule reported_running [OF assms(1) lt(1) order_refl half_done_bounds(1) lt(2) inv])
  show "rx_queue (ln_rx (dma_interrupt l)) = bytes_pushed (ln_bytes l) ?m ?k (rx_queue ?w)" by (simp add: step)
qed (use assms in \<open>simp_all add: dma_interrupt_def running_defs\<close>)

text \<open>The idle branch reports the fill level of the ring.\<close>

lemma idle_reports_fill:
  assumes "RxXferSize (huart w) = 128" and "dma_NDTR (hdmarx w) = 128 - r" and "r < 128" and "dma_Init_circular (hdmarx w)"
  shows "\<exists>c. uart_irq_idle_dma w = rx_event_callback (if r = 0 then 128 else of_nat r)
    (w\<lparr>huart := (huart w)\<lparr>RxXferCount := c, RxEventType := HAL_UART_RXEVENT_IDLE\<rparr>\<rparr>)"
proof (cases "r = 0")
  case True
  then show ?thesis using assms
    by (intro exI [of _ "RxXferCount (huart w)"]) (simp add: uart_irq_idle_dma_def Let_def)
next
  case False
  let ?c = "of_nat (128 - r) :: u16"
  have "unat ?c = 128 - r" by (simp add: unat_of_nat take_bit_nat_eq_self_iff)
  then have "0 < ?c" "?c < 128" using False assms(3) by (simp_all add: word_less_nat_alt)
  moreover have "128 - ?c = of_nat r" using assms(3) by (simp add: of_nat_diff)
  ultimately show ?thesis using assms False
    by (intro exI [of _ ?c]) (simp add: uart_irq_idle_dma_def Let_def)
qed

lemma idle_running:
  assumes "rx_running l" and "\<not> dma_pending l" and "ln_bytes l \<noteq> []"
  shows "rx_running (idle_interrupt receive_it l)"
    "ln_taken (idle_interrupt receive_it l) = length (ln_bytes l)" "ln_bytes (idle_interrupt receive_it l) = ln_bytes l"
    "rx_queue (ln_rx (idle_interrupt receive_it l)) =
       bytes_pushed (ln_bytes l) (ln_taken l) (length (ln_bytes l)) (rx_queue (ln_rx l))"
proof -
  let ?n = "length (ln_bytes l)" and ?w = "ln_rx l" and ?m = "ln_taken l"
  let ?p = "if ?n mod 128 = 0 then 128 else of_nat (?n mod 128) :: u16"
  have pos: "half_done ?n \<le> ?m" "?m \<le> ?n" "ring_tracks (ln_bytes l) ?m (rx_port ?w)"
    using assms by (auto simp: rx_running_def flags_track_def ring_tracks_def)
  then have lt: "?n - ?m < 128" using half_done_bounds [of ?n] by linarith
  have at: "unat ?p = position_of ?n"
    using assms(3) position_multiple by (simp add: take_bit_nat_eq_self_iff unat_of_nat)
  note report = report_bytes(1) [OF _ pos(2) order_refl lt at]
  obtain u where step: "idle_interrupt receive_it l = l\<lparr>ln_taken := ?n, ln_rx := ?w\<lparr>huart := u, hdmarx := hdmarx ?w,
    rx_port := (rx_port ?w)\<lparr>previous_position := ?p\<rparr>, rx_queue := bytes_pushed (ln_bytes l) ?m ?n (rx_queue ?w)\<rparr>\<rparr>"
    and u: "uart_receiving u"
  proof -
    obtain c where "uart_irq_idle_dma ?w =
        rx_event_callback ?p (?w\<lparr>huart := (huart ?w)\<lparr>RxXferCount := c, RxEventType := HAL_UART_RXEVENT_IDLE\<rparr>\<rparr>)"
      using idle_reports_fill [of ?w "?n mod 128"] assms(1) by (auto simp: running_defs)
    with assms(1) pos(3) show thesis
      by (intro that [of "(huart ?w)\<lparr>RxXferCount := c, RxEventType := HAL_UART_RXEVENT_IDLE\<rparr>"])
        (simp_all add: idle_interrupt_def HAL_UART_IRQHandler_def idle_status_def running_defs report)
  qed
  show "rx_running (idle_interrupt receive_it l)"
    unfolding step using assms(1,2)
    by (intro reported_running [OF assms(1) pos(2) half_done_bounds(1) order_refl lt at u]) (simp_all add: rx_running_def)
  show "rx_queue (ln_rx (idle_interrupt receive_it l)) = bytes_pushed (ln_bytes l) ?m ?n (rx_queue ?w)"
    by (simp add: step)
qed (use assms in \<open>simp_all add: idle_interrupt_def running_defs\<close>)

text \<open>What a line error leaves, and that nothing but the main program changes it.\<close>

lemma error_kills:
  assumes "rx_running l" and "sr_FE sr \<or> sr_NE sr \<or> sr_ORE sr"
  shows "rx_dead (error_interrupt receive_it sr l)"
    "rx_queue (ln_rx (error_interrupt receive_it sr l)) = rx_queue (ln_rx l)"
proof -
  have "uart_irq_error_code sr (huart (ln_rx l)) \<noteq> 0"
    using assms by (auto simp: uart_irq_error_code_def or_eq_0_iff running_defs Let_def)
  then show "rx_dead (error_interrupt receive_it sr l)"
    "rx_queue (ln_rx (error_interrupt receive_it sr l)) = rx_queue (ln_rx l)"
    using assms
    by (auto simp: error_interrupt_def HAL_UART_IRQHandler_def uart_irq_error_def uart_irq_abort_def UART_EndRxTransfer_def
        HAL_DMA_Abort_IT_def dma_disable_def rx_dead_def running_defs Let_def)
qed

lemma dead_transfer:
  assumes "rx_dead l"
  shows "rx_dead (dma_interrupt l) \<and> rx_queue (ln_rx (dma_interrupt l)) = rx_queue (ln_rx l) \<and>
    ln_taken (dma_interrupt l) = ln_taken l"
  using assms
  by (auto simp: rx_dead_def Let_def dma_interrupt_def HAL_DMA_IRQHandler_def dma_irq_errors_def dma_irq_half_def
      dma_irq_complete_def dma_irq_report_def UART_DMARxHalfCplt_def UART_DMAReceiveCplt_def UART_DMAAbortOnError_def
      HAL_UART_RxCpltCallback_def HAL_UART_RxHalfCpltCallback_def HAL_UART_ErrorCallback_def)

lemma dead_still:
  assumes "rx_dead l"
  shows "line_byte b l = l" "idle_interrupt receive_it l = l" "error_interrupt receive_it sr l = l"
  using assms by (simp_all add: line_byte_def idle_interrupt_def error_interrupt_def HAL_UART_IRQHandler_def rx_dead_def Let_def)

subsection \<open>The bytes the program reads\<close>

definition rx_in_order :: "RxLine \<Rightarrow> bool" where
  "rx_in_order l \<longleftrightarrow>
     (let q = rx_queue (ln_rx l); reported = drop (ln_reset l) (take (ln_taken l) (ln_bytes l))
      in queue_wf q \<and> ln_reset l \<le> ln_taken l \<and> ln_taken l \<le> length (ln_bytes l) \<and>
         length (ln_bytes l) < ln_taken l + 128 \<and>
         prefix (ln_delivered l @ queue_contents q) reported \<and>
         (\<not> q_overflowed q \<longrightarrow> ln_delivered l @ queue_contents q = reported))"

definition rx_line_inv :: "RxLine \<Rightarrow> bool" where
  "rx_line_inv l \<longleftrightarrow> (rx_running l \<or> rx_dead l) \<and> rx_in_order l"

lemma running_lag:
  assumes "rx_running l"
  shows "ln_taken l \<le> length (ln_bytes l)" "length (ln_bytes l) < ln_taken l + 128"
    "dma_pending l \<Longrightarrow> ln_taken l \<le> half_done (length (ln_bytes l))"
  using assms half_done_bounds [of "length (ln_bytes l)"]
  by (auto simp: rx_running_def ring_tracks_def flags_track_def split: if_splits)

lemma push_all_overflowed: "q_overflowed q \<Longrightarrow> snd (push_all queue_push bs q) = q"
  using push_frame(2) [of q] by (cases bs) simp_all

lemma drop_take_extend:
  assumes "a \<le> m" and "m \<le> k" and "k \<le> length bs"
  shows "drop a (take k bs) = drop a (take m bs) @ map ((!) bs) [m..<k]"
proof -
  have "take k bs = take m bs @ map ((!) bs) [m..<k]"
    using assms by (intro nth_equalityI) (auto simp: nth_append)
  then show ?thesis using assms by simp
qed

text \<open>Reporting the bytes up to \<open>k\<close> keeps the order.\<close>

lemma in_order_report:
  assumes "rx_in_order l" and "ln_taken l \<le> k" and "k \<le> length (ln_bytes l)"
    and "ln_bytes t = ln_bytes l" and "ln_delivered t = ln_delivered l" and "ln_reset t = ln_reset l" and "ln_taken t = k"
    and "rx_queue (ln_rx t) = bytes_pushed (ln_bytes l) (ln_taken l) k (rx_queue (ln_rx l))"
  shows "rx_in_order t"
proof -
  let ?q = "rx_queue (ln_rx l)" and ?bs = "map ((!) (ln_bytes l)) [ln_taken l..<k]" and ?q' = "rx_queue (ln_rx t)"
  let ?old = "drop (ln_reset l) (take (ln_taken l) (ln_bytes l))"
  have inv: "queue_wf ?q" "ln_reset l \<le> ln_taken l" "length (ln_bytes l) < k + 128"
    "prefix (ln_delivered l @ queue_contents ?q) ?old" "\<not> q_overflowed ?q \<longrightarrow> ln_delivered l @ queue_contents ?q = ?old"
    using assms(1,2) by (simp_all add: rx_in_order_def Let_def)
  have upto: "drop (ln_reset l) (take k (ln_bytes l)) = ?old @ ?bs" using inv(2) assms(2,3) by (rule drop_take_extend)
  obtain ok where "push_all queue_push ?bs ?q = (ok, ?q')" using assms(8) by (metis prod.collapse)
  from rx_queue.push_all_spec [OF inv(1) this] obtain n where wf: "queue_wf ?q'" and
    n: "queue_contents ?q' = queue_contents ?q @ take n ?bs" "n \<le> length ?bs"
    "q_overflowed ?q' \<longleftrightarrow> q_overflowed ?q \<or> n < length ?bs" by blast
  have "prefix (ln_delivered l @ queue_contents ?q') (?old @ ?bs) \<and>
    (\<not> q_overflowed ?q' \<longrightarrow> ln_delivered l @ queue_contents ?q' = ?old @ ?bs)"
  proof (cases "q_overflowed ?q")
    case True
    with push_all_overflowed [OF True, of ?bs] inv(4) show ?thesis by (simp only: assms(8)) simp
  next
    case False
    then have "ln_delivered l @ queue_contents ?q' = ?old @ take n ?bs"
      using n(1) inv(5) by (metis append.assoc)
    with n(2,3) show ?thesis by (simp add: take_is_prefix)
  qed
  with wf inv(2,3) assms(2,3) show ?thesis by (simp add: rx_in_order_def Let_def assms(4-7) upto)
qed

text \<open>The operations of the main program keep the order and do not touch the reception.\<close>

lemma in_order_pop:
  assumes "rx_in_order l" and "queue_pop (rx_queue (ln_rx l)) = (Some b, q)"
  shows "rx_in_order (l\<lparr>ln_rx := (ln_rx l)\<lparr>rx_queue := q\<rparr>, ln_delivered := ln_delivered l @ [b]\<rparr>)"
    "queue_contents (rx_queue (ln_rx l)) = b # queue_contents q"
proof -
  let ?q = "rx_queue (ln_rx l)"
  have wf: "queue_wf ?q" using assms(1) by (simp add: rx_in_order_def Let_def)
  have "fst (queue_pop ?q) = Some b" "snd (queue_pop ?q) = q" using assms(2) by simp_all
  then have q: "\<not> q_overflowed ?q" "queue_contents ?q \<noteq> []" "b = hd (queue_contents ?q)" "queue_wf q"
      "queue_contents q = tl (queue_contents ?q)"
    using rx_queue.pop_takes [OF wf] rx_queue.pop_leaves [OF wf] rx_queue.pop_inv [OF wf]
    by (auto split: if_splits)
  then show "queue_contents ?q = b # queue_contents q" by simp
  with q(1,4) assms(1) show "rx_in_order (l\<lparr>ln_rx := (ln_rx l)\<lparr>rx_queue := q\<rparr>, ln_delivered := ln_delivered l @ [b]\<rparr>)"
    by (simp add: rx_in_order_def Let_def)
qed

lemma in_order_reset:
  assumes "rx_in_order l"
  shows "rx_in_order (l\<lparr>ln_rx := (ln_rx l)\<lparr>rx_queue := queue_reset (rx_queue (ln_rx l))\<rparr>,
    ln_delivered := [], ln_reset := ln_taken l\<rparr>)"
  using assms by (simp add: rx_in_order_def Let_def reset_contents)

lemma inv_running_step:
  assumes "rx_running l" and "rx_in_order l" and "rx_step receive_it l t"
  shows "rx_line_inv t"
  using assms(3)
proof (cases rule: rx_step.cases)
  case (byte b)
  note run = byte_running [OF assms(1) byte(2), of b]
  have "rx_in_order t"
    using assms(2) run running_lag [OF run(1)] by (simp add: byte(1) rx_in_order_def Let_def)
  with run(1) byte(1) show ?thesis by (simp add: rx_line_inv_def)
next
  case transfer
  note run = transfer_running [OF assms(1) transfer(2)]
  have "rx_in_order t"
    unfolding transfer(1) using run(2-) running_lag(3) [OF assms(1) transfer(2)]
    by (intro in_order_report [OF assms(2) _ half_done_bounds(1)]) (auto simp: dma_interrupt_def)
  with run(1) transfer(1) show ?thesis by (simp add: rx_line_inv_def)
next
  case idle
  note run = idle_running [OF assms(1) idle(2,3)]
  have "rx_in_order t"
    unfolding idle(1) using run(2-) running_lag(1) [OF assms(1)]
    by (intro in_order_report [OF assms(2) _ order_refl]) (auto simp: idle_interrupt_def)
  with run(1) idle(1) show ?thesis by (simp add: rx_line_inv_def)
next
  case (line_error sr)
  with error_kills [OF assms(1) line_error(2)] assms(2) show ?thesis
    by (simp add: rx_line_inv_def rx_in_order_def Let_def) (simp add: error_interrupt_def)
next
  case aborted
  with assms(1) show ?thesis by (simp add: running_defs)
next
  case (main_pop b q)
  with assms(1) in_order_pop(1) [OF assms(2) main_pop(2)] show ?thesis by (simp add: rx_line_inv_def rx_running_def)
next
  case main_reset
  with assms(1) in_order_reset [OF assms(2)] show ?thesis by (simp add: rx_line_inv_def rx_running_def)
qed

lemma dead_step:
  assumes "rx_dead l" and "rx_in_order l" and "rx_step receive_it l t"
  shows "rx_dead t \<and> rx_in_order t \<and> ln_bytes t = ln_bytes l \<and> ln_taken t = ln_taken l \<and>
    suffix (queue_contents (rx_queue (ln_rx t))) (queue_contents (rx_queue (ln_rx l)))"
  using assms(3)
proof (cases rule: rx_step.cases)
  case transfer
  with dead_transfer [OF assms(1)] assms(2) show ?thesis
    by (simp add: rx_in_order_def Let_def) (simp add: dma_interrupt_def)
next
  case aborted
  with assms(1,2) show ?thesis by (simp add: rx_dead_def rx_in_order_def Let_def)
next
  case (main_pop b q)
  with assms(1) in_order_pop [OF assms(2) main_pop(2)] show ?thesis by (simp add: rx_dead_def Let_def suffix_Cons)
next
  case main_reset
  with assms(1) in_order_reset [OF assms(2)] show ?thesis by (simp add: rx_dead_def Let_def reset_contents)
qed (use assms(1,2) dead_still in simp_all)

interpretation rx_line: inductive_invariant rx_line_started "rx_step receive_it" rx_line_inv
  for receive_it :: "UartRx \<Rightarrow> UartRx"
proof
  show "rx_line_inv l" if "rx_line_started l" for l
  proof -
    have "rx_queue (ln_rx l) = zero_queue"
      using that by (cases l) (auto simp: rx_line_started_def uart_rx_port_init_def uart_rx_queue_init_def
          HAL_UARTEx_ReceiveToIdle_DMA_def UART_Start_Receive_DMA_def Let_def split: if_splits prod.splits)
    then show ?thesis using that started_running [OF that]
      by (auto simp: rx_line_inv_def rx_in_order_def rx_line_started_def contents_empty queue_wf_def zero_queue_def queue_used_def)
  qed
  show "rx_line_inv t" if "rx_line_inv l" "rx_step receive_it l t" for l t
    using that inv_running_step dead_step unfolding rx_line_inv_def by blast
qed

lemma idle_delivers_all:
  assumes "rx_running l" and "rx_in_order l" and "\<not> dma_pending l" and "ln_bytes l \<noteq> []"
    and "\<not> q_overflowed (rx_queue (ln_rx l))"
    and "length (queue_contents (rx_queue (ln_rx l))) + (length (ln_bytes l) - ln_taken l) \<le> UART_RX_QUEUE_CAPACITY"
  shows "ln_delivered l @ queue_contents (rx_queue (ln_rx (idle_interrupt receive_it l))) = drop (ln_reset l) (ln_bytes l) \<and>
    \<not> q_overflowed (rx_queue (ln_rx (idle_interrupt receive_it l)))"
proof -
  let ?q = "rx_queue (ln_rx l)" and ?bs = "map ((!) (ln_bytes l)) [ln_taken l..<length (ln_bytes l)]"
  have wf: "queue_wf ?q" and lt: "ln_reset l \<le> ln_taken l" "ln_taken l \<le> length (ln_bytes l)"
    and q: "ln_delivered l @ queue_contents ?q = drop (ln_reset l) (take (ln_taken l) (ln_bytes l))"
    using assms(2,5) by (simp_all add: rx_in_order_def Let_def)
  obtain q' where run: "push_all queue_push ?bs ?q = (True, q')"
    using rx_queue.push_all_room [OF wf assms(5), of ?bs] assms(6) by (cases "push_all queue_push ?bs ?q") simp
  have "queue_contents q' = queue_contents ?q @ ?bs" "\<not> q_overflowed q'"
    using rx_queue.push_all_spec [OF wf run] assms(5) by auto
  moreover have "rx_queue (ln_rx (idle_interrupt receive_it l)) = q'"
    using idle_running(4) [OF assms(1,3,4), of receive_it] run by simp
  moreover have "drop (ln_reset l) (ln_bytes l) = drop (ln_reset l) (take (ln_taken l) (ln_bytes l)) @ ?bs"
    using drop_take_extend [OF lt order_refl] by simp
  ultimately show ?thesis using q by (metis append.assoc)
qed

text \<open>A board on which the reception was started.\<close>

definition sample_rx_board :: UartRx where
  "sample_rx_board =
     (let port = \<lparr>rx_bound = True, dma_buffer = replicate 128 0, previous_position = 0, rx_is_USART2 = True,
                  rx_dma_start_ok = True\<rparr>;
          uart = \<lparr>gState = HAL_UART_STATE_READY, RxState = HAL_UART_STATE_READY,
                  ReceptionType = HAL_UART_RECEPTION_STANDARD, RxEventType = HAL_UART_RXEVENT_TC,
                  RxXferSize = 0, RxXferCount = 0, TxXferCount = 0, ErrorCode = 0, Init_parity_none = True,
                  cr1_RXNEIE = False, cr1_PEIE = False, cr1_IDLEIE = False, cr1_TXEIE = False, cr1_TCIE = False,
                  cr3_EIE = False, cr3_DMAR = False, cr3_DMAT = False\<rparr>;
          dma = \<lparr>dma_State = HAL_DMA_STATE_READY, dma_Locked = False, dma_ErrorCode = 0, dma_Init_circular = True,
                 dma_EN = False, dma_stuck = False, dma_CIRC = True, dma_DBM = False, dma_CT = False, dma_TCIE = False, dma_HTIE = False,
                 dma_TEIE = False, dma_DMEIE = False, dma_FEIE = False, dma_NDTR = 0, dma_reload = 0,
                 dma_TCIF = False, dma_HTIF = False, dma_TEIF = False, dma_DMEIF = False, dma_FEIF = False,
                 XferCpltCallback = None, XferHalfCpltCallback = None, XferM1CpltCallback = None,
                 XferM1HalfCpltCallback = None, XferErrorCallback = None, XferAbortCallback = None\<rparr>
      in \<lparr>huart = uart, hdmarx = dma, rx_port = port, rx_queue = zero_queue\<rparr>)"

definition sample_line :: RxLine where
  "sample_line =
     \<lparr>ln_rx = snd (HAL_UARTEx_ReceiveToIdle_DMA True (of_nat UART_RX_DMA_BUFFER_SIZE) sample_rx_board),
      ln_bytes = [], ln_taken = 0, ln_reset = 0, ln_delivered = []\<rparr>"

lemma sample_started: "rx_line_started sample_line" "rx_queue (ln_rx sample_line) = zero_queue" "ln_bytes sample_line = []"
  "ln_taken sample_line = 0" "ln_reset sample_line = 0" "ln_delivered sample_line = []"
proof -
  note start = sample_line_def sample_rx_board_def HAL_UARTEx_ReceiveToIdle_DMA_def UART_Start_Receive_DMA_def
    HAL_DMA_Start_IT_def DMA_SetConfig_def Let_def
  have "uart_rx_port_init (Some (rx_queue sample_rx_board)) (rx_port sample_rx_board) =
      (True, rx_port sample_rx_board, Some (rx_queue sample_rx_board))"
    by (simp add: uart_rx_port_init_def uart_rx_queue_init_def sample_rx_board_def Let_def)
  moreover have "rx_configured sample_rx_board" by (simp add: rx_configured_def sample_rx_board_def Let_def)
  moreover have "HAL_UARTEx_ReceiveToIdle_DMA True 128 sample_rx_board = (HAL_OK, ln_rx sample_line)"
    by (simp add: start)
  ultimately show "rx_line_started sample_line"
    unfolding rx_line_started_def
    by (intro conjI exI [of _ sample_rx_board] exI [of _ "rx_port sample_rx_board"] exI [of _ "rx_queue sample_rx_board"])
      (simp_all add: sample_line_def)
  show "rx_queue (ln_rx sample_line) = zero_queue" by (simp add: start)
qed (simp_all add: sample_line_def)

subsection \<open>Properties\<close>

text \<open>
  C37: From the serial line to the receive queue. Whatever the order of received bytes, DMA and idle
  interrupts, line errors and operations of the main program, the bytes popped since the last
  reset of the queue followed by those still queued are the received bytes from there on, in
  order and once each, as far as the interrupts have reported them; after an overflow they
  are a prefix of these. Fewer than 128 bytes are ever waiting for a report. As long as the
  reception runs, an idle event reports everything that was received, and loses nothing if
  the queue has room.
\<close>

theorem line_bytes_reach_queue:
  assumes "reachable rx_line_started (rx_step receive_it) l"
  shows "let q = rx_queue (ln_rx l);
             reported = drop (ln_reset l) (take (ln_taken l) (ln_bytes l));
             waiting = length (ln_bytes l) - ln_taken l;
             q' = rx_queue (ln_rx (idle_interrupt receive_it l))
    in prefix (ln_delivered l @ queue_contents q) reported \<and>
       (\<not> q_overflowed q \<longrightarrow> ln_delivered l @ queue_contents q = reported) \<and>
       waiting < UART_RX_DMA_BUFFER_SIZE \<and>
       (cr3_DMAR (huart (ln_rx l)) \<and> \<not> dma_pending l \<and> ln_bytes l \<noteq> [] \<and>
        \<not> q_overflowed q \<and> length (queue_contents q) + waiting \<le> UART_RX_QUEUE_CAPACITY \<longrightarrow>
          ln_delivered l @ queue_contents q' = drop (ln_reset l) (ln_bytes l) \<and> \<not> q_overflowed q')"
proof -
  have "rx_running l \<or> rx_dead l" "rx_in_order l"
    using rx_line.inv_reachable [OF assms] by (simp_all add: rx_line_inv_def)
  moreover have "rx_running l" if "rx_running l \<or> rx_dead l" "cr3_DMAR (huart (ln_rx l))"
    using that by (auto simp: rx_dead_def Let_def)
  ultimately show ?thesis using idle_delivers_all [of l receive_it] by (auto simp: rx_in_order_def Let_def)
qed

lemma line_bytes_reach_queue_witness:
  "\<exists>l. reachable rx_line_started (rx_step id) l \<and> ln_bytes l = [7, 9] \<and>
     queue_contents (rx_queue (ln_rx (idle_interrupt id l))) = [7, 9]"
proof -
  have quick: "\<not> dma_pending l" if "rx_running l" "length (ln_bytes l) < 64" for l
    using that by (auto simp: rx_running_def flags_track_def half_done_def split: if_splits)
  let ?l1 = "line_byte 7 sample_line" and ?l2 = "line_byte 9 (line_byte 7 sample_line)"
  have run0: "rx_running sample_line" using started_running sample_started(1) .
  have run1: "rx_running ?l1" "ln_bytes ?l1 = [7]" "ln_taken ?l1 = 0" "rx_queue (ln_rx ?l1) = zero_queue"
    using byte_running [OF run0, of 7] sample_started by simp_all
  have run2: "rx_running ?l2" "ln_bytes ?l2 = [7, 9]" "ln_taken ?l2 = 0" "rx_queue (ln_rx ?l2) = zero_queue"
    using byte_running [OF run1(1), of 9] run1 by simp_all
  have "rx_step id sample_line ?l1" "rx_step id ?l1 ?l2"
    using quick run0 run1(1,2) sample_started(3) by (auto intro!: rx_step.byte)
  then have reach: "reachable rx_line_started (rx_step id) ?l2"
    using sample_started(1) by (meson reachable_init reachable_step)
  have "cr3_DMAR (huart (ln_rx ?l2))" using run2(1) unfolding rx_running_def uart_receiving_def by blast
  moreover have "queue_contents zero_queue = []" "\<not> q_overflowed zero_queue" by (simp_all add: contents_empty zero_queue_def)
  ultimately have "queue_contents (rx_queue (ln_rx (idle_interrupt id ?l2))) = [7, 9]"
    using line_bytes_reach_queue [OF reach] run2(2-4) quick [OF run2(1)] sample_started(5,6)
    unfolding Let_def by simp
  with reach run2(2) show ?thesis by blast
qed

text \<open>
  C38: A line error ends the reception for good. In a running system, a framing, noise or
  overrun error makes the UART interrupt abort the DMA transfer; the port defines no error
  callback and the main program does not start the reception again. Whatever happens
  afterwards, no byte is received or queued any more: the queue only shrinks.
\<close>

theorem line_error_ends_reception:
  assumes "reachable rx_line_started (rx_step receive_it) l" and "sr_FE sr \<or> sr_NE sr \<or> sr_ORE sr"
    and "(rx_step receive_it)\<^sup>*\<^sup>* (error_interrupt receive_it sr l) t"
  shows "ln_bytes t = ln_bytes l \<and> ln_taken t = ln_taken l \<and>
    \<not> dma_EN (hdmarx (ln_rx t)) \<and> \<not> cr3_DMAR (huart (ln_rx t)) \<and> line_byte b t = t \<and>
    suffix (queue_contents (rx_queue (ln_rx t))) (queue_contents (rx_queue (ln_rx l)))"
proof -
  let ?e = "error_interrupt receive_it sr l"
  have inv: "rx_running l \<or> rx_dead l" "rx_in_order ?e"
    using rx_line.inv_reachable [OF assms(1)] rx_line.inv_reachable [OF reachable_step, OF assms(1) line_error [OF assms(2)]]
    by (simp_all add: rx_line_inv_def)
  have dead: "rx_dead ?e" and q: "rx_queue (ln_rx ?e) = rx_queue (ln_rx l)"
    using inv(1) error_kills [OF _ assms(2)] dead_still(3) by auto
  from assms(3) have "rx_dead t \<and> rx_in_order t \<and> ln_bytes t = ln_bytes ?e \<and> ln_taken t = ln_taken ?e \<and>
    suffix (queue_contents (rx_queue (ln_rx t))) (queue_contents (rx_queue (ln_rx ?e)))"
  proof (induction rule: rtranclp_induct)
    case (step s t)
    with dead_step [of s receive_it t] show ?case by (auto intro: suffix_order.trans)
  qed (use dead inv(2) in simp)
  with q dead_still(1) show ?thesis by (auto simp: error_interrupt_def rx_dead_def Let_def)
qed

lemma line_error_ends_reception_witness:
  "line_byte 7 (line_byte 7 (error_interrupt id (idle_status\<lparr>sr_FE := True\<rparr>) sample_line)) =
     line_byte 7 (error_interrupt id (idle_status\<lparr>sr_FE := True\<rparr>) sample_line) \<and>
   ln_bytes (line_byte 7 (error_interrupt id (idle_status\<lparr>sr_FE := True\<rparr>) sample_line)) = []"
proof -
  let ?e = "error_interrupt id (idle_status\<lparr>sr_FE := True\<rparr>) sample_line"
  have "(rx_step id)\<^sup>*\<^sup>* ?e (line_byte 7 ?e)"
    by (rule r_into_rtranclp, rule rx_step.byte) (simp add: error_interrupt_def sample_started)
  moreover have "reachable rx_line_started (rx_step id) sample_line" using sample_started(1) by (rule reachable_init)
  ultimately show ?thesis
    using line_error_ends_reception [of id sample_line "idle_status\<lparr>sr_FE := True\<rparr>" "line_byte 7 ?e" 7] sample_started(3)
    by simp
qed

end
