(* ===== verification/Uart_Receiver.thy ===== *)
theory Uart_Receiver
  imports Uart_Queue Stream_Delivery
begin

section \<open>The protocol receiver (App/Src/uart\_protocol\_receiver.c)\<close>

text \<open>
  One poll pops bytes into the frame decoder until a frame is complete, the queue is empty
  or an overflow is seen; an overflow discards the queue and the frame in progress.

  The receive interrupt may add bytes while a poll runs. The polls of the model take the
  bytes of the interrupts that occur during the poll, one list per interrupt; an interrupt
  is taken before each pop, after each completed frame and after the last pop (that an
  interrupt inside a pop makes no difference is shown with the queue). Interrupts beyond
  the end of the poll are not taken. With finitely many interrupts the loop ends.
\<close>

datatype UartProtocolReceiverResult =
    UART_PROTOCOL_RECEIVER_RESULT_NONE
  | UART_PROTOCOL_RECEIVER_RESULT_FRAME
  | UART_PROTOCOL_RECEIVER_RESULT_OVERFLOW
  | UART_PROTOCOL_RECEIVER_RESULT_INVALID_ARGUMENT

text \<open>\<open>rcv_bound\<close> says that the receiver's queue pointer is not null.\<close>

record UartProtocolReceiver =
  rcv_bound :: bool
  rcv_decoder :: ProtocolFrameDecoder

definition zero_receiver :: UartProtocolReceiver where
  "zero_receiver = \<lparr>rcv_bound = False, rcv_decoder = protocol_frame_decoder_init\<lparr>calculated_crc := 0\<rparr>\<rparr>"

definition uart_protocol_receiver_handle_overflow ::
  "UartProtocolReceiver \<Rightarrow> UartRxQueue \<Rightarrow> bool \<times> UartProtocolReceiver \<times> UartRxQueue" where
  "uart_protocol_receiver_handle_overflow receiver queue =
     (if \<not> uart_rx_queue_has_overflowed (Some queue) then (False, receiver, queue)
      else (True, receiver\<lparr>rcv_decoder := protocol_frame_decoder_reset (rcv_decoder receiver)\<rparr>,
            queue_reset queue))"

definition uart_protocol_receiver_init ::
  "UartProtocolReceiver option \<Rightarrow> bool \<Rightarrow> bool \<times> UartProtocolReceiver option" where
  "uart_protocol_receiver_init receiver queue_given =
     (case receiver of
        None \<Rightarrow> (False, None)
      | Some _ \<Rightarrow>
          let r = zero_receiver
          in if \<not> queue_given then (False, Some r)
             else (True, Some (r\<lparr>rcv_decoder := protocol_frame_decoder_init, rcv_bound := True\<rparr>)))"

fun take_interrupt :: "u8 list list \<Rightarrow> UartRxQueue \<Rightarrow> u8 list list \<times> UartRxQueue" where
  "take_interrupt [] q = ([], q)"
| "take_interrupt (bs # irqs) q = (irqs, snd (push_all queue_push bs q))"

definition receiver_finish ::
  "UartProtocolReceiverResult \<Rightarrow> ProtocolFrame option \<Rightarrow> u8 list list \<Rightarrow> UartProtocolReceiver \<Rightarrow> UartRxQueue \<Rightarrow>
     (UartProtocolReceiverResult \<times> ProtocolFrame option) \<times> UartProtocolReceiver \<times> UartRxQueue" where
  "receiver_finish result frame irqs receiver queue =
     (case take_interrupt irqs queue of (_, queue) \<Rightarrow>
        case uart_protocol_receiver_handle_overflow receiver queue of (overflow, receiver, queue) \<Rightarrow>
          if overflow then ((UART_PROTOCOL_RECEIVER_RESULT_OVERFLOW, None), receiver, queue)
          else ((result, frame), receiver, queue))"

lemma pop_some_used:
  "queue_pop q = (Some b, q') \<Longrightarrow> queue_used q' < queue_used q"
  using contents_advance(2) [of q] by (auto simp: uart_rx_queue_pop_def Let_def split: if_splits)

function receiver_loop ::
  "u8 list list \<Rightarrow> UartProtocolReceiver \<Rightarrow> UartRxQueue \<Rightarrow>
     (UartProtocolReceiverResult \<times> ProtocolFrame option) \<times> UartProtocolReceiver \<times> UartRxQueue" where
  "receiver_loop irqs receiver queue =
     (case take_interrupt irqs queue of (irqs', queue1) \<Rightarrow>
        case queue_pop queue1 of
          (None, queue2) \<Rightarrow> receiver_finish UART_PROTOCOL_RECEIVER_RESULT_NONE None irqs' receiver queue2
        | (Some byte, queue2) \<Rightarrow>
            (case decoder_feed byte (rcv_decoder receiver) of
               (Some frame, d) \<Rightarrow>
                 receiver_finish UART_PROTOCOL_RECEIVER_RESULT_FRAME (Some frame) irqs'
                   (receiver\<lparr>rcv_decoder := d\<rparr>) queue2
             | (None, d) \<Rightarrow> receiver_loop irqs' (receiver\<lparr>rcv_decoder := d\<rparr>) queue2))"
  by pat_completeness auto
termination
proof (relation "measures [\<lambda>(irqs, _, _). length irqs, \<lambda>(_, _, q). queue_used q]")
  fix irqs :: "u8 list list" and receiver :: UartProtocolReceiver and queue irqs' queue1 popped queue2 byte
    and fed :: "ProtocolFrame option" and d :: ProtocolFrameDecoder
  assume "(irqs', queue1) = take_interrupt irqs queue" and "(popped, queue2) = queue_pop queue1"
    and "popped = Some byte"
  then show "((irqs', receiver\<lparr>rcv_decoder := d\<rparr>, queue2), irqs, receiver, queue) \<in>
      measures [\<lambda>(irqs, _, _). length irqs, \<lambda>(_, _, q). queue_used q]"
    using pop_some_used [of queue1 byte queue2] by (cases irqs) (auto dest: sym)
qed simp

definition uart_protocol_receiver_poll ::
  "bool \<Rightarrow> u8 list list \<Rightarrow> UartProtocolReceiver option \<Rightarrow> UartRxQueue \<Rightarrow>
     (UartProtocolReceiverResult \<times> ProtocolFrame option) \<times> UartProtocolReceiver option \<times> UartRxQueue" where
  "uart_protocol_receiver_poll frame_out irqs receiver queue =
     (if \<not> frame_out then ((UART_PROTOCOL_RECEIVER_RESULT_INVALID_ARGUMENT, None), receiver, queue)
      else case receiver of
        None \<Rightarrow> ((UART_PROTOCOL_RECEIVER_RESULT_INVALID_ARGUMENT, None), receiver, queue)
      | Some r \<Rightarrow>
          if \<not> rcv_bound r then ((UART_PROTOCOL_RECEIVER_RESULT_INVALID_ARGUMENT, None), receiver, queue)
          else
            let (overflow, r, queue) = uart_protocol_receiver_handle_overflow r queue
            in if overflow then ((UART_PROTOCOL_RECEIVER_RESULT_OVERFLOW, None), Some r, queue)
               else
                 let (result, r, queue) = receiver_loop irqs r queue
                 in (result, Some r, queue))"

declare receiver_loop.simps [simp del]

subsection \<open>What one poll does\<close>

text \<open>
  The poll took \<open>k\<close> interrupts; the decoder consumed a prefix of the bytes queued and
  received and delivered the frames \<open>fs\<close>; the rest of the bytes is still queued.
\<close>

definition poll_consumes ::
  "u8 list list \<Rightarrow> UartRxQueue \<Rightarrow> ProtocolFrameDecoder \<Rightarrow> ProtocolFrame list \<Rightarrow> UartRxQueue \<Rightarrow>
     ProtocolFrameDecoder \<Rightarrow> bool" where
  "poll_consumes irqs q d fs q' d' \<longleftrightarrow> \<not> q_overflowed q' \<and>
     (\<exists>k bytes. queue_contents q @ concat (take k irqs) = bytes @ queue_contents q' \<and>
        decoder_feed_all bytes d = (fs, d'))"

lemma interrupt_spec:
  assumes "queue_wf q" and "take_interrupt irqs q = (irqs', q')"
  shows "queue_wf q'" and "irqs' = drop 1 irqs"
    and "\<not> q_overflowed q' \<Longrightarrow> \<not> q_overflowed q \<and> queue_contents q' = queue_contents q @ concat (take 1 irqs)"
proof (atomize (full), cases irqs)
  case (Cons bs rest)
  then obtain ok where "push_all queue_push bs q = (ok, q')" using assms(2) by (metis prod.collapse snd_conv take_interrupt.simps(2))
  from rx_queue.push_all_spec [OF assms(1) this] Cons assms(2)
  show "queue_wf q' \<and> irqs' = drop 1 irqs \<and>
      (\<not> q_overflowed q' \<longrightarrow> \<not> q_overflowed q \<and> queue_contents q' = queue_contents q @ concat (take 1 irqs))"
    by auto
qed (use assms in simp)

lemma finish_spec:
  assumes "queue_wf q" and "receiver_finish res fr irqs r q = (out, r', q')"
  shows "queue_wf q'" and "rcv_bound r' = rcv_bound r"
    and "out = (UART_PROTOCOL_RECEIVER_RESULT_OVERFLOW, None) \<and> queue_contents q' = [] \<and> \<not> q_overflowed q' \<and>
          rcv_decoder r' = protocol_frame_decoder_reset (rcv_decoder r) \<or>
        out = (res, fr) \<and> r' = r \<and> \<not> q_overflowed q' \<and> \<not> q_overflowed q \<and>
          queue_contents q' = queue_contents q @ concat (take 1 irqs)"
proof (atomize (full))
  obtain irqs1 q1 where irq: "take_interrupt irqs q = (irqs1, q1)" by fastforce
  note spec = interrupt_spec [OF assms(1) irq]
  show "queue_wf q' \<and> rcv_bound r' = rcv_bound r \<and>
    (out = (UART_PROTOCOL_RECEIVER_RESULT_OVERFLOW, None) \<and> queue_contents q' = [] \<and> \<not> q_overflowed q' \<and>
          rcv_decoder r' = protocol_frame_decoder_reset (rcv_decoder r) \<or>
        out = (res, fr) \<and> r' = r \<and> \<not> q_overflowed q' \<and> \<not> q_overflowed q \<and>
          queue_contents q' = queue_contents q @ concat (take 1 irqs))"
    using assms(2) irq spec reset_contents [of q1]
    by (cases "q_overflowed q1")
       (auto simp: receiver_finish_def uart_protocol_receiver_handle_overflow_def uart_rx_queue_has_overflowed_def)
qed

text \<open>The three results of the loop.\<close>

definition poll_result ::
  "u8 list list \<Rightarrow> UartRxQueue \<Rightarrow> ProtocolFrameDecoder \<Rightarrow> UartProtocolReceiverResult \<times> ProtocolFrame option \<Rightarrow>
     UartRxQueue \<Rightarrow> ProtocolFrameDecoder \<Rightarrow> bool" where
  "poll_result irqs q d out q' d' \<longleftrightarrow>
     (case out of
        (UART_PROTOCOL_RECEIVER_RESULT_FRAME, Some f) \<Rightarrow> poll_consumes irqs q d [f] q' d'
      | (UART_PROTOCOL_RECEIVER_RESULT_NONE, None) \<Rightarrow>
          poll_consumes irqs q d [] q' d' \<and> (irqs = [] \<longrightarrow> queue_contents q' = [])
      | (UART_PROTOCOL_RECEIVER_RESULT_OVERFLOW, None) \<Rightarrow>
          queue_contents q' = [] \<and> \<not> q_overflowed q' \<and> dec_state d' = PROTOCOL_DECODER_WAIT_MAGIC_0
      | _ \<Rightarrow> False)"

lemma reset_state: "dec_state (protocol_frame_decoder_reset d) = PROTOCOL_DECODER_WAIT_MAGIC_0"
  by (simp add: protocol_frame_decoder_reset_def)

lemma poll_result_step:
  assumes "poll_result (drop 1 irqs) q2 d1 out q' d'" and "decoder_feed byte d = (None, d1)"
    and "queue_contents q @ concat (take 1 irqs) = byte # queue_contents q2"
  shows "poll_result irqs q d out q' d'"
proof -
  have step: "poll_consumes irqs q d fs q' d'" if consumes: "poll_consumes (drop 1 irqs) q2 d1 fs q' d'" for fs
  proof -
    from consumes obtain k bytes where "queue_contents q2 @ concat (take k (drop 1 irqs)) = bytes @ queue_contents q'"
      and feed: "decoder_feed_all bytes d1 = (fs, d')" and free: "\<not> q_overflowed q'"
      by (auto simp: poll_consumes_def)
    then have "queue_contents q @ concat (take (1 + k) irqs) = (byte # bytes) @ queue_contents q'"
      using assms(3) by (simp only: take_add concat_append append_assoc [symmetric]) simp
    moreover have "decoder_feed_all (byte # bytes) d = (fs, d')" using feed assms(2) by simp
    ultimately show ?thesis using free unfolding poll_consumes_def by blast
  qed
  show ?thesis
    using assms(1) step unfolding poll_result_def
    by (auto split: prod.splits UartProtocolReceiverResult.splits option.splits)
qed

lemma receiver_loop_spec:
  assumes "queue_wf q" and "receiver_loop irqs r q = (out, r', q')"
  shows "queue_wf q' \<and> rcv_bound r' = rcv_bound r \<and> poll_result irqs q (rcv_decoder r) out q' (rcv_decoder r')"
  using assms
proof (induction irqs r q rule: receiver_loop.induct)
  case (1 irqs r q)
  obtain irqs1 q1 where irq: "take_interrupt irqs q = (irqs1, q1)" by fastforce
  note spec = interrupt_spec [OF 1(2) irq]
  obtain popped q2 where pop: "queue_pop q1 = (popped, q2)" by fastforce
  have wf2: "queue_wf q2" using rx_queue.pop_inv [OF spec(1)] pop by simp
  show ?case
  proof (cases popped)
    case None
    then have q2: "q2 = q1" "q_overflowed q1 \<or> queue_contents q1 = []"
      using pop pop_contents(1) [OF spec(1)] by (simp_all split: if_splits)
    have "receiver_finish UART_PROTOCOL_RECEIVER_RESULT_NONE None irqs1 r q2 = (out, r', q')"
      using 1(3) irq pop None by (simp add: receiver_loop.simps [of irqs r q])
    note fin = finish_spec [OF wf2 this]
    have "poll_consumes irqs q (rcv_decoder r) [] q' (rcv_decoder r) \<and> (irqs = [] \<longrightarrow> queue_contents q' = [])"
      if "\<not> q_overflowed q2" "\<not> q_overflowed q'" "queue_contents q' = queue_contents q2 @ concat (take 1 irqs1)"
    proof -
      have "queue_contents q @ concat (take (1 + 1) irqs) = [] @ queue_contents q'"
        using that q2 spec by (simp only: take_add concat_append) simp
      moreover have "decoder_feed_all [] (rcv_decoder r) = ([], rcv_decoder r)" by simp
      ultimately have "poll_consumes irqs q (rcv_decoder r) [] q' (rcv_decoder r)"
        using that(2) unfolding poll_consumes_def by blast
      with that q2 spec show ?thesis by auto
    qed
    with fin show ?thesis by (auto simp: poll_result_def reset_state)
  next
    case (Some byte)
    then have open1: "\<not> q_overflowed q1" and c1: "queue_contents q1 = byte # queue_contents q2"
      using pop rx_queue.pop_takes [OF spec(1)] rx_queue.pop_leaves [OF spec(1)]
      by (auto split: if_splits)
    then have c: "queue_contents q @ concat (take 1 irqs) = byte # queue_contents q2" using spec(3) by simp
    obtain fed d where feed: "decoder_feed byte (rcv_decoder r) = (fed, d)" by fastforce
    show ?thesis
    proof (cases fed)
      case None
      have "receiver_loop irqs1 (r\<lparr>rcv_decoder := d\<rparr>) q2 = (out, r', q')"
        using 1(3) irq pop Some feed None by (simp add: receiver_loop.simps [of irqs r q])
      from 1(1) [OF irq [symmetric] pop [symmetric] Some feed [symmetric] None wf2 this]
      show ?thesis using poll_result_step [OF _ _ c, of d out q' "rcv_decoder r'"] spec(2) feed None by simp
    next
      case fr: (Some f)
      have "receiver_finish UART_PROTOCOL_RECEIVER_RESULT_FRAME (Some f) irqs1 (r\<lparr>rcv_decoder := d\<rparr>) q2 = (out, r', q')"
        using 1(3) irq pop Some feed fr by (simp add: receiver_loop.simps [of irqs r q])
      note fin = finish_spec [OF wf2 this]
      have "poll_consumes irqs q (rcv_decoder r) [f] q' d"
        if "\<not> q_overflowed q'" "queue_contents q' = queue_contents q2 @ concat (take 1 irqs1)"
      proof -
        have "queue_contents q @ concat (take (1 + 1) irqs) = [byte] @ queue_contents q'"
          using that c spec(2) by (simp only: take_add concat_append append_assoc [symmetric]) simp
        moreover have "decoder_feed_all [byte] (rcv_decoder r) = ([f], d)" using feed fr by simp
        ultimately show ?thesis using that unfolding poll_consumes_def by blast
      qed
      with fin show ?thesis by (auto simp: poll_result_def reset_state)
    qed
  qed
qed

subsection \<open>Property\<close>

text \<open>A series of polls, each with the interrupts that occur during it.\<close>

fun polls ::
  "u8 list list list \<Rightarrow> UartProtocolReceiver \<Rightarrow> UartRxQueue \<Rightarrow>
     (UartProtocolReceiverResult \<times> ProtocolFrame option) list \<times> UartProtocolReceiver \<times> UartRxQueue" where
  "polls [] r q = ([], r, q)"
| "polls (irqs # rest) r q =
     (case uart_protocol_receiver_poll True irqs (Some r) q of (out, r1, q1) \<Rightarrow>
        case polls rest (the r1) q1 of (outs, r2, q2) \<Rightarrow> (out # outs, r2, q2))"

definition polled_frames :: "(UartProtocolReceiverResult \<times> ProtocolFrame option) list \<Rightarrow> ProtocolFrame list" where
  "polled_frames outs = List.map_filter snd outs"

lemma poll_spec:
  assumes "queue_wf q" and "rcv_bound r" and "uart_protocol_receiver_poll True irqs (Some r) q = (out, r', q')"
  shows "queue_wf q' \<and> (\<exists>s. r' = Some s \<and> rcv_bound s \<and> poll_result irqs q (rcv_decoder r) out q' (rcv_decoder s))"
proof (cases "q_overflowed q")
  case True
  with assms reset_contents [of q] show ?thesis
    by (auto simp: uart_protocol_receiver_poll_def uart_protocol_receiver_handle_overflow_def
        uart_rx_queue_has_overflowed_def poll_result_def reset_state)
next
  case False
  obtain o1 s q1 where loop: "receiver_loop irqs r q = (o1, s, q1)" using prod_cases3 by blast
  from receiver_loop_spec [OF assms(1) loop] loop False assms(2,3) show ?thesis
    by (auto simp: uart_protocol_receiver_poll_def uart_protocol_receiver_handle_overflow_def
        uart_rx_queue_has_overflowed_def)
qed

lemma consumes_compose:
  assumes "poll_consumes irqs q d fs q1 d1"
    and "queue_contents q1 @ later = bytes' @ queue_contents q2" and "decoder_feed_all bytes' d1 = (gs, d2)"
  shows "\<exists>k bytes. queue_contents q @ concat (take k irqs) @ later = bytes @ queue_contents q2 \<and>
    decoder_feed_all bytes d = (fs @ gs, d2)"
proof -
  from assms(1) obtain k bytes where b: "queue_contents q @ concat (take k irqs) = bytes @ queue_contents q1"
    "decoder_feed_all bytes d = (fs, d1)" by (auto simp: poll_consumes_def)
  have "queue_contents q @ concat (take k irqs) @ later = (bytes @ bytes') @ queue_contents q2"
    using b(1) assms(2) by (metis append_assoc)
  moreover have "decoder_feed_all (bytes @ bytes') d = (fs @ gs, d2)"
    using b(2) assms(3) by (simp add: decoder_feed_all_append)
  ultimately show ?thesis by blast
qed

lemma polled_frames_Cons: "polled_frames (out # outs) = polled_frames [out] @ polled_frames outs"
  by (simp add: polled_frames_def List.map_filter_def)

lemma poll_result_consumes:
  assumes "poll_result irqs q d out q' d'" and "out \<noteq> (UART_PROTOCOL_RECEIVER_RESULT_OVERFLOW, None)"
  shows "poll_consumes irqs q d (polled_frames [out]) q' d'"
  using assms by (cases out; cases "fst out"; cases "snd out")
    (simp_all add: poll_result_def polled_frames_def List.map_filter_def)

text \<open>
  C39: The receiver is the frame decoder applied to the byte stream. Over any series of polls,
  with interrupts adding bytes in the middle of them, that reports no overflow, the frames
  returned are exactly the frames the decoder delivers on a prefix of the bytes queued and
  received, none lost, repeated or out of order, and the rest of the bytes is still
  queued; every poll returns, and a poll that is not interrupted and finds no frame has
  consumed everything. A poll that reports an overflow leaves the queue empty and the
  decoder at the search for the next frame.
\<close>

theorem receiver_refines_decoder:
  assumes "queue_wf q" and "rcv_bound r" and "polls schedules r q = (outs, r', q')"
  shows "((UART_PROTOCOL_RECEIVER_RESULT_OVERFLOW, None) \<notin> set outs \<longrightarrow>
      (\<exists>arrived bytes. queue_contents q @ arrived = bytes @ queue_contents q' \<and>
         decoder_feed_all bytes (rcv_decoder r) = (polled_frames outs, rcv_decoder r') \<and>
         (\<exists>ks. length ks = length schedules \<and>
            arrived = concat (map (\<lambda>(k, irqs). concat (take k irqs)) (zip ks schedules))))) \<and>
    (schedules \<noteq> [] \<and> last outs = (UART_PROTOCOL_RECEIVER_RESULT_NONE, None) \<and> last schedules = [] \<longrightarrow>
      queue_contents q' = []) \<and>
    (schedules \<noteq> [] \<and> last outs = (UART_PROTOCOL_RECEIVER_RESULT_OVERFLOW, None) \<longrightarrow>
      queue_contents q' = [] \<and> \<not> q_overflowed q' \<and> dec_state (rcv_decoder r') = PROTOCOL_DECODER_WAIT_MAGIC_0) \<and>
    length outs = length schedules"
  using assms
proof (induction schedules arbitrary: r q outs)
  case (Cons irqs rest)
  obtain out p q1 where poll: "uart_protocol_receiver_poll True irqs (Some r) q = (out, p, q1)" using prod_cases3 by blast
  from poll_spec [OF Cons.prems(1,2) poll] obtain s where
    s: "queue_wf q1" "p = Some s" "rcv_bound s" "poll_result irqs q (rcv_decoder r) out q1 (rcv_decoder s)" by blast
  obtain outs1 where run: "polls rest s q1 = (outs1, r', q')" and outs: "outs = out # outs1"
    using Cons.prems(3) poll s(2) by (auto split: prod.splits)
  note IH = Cons.IH [OF s(1,3) run]
  have stream: "\<exists>arrived bytes. queue_contents q @ arrived = bytes @ queue_contents q' \<and>
      decoder_feed_all bytes (rcv_decoder r) = (polled_frames outs, rcv_decoder r') \<and>
      (\<exists>ks. length ks = length (irqs # rest) \<and>
            arrived = concat (map (\<lambda>(k, irqs). concat (take k irqs)) (zip ks (irqs # rest))))"
    if no: "(UART_PROTOCOL_RECEIVER_RESULT_OVERFLOW, None) \<notin> set outs"
  proof -
    from no IH outs obtain arrived bytes ks where
      later: "queue_contents q1 @ arrived = bytes @ queue_contents q'"
        "decoder_feed_all bytes (rcv_decoder s) = (polled_frames outs1, rcv_decoder r')"
        "length ks = length rest"
        "arrived = concat (map (\<lambda>(k, irqs). concat (take k irqs)) (zip ks rest))" by auto
    from no outs have "out \<noteq> (UART_PROTOCOL_RECEIVER_RESULT_OVERFLOW, None)" by auto
    from consumes_compose [OF poll_result_consumes [OF s(4) this] later(1,2)] obtain k all where
      "queue_contents q @ concat (take k irqs) @ arrived = all @ queue_contents q'"
      "decoder_feed_all all (rcv_decoder r) = (polled_frames outs, rcv_decoder r')" by (auto simp: outs polled_frames_Cons [of out outs1])
    with later(3,4) show ?thesis
      by (intro exI [of _ "concat (take k irqs) @ arrived"] exI [of _ all] conjI exI [of _ "k # ks"]) simp_all
  qed
  show ?case
  proof (cases "rest = []")
    case True
    then have "outs1 = []" "r' = s" "q' = q1" using run by simp_all
    with True stream s(4) outs show ?thesis by (auto simp: poll_result_def)
  next
    case False
    moreover from this IH have "outs1 \<noteq> []" by auto
    ultimately show ?thesis using stream IH outs by auto
  qed
qed (auto simp: polled_frames_def List.map_filter_def)

lemma receiver_refines_decoder_witness:
  "\<exists>outs r' q'. polls [[[1]], []] (zero_receiver\<lparr>rcv_decoder := protocol_frame_decoder_init, rcv_bound := True\<rparr>)
      zero_queue = (outs, r', q') \<and> length outs = 2"
proof -
  let ?r = "zero_receiver\<lparr>rcv_decoder := protocol_frame_decoder_init, rcv_bound := True\<rparr>"
  obtain outs r' q' where run: "polls [[[1]], []] ?r zero_queue = (outs, r', q')" using prod_cases3 by blast
  have "queue_wf zero_queue" by (simp add: queue_wf_def zero_queue_def queue_used_def)
  from receiver_refines_decoder [OF this _ run] run show ?thesis by auto
qed

end
