(* ===== verification/Uart_Transmitter.thy ===== *)
theory Uart_Transmitter
  imports Stream_Delivery
begin

section \<open>Transmission (App/Src/uart\_protocol\_transmitter.c, Port/uart\_tx\_port\_stm32.c)\<close>

text \<open>
  A frame is encoded into a local buffer and handed to the vendor's blocking transmit
  function. Its answers are the parameter \<open>tx_status\<close>, indexed by the number of calls made;
  \<open>tx_calls\<close> records the bytes of every call.
\<close>

record UartTxPort =
  tx_is_USART2 :: bool
  tx_status :: "nat \<Rightarrow> bool"
  tx_calls :: "u8 list list"

text \<open>One call of \<^verbatim>\<open>HAL_UART_Transmit\<close>: its answer, and the record of it.\<close>

definition transmit_call :: "u8 list \<Rightarrow> UartTxPort \<Rightarrow> bool \<times> UartTxPort" where
  "transmit_call bytes port =
     (tx_status port (length (tx_calls port)), port\<lparr>tx_calls := tx_calls port @ [bytes]\<rparr>)"

definition uart_tx_port_write :: "u8 list option \<Rightarrow> nat \<Rightarrow> UartTxPort \<Rightarrow> bool \<times> UartTxPort" where
  "uart_tx_port_write data n port =
     (case data of
        None \<Rightarrow> (False, port)
      | Some bytes \<Rightarrow>
          if \<not> tx_is_USART2 port \<or> n = 0 \<or> n > 65535 then (False, port)
          else transmit_call (take n bytes) port)"

definition uart_protocol_transmitter_send :: "ProtocolFrame option \<Rightarrow> UartTxPort \<Rightarrow> bool \<times> UartTxPort" where
  "uart_protocol_transmitter_send frame port =
     (case frame of
        None \<Rightarrow> (False, port)
      | Some f \<Rightarrow>
          let wire = replicate PROTOCOL_FRAME_MAX_WIRE_SIZE 0;
              (wire_size, wire) = protocol_frame_encode f wire
          in if wire_size = 0 then (False, port)
             else uart_tx_port_write (Some wire) wire_size port)"

lemma send_wire:
  assumes "frame_sendable f" and "tx_is_USART2 port"
  shows "uart_protocol_transmitter_send (Some f) port = transmit_call (frame_wire f) port"
proof -
  have "length (frame_wire f) \<le> length (replicate 74 (0 :: u8))"
    using assms(1) by (simp add: length_frame_wire frame_sendable_def)
  from protocol_frame_encode_wire [OF assms(1) this] length_frame_wire [OF assms(1)] assms
  show ?thesis
    by (simp add: uart_protocol_transmitter_send_def uart_tx_port_write_def frame_sendable_def)
qed

lemma send_oversize:
  "PROTOCOL_FRAME_MAX_PAYLOAD_SIZE < unat (payload_length f) \<Longrightarrow>
     uart_protocol_transmitter_send (Some f) port = (False, port)"
  by (simp add: uart_protocol_transmitter_send_def protocol_frame_encode_def)

lemma send_frame_simps:
  "tx_is_USART2 (snd (uart_protocol_transmitter_send f port)) = tx_is_USART2 port"
  "tx_status (snd (uart_protocol_transmitter_send f port)) = tx_status port"
  by (auto simp: uart_protocol_transmitter_send_def uart_tx_port_write_def transmit_call_def
      split: option.splits prod.splits)

text \<open>A series of frames, sent one after the other.\<close>

fun send_all :: "ProtocolFrame list \<Rightarrow> UartTxPort \<Rightarrow> UartTxPort" where
  "send_all [] port = port"
| "send_all (f # fs) port = send_all fs (snd (uart_protocol_transmitter_send (Some f) port))"

lemma send_all_calls:
  assumes "list_all frame_sendable fs" and "tx_is_USART2 port"
  shows "tx_calls (send_all fs port) = tx_calls port @ map frame_wire fs"
  using assms
  by (induction fs arbitrary: port) (simp_all add: send_wire transmit_call_def)

lemma wire_concat: "interleave_wire (replicate (length fs) []) fs = concat (map frame_wire fs)"
  by (induction fs) simp_all

text \<open>
  C36: What is sent arrives. Each frame is handed to the vendor's function in one call with
  exactly its wire image, whose answer is the answer of the send; a frame with an impossible
  payload length is refused and nothing is sent. If the bytes of a series of calls reach
  a decoder of the peer that is between frames, it delivers exactly these frames, in order.
\<close>

theorem transmitted_frames_arrive:
  assumes "list_all frame_sendable fs" and "tx_is_USART2 port" and "tx_calls port = []" and "decoder_idle d"
  shows "tx_calls (send_all fs port) = map frame_wire fs \<and>
    (\<exists>gs d'. decoder_feed_all (concat (tx_calls (send_all fs port))) d = (gs, d') \<and> list_all2 frame_equiv fs gs) \<and>
    (\<forall>f \<in> set fs. fst (uart_protocol_transmitter_send (Some f) port) = tx_status port 0) \<and>
    (\<forall>f. 64 < unat (payload_length f) \<longrightarrow> uart_protocol_transmitter_send (Some f) port = (False, port))"
proof -
  have calls: "tx_calls (send_all fs port) = map frame_wire fs"
    using send_all_calls [OF assms(1,2)] assms(3) by simp
  have "\<exists>gs d'. decoder_feed_all (interleave_wire (replicate (length fs) []) fs) d = (gs, d') \<and>
      list_all2 frame_equiv fs gs \<and> decoder_idle d' \<and>
      crc_error_count d' = crc_error_count d \<and> format_error_count d' = format_error_count d"
    by (rule feed_interleaved [OF assms(4,1)]) (simp_all add: list_all_length)
  moreover have "fst (uart_protocol_transmitter_send (Some f) port) = tx_status port 0" if "f \<in> set fs" for f
    using that assms by (simp add: send_wire list_all_iff transmit_call_def)
  ultimately show ?thesis using calls send_oversize by (auto simp: wire_concat)
qed

definition sample_tx :: UartTxPort where
  "sample_tx = \<lparr>tx_is_USART2 = True, tx_status = (\<lambda>_. True), tx_calls = []\<rparr>"

lemma transmitted_frames_arrive_witness:
  "\<exists>gs d'. decoder_feed_all (concat (tx_calls (send_all [sample_frame, sample_frame] sample_tx)))
      protocol_frame_decoder_init = (gs, d') \<and> list_all2 frame_equiv [sample_frame, sample_frame] gs"
  using transmitted_frames_arrive [of "[sample_frame, sample_frame]" sample_tx protocol_frame_decoder_init]
    sample_frame_sendable by (auto simp: sample_tx_def)

end
