(* ===== verification/Link_Manager.thy ===== *)
theory Link_Manager
  imports Uart_Transmitter Motion_Guard Motion_Stop
begin

section \<open>The link manager (App/Src/uart\_link\_manager.c)\<close>

text \<open>
  The link manager answers LINK\_SYNC and HEARTBEAT frames, watches the heartbeat deadline
  and stops the motors whenever synchronization is lost.

  \<open>Board\<close> collects the static state of the modules that the link manager and the motion
  protocol manager call: the command guard with the driver below it, the transmit port,
  the encoder port and the stop operation.
\<close>

record 'd Board =
  board_guard :: "'d MotionCommandGuard"
  board_tx :: UartTxPort
  board_encoder :: WheelEncoderPort
  board_stop :: MotionStopState

definition board_guard_stop :: "'d MotorDriver \<Rightarrow> 'd Board \<Rightarrow> bool \<times> 'd Board" where
  "board_guard_stop drv b =
     (case motion_command_guard_stop drv (board_guard b) of (ok, g) \<Rightarrow> (ok, b\<lparr>board_guard := g\<rparr>))"

definition board_send :: "ProtocolFrame \<Rightarrow> 'd Board \<Rightarrow> bool \<times> 'd Board" where
  "board_send frame b =
     (case uart_protocol_transmitter_send (Some frame) (board_tx b) of (ok, p) \<Rightarrow> (ok, b\<lparr>board_tx := p\<rparr>))"

datatype UartLinkManagerResult =
    UART_LINK_MANAGER_RESULT_INVALID_ARGUMENT
  | UART_LINK_MANAGER_RESULT_NOT_INITIALIZED
  | UART_LINK_MANAGER_RESULT_NOT_LINK_MESSAGE
  | UART_LINK_MANAGER_RESULT_INVALID_LINK_SYNC
  | UART_LINK_MANAGER_RESULT_INVALID_HEARTBEAT
  | UART_LINK_MANAGER_RESULT_NOT_SYNCHRONIZED
  | UART_LINK_MANAGER_RESULT_STOP_FAILED
  | UART_LINK_MANAGER_RESULT_TRANSMIT_FAILED
  | UART_LINK_MANAGER_RESULT_SYNCHRONIZED
  | UART_LINK_MANAGER_RESULT_HEARTBEAT_ACCEPTED
  | UART_LINK_MANAGER_RESULT_PEER_UNSYNCHRONIZED

datatype UartLinkManagerUpdate =
    UART_LINK_MANAGER_UPDATE_NONE
  | UART_LINK_MANAGER_UPDATE_LINK_LOST
  | UART_LINK_MANAGER_UPDATE_STOP_FAILED

record UartLinkManagerState =
  link_initialized :: bool
  link_synchronized :: bool
  heartbeat_timeout_ms :: u32
  last_heartbeat_ms :: u32

definition zero_link :: UartLinkManagerState where
  "zero_link = \<lparr>link_initialized = False, link_synchronized = False, heartbeat_timeout_ms = 0,
     last_heartbeat_ms = 0\<rparr>"

definition uart_link_manager_stop_and_clear ::
  "'d MotorDriver \<Rightarrow> UartLinkManagerState \<Rightarrow> 'd Board \<Rightarrow> bool \<times> UartLinkManagerState \<times> 'd Board" where
  "uart_link_manager_stop_and_clear drv l b =
     (let l = l\<lparr>link_synchronized := False\<rparr>;
          (ok, b) = board_guard_stop drv b
      in (ok, l, b))"

definition uart_link_manager_send_heartbeat ::
  "u16 \<Rightarrow> u8 \<Rightarrow> u32 \<Rightarrow> 'd Board \<Rightarrow> bool \<times> 'd Board" where
  "uart_link_manager_send_heartbeat sequence link_state now_ms b =
     (let p = \<lparr>hb_link_state = link_state, hb_uptime_ms = now_ms\<rparr>;
          response = zero_frame\<lparr>message_type := PROTOCOL_MESSAGE_TYPE_HEARTBEAT,
                       frame_sequence := sequence, payload_length := of_nat HEARTBEAT_WIRE_SIZE\<rparr>;
          response = response\<lparr>payload := buffer_write 0 (heartbeat_encode p) (payload response)\<rparr>
      in board_send response b)"

definition uart_link_manager_handle_heartbeat ::
  "'d MotorDriver \<Rightarrow> ProtocolFrame \<Rightarrow> u32 \<Rightarrow> UartLinkManagerState \<Rightarrow> 'd Board \<Rightarrow>
     UartLinkManagerResult \<times> UartLinkManagerState \<times> 'd Board" where
  "uart_link_manager_handle_heartbeat drv frame now_ms l b =
     (if protocol_ingress_route (Some frame) \<noteq> PROTOCOL_INGRESS_ROUTE_HEARTBEAT then
        let (ok, l, b) = uart_link_manager_stop_and_clear drv l b
        in if \<not> ok then (UART_LINK_MANAGER_RESULT_STOP_FAILED, l, b)
           else (UART_LINK_MANAGER_RESULT_INVALID_HEARTBEAT, l, b)
      else
        let p = heartbeat_decode (payload frame)
        in if hb_link_state p = LINK_STATE_UNSYNCHRONIZED then
             let (ok, l, b) = uart_link_manager_stop_and_clear drv l b
             in if \<not> ok then (UART_LINK_MANAGER_RESULT_STOP_FAILED, l, b)
                else
                  let (sent, b) = uart_link_manager_send_heartbeat (frame_sequence frame)
                                    LINK_STATE_UNSYNCHRONIZED now_ms b
                  in if \<not> sent then (UART_LINK_MANAGER_RESULT_TRANSMIT_FAILED, l, b)
                     else (UART_LINK_MANAGER_RESULT_PEER_UNSYNCHRONIZED, l, b)
           else if hb_link_state p \<noteq> LINK_STATE_SYNCHRONIZED then
             let (ok, l, b) = uart_link_manager_stop_and_clear drv l b
             in if \<not> ok then (UART_LINK_MANAGER_RESULT_STOP_FAILED, l, b)
                else (UART_LINK_MANAGER_RESULT_INVALID_HEARTBEAT, l, b)
           else if \<not> link_synchronized l then
             let (sent, b) = uart_link_manager_send_heartbeat (frame_sequence frame)
                               LINK_STATE_UNSYNCHRONIZED now_ms b
             in if \<not> sent then (UART_LINK_MANAGER_RESULT_TRANSMIT_FAILED, l, b)
                else (UART_LINK_MANAGER_RESULT_NOT_SYNCHRONIZED, l, b)
           else
             let (sent, b) = uart_link_manager_send_heartbeat (frame_sequence frame)
                               LINK_STATE_SYNCHRONIZED now_ms b
             in if \<not> sent then
                  let (ok, l, b) = uart_link_manager_stop_and_clear drv l b
                  in if \<not> ok then (UART_LINK_MANAGER_RESULT_STOP_FAILED, l, b)
                     else (UART_LINK_MANAGER_RESULT_TRANSMIT_FAILED, l, b)
                else (UART_LINK_MANAGER_RESULT_HEARTBEAT_ACCEPTED, l\<lparr>last_heartbeat_ms := now_ms\<rparr>, b))"

definition uart_link_manager_handle_link_sync ::
  "'d MotorDriver \<Rightarrow> ProtocolFrame \<Rightarrow> u32 \<Rightarrow> UartLinkManagerState \<Rightarrow> 'd Board \<Rightarrow>
     UartLinkManagerResult \<times> UartLinkManagerState \<times> 'd Board" where
  "uart_link_manager_handle_link_sync drv frame now_ms l b =
     (if message_type frame \<noteq> PROTOCOL_MESSAGE_TYPE_LINK_SYNC
      then (UART_LINK_MANAGER_RESULT_NOT_LINK_MESSAGE, l, b)
      else
        let (ok, l, b) = uart_link_manager_stop_and_clear drv l b
        in if \<not> ok then (UART_LINK_MANAGER_RESULT_STOP_FAILED, l, b)
           else if protocol_ingress_route (Some frame) \<noteq> PROTOCOL_INGRESS_ROUTE_LINK_SYNC
           then (UART_LINK_MANAGER_RESULT_INVALID_LINK_SYNC, l, b)
           else
             let p = link_sync_decode (payload frame);
                 response = zero_frame\<lparr>message_type := PROTOCOL_MESSAGE_TYPE_LINK_SYNC_OK,
                              frame_sequence := frame_sequence frame,
                              payload_length := of_nat LINK_SYNC_WIRE_SIZE\<rparr>;
                 response = response\<lparr>payload := buffer_write 0 (link_sync_encode p) (payload response)\<rparr>;
                 (sent, b) = board_send response b
             in if \<not> sent then (UART_LINK_MANAGER_RESULT_TRANSMIT_FAILED, l, b)
                else (UART_LINK_MANAGER_RESULT_SYNCHRONIZED,
                      l\<lparr>last_heartbeat_ms := now_ms, link_synchronized := True\<rparr>, b))"

definition uart_link_manager_init :: "u32 \<Rightarrow> bool \<times> UartLinkManagerState" where
  "uart_link_manager_init timeout_ms =
     (let l = zero_link
      in if timeout_ms = 0 then (False, l)
         else (True, l\<lparr>heartbeat_timeout_ms := timeout_ms, link_initialized := True\<rparr>))"

definition uart_link_manager_is_synchronized :: "UartLinkManagerState \<Rightarrow> bool" where
  "uart_link_manager_is_synchronized l = link_synchronized l"

definition uart_link_manager_handle ::
  "'d MotorDriver \<Rightarrow> ProtocolFrame option \<Rightarrow> u32 \<Rightarrow> UartLinkManagerState \<Rightarrow> 'd Board \<Rightarrow>
     UartLinkManagerResult \<times> UartLinkManagerState \<times> 'd Board" where
  "uart_link_manager_handle drv frame now_ms l b =
     (case frame of
        None \<Rightarrow> (UART_LINK_MANAGER_RESULT_INVALID_ARGUMENT, l, b)
      | Some f \<Rightarrow>
          if \<not> link_initialized l then (UART_LINK_MANAGER_RESULT_NOT_INITIALIZED, l, b)
          else if message_type f = PROTOCOL_MESSAGE_TYPE_LINK_SYNC
          then uart_link_manager_handle_link_sync drv f now_ms l b
          else if message_type f = PROTOCOL_MESSAGE_TYPE_HEARTBEAT
          then uart_link_manager_handle_heartbeat drv f now_ms l b
          else (UART_LINK_MANAGER_RESULT_NOT_LINK_MESSAGE, l, b))"

definition uart_link_manager_update ::
  "'d MotorDriver \<Rightarrow> u32 \<Rightarrow> UartLinkManagerState \<Rightarrow> 'd Board \<Rightarrow>
     UartLinkManagerUpdate \<times> UartLinkManagerState \<times> 'd Board" where
  "uart_link_manager_update drv now_ms l b =
     (if \<not> link_initialized l \<or> \<not> link_synchronized l then (UART_LINK_MANAGER_UPDATE_NONE, l, b)
      else
        let elapsed_ms = now_ms - last_heartbeat_ms l
        in if elapsed_ms < heartbeat_timeout_ms l then (UART_LINK_MANAGER_UPDATE_NONE, l, b)
           else
             let (ok, l, b) = uart_link_manager_stop_and_clear drv l b
             in if \<not> ok then (UART_LINK_MANAGER_UPDATE_STOP_FAILED, l, b)
                else (UART_LINK_MANAGER_UPDATE_LINK_LOST, l, b))"

subsection \<open>Lemmas about the board\<close>

definition board_ready ::
  "('d \<Rightarrow> bool) \<Rightarrow> ('d \<Rightarrow> bool) \<Rightarrow> ('d \<Rightarrow> bool) \<Rightarrow> 'd Board \<Rightarrow> bool" where
  "board_ready driver_inv still ready b \<longleftrightarrow> guard_ready driver_inv still ready (board_guard b)"

abbreviation board_still :: "('d \<Rightarrow> bool) \<Rightarrow> 'd Board \<Rightarrow> bool" where
  "board_still still b \<equiv> still (guard_driver (board_guard b))"

abbreviation board_armed :: "'d Board \<Rightarrow> bool" where
  "board_armed b \<equiv> motion_watchdog_is_armed (guard_watchdog (board_guard b))"

definition board_halt :: "'d MotorDriver \<Rightarrow> 'd Board \<Rightarrow> 'd Board" where
  "board_halt drv b = b\<lparr>board_guard := snd (motion_command_guard_stop drv (board_guard b))\<rparr>"

lemma board_halt_frame [simp]:
  "board_tx (board_halt drv b) = board_tx b" "board_encoder (board_halt drv b) = board_encoder b"
  "board_stop (board_halt drv b) = board_stop b"
  by (simp_all add: board_halt_def)

lemma board_send_frame [simp]:
  "board_guard (snd (board_send f b)) = board_guard b"
  "board_encoder (snd (board_send f b)) = board_encoder b"
  "board_stop (snd (board_send f b)) = board_stop b"
  "tx_is_USART2 (board_tx (snd (board_send f b))) = tx_is_USART2 (board_tx b)"
  using send_frame_simps(1) [of "Some f" "board_tx b"]
  by (simp_all add: board_send_def case_prod_beta)

lemma board_send_call:
  assumes "frame_sendable f" and "tx_is_USART2 (board_tx b)"
  shows "fst (board_send f b) = tx_status (board_tx b) (length (tx_calls (board_tx b)))"
    and "tx_calls (board_tx (snd (board_send f b))) = tx_calls (board_tx b) @ [frame_wire f]"
  using assms by (simp_all add: board_send_def send_wire transmit_call_def)

lemma board_ready_frame [simp]:
  "board_ready driver_inv still ready (b\<lparr>board_tx := t\<rparr>) = board_ready driver_inv still ready b"
  "board_ready driver_inv still ready (b\<lparr>board_encoder := e\<rparr>) = board_ready driver_inv still ready b"
  "board_ready driver_inv still ready (b\<lparr>board_stop := s\<rparr>) = board_ready driver_inv still ready b"
  "board_ready driver_inv still ready (snd (board_send f b)) = board_ready driver_inv still ready b"
  by (simp_all add: board_ready_def)

context motor_driver_contract
begin

lemma board_halt_spec:
  assumes "board_ready driver_inv still ready b"
  shows "board_guard_stop ops b = (True, board_halt ops b)"
    and "board_ready driver_inv still ready (board_halt ops b)"
    and "board_still still (board_halt ops b)" and "\<not> board_armed (board_halt ops b)"
    and "wd_timeout_ms (guard_watchdog (board_guard (board_halt ops b))) = wd_timeout_ms (guard_watchdog (board_guard b))"
  using guard_stop_ready [of "board_guard b"] assms
  by (simp_all add: board_ready_def board_guard_stop_def board_halt_def motion_watchdog_is_armed_def
      case_prod_beta)

lemma stop_and_clear_spec:
  "board_ready driver_inv still ready b \<Longrightarrow>
     uart_link_manager_stop_and_clear ops l b = (True, l\<lparr>link_synchronized := False\<rparr>, board_halt ops b)"
  by (simp add: uart_link_manager_stop_and_clear_def board_halt_spec)

lemma board_driven_armed:
  "board_ready driver_inv still ready b \<Longrightarrow> board_still still b \<or> board_armed b"
  using guard_readyD(6) [of "board_guard b"] by (simp add: board_ready_def motion_watchdog_is_armed_def)

end

subsection \<open>What the link manager guarantees\<close>

text \<open>The answers to a synchronization request and to a heartbeat.\<close>

definition link_sync_ok_frame :: "ProtocolFrame \<Rightarrow> ProtocolFrame" where
  "link_sync_ok_frame f = zero_frame\<lparr>message_type := PROTOCOL_MESSAGE_TYPE_LINK_SYNC_OK,
     frame_sequence := frame_sequence f, payload_length := of_nat LINK_SYNC_WIRE_SIZE,
     payload := buffer_write 0 (link_sync_encode (link_sync_decode (payload f))) (payload zero_frame)\<rparr>"

definition heartbeat_answer :: "u16 \<Rightarrow> u8 \<Rightarrow> u32 \<Rightarrow> ProtocolFrame" where
  "heartbeat_answer sequence state now = zero_frame\<lparr>message_type := PROTOCOL_MESSAGE_TYPE_HEARTBEAT,
     frame_sequence := sequence, payload_length := of_nat HEARTBEAT_WIRE_SIZE,
     payload := buffer_write 0 (heartbeat_encode \<lparr>hb_link_state = state, hb_uptime_ms = now\<rparr>) (payload zero_frame)\<rparr>"

lemma link_frames_sendable [simp]:
  "frame_sendable (link_sync_ok_frame f)" "frame_sendable (heartbeat_answer sq s now)"
  by (simp_all add: link_sync_ok_frame_def heartbeat_answer_def frame_sendable_def frame_wf_def zero_frame_def
      link_sync.enc_length heartbeat.enc_length)

lemma send_heartbeat_answer:
  "uart_link_manager_send_heartbeat sq s now b = board_send (heartbeat_answer sq s now) b"
  by (simp add: uart_link_manager_send_heartbeat_def heartbeat_answer_def Let_def)

lemma link_route:
  "protocol_ingress_route (Some f) = PROTOCOL_INGRESS_ROUTE_LINK_SYNC \<longleftrightarrow>
     message_type f = PROTOCOL_MESSAGE_TYPE_LINK_SYNC \<and> unat (payload_length f) = LINK_SYNC_WIRE_SIZE"
  "protocol_ingress_route (Some f) = PROTOCOL_INGRESS_ROUTE_HEARTBEAT \<longleftrightarrow>
     message_type f = PROTOCOL_MESSAGE_TYPE_HEARTBEAT \<and> unat (payload_length f) = HEARTBEAT_WIRE_SIZE"
  by auto

text \<open>
  The three outcomes of a link message: the link is (again) synchronized and the motors
  stand; a heartbeat is accepted and nothing else changes; or the link is not synchronized
  and the motors stand, provided they stood while it was not.
\<close>

definition link_step_safe ::
  "('d \<Rightarrow> bool) \<Rightarrow> UartLinkManagerResult \<Rightarrow> u32 \<Rightarrow> UartLinkManagerState \<Rightarrow> 'd Board \<Rightarrow>
     UartLinkManagerState \<Rightarrow> 'd Board \<Rightarrow> bool" where
  "link_step_safe still res now l b l' b' \<longleftrightarrow>
     (if res = UART_LINK_MANAGER_RESULT_SYNCHRONIZED
      then link_synchronized l' \<and> last_heartbeat_ms l' = now \<and> board_still still b'
      else if res = UART_LINK_MANAGER_RESULT_HEARTBEAT_ACCEPTED
      then link_synchronized l \<and> link_synchronized l' \<and> last_heartbeat_ms l' = now \<and> board_guard b' = board_guard b
      else \<not> link_synchronized l' \<and> (board_still still b' \<or> \<not> link_synchronized l \<and> board_guard b' = board_guard b))"

text \<open>What a link message leaves alone.\<close>

definition board_same :: "'d Board \<Rightarrow> 'd Board \<Rightarrow> bool" where
  "board_same b b' \<longleftrightarrow> board_stop b' = board_stop b \<and> board_encoder b' = board_encoder b \<and>
     tx_is_USART2 (board_tx b') = tx_is_USART2 (board_tx b) \<and>
     wd_timeout_ms (guard_watchdog (board_guard b')) = wd_timeout_ms (guard_watchdog (board_guard b))"

context motor_driver_contract
begin

lemma handle_link_sync_spec:
  assumes "board_ready driver_inv still ready b" and "message_type f = PROTOCOL_MESSAGE_TYPE_LINK_SYNC"
  shows "uart_link_manager_handle_link_sync ops f now l b =
    (let sent = board_send (link_sync_ok_frame f) (board_halt ops b)
     in if unat (payload_length f) \<noteq> LINK_SYNC_WIRE_SIZE
        then (UART_LINK_MANAGER_RESULT_INVALID_LINK_SYNC, l\<lparr>link_synchronized := False\<rparr>, board_halt ops b)
        else if \<not> fst sent
        then (UART_LINK_MANAGER_RESULT_TRANSMIT_FAILED, l\<lparr>link_synchronized := False\<rparr>, snd sent)
        else (UART_LINK_MANAGER_RESULT_SYNCHRONIZED, l\<lparr>link_synchronized := True, last_heartbeat_ms := now\<rparr>, snd sent))"
  using assms stop_and_clear_spec [OF assms(1), of l]
  by (cases l) (simp add: uart_link_manager_handle_link_sync_def link_route link_sync_ok_frame_def Let_def case_prod_beta)

lemma link_handle_safe:
  assumes "board_ready driver_inv still ready b" and "link_initialized l"
    and "message_type f \<in> {PROTOCOL_MESSAGE_TYPE_LINK_SYNC, PROTOCOL_MESSAGE_TYPE_HEARTBEAT}"
    and "uart_link_manager_handle ops (Some f) now l b = (res, l', b')"
  shows "link_step_safe still res now l b l' b' \<and> board_ready driver_inv still ready b' \<and>
    res \<noteq> UART_LINK_MANAGER_RESULT_STOP_FAILED \<and> link_initialized l' \<and>
    heartbeat_timeout_ms l' = heartbeat_timeout_ms l \<and> board_same b b'"
proof (cases "message_type f = PROTOCOL_MESSAGE_TYPE_LINK_SYNC")
  case True
  then show ?thesis
    using assms(2,4) handle_link_sync_spec [OF assms(1) True, of now l] board_halt_spec [OF assms(1)]
    by (auto simp: uart_link_manager_handle_def link_step_safe_def board_same_def Let_def split: if_splits)
next
  case False
  with assms(3) have hb: "message_type f = PROTOCOL_MESSAGE_TYPE_HEARTBEAT" by simp
  have ready': "board_ready driver_inv still ready (snd (board_send g b))" for g
    using assms(1) by simp
  show ?thesis
    using assms(1,2,4) hb board_halt_spec [OF assms(1)] board_halt_spec [OF ready'] stop_and_clear_spec [OF ready']
      stop_and_clear_spec [OF assms(1)]
    by (auto simp: uart_link_manager_handle_def uart_link_manager_handle_heartbeat_def send_heartbeat_answer
        link_step_safe_def board_same_def Let_def case_prod_beta split: if_splits)
qed

lemma link_update_spec:
  assumes "board_ready driver_inv still ready b" and "link_initialized l"
  shows "uart_link_manager_update ops now l b =
    (if link_synchronized l \<and> heartbeat_timeout_ms l \<le> now - last_heartbeat_ms l
     then (UART_LINK_MANAGER_UPDATE_LINK_LOST, l\<lparr>link_synchronized := False\<rparr>, board_halt ops b)
     else (UART_LINK_MANAGER_UPDATE_NONE, l, b))"
  using assms stop_and_clear_spec [OF assms(1), of l]
  by (auto simp: uart_link_manager_update_def not_less Let_def)

end

subsection \<open>Properties\<close>

text \<open>The board of the firmware, with the DRI0041 driver.\<close>

abbreviation stm32_ready :: "Dri0041 Board \<Rightarrow> bool" where
  "stm32_ready \<equiv> board_ready dri0041_inv dri0041_still dri0041_ready"

abbreviation wheels_still :: "Dri0041 Board \<Rightarrow> bool" where
  "wheels_still \<equiv> board_still dri0041_still"

definition sample_board :: "Dri0041 Board" where
  "sample_board = \<lparr>board_guard = snd (motion_command_guard_init dri0041 250 sample_guard),
     board_tx = sample_tx, board_encoder = sample_encoder, board_stop = zero_stop_state\<rparr>"

lemma sample_board_ready: "stm32_ready sample_board" "wheels_still sample_board"
proof -
  have "motion_command_guard_init dri0041 250 sample_guard = (True, board_guard sample_board)"
    using sample_guard_init by (simp add: sample_board_def prod_eq_iff)
  from dri0041_driver.guard_init_wf [OF this] show "stm32_ready sample_board" "wheels_still sample_board"
    by (simp_all add: board_ready_def guard_ready_def)
qed

definition sample_link :: UartLinkManagerState where
  "sample_link = snd (uart_link_manager_init 1000)"

text \<open>
  C17: Every link message ends in one of three ways. Only a synchronization that was answered
  and a heartbeat accepted on a synchronized link leave the link synchronized, and both
  restart the heartbeat deadline; after anything but an accepted heartbeat (a
  synchronization request, a malformed or unsynchronized heartbeat, an answer that could
  not be sent) the wheels stand still, given that they did while the link was not
  synchronized. Stopping never fails.
\<close>

theorem link_message_outcome:
  assumes "stm32_ready b" and "link_initialized l" and "\<not> link_synchronized l \<longrightarrow> wheels_still b"
    and "message_type f \<in> {PROTOCOL_MESSAGE_TYPE_LINK_SYNC, PROTOCOL_MESSAGE_TYPE_HEARTBEAT}"
    and "uart_link_manager_handle dri0041 (Some f) now l b = (res, l', b')"
  shows "(link_synchronized l' \<longleftrightarrow>
      res \<in> {UART_LINK_MANAGER_RESULT_SYNCHRONIZED, UART_LINK_MANAGER_RESULT_HEARTBEAT_ACCEPTED}) \<and>
    (link_synchronized l' \<longrightarrow> last_heartbeat_ms l' = now) \<and>
    (res = UART_LINK_MANAGER_RESULT_HEARTBEAT_ACCEPTED \<longrightarrow> link_synchronized l) \<and>
    (res \<noteq> UART_LINK_MANAGER_RESULT_HEARTBEAT_ACCEPTED \<longrightarrow> wheels_still b') \<and>
    res \<noteq> UART_LINK_MANAGER_RESULT_STOP_FAILED \<and> stm32_ready b'"
  using dri0041_driver.link_handle_safe [OF assms(1,2,4,5)] assms(3)
  by (auto simp: link_step_safe_def split: if_splits)

lemma link_message_outcome_witness:
  "\<exists>res l' b'. uart_link_manager_handle dri0041 (Some (zero_frame\<lparr>message_type := PROTOCOL_MESSAGE_TYPE_LINK_SYNC\<rparr>))
      7 sample_link sample_board = (res, l', b') \<and> wheels_still b'"
proof -
  let ?f = "zero_frame\<lparr>message_type := PROTOCOL_MESSAGE_TYPE_LINK_SYNC\<rparr>"
  obtain res l' b' where h: "uart_link_manager_handle dri0041 (Some ?f) 7 sample_link sample_board = (res, l', b')"
    using prod_cases3 by blast
  have l: "link_initialized sample_link" by (simp add: sample_link_def uart_link_manager_init_def)
  have "res \<noteq> UART_LINK_MANAGER_RESULT_HEARTBEAT_ACCEPTED"
    using h l dri0041_driver.handle_link_sync_spec [OF sample_board_ready(1), of ?f 7 sample_link]
    by (auto simp: uart_link_manager_handle_def Let_def split: if_splits)
  with link_message_outcome [OF sample_board_ready(1) l _ _ h] sample_board_ready(2) h show ?thesis by auto
qed

text \<open>
  The synchronization handshake. A well-formed request is answered by one frame that a
  peer decodes as the confirmation with the request's token and sequence number; the link
  is synchronized afterwards if and only if the transmission was reported successful, and
  the wheels stand still when it is.
\<close>

theorem link_sync_handshake:
  assumes "stm32_ready b" and "tx_is_USART2 (board_tx b)" and "link_initialized l" and "decoder_idle d"
    and "message_type f = PROTOCOL_MESSAGE_TYPE_LINK_SYNC" and "unat (payload_length f) = LINK_SYNC_WIRE_SIZE"
    and "uart_link_manager_handle dri0041 (Some f) now l b = (res, l', b')"
  shows "\<exists>bytes g d'. tx_calls (board_tx b') = tx_calls (board_tx b) @ [bytes] \<and>
    decoder_feed_all bytes d = ([g], d') \<and>
    protocol_ingress_route (Some g) = PROTOCOL_INGRESS_ROUTE_LINK_SYNC_OK \<and>
    frame_sequence g = frame_sequence f \<and> link_sync_decode (payload g) = link_sync_decode (payload f) \<and>
    (link_synchronized l' \<longleftrightarrow> tx_status (board_tx b) (length (tx_calls (board_tx b)))) \<and> wheels_still b'"
proof -
  let ?h = "board_halt dri0041 b" and ?r = "link_sync_ok_frame f"
  have h: "tx_is_USART2 (board_tx ?h)" using assms(2) by simp
  note call = board_send_call [OF link_frames_sendable(1) h, of f]
  have out: "b' = snd (board_send ?r ?h)" "link_synchronized l' \<longleftrightarrow> fst (board_send ?r ?h)"
    using assms(3,5,6,7) dri0041_driver.handle_link_sync_spec [OF assms(1,5), of now l]
    by (auto simp: uart_link_manager_handle_def Let_def split: if_splits)
  have "\<exists>g d'. decoder_feed_all (frame_wire ?r) d = ([g], d') \<and> decoder_idle d' \<and>
      message_type g = message_type ?r \<and> frame_sequence g = frame_sequence ?r \<and>
      payload_length g = of_nat LINK_SYNC_WIRE_SIZE \<and> link_sync_decode (payload g) = link_sync_decode (payload f)"
    using assms(4) link_frames_sendable(1) [of f]
    by (intro link_sync_frame.message_delivered)
       (simp_all add: frame_sendable_def link_sync_ok_frame_def link_sync.enc_length)
  then obtain g d' where "decoder_feed_all (frame_wire ?r) d = ([g], d')"
    "message_type g = PROTOCOL_MESSAGE_TYPE_LINK_SYNC_OK" "frame_sequence g = frame_sequence f"
    "payload_length g = of_nat LINK_SYNC_WIRE_SIZE" "link_sync_decode (payload g) = link_sync_decode (payload f)"
    by (auto simp: link_sync_ok_frame_def)
  with call out dri0041_driver.board_halt_spec(3) [OF assms(1)] show ?thesis
    by (intro exI [of _ "frame_wire ?r"] exI [of _ g] exI [of _ d']) simp
qed

text \<open>
  The heartbeat deadline is exact. If the last accepted heartbeat was \<open>d\<close> milliseconds ago,
  the update declares the link lost if and only if \<open>d\<close> reached the timeout, across the wrap
  of the clock; then the link is not synchronized and the wheels stand still; otherwise
  nothing changes.
\<close>

lemma heartbeat_deadline:
  assumes "stm32_ready b" and "link_initialized l" and "link_synchronized l"
    and "d < 2 ^ 32" and "now = last_heartbeat_ms l + of_nat d"
    and "uart_link_manager_update dri0041 now l b = (u, l', b')"
  shows "if unat (heartbeat_timeout_ms l) \<le> d
    then u = UART_LINK_MANAGER_UPDATE_LINK_LOST \<and> \<not> link_synchronized l' \<and> wheels_still b'
    else u = UART_LINK_MANAGER_UPDATE_NONE \<and> l' = l \<and> b' = b"
  using dri0041_driver.link_update_spec [OF assms(1,2), of now] assms(3,6)
    dri0041_driver.board_halt_spec(3) [OF assms(1)]
    elapsed_ge_iff [OF assms(4), of "heartbeat_timeout_ms l" "last_heartbeat_ms l"]
  by (auto simp: assms(5))

lemma heartbeat_deadline_witness:
  "fst (uart_link_manager_update dri0041 (0xFFFFFF00 + of_nat 1000)
      (sample_link\<lparr>link_synchronized := True, last_heartbeat_ms := 0xFFFFFF00\<rparr>) sample_board) =
    UART_LINK_MANAGER_UPDATE_LINK_LOST"
proof -
  let ?l = "sample_link\<lparr>link_synchronized := True, last_heartbeat_ms := 0xFFFFFF00\<rparr>"
  obtain u l' b' where h: "uart_link_manager_update dri0041 (0xFFFFFF00 + of_nat 1000) ?l sample_board = (u, l', b')"
    using prod_cases3 by blast
  have "link_initialized ?l" "unat (heartbeat_timeout_ms ?l) = 1000" "link_synchronized ?l"
    "last_heartbeat_ms ?l = 0xFFFFFF00"
    by (simp_all add: sample_link_def uart_link_manager_init_def)
  with heartbeat_deadline [OF sample_board_ready(1) _ _ _ _ h, of 1000] h show ?thesis by simp
qed

end
