(* ===== verification/Motion_Manager.thy ===== *)
theory Motion_Manager
  imports Link_Manager Motion_Frames Lifecycle_Properties Feedforward
begin

section \<open>The motion protocol manager (App/Src/stm32\_motion\_protocol\_manager.c)\<close>

text \<open>
  The manager connects the session lifecycle to the wheels: it lets the coordinator decide
  about command frames, sends the frames of the coordinator's action, carries out its stop
  operations with the command guard and the encoder-based stop detection, and passes
  velocity commands of the active session to the guard. Its operations work on the manager
  and on the board; \<open>tick\<close> is what the tick counter reads inside the motor driver.
\<close>

datatype Stm32MotionProtocolManagerResult =
    STM32_MOTION_PROTOCOL_MANAGER_RESULT_INVALID_ARGUMENT
  | STM32_MOTION_PROTOCOL_MANAGER_RESULT_NOT_INITIALIZED
  | STM32_MOTION_PROTOCOL_MANAGER_RESULT_NOT_SYNCHRONIZED
  | STM32_MOTION_PROTOCOL_MANAGER_RESULT_NOT_MOTION_MESSAGE
  | STM32_MOTION_PROTOCOL_MANAGER_RESULT_NO_ACTIVE_SESSION
  | STM32_MOTION_PROTOCOL_MANAGER_RESULT_SESSION_MISMATCH
  | STM32_MOTION_PROTOCOL_MANAGER_RESULT_CONVERSION_FAILED
  | STM32_MOTION_PROTOCOL_MANAGER_RESULT_APPLY_FAILED
  | STM32_MOTION_PROTOCOL_MANAGER_RESULT_PROCESSED
  | STM32_MOTION_PROTOCOL_MANAGER_RESULT_STOP_PENDING
  | STM32_MOTION_PROTOCOL_MANAGER_RESULT_STOP_FAILED
  | STM32_MOTION_PROTOCOL_MANAGER_RESULT_TRANSMIT_FAILED

record Stm32MotionProtocolManager =
  mgr_initialized :: bool
  mgr_coordinator :: MotionLifecycleCoordinator
  pending_stop_operation_id :: u32
  stop_confirmation_started :: bool
  mgr_feedforward :: WheelVelocityFeedforwardConfig

text \<open>The zeroed struct; a zeroed coordinator is an initialized one.\<close>

definition zero_manager :: Stm32MotionProtocolManager where
  "zero_manager = \<lparr>mgr_initialized = False, mgr_coordinator = motion_lifecycle_coordinator_init,
     pending_stop_operation_id = 0, stop_confirmation_started = False,
     mgr_feedforward = \<lparr>max_velocity_mm_s = 0, minimum_start_command = 0\<rparr>\<rparr>"

definition process_action ::
  "'d MotorDriver \<Rightarrow> MotionLifecycleAction \<Rightarrow> Stm32MotionProtocolManager \<Rightarrow> 'd Board \<Rightarrow>
     Stm32MotionProtocolManagerResult \<times> Stm32MotionProtocolManager \<times> 'd Board" where
  "process_action drv action m b =
     (let frames = motion_command_frames_build action;
          (ack_ok, b) = (if ack_valid frames then board_send (ack_frame frames) b else (True, b));
          (response_ok, b) = (if response_valid frames then board_send (response_frame frames) b else (True, b));
          transmit_failed = (\<not> ack_ok \<or> \<not> response_ok)
      in if act_operation action = MOTION_LIFECYCLE_OPERATION_ENSURE_STOPPED then
           let m = m\<lparr>pending_stop_operation_id := act_operation_id action,
                     stop_confirmation_started := False\<rparr>;
               (stopped, b) = board_guard_stop drv b
           in if \<not> stopped then
                (if transmit_failed then (STM32_MOTION_PROTOCOL_MANAGER_RESULT_TRANSMIT_FAILED, m, b)
                 else (STM32_MOTION_PROTOCOL_MANAGER_RESULT_STOP_PENDING, m, b))
              else if transmit_failed then (STM32_MOTION_PROTOCOL_MANAGER_RESULT_TRANSMIT_FAILED, m, b)
              else (STM32_MOTION_PROTOCOL_MANAGER_RESULT_STOP_PENDING, m, b)
         else
           (if transmit_failed then STM32_MOTION_PROTOCOL_MANAGER_RESULT_TRANSMIT_FAILED
            else STM32_MOTION_PROTOCOL_MANAGER_RESULT_PROCESSED, m, b))"

definition stm32_motion_protocol_manager_init ::
  "Stm32MotionProtocolManager option \<Rightarrow> WheelVelocityFeedforwardConfig option \<Rightarrow>
     bool \<times> Stm32MotionProtocolManager option" where
  "stm32_motion_protocol_manager_init manager config =
     (case manager of
        None \<Rightarrow> (False, None)
      | Some _ \<Rightarrow>
          let m = zero_manager
          in case config of
               None \<Rightarrow> (False, Some m)
             | Some cfg \<Rightarrow>
                 if max_velocity_mm_s cfg = 0 \<or> unat (minimum_start_command cfg) > 1000
                 then (False, Some m)
                 else (True, Some (m\<lparr>mgr_coordinator := motion_lifecycle_coordinator_init,
                        mgr_feedforward := cfg, mgr_initialized := True\<rparr>)))"

definition stm32_motion_protocol_manager_reset ::
  "Stm32MotionProtocolManager option \<Rightarrow> 'd Board \<Rightarrow> Stm32MotionProtocolManager option \<times> 'd Board" where
  "stm32_motion_protocol_manager_reset manager b =
     (case manager of
        None \<Rightarrow> (None, b)
      | Some m \<Rightarrow>
          if \<not> mgr_initialized m then (Some m, b)
          else
            let m = m\<lparr>mgr_coordinator := motion_lifecycle_coordinator_reset (mgr_coordinator m)\<rparr>;
                b = b\<lparr>board_stop := motion_stop_cancel\<rparr>;
                m = m\<lparr>pending_stop_operation_id := 0, stop_confirmation_started := False\<rparr>
            in (Some m, b))"

subsection \<open>Received frames\<close>

definition manager_handle_command ::
  "'d MotorDriver \<Rightarrow> ProtocolFrame \<Rightarrow> Stm32MotionProtocolManager \<Rightarrow> 'd Board \<Rightarrow>
     Stm32MotionProtocolManagerResult \<times> Stm32MotionProtocolManager \<times> 'd Board" where
  "manager_handle_command drv frame m b =
     (let p = motion_lifecycle_command_decode (payload frame);
          transaction = \<lparr>tx_sequence = frame_sequence frame, tx_command = lc_command p,
                         tx_motion_session_id = lc_motion_session_id p\<rparr>;
          (action, c) = motion_lifecycle_coordinator_handle_transaction (mgr_coordinator m) transaction
      in process_action drv action (m\<lparr>mgr_coordinator := c\<rparr>) b)"

definition manager_handle_velocity ::
  "'d MotorDriver \<Rightarrow> u32 \<Rightarrow> ProtocolFrame \<Rightarrow> u32 \<Rightarrow> Stm32MotionProtocolManager \<Rightarrow> 'd Board \<Rightarrow>
     Stm32MotionProtocolManagerResult \<times> Stm32MotionProtocolManager \<times> 'd Board" where
  "manager_handle_velocity drv tick frame now_ms m b =
     (if lifecycle_state (mgr_coordinator m) \<noteq> MOTION_LIFECYCLE_STATE_ACTIVE
      then (STM32_MOTION_PROTOCOL_MANAGER_RESULT_NO_ACTIVE_SESSION, m, b)
      else
        let p = wheel_velocity_payload_decode (payload frame)
        in if wv_motion_session_id p \<noteq> motion_session_id (mgr_coordinator m)
           then (STM32_MOTION_PROTOCOL_MANAGER_RESULT_SESSION_MISMATCH, m, b)
           else case wheel_velocity_feedforward_convert (Some (mgr_feedforward m)) (Some (wv_command p)) of
                  None \<Rightarrow> (STM32_MOTION_PROTOCOL_MANAGER_RESULT_CONVERSION_FAILED, m, b)
                | Some motor_command \<Rightarrow>
                    let (ok, g) = motion_command_guard_apply drv tick (Some motor_command) now_ms (board_guard b);
                        b = b\<lparr>board_guard := g\<rparr>
                    in if \<not> ok then (STM32_MOTION_PROTOCOL_MANAGER_RESULT_APPLY_FAILED, m, b)
                       else (STM32_MOTION_PROTOCOL_MANAGER_RESULT_PROCESSED, m, b))"

definition stm32_motion_protocol_manager_handle ::
  "'d MotorDriver \<Rightarrow> u32 \<Rightarrow> ProtocolFrame option \<Rightarrow> bool \<Rightarrow> u32 \<Rightarrow> Stm32MotionProtocolManager option \<Rightarrow> 'd Board \<Rightarrow>
     Stm32MotionProtocolManagerResult \<times> Stm32MotionProtocolManager option \<times> 'd Board" where
  "stm32_motion_protocol_manager_handle drv tick frame synchronized now_ms manager b =
     (case (manager, frame) of
        (Some m, Some f) \<Rightarrow>
          if \<not> mgr_initialized m then (STM32_MOTION_PROTOCOL_MANAGER_RESULT_NOT_INITIALIZED, manager, b)
          else
            let route = protocol_ingress_route frame
            in if route \<noteq> PROTOCOL_INGRESS_ROUTE_MOTION_COMMAND \<and> route \<noteq> PROTOCOL_INGRESS_ROUTE_WHEEL_VELOCITY
               then (STM32_MOTION_PROTOCOL_MANAGER_RESULT_NOT_MOTION_MESSAGE, manager, b)
               else if \<not> synchronized then (STM32_MOTION_PROTOCOL_MANAGER_RESULT_NOT_SYNCHRONIZED, manager, b)
               else
                 let (res, m, b) =
                   (if route = PROTOCOL_INGRESS_ROUTE_MOTION_COMMAND then manager_handle_command drv f m b
                    else manager_handle_velocity drv tick f now_ms m b)
                 in (res, Some m, b)
      | _ \<Rightarrow> (STM32_MOTION_PROTOCOL_MANAGER_RESULT_INVALID_ARGUMENT, manager, b))"

subsection \<open>Periodic update\<close>

text \<open>The stop operation reported its completion.\<close>

definition manager_complete ::
  "'d MotorDriver \<Rightarrow> u32 \<Rightarrow> MotionLifecycleOperationResult \<Rightarrow> Stm32MotionProtocolManager \<Rightarrow> 'd Board \<Rightarrow>
     Stm32MotionProtocolManagerResult \<times> Stm32MotionProtocolManager \<times> 'd Board" where
  "manager_complete drv operation_id result m b =
     (let (action, c) = motion_lifecycle_coordinator_complete_operation (mgr_coordinator m) operation_id result
      in process_action drv action (m\<lparr>mgr_coordinator := c\<rparr>) b)"

definition manager_poll_stop ::
  "'d MotorDriver \<Rightarrow> u32 \<Rightarrow> Stm32MotionProtocolManager \<Rightarrow> 'd Board \<Rightarrow>
     Stm32MotionProtocolManagerResult \<times> Stm32MotionProtocolManager \<times> 'd Board" where
  "manager_poll_stop drv now_ms m b =
     (let (completion, enc, s) = motion_stop_update now_ms (board_encoder b) (board_stop b);
          b = b\<lparr>board_encoder := enc, board_stop := s\<rparr>
      in if \<not> stop_completed completion then (STM32_MOTION_PROTOCOL_MANAGER_RESULT_STOP_PENDING, m, b)
         else
           let m = m\<lparr>pending_stop_operation_id := 0, stop_confirmation_started := False\<rparr>;
               result = (if stop_result completion = MOTION_STOP_RESULT_SUCCESS
                         then MOTION_LIFECYCLE_OPERATION_RESULT_SUCCESS
                         else MOTION_LIFECYCLE_OPERATION_RESULT_FAILED);
               (res, m, b) = manager_complete drv (stop_operation_id completion) result m b
           in if res = STM32_MOTION_PROTOCOL_MANAGER_RESULT_TRANSMIT_FAILED then (res, m, b)
              else if stop_result completion = MOTION_STOP_RESULT_SUCCESS then (res, m, b)
              else (STM32_MOTION_PROTOCOL_MANAGER_RESULT_STOP_FAILED, m, b))"

definition stm32_motion_protocol_manager_update ::
  "'d MotorDriver \<Rightarrow> u32 \<Rightarrow> Stm32MotionProtocolManager option \<Rightarrow> 'd Board \<Rightarrow>
     Stm32MotionProtocolManagerResult \<times> Stm32MotionProtocolManager option \<times> 'd Board" where
  "stm32_motion_protocol_manager_update drv now_ms manager b =
     (case manager of
        None \<Rightarrow> (STM32_MOTION_PROTOCOL_MANAGER_RESULT_INVALID_ARGUMENT, None, b)
      | Some m \<Rightarrow>
          if \<not> mgr_initialized m then (STM32_MOTION_PROTOCOL_MANAGER_RESULT_NOT_INITIALIZED, Some m, b)
          else
            let (guard_update, g) = motion_command_guard_update drv now_ms (board_guard b);
                b = b\<lparr>board_guard := g\<rparr>
            in if guard_update = MOTION_COMMAND_GUARD_UPDATE_STOP_FAILED
               then (STM32_MOTION_PROTOCOL_MANAGER_RESULT_STOP_FAILED, Some m, b)
               else if pending_stop_operation_id m = 0
               then (STM32_MOTION_PROTOCOL_MANAGER_RESULT_PROCESSED, Some m, b)
               else if \<not> stop_confirmation_started m then
                 let (begun, enc, s) = motion_stop_begin (pending_stop_operation_id m) now_ms
                                         (board_encoder b) (board_stop b);
                     b = b\<lparr>board_encoder := enc, board_stop := s\<rparr>
                 in if \<not> begun then
                      let operation_id = pending_stop_operation_id m;
                          m = m\<lparr>pending_stop_operation_id := 0\<rparr>;
                          (res, m, b) = manager_complete drv operation_id
                                          MOTION_LIFECYCLE_OPERATION_RESULT_FAILED m b
                      in if res = STM32_MOTION_PROTOCOL_MANAGER_RESULT_TRANSMIT_FAILED then (res, Some m, b)
                         else (STM32_MOTION_PROTOCOL_MANAGER_RESULT_STOP_FAILED, Some m, b)
                    else
                      let (res, m, b) = manager_poll_stop drv now_ms (m\<lparr>stop_confirmation_started := True\<rparr>) b
                      in (res, Some m, b)
               else
                 let (res, m, b) = manager_poll_stop drv now_ms m b
                 in (res, Some m, b))"

end
