(* ===== verification/Manager_Correctness.thy ===== *)
theory Manager_Correctness
  imports Motion_Manager
begin

section \<open>Correctness of the motion protocol manager\<close>

text \<open>
  The invariant of the manager and the board, kept by every operation: the pending stop
  operation is the coordinator's active one, the stop detection runs exactly while its
  completion is awaited, and the wheels are driven only in an active session.
\<close>

definition manager_inv ::
  "('d \<Rightarrow> bool) \<Rightarrow> ('d \<Rightarrow> bool) \<Rightarrow> ('d \<Rightarrow> bool) \<Rightarrow> Stm32MotionProtocolManager \<Rightarrow> 'd Board \<Rightarrow> bool" where
  "manager_inv driver_inv still ready m b \<longleftrightarrow>
     board_ready driver_inv still ready b \<and> mgr_initialized m \<and> coordinator_wf (mgr_coordinator m) \<and>
     config_valid (mgr_feedforward m) \<and>
     pending_stop_operation_id m = active_operation_id (mgr_coordinator m) \<and>
     (if stop_confirmation_started m
      then stop_active (board_stop b) \<and> stop_op_id (board_stop b) = pending_stop_operation_id m \<and>
           pending_stop_operation_id m \<noteq> 0
      else \<not> stop_active (board_stop b)) \<and>
     (\<not> board_still still b \<longrightarrow> lifecycle_state (mgr_coordinator m) = MOTION_LIFECYCLE_STATE_ACTIVE)"

lemma session_active: "session_of c = Active a \<longleftrightarrow>
    lifecycle_state c = MOTION_LIFECYCLE_STATE_ACTIVE \<and> motion_session_id c = a"
  by (simp add: session_of.simps split: MotionLifecycleState.splits)

lemma session_none: "session_of c = No_Session \<longleftrightarrow> lifecycle_state c = MOTION_LIFECYCLE_STATE_NO_SESSION"
  by (simp add: session_of.simps split: MotionLifecycleState.splits)

lemma active_no_operation:
  "coordinator_wf c \<Longrightarrow> lifecycle_state c = MOTION_LIFECYCLE_STATE_ACTIVE \<Longrightarrow> active_operation_id c = 0"
  using session_active [of c "motion_session_id c"] by (auto simp: coordinator_wf_def)

lemma coordinator_reset_simps [simp]:
  "lifecycle_state (motion_lifecycle_coordinator_reset c) = MOTION_LIFECYCLE_STATE_NO_SESSION"
  "active_operation_id (motion_lifecycle_coordinator_reset c) = 0"
  by (simp_all add: motion_lifecycle_coordinator_reset_def)

text \<open>What an action of the coordinator asks for.\<close>

lemma handle_action:
  assumes "coordinator_wf c" and "motion_lifecycle_coordinator_handle_transaction c t = (a, c')"
  shows "coordinator_wf c'"
    and "act_operation a = MOTION_LIFECYCLE_OPERATION_ENSURE_STOPPED \<Longrightarrow>
      act_operation_id a = active_operation_id c' \<and> act_operation_id a \<noteq> 0 \<and> active_operation_id c = 0"
    and "act_operation a \<noteq> MOTION_LIFECYCLE_OPERATION_ENSURE_STOPPED \<Longrightarrow>
      active_operation_id c' = active_operation_id c \<and>
      (lifecycle_state c = MOTION_LIFECYCLE_STATE_ACTIVE \<longrightarrow> lifecycle_state c' = MOTION_LIFECYCLE_STATE_ACTIVE)"
proof -
  show "coordinator_wf c'" using coordinator_wf_handle [OF assms(1), of t] assms(2) by simp
  obtain v s where vs: "session_on_command (session_of c) t = (v, s)" by fastforce
  note verdict = session_verdicts [OF vs]
  have new: "carry_out (v, s) t c = (a, c')" if "decision c t = MOTION_RELIABLE_DECISION_NEW"
    using assms(2) handle_new [OF that] vs by simp
  have old: "c' = c \<and> act_operation a = MOTION_LIFECYCLE_OPERATION_NONE"
    if "decision c t \<noteq> MOTION_RELIABLE_DECISION_NEW"
    using assms(2) that by (cases "decision c t") (auto simp: handle_retry handle_ignored)
  have idle: "active_operation_id c = 0" if "\<not> stopping (session_of c)"
    using assms(1) that by (simp add: coordinator_wf_def)
  show "act_operation_id a = active_operation_id c' \<and> act_operation_id a \<noteq> 0 \<and> active_operation_id c = 0"
    if "act_operation a = MOTION_LIFECYCLE_OPERATION_ENSURE_STOPPED"
    using that old new verdict carry_out_operation [of v s t c a c'] idle
    by (cases "decision c t = MOTION_RELIABLE_DECISION_NEW") auto
  show "active_operation_id c' = active_operation_id c \<and>
      (lifecycle_state c = MOTION_LIFECYCLE_STATE_ACTIVE \<longrightarrow> lifecycle_state c' = MOTION_LIFECYCLE_STATE_ACTIVE)"
    if none: "act_operation a \<noteq> MOTION_LIFECYCLE_OPERATION_ENSURE_STOPPED"
  proof (cases "decision c t = MOTION_RELIABLE_DECISION_NEW")
    case True
    with none new carry_out_operation(1) [of v s t c a c'] have "v \<noteq> Begin" by simp
    with verdict new [OF True] session_active [of c "motion_session_id c"] show ?thesis
      by (cases v) (auto simp: Let_def)
  qed (use old in simp)
qed

lemma complete_action:
  assumes "coordinator_wf c" and "motion_lifecycle_coordinator_complete_operation c i r = (a, c')"
    and "i = active_operation_id c" and "i \<noteq> 0"
  shows "coordinator_wf c'" and "active_operation_id c' = 0" and "act_operation a = MOTION_LIFECYCLE_OPERATION_NONE"
    and "send_response a" and "response_transaction a = pending_transaction (reliable_receiver c)"
proof -
  obtain res s where "session_on_stopped (session_of c) r = (res, s)" by fastforce
  from complete_active [OF assms(1,3,4) this] assms(2)
  show "active_operation_id c' = 0" "act_operation a = MOTION_LIFECYCLE_OPERATION_NONE" "send_response a"
    "response_transaction a = pending_transaction (reliable_receiver c)" by auto
  show "coordinator_wf c'" using coordinator_wf_complete [OF assms(1), of i r] assms(2) by simp
qed

text \<open>A driven wheel has a command younger than the timeout.\<close>

definition board_fresh :: "('d \<Rightarrow> bool) \<Rightarrow> u32 \<Rightarrow> 'd Board \<Rightarrow> bool" where
  "board_fresh still now b \<longleftrightarrow>
     (\<not> board_still still b \<longrightarrow>
        now - wd_last_refresh_ms (guard_watchdog (board_guard b)) < wd_timeout_ms (guard_watchdog (board_guard b)))"

text \<open>
  What every operation of the manager keeps: the timeout, the port, freshness at the time of
  the call, and that standing wheels are started only by a velocity command.
\<close>

definition manager_frame :: "('d \<Rightarrow> bool) \<Rightarrow> u32 \<Rightarrow> 'd Board \<Rightarrow> 'd Board \<Rightarrow> bool" where
  "manager_frame still now b b' \<longleftrightarrow>
     wd_timeout_ms (guard_watchdog (board_guard b')) = wd_timeout_ms (guard_watchdog (board_guard b)) \<and>
     tx_is_USART2 (board_tx b') = tx_is_USART2 (board_tx b) \<and>
     (board_fresh still now b \<and> 0 < wd_timeout_ms (guard_watchdog (board_guard b)) \<longrightarrow> board_fresh still now b')"

text \<open>A running stop detection is the one that ran before, and is younger than its limit.\<close>

definition stop_kept ::
  "Stm32MotionProtocolManager \<Rightarrow> 'd Board \<Rightarrow> Stm32MotionProtocolManager \<Rightarrow> 'd Board \<Rightarrow> bool" where
  "stop_kept m b m' b' \<longleftrightarrow>
     (stop_confirmation_started m' \<longrightarrow> stop_confirmation_started m \<and> board_stop b' = board_stop b)"

definition stop_young :: "u32 \<Rightarrow> Stm32MotionProtocolManager \<Rightarrow> 'd Board \<Rightarrow> bool" where
  "stop_young now m b \<longleftrightarrow>
     (stop_confirmation_started m \<longrightarrow> now - stop_started_at_ms (board_stop b) < MOTION_STOP_TIMEOUT_MS)"

lemma stop_young_kept: "stop_kept m b m' b' \<Longrightarrow> stop_young now m b \<Longrightarrow> stop_young now m' b'"
  by (simp add: stop_kept_def stop_young_def)

lemma manager_frame_refl [simp]: "manager_frame still now b b"
  by (simp add: manager_frame_def)

lemma manager_frame_trans:
  "manager_frame still now b b' \<Longrightarrow> manager_frame still now b' b'' \<Longrightarrow> manager_frame still now b b''"
  by (simp add: manager_frame_def)

lemma manager_frame_guard:
  assumes "board_guard b' = board_guard b" and "tx_is_USART2 (board_tx b') = tx_is_USART2 (board_tx b)"
  shows "manager_frame still now b b'"
  using assms by (simp add: manager_frame_def board_fresh_def)

lemma manager_frame_still:
  assumes "board_still still b'" and "tx_is_USART2 (board_tx b') = tx_is_USART2 (board_tx b)"
    and "wd_timeout_ms (guard_watchdog (board_guard b')) = wd_timeout_ms (guard_watchdog (board_guard b))"
  shows "manager_frame still now b b'"
  using assms by (simp add: manager_frame_def board_fresh_def)

lemma stop_update_cases:
  assumes "stop_active s" and "motion_stop_update now enc s = (c, enc', s')"
  shows "stop_op_id s' = stop_op_id s \<and>
    (if stop_completed c then \<not> stop_active s' \<and> stop_operation_id c = stop_op_id s else stop_active s')"
  using assms by (auto simp: motion_stop_update_def no_completion_def Let_def split: prod.splits if_splits)

lemma stop_begin_starts:
  assumes "op \<noteq> 0"
  shows "\<exists>enc' s'. motion_stop_begin op now enc s = (True, enc', s') \<and> stop_active s' \<and> stop_op_id s' = op"
  using assms by (simp add: motion_stop_begin_def Let_def split: prod.splits)

context motor_driver_contract
begin

lemma process_action_spec:
  assumes "board_ready driver_inv still ready b" and "process_action ops a m b = (res, m', b')"
  shows "board_ready driver_inv still ready b' \<and> board_stop b' = board_stop b \<and> board_encoder b' = board_encoder b \<and>
    manager_frame still now b b' \<and>
    res \<notin> {STM32_MOTION_PROTOCOL_MANAGER_RESULT_STOP_FAILED, STM32_MOTION_PROTOCOL_MANAGER_RESULT_APPLY_FAILED} \<and>
    (if act_operation a = MOTION_LIFECYCLE_OPERATION_ENSURE_STOPPED
     then m' = m\<lparr>pending_stop_operation_id := act_operation_id a, stop_confirmation_started := False\<rparr> \<and> board_still still b'
     else m' = m \<and> board_guard b' = board_guard b)"
proof -
  let ?f = "motion_command_frames_build a"
  define b1 where "b1 = (if ack_valid ?f then snd (board_send (ack_frame ?f) b) else b)"
  define b2 where "b2 = (if response_valid ?f then snd (board_send (response_frame ?f) b1) else b1)"
  have b2: "board_guard b2 = board_guard b" "board_stop b2 = board_stop b" "board_encoder b2 = board_encoder b"
    "tx_is_USART2 (board_tx b2) = tx_is_USART2 (board_tx b)"
    by (simp_all add: b2_def b1_def)
  then have ready2: "board_ready driver_inv still ready b2" using assms(1) by (simp add: board_ready_def)
  note halt = board_halt_spec [OF ready2]
  show ?thesis
  proof (cases "act_operation a = MOTION_LIFECYCLE_OPERATION_ENSURE_STOPPED")
    case True
    then have "b' = board_halt ops b2"
      "m' = m\<lparr>pending_stop_operation_id := act_operation_id a, stop_confirmation_started := False\<rparr>"
      "res \<in> {STM32_MOTION_PROTOCOL_MANAGER_RESULT_TRANSMIT_FAILED, STM32_MOTION_PROTOCOL_MANAGER_RESULT_STOP_PENDING}"
      using assms(2) halt(1) by (auto simp: process_action_def Let_def b1_def b2_def split: if_splits prod.splits)
    moreover have "manager_frame still now b (board_halt ops b2)"
      using halt(3,5) b2 by (intro manager_frame_still) simp_all
    ultimately show ?thesis using True halt b2 by auto
  next
    case False
    then have "b' = b2" "m' = m"
      "res \<in> {STM32_MOTION_PROTOCOL_MANAGER_RESULT_TRANSMIT_FAILED, STM32_MOTION_PROTOCOL_MANAGER_RESULT_PROCESSED}"
      using assms(2) by (auto simp: process_action_def Let_def b1_def b2_def split: if_splits prod.splits)
    moreover have "manager_frame still now b b2" using b2 by (intro manager_frame_guard)
    ultimately show ?thesis using False ready2 b2 by auto
  qed
qed

lemma manager_inv_driven:
  assumes "manager_inv driver_inv still ready m b" and "active_operation_id (mgr_coordinator m) \<noteq> 0"
  shows "board_still still b"
  using assms active_no_operation [of "mgr_coordinator m"] by (auto simp: manager_inv_def)

lemma manager_command_inv:
  assumes "manager_inv driver_inv still ready m b" and "manager_handle_command ops f m b = (res, m', b')"
  shows "manager_inv driver_inv still ready m' b' \<and> manager_frame still now b b' \<and> stop_kept m b m' b'"
proof -
  let ?p = "motion_lifecycle_command_decode (payload f)"
  let ?t = "\<lparr>tx_sequence = frame_sequence f, tx_command = lc_command ?p, tx_motion_session_id = lc_motion_session_id ?p\<rparr>"
  obtain a c where hc: "motion_lifecycle_coordinator_handle_transaction (mgr_coordinator m) ?t = (a, c)" by fastforce
  have wf: "coordinator_wf (mgr_coordinator m)" and rdy: "board_ready driver_inv still ready b"
    using assms(1) by (simp_all add: manager_inv_def)
  note act = handle_action [OF wf hc]
  have "process_action ops a (m\<lparr>mgr_coordinator := c\<rparr>) b = (res, m', b')"
    using assms(2) hc by (simp add: manager_handle_command_def Let_def)
  note spec = process_action_spec [OF rdy this, of now]
  show ?thesis
  proof (cases "act_operation a = MOTION_LIFECYCLE_OPERATION_ENSURE_STOPPED")
    case True
    with act(2) assms(1) have "\<not> stop_active (board_stop b)" by (auto simp: manager_inv_def split: if_splits)
    with True spec act assms(1) show ?thesis by (auto simp: manager_inv_def stop_kept_def)
  next
    case False
    with spec act assms(1) show ?thesis by (auto simp: manager_inv_def stop_kept_def)
  qed
qed

lemma manager_velocity_spec:
  fixes f tick now
  assumes "manager_inv driver_inv still ready m b"
  defines "p \<equiv> wheel_velocity_payload_decode (payload f)" and "c \<equiv> mgr_coordinator m"
  shows "\<exists>cmd. wheel_velocity_feedforward_convert (Some (mgr_feedforward m)) (Some (wv_command p)) = Some cmd \<and>
    command_in_range cmd \<and>
    manager_handle_velocity ops tick f now m b =
      (if lifecycle_state c \<noteq> MOTION_LIFECYCLE_STATE_ACTIVE
       then (STM32_MOTION_PROTOCOL_MANAGER_RESULT_NO_ACTIVE_SESSION, m, b)
       else if wv_motion_session_id p \<noteq> motion_session_id c
       then (STM32_MOTION_PROTOCOL_MANAGER_RESULT_SESSION_MISMATCH, m, b)
       else (STM32_MOTION_PROTOCOL_MANAGER_RESULT_PROCESSED, m,
             b\<lparr>board_guard := snd (motion_command_guard_apply ops tick (Some cmd) now (board_guard b))\<rparr>))"
proof -
  have "config_valid (mgr_feedforward m)" and rdy: "guard_ready driver_inv still ready (board_guard b)"
    using assms(1) by (simp_all add: manager_inv_def board_ready_def)
  then obtain cmd where cmd: "wheel_velocity_feedforward_convert (Some (mgr_feedforward m)) (Some (wv_command p)) = Some cmd"
    using convert_total by blast
  then have range: "command_in_range cmd" by (rule convert_in_range)
  then have "fst (motion_command_guard_apply ops tick (Some cmd) now (board_guard b))"
    using guard_apply_ready(2) [OF rdy] by simp
  with cmd range show ?thesis
    by (intro exI [of _ cmd]) (simp add: manager_handle_velocity_def p_def c_def Let_def case_prod_beta)
qed

lemma manager_velocity_inv:
  assumes "manager_inv driver_inv still ready m b" and "manager_handle_velocity ops tick f now m b = (res, m', b')"
  shows "manager_inv driver_inv still ready m' b' \<and> manager_frame still now b b' \<and> stop_kept m b m' b'"
proof -
  obtain cmd where "command_in_range cmd" and out: "m' = m \<and> (b' = b \<or>
      lifecycle_state (mgr_coordinator m) = MOTION_LIFECYCLE_STATE_ACTIVE \<and>
      b' = b\<lparr>board_guard := snd (motion_command_guard_apply ops tick (Some cmd) now (board_guard b))\<rparr>)"
    using manager_velocity_spec [OF assms(1), of f tick now] assms(2) by (auto split: if_splits)
  have rdy: "guard_ready driver_inv still ready (board_guard b)"
    using assms(1) by (simp add: manager_inv_def board_ready_def)
  note applied = guard_apply_ready [OF rdy, of tick cmd now]
  let ?b = "b\<lparr>board_guard := snd (motion_command_guard_apply ops tick (Some cmd) now (board_guard b))\<rparr>"
  have frame: "manager_frame still now b ?b"
    using applied \<open>command_in_range cmd\<close> by (cases "cmd = zero_command") (auto simp: manager_frame_def board_fresh_def)
  from out frame assms(1) applied(1) show ?thesis by (auto simp: manager_inv_def board_ready_def stop_kept_def)
qed

lemma manager_reset_inv:
  assumes "manager_inv driver_inv still ready m b" and "board_still still b"
    and "stm32_motion_protocol_manager_reset (Some m) b = (m', b')"
  shows "\<exists>s. m' = Some s \<and> manager_inv driver_inv still ready s b' \<and> manager_frame still now b b' \<and>
    board_guard b' = board_guard b \<and> lifecycle_state (mgr_coordinator s) = MOTION_LIFECYCLE_STATE_NO_SESSION \<and>
    pending_stop_operation_id s = 0"
proof -
  let ?b = "b\<lparr>board_stop := motion_stop_cancel\<rparr>"
  let ?m = "m\<lparr>mgr_coordinator := motion_lifecycle_coordinator_reset (mgr_coordinator m),
      pending_stop_operation_id := 0, stop_confirmation_started := False\<rparr>"
  have "m' = Some ?m" "b' = ?b"
    using assms(1,3) by (auto simp: stm32_motion_protocol_manager_reset_def manager_inv_def Let_def)
  moreover have "manager_frame still now b ?b" by (rule manager_frame_guard) simp_all
  moreover have "manager_inv driver_inv still ready ?m ?b"
    using assms(1,2) by (simp add: manager_inv_def motion_stop_cancel_def zero_stop_state_def)
  ultimately show ?thesis by simp
qed

lemma manager_complete_inv:
  assumes "board_ready driver_inv still ready b" and "mgr_initialized m" and "coordinator_wf (mgr_coordinator m)"
    and "config_valid (mgr_feedforward m)" and "pending_stop_operation_id m = 0" and "\<not> stop_confirmation_started m"
    and "\<not> stop_active (board_stop b)" and "board_still still b"
    and "operation_id = active_operation_id (mgr_coordinator m)" and "operation_id \<noteq> 0"
    and "manager_complete ops operation_id result m b = (res, m', b')"
  shows "manager_inv driver_inv still ready m' b' \<and> manager_frame still now b b' \<and> board_guard b' = board_guard b \<and>
    \<not> stop_confirmation_started m' \<and> pending_stop_operation_id m' = 0"
proof -
  obtain a c where c: "motion_lifecycle_coordinator_complete_operation (mgr_coordinator m) operation_id result = (a, c)"
    by fastforce
  note act = complete_action [OF assms(3) c assms(9,10)]
  have "process_action ops a (m\<lparr>mgr_coordinator := c\<rparr>) b = (res, m', b')"
    using assms(11) c by (simp add: manager_complete_def)
  from process_action_spec [OF assms(1) this, of now] act assms show ?thesis by (auto simp: manager_inv_def)
qed

lemma manager_poll_stop_inv:
  assumes inv: "manager_inv driver_inv still ready m b" and started: "stop_confirmation_started m"
    and poll: "manager_poll_stop ops now m b = (res, m', b')"
  shows "manager_inv driver_inv still ready m' b' \<and> manager_frame still now b b' \<and> stop_young now m' b' \<and>
    (pending_stop_operation_id m' \<noteq> 0 \<longrightarrow> stop_confirmation_started m')"
proof -
  obtain c enc s where u: "motion_stop_update now (board_encoder b) (board_stop b) = (c, enc, s)"
    using prod_cases3 by blast
  have active: "stop_active (board_stop b)" "stop_op_id (board_stop b) = pending_stop_operation_id m"
    "pending_stop_operation_id m \<noteq> 0" using inv started by (auto simp: manager_inv_def)
  note cases = stop_update_cases [OF active(1) u]
  let ?b = "b\<lparr>board_encoder := enc, board_stop := s\<rparr>"
  have frame: "manager_frame still now b ?b" by (rule manager_frame_guard) simp_all
  show ?thesis
  proof (cases "stop_completed c")
    case False
    then have "res = STM32_MOTION_PROTOCOL_MANAGER_RESULT_STOP_PENDING" "m' = m" "b' = ?b"
      using poll u by (simp_all add: manager_poll_stop_def)
    moreover have "now - stop_started_at_ms s < MOTION_STOP_TIMEOUT_MS"
      using False active(1) u
      by (auto simp: motion_stop_update_def no_completion_def not_le Let_def split: prod.splits if_splits)
    ultimately show ?thesis using False inv started cases active frame by (simp add: manager_inv_def stop_young_def)
  next
    case True
    let ?m = "m\<lparr>pending_stop_operation_id := 0, stop_confirmation_started := False\<rparr>"
    let ?r = "if stop_result c = MOTION_STOP_RESULT_SUCCESS
        then MOTION_LIFECYCLE_OPERATION_RESULT_SUCCESS else MOTION_LIFECYCLE_OPERATION_RESULT_FAILED"
    obtain res1 m1 b1 where compl: "manager_complete ops (stop_operation_id c) ?r ?m ?b = (res1, m1, b1)"
      using prod_cases3 by blast
    then have out: "m' = m1" "b' = b1" using poll u True by (auto simp: manager_poll_stop_def Let_def split: if_splits)
    have id: "stop_operation_id c = active_operation_id (mgr_coordinator ?m)" "stop_operation_id c \<noteq> 0"
      using True cases active inv by (simp_all add: manager_inv_def)
    have "board_still still ?b"
      using manager_inv_driven [OF inv] id by simp
    from manager_complete_inv [OF _ _ _ _ _ _ _ this id compl, of now] True cases inv
    have m1: "manager_inv driver_inv still ready m1 b1 \<and> manager_frame still now ?b b1 \<and>
        \<not> stop_confirmation_started m1 \<and> pending_stop_operation_id m1 = 0"
      by (auto simp: manager_inv_def)
    with out manager_frame_trans [OF frame] show ?thesis by (auto simp: stop_young_def)
  qed
qed

lemma manager_update_inv:
  assumes inv: "manager_inv driver_inv still ready m b"
    and update: "stm32_motion_protocol_manager_update ops now (Some m) b = (res, m', b')"
    and timeout: "0 < wd_timeout_ms (guard_watchdog (board_guard b))"
  shows "\<exists>s. m' = Some s \<and> manager_inv driver_inv still ready s b' \<and> manager_frame still now b b' \<and>
    board_fresh still now b' \<and> stop_young now s b' \<and>
    (pending_stop_operation_id s \<noteq> 0 \<longrightarrow> stop_confirmation_started s)"
proof -
  have rdy: "guard_ready driver_inv still ready (board_guard b)"
    using inv by (simp add: manager_inv_def board_ready_def)
  note upd = guard_update_ready [OF rdy, of now]
  let ?b = "b\<lparr>board_guard := snd (motion_command_guard_update ops now (board_guard b))\<rparr>"
  have inv1: "manager_inv driver_inv still ready m ?b"
    using inv upd by (cases "motion_watchdog_expired now (guard_watchdog (board_guard b))")
      (auto simp: manager_inv_def board_ready_def split: if_splits)
  have fresh: "board_fresh still now ?b" using upd(2) by (simp add: board_fresh_def)
  with upd(7) have frame: "manager_frame still now b ?b" by (simp add: manager_frame_def)
  have goal: "\<exists>s. Some m1 = Some s \<and> manager_inv driver_inv still ready s b1 \<and> manager_frame still now b b1 \<and>
      board_fresh still now b1 \<and> stop_young now s b1 \<and> (pending_stop_operation_id s \<noteq> 0 \<longrightarrow> stop_confirmation_started s)"
    if "manager_inv driver_inv still ready m1 b1 \<and> manager_frame still now ?b b1" "stop_young now m1 b1"
      "pending_stop_operation_id m1 \<noteq> 0 \<longrightarrow> stop_confirmation_started m1" for m1 b1
    using that fresh timeout upd(7) manager_frame_trans [OF frame] by (auto simp: manager_frame_def)
  have init: "mgr_initialized m" using inv by (simp add: manager_inv_def)
  consider "pending_stop_operation_id m = 0"
    | "pending_stop_operation_id m \<noteq> 0" "stop_confirmation_started m"
    | "pending_stop_operation_id m \<noteq> 0" "\<not> stop_confirmation_started m" by blast
  then show ?thesis
  proof cases
    case 1
    then have "m' = Some m" "b' = ?b"
      using update init upd(3) by (simp_all add: stm32_motion_protocol_manager_update_def case_prod_beta Let_def)
    moreover have "stop_young now m ?b" using 1 inv by (auto simp: manager_inv_def stop_young_def)
    ultimately show ?thesis using goal [of m ?b] inv1 1 by simp
  next
    case 2
    obtain res1 m1 b1 where p: "manager_poll_stop ops now m ?b = (res1, m1, b1)" using prod_cases3 by blast
    then have "m' = Some m1" "b' = b1"
      using 2 update init upd(3) by (simp_all add: stm32_motion_protocol_manager_update_def case_prod_beta Let_def)
    with goal [of m1 b1] manager_poll_stop_inv [OF inv1 2(2) p] show ?thesis by simp
  next
    case 3
    obtain enc s where begun: "motion_stop_begin (pending_stop_operation_id m) now (board_encoder b) (board_stop b) =
        (True, enc, s)" "stop_active s" "stop_op_id s = pending_stop_operation_id m"
      using stop_begin_starts [OF 3(1)] by blast
    let ?b2 = "?b\<lparr>board_encoder := enc, board_stop := s\<rparr>" and ?m = "m\<lparr>stop_confirmation_started := True\<rparr>"
    obtain res1 m1 b1 where p: "manager_poll_stop ops now ?m ?b2 = (res1, m1, b1)" using prod_cases3 by blast
    then have out: "m' = Some m1" "b' = b1"
      using 3 begun(1) update init upd(3)
      by (simp_all add: stm32_motion_protocol_manager_update_def case_prod_beta Let_def)
    have "manager_inv driver_inv still ready ?m ?b2"
      using inv1 begun 3(1) by (simp add: manager_inv_def)
    from manager_poll_stop_inv [OF this _ p] have "manager_inv driver_inv still ready m1 b1" "manager_frame still now ?b2 b1"
      "stop_young now m1 b1" "pending_stop_operation_id m1 \<noteq> 0 \<longrightarrow> stop_confirmation_started m1"
      by simp_all
    moreover have "manager_frame still now ?b ?b2" by (rule manager_frame_guard) simp_all
    ultimately show ?thesis using goal [of m1 b1] manager_frame_trans out by blast
  qed
qed

lemma manager_handle_inv:
  assumes inv: "manager_inv driver_inv still ready m b"
    and handle: "stm32_motion_protocol_manager_handle ops tick (Some f) synced now (Some m) b = (res, m', b')"
  shows "\<exists>s. m' = Some s \<and> manager_inv driver_inv still ready s b' \<and> manager_frame still now b b' \<and>
    stop_kept m b s b' \<and> (\<not> synced \<longrightarrow> s = m \<and> b' = b)"
proof -
  have init: "mgr_initialized m" using inv by (simp add: manager_inv_def)
  obtain r1 m1 b1 where c: "manager_handle_command ops f m b = (r1, m1, b1)" using prod_cases3 by blast
  obtain r2 m2 b2 where v: "manager_handle_velocity ops tick f now m b = (r2, m2, b2)" using prod_cases3 by blast
  have "m' = Some m \<and> b' = b \<or> synced \<and> (m' = Some m1 \<and> b' = b1 \<or> m' = Some m2 \<and> b' = b2)"
    using handle init c v
    by (auto simp: stm32_motion_protocol_manager_handle_def Let_def simp del: protocol_ingress_route.simps
        split: if_splits)
  with inv manager_command_inv [OF inv c, of now] manager_velocity_inv [OF inv v] show ?thesis
    by (auto simp: stop_kept_def)
qed

end

subsection \<open>Property\<close>

abbreviation stm32_manager_inv :: "Stm32MotionProtocolManager \<Rightarrow> Dri0041 Board \<Rightarrow> bool" where
  "stm32_manager_inv \<equiv> manager_inv dri0041_inv dri0041_still dri0041_ready"

text \<open>
  C16: Velocity commands reach the wheels exactly when they may. A velocity frame that arrives
  while the link is synchronized, a session is active and the frame names that session is
  converted and applied to the motor driver: the driver's new state is what the driver
  makes of the converted command, a non-zero command arms the watchdog at the time of the
  call, a zero command stops the wheels. Any other velocity frame is rejected with the
  reason and changes nothing.
\<close>

theorem velocity_gate:
  assumes "stm32_manager_inv m b"
    and "protocol_ingress_route (Some f) = PROTOCOL_INGRESS_ROUTE_WHEEL_VELOCITY"
    and "stm32_motion_protocol_manager_handle dri0041 tick (Some f) synced now (Some m) b = (res, m', b')"
    and "p = wheel_velocity_payload_decode (payload f)"
  shows "if synced \<and> lifecycle_state (mgr_coordinator m) = MOTION_LIFECYCLE_STATE_ACTIVE \<and>
       wv_motion_session_id p = motion_session_id (mgr_coordinator m)
    then res = STM32_MOTION_PROTOCOL_MANAGER_RESULT_PROCESSED \<and> m' = Some m \<and>
      (\<exists>cmd. wheel_velocity_feedforward_convert (Some (mgr_feedforward m)) (Some (wv_command p)) = Some cmd \<and>
         guard_driver (board_guard b') =
           snd (motor_driver_apply_dri0041 tick (Some cmd) (guard_driver (board_guard b))) \<and>
         (if cmd = zero_command then wheels_still b'
          else board_armed b' \<and> wd_last_refresh_ms (guard_watchdog (board_guard b')) = now))
    else m' = Some m \<and> b' = b \<and>
      res = (if \<not> synced then STM32_MOTION_PROTOCOL_MANAGER_RESULT_NOT_SYNCHRONIZED
             else if lifecycle_state (mgr_coordinator m) \<noteq> MOTION_LIFECYCLE_STATE_ACTIVE
             then STM32_MOTION_PROTOCOL_MANAGER_RESULT_NO_ACTIVE_SESSION
             else STM32_MOTION_PROTOCOL_MANAGER_RESULT_SESSION_MISMATCH)"
proof -
  have init: "mgr_initialized m" and rdy: "guard_ready dri0041_inv dri0041_still dri0041_ready (board_guard b)"
    using assms(1) by (simp_all add: manager_inv_def board_ready_def)
  obtain cmd where cmd: "wheel_velocity_feedforward_convert (Some (mgr_feedforward m)) (Some (wv_command p)) = Some cmd"
    "command_in_range cmd" and spec: "manager_handle_velocity dri0041 tick f now m b =
      (if lifecycle_state (mgr_coordinator m) \<noteq> MOTION_LIFECYCLE_STATE_ACTIVE
       then (STM32_MOTION_PROTOCOL_MANAGER_RESULT_NO_ACTIVE_SESSION, m, b)
       else if wv_motion_session_id p \<noteq> motion_session_id (mgr_coordinator m)
       then (STM32_MOTION_PROTOCOL_MANAGER_RESULT_SESSION_MISMATCH, m, b)
       else (STM32_MOTION_PROTOCOL_MANAGER_RESULT_PROCESSED, m,
             b\<lparr>board_guard := snd (motion_command_guard_apply dri0041 tick (Some cmd) now (board_guard b))\<rparr>))"
    using dri0041_driver.manager_velocity_spec [OF assms(1), of f tick now] assms(4) by auto
  have out: "(res, m', b') = (if \<not> synced then (STM32_MOTION_PROTOCOL_MANAGER_RESULT_NOT_SYNCHRONIZED, Some m, b)
      else (case manager_handle_velocity dri0041 tick f now m b of (r, s, b1) \<Rightarrow> (r, Some s, b1)))"
    using assms(2,3) init
    by (simp add: stm32_motion_protocol_manager_handle_def Let_def del: protocol_ingress_route.simps split: if_splits)
  note applied = dri0041_driver.guard_apply_ready [OF rdy, of tick cmd now]
  from out spec cmd applied show ?thesis
    by (auto simp: motion_watchdog_is_armed_def dri0041_def split: if_splits)
qed

definition sample_manager :: Stm32MotionProtocolManager where
  "sample_manager = zero_manager\<lparr>mgr_feedforward := \<lparr>max_velocity_mm_s = 400, minimum_start_command = 50\<rparr>,
     mgr_initialized := True, mgr_coordinator :=
       motion_lifecycle_coordinator_init\<lparr>lifecycle_state := MOTION_LIFECYCLE_STATE_ACTIVE, motion_session_id := 7\<rparr>\<rparr>"

lemma sample_manager_inv: "stm32_manager_inv sample_manager sample_board"
proof -
  have "coordinator_wf (mgr_coordinator sample_manager)"
    by (simp add: sample_manager_def coordinator_wf_def motion_lifecycle_coordinator_init_def session_of.simps
        motion_reliable_receiver_init_def receiver_wf_def)
  then show ?thesis
    using sample_board_ready
    by (simp add: manager_inv_def) (simp add: sample_manager_def zero_manager_def config_valid_def
        motion_lifecycle_coordinator_init_def sample_board_def zero_stop_state_def)
qed

lemma velocity_gate_witness:
  "\<exists>res m' b'. stm32_motion_protocol_manager_handle dri0041 3 (Some (zero_frame\<lparr>
        message_type := PROTOCOL_MESSAGE_TYPE_WHEEL_VELOCITY, payload_length := 8,
        payload := buffer_write 0 (wheel_velocity_payload_encode \<lparr>wv_motion_session_id = 7,
          wv_command = \<lparr>left_velocity_mm_s = 100, right_velocity_mm_s = 100\<rparr>\<rparr>) (payload zero_frame)\<rparr>)) True 3
      (Some sample_manager) sample_board = (res, m', b') \<and>
    res = STM32_MOTION_PROTOCOL_MANAGER_RESULT_PROCESSED"
proof -
  let ?p = "\<lparr>wv_motion_session_id = 7, wv_command = \<lparr>left_velocity_mm_s = 100, right_velocity_mm_s = 100\<rparr>\<rparr>"
  let ?f = "zero_frame\<lparr>message_type := PROTOCOL_MESSAGE_TYPE_WHEEL_VELOCITY, payload_length := 8,
        payload := buffer_write 0 (wheel_velocity_payload_encode ?p) (payload zero_frame)\<rparr>"
  obtain res m' b' where h: "stm32_motion_protocol_manager_handle dri0041 3 (Some ?f) True 3
      (Some sample_manager) sample_board = (res, m', b')" using prod_cases3 by blast
  have route: "protocol_ingress_route (Some ?f) = PROTOCOL_INGRESS_ROUTE_WHEEL_VELOCITY" by simp
  have p: "?p = wheel_velocity_payload_decode (payload ?f)"
    using wheel_velocity.dec_enc [of ?p] by (simp add: buffer_write_def)
  have "lifecycle_state (mgr_coordinator sample_manager) = MOTION_LIFECYCLE_STATE_ACTIVE"
    "motion_session_id (mgr_coordinator sample_manager) = 7" by (simp_all add: sample_manager_def)
  with velocity_gate [OF sample_manager_inv route h p] h show ?thesis by simp
qed

end
