(* ===== verification/Firmware.thy ===== *)
theory Firmware
  imports Manager_Correctness Uart_Receiver Uart_Rx_Port Speed_Estimator
begin

section \<open>The firmware (Platform/NucleoF446RE/Core/Src/main.c)\<close>

text \<open>
  The static variables of the program, the initialization in \<^verbatim>\<open>main\<close> and the body of
  its infinite loop. The environment enters as arguments: what the tick counter reads at
  the start of an iteration (\<open>now_ms\<close>) and inside the motor driver (\<open>tick\<close>), and the bytes
  the receive interrupts add to the queue while the iteration polls it (\<open>irqs\<close>); between
  iterations interrupts are steps of their own. Which bytes an interrupt adds is the
  subject of the receive port's theory. The vendor's initialization functions and the
  clock setup come before the first statement modelled; \<^verbatim>\<open>Error_Handler\<close>, which
  does not return, is \<open>None\<close>.
\<close>

abbreviation (input) MOTION_COMMAND_TIMEOUT_MS :: u32 where "MOTION_COMMAND_TIMEOUT_MS \<equiv> 250"
abbreviation (input) LINK_HEARTBEAT_TIMEOUT_MS :: u32 where "LINK_HEARTBEAT_TIMEOUT_MS \<equiv> 1000"
abbreviation (input) WHEEL_SPEED_SAMPLE_PERIOD_MS :: u32 where "WHEEL_SPEED_SAMPLE_PERIOD_MS \<equiv> 100"

definition feedforward_config :: WheelVelocityFeedforwardConfig where
  "feedforward_config = \<lparr>max_velocity_mm_s = 400, minimum_start_command = 50\<rparr>"

record 'd Firmware =
  fw_board :: "'d Board"
  fw_link :: UartLinkManagerState
  fw_manager :: Stm32MotionProtocolManager
  fw_receiver :: UartProtocolReceiver
  fw_queue :: UartRxQueue
  fw_rx_port :: UartRxPort
  fw_estimator :: WheelSpeedEstimator
  fw_estimate :: WheelSpeedEstimate
  fw_last_speed_sample_ms :: u32

text \<open>
  Memory at power-on: the static variables are zero; the driver with its timer and pins and
  the three ports are whatever the hardware and the vendor's initialization left.
\<close>

definition power_on :: "'d \<Rightarrow> UartTxPort \<Rightarrow> WheelEncoderPort \<Rightarrow> UartRxPort \<Rightarrow> 'd Firmware" where
  "power_on d tx enc rx =
     \<lparr>fw_board = \<lparr>board_guard = \<lparr>guard_initialized = False, guard_stop_pending = False,
                    guard_watchdog = zero_watchdog, guard_driver = d\<rparr>,
                  board_tx = tx, board_encoder = enc, board_stop = zero_stop_state\<rparr>,
      fw_link = zero_link, fw_manager = zero_manager, fw_receiver = zero_receiver, fw_queue = zero_queue,
      fw_rx_port = rx, fw_estimator = wheel_speed_estimator_init,
      fw_estimate = \<lparr>left_mm_s = 0, right_mm_s = 0, estimate_valid = False\<rparr>, fw_last_speed_sample_ms = 0\<rparr>"

definition reset_link_and_stop_motion :: "'d MotorDriver \<Rightarrow> 'd Firmware \<Rightarrow> 'd Firmware" where
  "reset_link_and_stop_motion drv s =
     (let (_, link) = uart_link_manager_init LINK_HEARTBEAT_TIMEOUT_MS;
          (manager, b) = stm32_motion_protocol_manager_reset (Some (fw_manager s)) (fw_board s);
          (_, b) = board_guard_stop drv b
      in s\<lparr>fw_link := link, fw_manager := the manager, fw_board := b\<rparr>)"

subsection \<open>Initialization\<close>

text \<open>The first sample of the speed estimator.\<close>

definition firmware_first_sample ::
  "(real \<Rightarrow> real) \<Rightarrow> u32 \<Rightarrow> 'd Firmware \<Rightarrow> 'd Firmware" where
  "firmware_first_sample rnd tick s =
     (let (counts, enc) = wheel_encoder_read (board_encoder (fw_board s));
          (estimate, e) = wheel_speed_estimator_update rnd counts tick wheel_speed_estimator_init
      in s\<lparr>fw_board := (fw_board s)\<lparr>board_encoder := enc\<rparr>, fw_last_speed_sample_ms := tick,
           fw_estimator := e, fw_estimate := estimate\<rparr>)"

definition firmware_init ::
  "'d MotorDriver \<Rightarrow> (real \<Rightarrow> real) \<Rightarrow> u32 \<Rightarrow> 'd Firmware \<Rightarrow> 'd Firmware option" where
  "firmware_init drv rnd tick s =
     (let (guard_ok, g) = motion_command_guard_init drv MOTION_COMMAND_TIMEOUT_MS (board_guard (fw_board s));
          s = s\<lparr>fw_board := (fw_board s)\<lparr>board_guard := g\<rparr>\<rparr>
      in if \<not> guard_ok then None
         else
           let (encoder_ok, enc) = wheel_encoder_init (board_encoder (fw_board s));
               s = s\<lparr>fw_board := (fw_board s)\<lparr>board_encoder := enc\<rparr>\<rparr>
           in if \<not> encoder_ok then None
              else
                let s = firmware_first_sample rnd tick s;
                    (manager_ok, manager) =
                      stm32_motion_protocol_manager_init (Some (fw_manager s)) (Some feedforward_config);
                    s = s\<lparr>fw_manager := the manager\<rparr>
                in if \<not> manager_ok then None
                   else
                     let (link_ok, link) = uart_link_manager_init LINK_HEARTBEAT_TIMEOUT_MS;
                         s = s\<lparr>fw_link := link\<rparr>
                     in if \<not> link_ok then None
                        else
                          let (receiver_ok, receiver) = uart_protocol_receiver_init (Some (fw_receiver s)) True;
                              s = s\<lparr>fw_receiver := the receiver\<rparr>
                          in if \<not> receiver_ok then None
                             else
                               let (rx_ok, port, queue) = uart_rx_port_init (Some (fw_queue s)) (fw_rx_port s);
                                   s = s\<lparr>fw_rx_port := port, fw_queue := the queue\<rparr>
                               in if \<not> rx_ok then None else Some s)"

subsection \<open>The loop body\<close>

definition firmware_motion_update :: "'d MotorDriver \<Rightarrow> u32 \<Rightarrow> 'd Firmware \<Rightarrow> 'd Firmware" where
  "firmware_motion_update drv now_ms s =
     (let (motion_update, manager, b) =
            stm32_motion_protocol_manager_update drv now_ms (Some (fw_manager s)) (fw_board s);
          s = s\<lparr>fw_manager := the manager, fw_board := b\<rparr>
      in if motion_update = STM32_MOTION_PROTOCOL_MANAGER_RESULT_STOP_FAILED \<or>
            motion_update = STM32_MOTION_PROTOCOL_MANAGER_RESULT_TRANSMIT_FAILED
         then reset_link_and_stop_motion drv s else s)"

definition firmware_sample_speed :: "(real \<Rightarrow> real) \<Rightarrow> u32 \<Rightarrow> 'd Firmware \<Rightarrow> 'd Firmware" where
  "firmware_sample_speed rnd now_ms s =
     (if now_ms - fw_last_speed_sample_ms s \<ge> WHEEL_SPEED_SAMPLE_PERIOD_MS then
        let (counts, enc) = wheel_encoder_read (board_encoder (fw_board s));
            (estimate, e) = wheel_speed_estimator_update rnd counts now_ms (fw_estimator s)
        in s\<lparr>fw_board := (fw_board s)\<lparr>board_encoder := enc\<rparr>, fw_estimator := e, fw_estimate := estimate,
             fw_last_speed_sample_ms := now_ms\<rparr>
      else s)"

text \<open>The switch over the type of a received frame.\<close>

definition firmware_dispatch :: "'d MotorDriver \<Rightarrow> u32 \<Rightarrow> ProtocolFrame \<Rightarrow> u32 \<Rightarrow> 'd Firmware \<Rightarrow> 'd Firmware" where
  "firmware_dispatch drv tick frame now_ms s =
     (if message_type frame \<in> {PROTOCOL_MESSAGE_TYPE_LINK_SYNC, PROTOCOL_MESSAGE_TYPE_HEARTBEAT} then
        let (link_result, link, b) = uart_link_manager_handle drv (Some frame) now_ms (fw_link s) (fw_board s);
            s = s\<lparr>fw_link := link, fw_board := b\<rparr>
        in if link_result = UART_LINK_MANAGER_RESULT_SYNCHRONIZED \<or>
              \<not> uart_link_manager_is_synchronized (fw_link s)
           then
             let (manager, b) = stm32_motion_protocol_manager_reset (Some (fw_manager s)) (fw_board s)
             in s\<lparr>fw_manager := the manager, fw_board := b\<rparr>
           else s
      else if message_type frame \<in> {PROTOCOL_MESSAGE_TYPE_MOTION_COMMAND, PROTOCOL_MESSAGE_TYPE_WHEEL_VELOCITY} then
        let (motion_result, manager, b) =
              stm32_motion_protocol_manager_handle drv tick (Some frame)
                (uart_link_manager_is_synchronized (fw_link s)) now_ms (Some (fw_manager s)) (fw_board s);
            s = s\<lparr>fw_manager := the manager, fw_board := b\<rparr>
        in if motion_result = STM32_MOTION_PROTOCOL_MANAGER_RESULT_APPLY_FAILED \<or>
              motion_result = STM32_MOTION_PROTOCOL_MANAGER_RESULT_STOP_FAILED \<or>
              motion_result = STM32_MOTION_PROTOCOL_MANAGER_RESULT_TRANSMIT_FAILED
           then reset_link_and_stop_motion drv s else s
      else s)"

definition firmware_receive ::
  "'d MotorDriver \<Rightarrow> u8 list list \<Rightarrow> u32 \<Rightarrow> u32 \<Rightarrow> 'd Firmware \<Rightarrow> 'd Firmware" where
  "firmware_receive drv irqs tick now_ms s =
     (let ((receive_result, frame), receiver, queue) =
            uart_protocol_receiver_poll True irqs (Some (fw_receiver s)) (fw_queue s);
          s = s\<lparr>fw_receiver := the receiver, fw_queue := queue\<rparr>
      in if receive_result = UART_PROTOCOL_RECEIVER_RESULT_OVERFLOW \<or>
            receive_result = UART_PROTOCOL_RECEIVER_RESULT_INVALID_ARGUMENT
         then reset_link_and_stop_motion drv s
         else if receive_result = UART_PROTOCOL_RECEIVER_RESULT_FRAME
         then firmware_dispatch drv tick (the frame) now_ms s
         else s)"

definition firmware_link_update :: "'d MotorDriver \<Rightarrow> u32 \<Rightarrow> 'd Firmware \<Rightarrow> 'd Firmware" where
  "firmware_link_update drv now_ms s =
     (let (link_update, link, b) = uart_link_manager_update drv now_ms (fw_link s) (fw_board s);
          s = s\<lparr>fw_link := link, fw_board := b\<rparr>
      in if link_update = UART_LINK_MANAGER_UPDATE_LINK_LOST \<or>
            link_update = UART_LINK_MANAGER_UPDATE_STOP_FAILED
         then
           let (manager, b) = stm32_motion_protocol_manager_reset (Some (fw_manager s)) (fw_board s)
           in s\<lparr>fw_manager := the manager, fw_board := b\<rparr>
         else s)"

definition firmware_iteration ::
  "'d MotorDriver \<Rightarrow> (real \<Rightarrow> real) \<Rightarrow> u8 list list \<Rightarrow> u32 \<Rightarrow> u32 \<Rightarrow> 'd Firmware \<Rightarrow> 'd Firmware" where
  "firmware_iteration drv rnd irqs tick now_ms s =
     (let s = firmware_motion_update drv now_ms s;
          s = firmware_sample_speed rnd now_ms s;
          s = firmware_receive drv irqs tick now_ms s
      in firmware_link_update drv now_ms s)"

text \<open>
  The receive interrupt: the DMA controller has written its ring and the vendor's driver
  calls the handler of the port. \<open>firmware_interrupt\<close> is the same for bytes of any origin.
\<close>

definition firmware_rx_event :: "bool \<Rightarrow> u16 \<Rightarrow> u8 list \<Rightarrow> 'd Firmware \<Rightarrow> 'd Firmware" where
  "firmware_rx_event is_huart2 rx_size buf s =
     (let (port, queue) = HAL_UARTEx_RxEventCallback is_huart2 rx_size ((fw_rx_port s)\<lparr>dma_buffer := buf\<rparr>) (fw_queue s)
      in s\<lparr>fw_rx_port := port, fw_queue := queue\<rparr>)"

definition firmware_interrupt :: "u8 list \<Rightarrow> 'd Firmware \<Rightarrow> 'd Firmware" where
  "firmware_interrupt bs s = s\<lparr>fw_queue := snd (push_all queue_push bs (fw_queue s))\<rparr>"

subsection \<open>Runs\<close>

definition firmware_started :: "'d MotorDriver \<Rightarrow> (real \<Rightarrow> real) \<Rightarrow> 'd Firmware \<Rightarrow> bool" where
  "firmware_started drv rnd s \<longleftrightarrow> (\<exists>tick d tx enc rx. firmware_init drv rnd tick (power_on d tx enc rx) = Some s)"

inductive firmware_step :: "'d MotorDriver \<Rightarrow> (real \<Rightarrow> real) \<Rightarrow> 'd Firmware \<Rightarrow> 'd Firmware \<Rightarrow> bool"
  for drv :: "'d MotorDriver" and rnd :: "real \<Rightarrow> real" where
  iterate: "firmware_step drv rnd s (firmware_iteration drv rnd irqs tick now s)"
| rx_event: "firmware_step drv rnd s (firmware_rx_event is_huart2 rx_size buf s)"
| interrupted: "firmware_step drv rnd s (firmware_interrupt bs s)"

inductive_cases firmware_stepE: "firmware_step drv rnd s t"

abbreviation (input) firmware_reachable :: "'d MotorDriver \<Rightarrow> (real \<Rightarrow> real) \<Rightarrow> 'd Firmware \<Rightarrow> bool" where
  "firmware_reachable drv rnd \<equiv> reachable (firmware_started drv rnd) (firmware_step drv rnd)"

end
