(* ===== verification/Firmware_Safety.thy ===== *)
theory Firmware_Safety
  imports Firmware
begin

section \<open>Safety of the firmware\<close>

text \<open>
  The invariant of the whole program, proved for any motor driver that fulfils the
  contract, and the safety guarantees for the firmware as it is linked, with the DRI0041
  driver: whatever arrives over the serial line, whenever interrupts occur and whatever
  the clock reads.
\<close>

definition firmware_inv ::
  "('d \<Rightarrow> bool) \<Rightarrow> ('d \<Rightarrow> bool) \<Rightarrow> ('d \<Rightarrow> bool) \<Rightarrow> 'd Firmware \<Rightarrow> bool" where
  "firmware_inv driver_inv still ready s \<longleftrightarrow>
     manager_inv driver_inv still ready (fw_manager s) (fw_board s) \<and>
     link_initialized (fw_link s) \<and> heartbeat_timeout_ms (fw_link s) = LINK_HEARTBEAT_TIMEOUT_MS \<and>
     wd_timeout_ms (guard_watchdog (board_guard (fw_board s))) = MOTION_COMMAND_TIMEOUT_MS \<and>
     (\<not> link_synchronized (fw_link s) \<longrightarrow>
        lifecycle_state (mgr_coordinator (fw_manager s)) = MOTION_LIFECYCLE_STATE_NO_SESSION) \<and>
     queue_wf (fw_queue s) \<and> rcv_bound (fw_receiver s)"

text \<open>The link is down: no session, no pending operation, standing wheels.\<close>

definition firmware_down :: "('d \<Rightarrow> bool) \<Rightarrow> 'd Firmware \<Rightarrow> bool" where
  "firmware_down still s \<longleftrightarrow>
     \<not> link_synchronized (fw_link s) \<and>
     lifecycle_state (mgr_coordinator (fw_manager s)) = MOTION_LIFECYCLE_STATE_NO_SESSION \<and>
     pending_stop_operation_id (fw_manager s) = 0 \<and> board_still still (fw_board s)"

text \<open>
  One part of the loop body keeps the invariant and, at the time of the iteration, that the
  last command and a running stop detection are younger than their limits.
\<close>

definition part_ok ::
  "('d \<Rightarrow> bool) \<Rightarrow> ('d \<Rightarrow> bool) \<Rightarrow> ('d \<Rightarrow> bool) \<Rightarrow> u32 \<Rightarrow> 'd Firmware \<Rightarrow> 'd Firmware \<Rightarrow> bool" where
  "part_ok driver_inv still ready now s t \<longleftrightarrow>
     firmware_inv driver_inv still ready t \<and> (board_fresh still now (fw_board s) \<longrightarrow> board_fresh still now (fw_board t)) \<and>
     (stop_young now (fw_manager s) (fw_board s) \<longrightarrow> stop_young now (fw_manager t) (fw_board t))"

lemma still_fresh: "board_still still b \<Longrightarrow> board_fresh still now b"
  by (simp add: board_fresh_def)

lemma no_session_idle:
  "coordinator_wf c \<Longrightarrow> lifecycle_state c = MOTION_LIFECYCLE_STATE_NO_SESSION \<Longrightarrow> active_operation_id c = 0"
  by (auto simp: coordinator_wf_def session_of.simps)

lemma update_no_operation:
  "pending_stop_operation_id m = 0 \<Longrightarrow>
     stm32_motion_protocol_manager_update drv now (Some m) b = (res, m', b') \<Longrightarrow> m' = Some m"
  by (auto simp: stm32_motion_protocol_manager_update_def Let_def split: if_splits prod.splits)

context motor_driver_contract
begin

lemma inv_down:
  assumes "firmware_inv driver_inv still ready s" and "\<not> link_synchronized (fw_link s)"
  shows "firmware_down still s"
  using assms no_session_idle [of "mgr_coordinator (fw_manager s)"]
  by (auto simp: firmware_inv_def firmware_down_def manager_inv_def)

text \<open>The manager is reset, possibly while the wheels turn, and then the guard stops them.\<close>

lemma reset_link_down:
  assumes "manager_inv driver_inv still ready (fw_manager s) (fw_board s)"
    and "wd_timeout_ms (guard_watchdog (board_guard (fw_board s))) = MOTION_COMMAND_TIMEOUT_MS"
    and "queue_wf (fw_queue s)" and "rcv_bound (fw_receiver s)"
  shows "firmware_inv driver_inv still ready (reset_link_and_stop_motion ops s)"
    and "firmware_down still (reset_link_and_stop_motion ops s)"
    and "\<not> stop_confirmation_started (fw_manager (reset_link_and_stop_motion ops s))"
proof -
  let ?m = "fw_manager s" and ?b = "(fw_board s)\<lparr>board_stop := motion_stop_cancel\<rparr>"
  let ?m' = "?m\<lparr>mgr_coordinator := motion_lifecycle_coordinator_reset (mgr_coordinator ?m),
      pending_stop_operation_id := 0, stop_confirmation_started := False\<rparr>"
  have "board_ready driver_inv still ready ?b" using assms(1) by (simp add: manager_inv_def)
  note halt = board_halt_spec [OF this]
  have r: "reset_link_and_stop_motion ops s =
      s\<lparr>fw_link := zero_link\<lparr>heartbeat_timeout_ms := LINK_HEARTBEAT_TIMEOUT_MS, link_initialized := True\<rparr>,
        fw_manager := ?m', fw_board := board_halt ops ?b\<rparr>"
    using assms(1) halt(1)
    by (simp add: reset_link_and_stop_motion_def uart_link_manager_init_def
        stm32_motion_protocol_manager_reset_def manager_inv_def Let_def)
  show "firmware_inv driver_inv still ready (reset_link_and_stop_motion ops s)"
    unfolding r using assms halt
    by (simp add: firmware_inv_def manager_inv_def motion_stop_cancel_def zero_stop_state_def)
  show "firmware_down still (reset_link_and_stop_motion ops s)"
    and "\<not> stop_confirmation_started (fw_manager (reset_link_and_stop_motion ops s))"
    unfolding r using halt by (simp_all add: firmware_down_def zero_link_def)
qed

lemma reset_link_part:
  assumes "manager_inv driver_inv still ready (fw_manager t) (fw_board t)"
    and "wd_timeout_ms (guard_watchdog (board_guard (fw_board t))) = MOTION_COMMAND_TIMEOUT_MS"
    and "queue_wf (fw_queue t)" and "rcv_bound (fw_receiver t)"
  shows "part_ok driver_inv still ready now s (reset_link_and_stop_motion ops t)"
  using reset_link_down [OF assms] by (simp add: part_ok_def firmware_down_def still_fresh stop_young_def)

lemma motion_update_part:
  assumes inv: "firmware_inv driver_inv still ready s"
  shows "part_ok driver_inv still ready now s (firmware_motion_update ops now s)"
    and "board_fresh still now (fw_board (firmware_motion_update ops now s))"
    and "stop_young now (fw_manager (firmware_motion_update ops now s)) (fw_board (firmware_motion_update ops now s))"
    and "pending_stop_operation_id (fw_manager (firmware_motion_update ops now s)) \<noteq> 0 \<longrightarrow>
      stop_confirmation_started (fw_manager (firmware_motion_update ops now s))"
proof -
  obtain res m b where u: "stm32_motion_protocol_manager_update ops now (Some (fw_manager s)) (fw_board s) = (res, m, b)"
    using prod_cases3 by blast
  have minv: "manager_inv driver_inv still ready (fw_manager s) (fw_board s)"
    "0 < wd_timeout_ms (guard_watchdog (board_guard (fw_board s)))" using inv by (simp_all add: firmware_inv_def)
  from manager_update_inv [OF minv(1) u minv(2)] obtain m1 where
    m1: "m = Some m1" "manager_inv driver_inv still ready m1 b" "manager_frame still now (fw_board s) b"
    "board_fresh still now b" "stop_young now m1 b"
    "pending_stop_operation_id m1 \<noteq> 0 \<longrightarrow> stop_confirmation_started m1" by blast
  let ?t = "s\<lparr>fw_manager := m1, fw_board := b\<rparr>"
  have t: "firmware_motion_update ops now s =
      (if res \<in> {STM32_MOTION_PROTOCOL_MANAGER_RESULT_STOP_FAILED, STM32_MOTION_PROTOCOL_MANAGER_RESULT_TRANSMIT_FAILED}
       then reset_link_and_stop_motion ops ?t else ?t)"
    using u m1(1) by (simp add: firmware_motion_update_def Let_def)
  have wd: "wd_timeout_ms (guard_watchdog (board_guard b)) = MOTION_COMMAND_TIMEOUT_MS"
    using m1(3) inv by (simp add: manager_frame_def firmware_inv_def)
  have reset: "part_ok driver_inv still ready now s (reset_link_and_stop_motion ops ?t)"
    "firmware_down still (reset_link_and_stop_motion ops ?t)"
    "\<not> stop_confirmation_started (fw_manager (reset_link_and_stop_motion ops ?t))"
    using reset_link_part [of ?t now s] reset_link_down(2,3) [of ?t] m1(2) wd inv by (simp_all add: firmware_inv_def)
  have keep: "firmware_inv driver_inv still ready ?t"
  proof -
    have "m1 = fw_manager s" if "\<not> link_synchronized (fw_link s)"
      using inv_down [OF inv that] update_no_operation [OF _ u] m1(1) by (simp add: firmware_down_def)
    with inv m1(2) wd show ?thesis by (auto simp: firmware_inv_def)
  qed
  show "part_ok driver_inv still ready now s (firmware_motion_update ops now s)"
    and "board_fresh still now (fw_board (firmware_motion_update ops now s))"
    and "stop_young now (fw_manager (firmware_motion_update ops now s)) (fw_board (firmware_motion_update ops now s))"
    and "pending_stop_operation_id (fw_manager (firmware_motion_update ops now s)) \<noteq> 0 \<longrightarrow>
      stop_confirmation_started (fw_manager (firmware_motion_update ops now s))"
    unfolding t using reset keep m1(4-6) by (auto simp: part_ok_def firmware_down_def still_fresh stop_young_def)
qed

lemma sample_speed_part:
  assumes "firmware_inv driver_inv still ready s"
  shows "part_ok driver_inv still ready now s (firmware_sample_speed rnd now s)"
  using assms
  by (auto simp: part_ok_def firmware_sample_speed_def firmware_inv_def manager_inv_def board_fresh_def stop_young_def
      Let_def split: prod.splits)

lemma manager_reset_part:
  assumes "manager_inv driver_inv still ready (fw_manager t) (fw_board t)" and "board_still still (fw_board t)"
    and "link_initialized (fw_link t)" and "heartbeat_timeout_ms (fw_link t) = LINK_HEARTBEAT_TIMEOUT_MS"
    and "wd_timeout_ms (guard_watchdog (board_guard (fw_board t))) = MOTION_COMMAND_TIMEOUT_MS"
    and "queue_wf (fw_queue t)" and "rcv_bound (fw_receiver t)"
    and "stm32_motion_protocol_manager_reset (Some (fw_manager t)) (fw_board t) = (m, b)"
  shows "part_ok driver_inv still ready now s (t\<lparr>fw_manager := the m, fw_board := b\<rparr>)"
proof -
  from manager_reset_inv [OF assms(1,2,8), of now] obtain m1 where m1: "m = Some m1"
    "manager_inv driver_inv still ready m1 b" "board_guard b = board_guard (fw_board t)"
    "lifecycle_state (mgr_coordinator m1) = MOTION_LIFECYCLE_STATE_NO_SESSION" by blast
  moreover have "\<not> stop_confirmation_started m1"
    using m1(1) assms(1,8) by (auto simp: stm32_motion_protocol_manager_reset_def manager_inv_def Let_def)
  ultimately show ?thesis using assms by (simp add: part_ok_def firmware_inv_def still_fresh stop_young_def)
qed

lemma link_message_part:
  assumes inv: "firmware_inv driver_inv still ready s"
    and ty: "message_type f \<in> {PROTOCOL_MESSAGE_TYPE_LINK_SYNC, PROTOCOL_MESSAGE_TYPE_HEARTBEAT}"
  shows "part_ok driver_inv still ready now s (firmware_dispatch ops tick f now s)"
proof -
  obtain res l b where h: "uart_link_manager_handle ops (Some f) now (fw_link s) (fw_board s) = (res, l, b)"
    using prod_cases3 by blast
  obtain m1 b1 where r: "stm32_motion_protocol_manager_reset (Some (fw_manager s)) b = (m1, b1)" by fastforce
  have minv: "manager_inv driver_inv still ready (fw_manager s) (fw_board s)" and linit: "link_initialized (fw_link s)"
    using inv by (simp_all add: firmware_inv_def)
  have "board_ready driver_inv still ready (fw_board s)" using minv by (simp add: manager_inv_def)
  from link_handle_safe [OF this linit ty h] have safe: "link_step_safe still res now (fw_link s) (fw_board s) l b"
    and rdy: "board_ready driver_inv still ready b" and same: "board_same (fw_board s) b"
    and l: "link_initialized l" "heartbeat_timeout_ms l = LINK_HEARTBEAT_TIMEOUT_MS"
    using inv by (simp_all add: firmware_inv_def)
  have down: "board_still still (fw_board s)" if "\<not> link_synchronized (fw_link s)"
    using inv_down [OF inv that] by (simp add: firmware_down_def)
  let ?t = "s\<lparr>fw_link := l, fw_board := b\<rparr>"
  have t: "firmware_dispatch ops tick f now s =
      (if res = UART_LINK_MANAGER_RESULT_SYNCHRONIZED \<or> \<not> link_synchronized l
       then ?t\<lparr>fw_manager := the m1, fw_board := b1\<rparr> else ?t)"
    using ty h r by (auto simp: firmware_dispatch_def uart_link_manager_is_synchronized_def Let_def)
  have keep: "manager_inv driver_inv still ready (fw_manager s) b" if "board_still still b \<or> board_guard b = board_guard (fw_board s)"
    using that minv rdy same by (auto simp: manager_inv_def board_same_def)
  show ?thesis
  proof (cases "res = UART_LINK_MANAGER_RESULT_SYNCHRONIZED \<or> \<not> link_synchronized l")
    case True
    then have still: "board_still still b" using safe down by (auto simp: link_step_safe_def split: if_splits)
    with manager_reset_part [of ?t m1 b1 now s] keep l same r inv True show ?thesis
      by (auto simp: t firmware_inv_def board_same_def)
  next
    case False
    then have "board_guard b = board_guard (fw_board s)" using safe by (auto simp: link_step_safe_def split: if_splits)
    with False keep l same inv show ?thesis
      by (simp add: t part_ok_def firmware_inv_def board_same_def board_fresh_def stop_young_def)
  qed
qed

lemma motion_message_part:
  assumes inv: "firmware_inv driver_inv still ready s"
    and ty: "message_type f \<in> {PROTOCOL_MESSAGE_TYPE_MOTION_COMMAND, PROTOCOL_MESSAGE_TYPE_WHEEL_VELOCITY}"
  shows "part_ok driver_inv still ready now s (firmware_dispatch ops tick f now s)"
proof -
  have minv: "manager_inv driver_inv still ready (fw_manager s) (fw_board s)" using inv by (simp add: firmware_inv_def)
  obtain res m b where h: "stm32_motion_protocol_manager_handle ops tick (Some f) (link_synchronized (fw_link s)) now
      (Some (fw_manager s)) (fw_board s) = (res, m, b)" using prod_cases3 by blast
  from manager_handle_inv [OF minv h] obtain m1 where m1: "m = Some m1" "manager_inv driver_inv still ready m1 b"
    "manager_frame still now (fw_board s) b" "stop_kept (fw_manager s) (fw_board s) m1 b"
    "\<not> link_synchronized (fw_link s) \<longrightarrow> m1 = fw_manager s \<and> b = fw_board s" by blast
  let ?t = "s\<lparr>fw_manager := m1, fw_board := b\<rparr>"
  have t: "firmware_dispatch ops tick f now s =
      (if res \<in> {STM32_MOTION_PROTOCOL_MANAGER_RESULT_APPLY_FAILED, STM32_MOTION_PROTOCOL_MANAGER_RESULT_STOP_FAILED,
          STM32_MOTION_PROTOCOL_MANAGER_RESULT_TRANSMIT_FAILED} then reset_link_and_stop_motion ops ?t else ?t)"
    using ty h m1(1) by (auto simp: firmware_dispatch_def uart_link_manager_is_synchronized_def Let_def)
  have wd: "wd_timeout_ms (guard_watchdog (board_guard b)) = MOTION_COMMAND_TIMEOUT_MS"
    using m1(3) inv by (simp add: manager_frame_def firmware_inv_def)
  have reset: "part_ok driver_inv still ready now s (reset_link_and_stop_motion ops ?t)"
    using reset_link_part [of ?t now s] m1(2) wd inv by (simp add: firmware_inv_def)
  have "firmware_inv driver_inv still ready ?t"
    using inv m1 wd by (auto simp: firmware_inv_def)
  moreover have "board_fresh still now (fw_board s) \<longrightarrow> board_fresh still now b"
    using m1(3) inv by (simp add: manager_frame_def firmware_inv_def)
  ultimately show ?thesis unfolding t using reset stop_young_kept [OF m1(4)] by (simp add: part_ok_def)
qed

lemma dispatch_part:
  assumes "firmware_inv driver_inv still ready s"
  shows "part_ok driver_inv still ready now s (firmware_dispatch ops tick f now s)"
proof (cases "message_type f \<in> {PROTOCOL_MESSAGE_TYPE_LINK_SYNC, PROTOCOL_MESSAGE_TYPE_HEARTBEAT,
    PROTOCOL_MESSAGE_TYPE_MOTION_COMMAND, PROTOCOL_MESSAGE_TYPE_WHEEL_VELOCITY}")
  case True
  with link_message_part [OF assms, of f now tick] motion_message_part [OF assms, of f now tick] show ?thesis by auto
next
  case False
  with assms show ?thesis by (simp add: firmware_dispatch_def part_ok_def)
qed

lemma receive_part:
  assumes inv: "firmware_inv driver_inv still ready s"
  shows "part_ok driver_inv still ready now s (firmware_receive ops irqs tick now s)"
proof -
  have q: "queue_wf (fw_queue s)" "rcv_bound (fw_receiver s)" using inv by (simp_all add: firmware_inv_def)
  obtain res fr r1 q1 where p: "uart_protocol_receiver_poll True irqs (Some (fw_receiver s)) (fw_queue s) = ((res, fr), r1, q1)"
    by (metis surj_pair)
  from poll_spec [OF q p] obtain r where r: "r1 = Some r" "rcv_bound r" "queue_wf q1" by blast
  let ?t = "s\<lparr>fw_receiver := r, fw_queue := q1\<rparr>"
  have t: "firmware_inv driver_inv still ready ?t" using inv r by (simp add: firmware_inv_def)
  have "firmware_receive ops irqs tick now s =
      (if res \<in> {UART_PROTOCOL_RECEIVER_RESULT_OVERFLOW, UART_PROTOCOL_RECEIVER_RESULT_INVALID_ARGUMENT}
       then reset_link_and_stop_motion ops ?t
       else if res = UART_PROTOCOL_RECEIVER_RESULT_FRAME then firmware_dispatch ops tick (the fr) now ?t else ?t)"
    using p r(1) by (simp add: firmware_receive_def Let_def)
  moreover have "part_ok driver_inv still ready now s (reset_link_and_stop_motion ops ?t)"
    using reset_link_part [of ?t now s] t by (simp add: firmware_inv_def)
  moreover have "part_ok driver_inv still ready now s (firmware_dispatch ops tick (the fr) now ?t)"
    using dispatch_part [OF t, of now tick "the fr"] by (simp add: part_ok_def)
  ultimately show ?thesis using t by (simp add: part_ok_def)
qed

lemma link_update_part:
  assumes inv: "firmware_inv driver_inv still ready s"
  shows "part_ok driver_inv still ready now s (firmware_link_update ops now s)"
    and "link_synchronized (fw_link (firmware_link_update ops now s)) \<Longrightarrow>
      now - last_heartbeat_ms (fw_link (firmware_link_update ops now s)) < LINK_HEARTBEAT_TIMEOUT_MS"
proof -
  have minv: "manager_inv driver_inv still ready (fw_manager s) (fw_board s)" and linit: "link_initialized (fw_link s)"
    using inv by (simp_all add: firmware_inv_def)
  have rdy: "board_ready driver_inv still ready (fw_board s)" using minv by (simp add: manager_inv_def)
  note upd = link_update_spec [OF rdy linit, of now] and halt = board_halt_spec [OF rdy]
  let ?t = "s\<lparr>fw_link := (fw_link s)\<lparr>link_synchronized := False\<rparr>, fw_board := board_halt ops (fw_board s)\<rparr>"
  obtain m b where r: "stm32_motion_protocol_manager_reset (Some (fw_manager s)) (board_halt ops (fw_board s)) = (m, b)"
    by fastforce
  have t: "firmware_link_update ops now s =
      (if link_synchronized (fw_link s) \<and> heartbeat_timeout_ms (fw_link s) \<le> now - last_heartbeat_ms (fw_link s)
       then ?t\<lparr>fw_manager := the m, fw_board := b\<rparr> else s)"
    using upd r by (simp add: firmware_link_update_def Let_def)
  have "manager_inv driver_inv still ready (fw_manager s) (board_halt ops (fw_board s))"
    using minv halt by (auto simp: manager_inv_def)
  with manager_reset_part [of ?t m b now s] r halt inv
  have lost: "part_ok driver_inv still ready now s (?t\<lparr>fw_manager := the m, fw_board := b\<rparr>)"
    by (simp add: firmware_inv_def)
  then show "part_ok driver_inv still ready now s (firmware_link_update ops now s)"
    using inv by (simp add: t part_ok_def)
  show "now - last_heartbeat_ms (fw_link (firmware_link_update ops now s)) < LINK_HEARTBEAT_TIMEOUT_MS"
    if "link_synchronized (fw_link (firmware_link_update ops now s))"
    using that inv by (auto simp: t firmware_inv_def not_le split: if_splits)
qed

lemma part_trans:
  "part_ok driver_inv still ready now s t \<Longrightarrow> part_ok driver_inv still ready now t u \<Longrightarrow> part_ok driver_inv still ready now s u"
  by (simp add: part_ok_def)

lemma iteration_inv:
  fixes rnd irqs tick now
  assumes inv: "firmware_inv driver_inv still ready s"
  defines "t \<equiv> firmware_iteration ops rnd irqs tick now s"
  shows "firmware_inv driver_inv still ready t" and "board_fresh still now (fw_board t)"
    and "link_synchronized (fw_link t) \<Longrightarrow> now - last_heartbeat_ms (fw_link t) < LINK_HEARTBEAT_TIMEOUT_MS"
    and "stop_young now (fw_manager t) (fw_board t)"
proof -
  let ?s1 = "firmware_motion_update ops now s"
  let ?s2 = "firmware_sample_speed rnd now ?s1"
  let ?s3 = "firmware_receive ops irqs tick now ?s2"
  have s1: "firmware_inv driver_inv still ready ?s1" "board_fresh still now (fw_board ?s1)"
    "stop_young now (fw_manager ?s1) (fw_board ?s1)"
    using motion_update_part [OF inv, of now] by (simp_all add: part_ok_def)
  have s2: "firmware_inv driver_inv still ready ?s2" "board_fresh still now (fw_board ?s2)"
    "stop_young now (fw_manager ?s2) (fw_board ?s2)"
    using sample_speed_part [OF s1(1), of now rnd] s1(2,3) by (simp_all add: part_ok_def)
  have s3: "firmware_inv driver_inv still ready ?s3" "board_fresh still now (fw_board ?s3)"
    "stop_young now (fw_manager ?s3) (fw_board ?s3)"
    using receive_part [OF s2(1), of now irqs tick] s2(2,3) by (simp_all add: part_ok_def)
  have t: "t = firmware_link_update ops now ?s3" by (simp add: t_def firmware_iteration_def Let_def)
  show "firmware_inv driver_inv still ready t" "board_fresh still now (fw_board t)"
    "stop_young now (fw_manager t) (fw_board t)"
    using link_update_part(1) [OF s3(1), of now] s3(2,3) by (simp_all add: t part_ok_def)
  show "link_synchronized (fw_link t) \<Longrightarrow> now - last_heartbeat_ms (fw_link t) < LINK_HEARTBEAT_TIMEOUT_MS"
    using link_update_part(2) [OF s3(1), of now] by (simp add: t)
qed

lemma interrupt_inv:
  assumes "firmware_inv driver_inv still ready s"
  shows "firmware_inv driver_inv still ready (firmware_interrupt bs s)"
proof -
  obtain ok q where "push_all queue_push bs (fw_queue s) = (ok, q)" by fastforce
  with rx_queue.push_all_spec [of "fw_queue s" bs ok q] assms show ?thesis
    by (simp add: firmware_interrupt_def firmware_inv_def)
qed

lemma rx_event_inv:
  assumes "firmware_inv driver_inv still ready s"
  shows "firmware_inv driver_inv still ready (firmware_rx_event is_huart2 rx_size buf s)"
proof -
  have "queue_wf (fw_queue s)" using assms by (simp add: firmware_inv_def)
  from callback_wf [OF this, of is_huart2 rx_size "(fw_rx_port s)\<lparr>dma_buffer := buf\<rparr>"] assms show ?thesis
    by (simp add: firmware_rx_event_def firmware_inv_def case_prod_beta)
qed

lemma firmware_init_inv:
  assumes "firmware_init ops rnd tick (power_on d tx enc rx) = Some s"
  shows "firmware_inv driver_inv still ready s \<and> firmware_down still s"
proof -
  let ?s0 = "power_on d tx enc rx"
  obtain g where g: "motion_command_guard_init ops MOTION_COMMAND_TIMEOUT_MS (board_guard (fw_board ?s0)) = (True, g)"
    using assms by (cases "motion_command_guard_init ops MOTION_COMMAND_TIMEOUT_MS (board_guard (fw_board ?s0))")
      (auto simp: firmware_init_def Let_def split: if_splits)
  note guard = guard_init_wf [OF g]
  have s: "fw_manager s = zero_manager\<lparr>mgr_coordinator := motion_lifecycle_coordinator_init,
        mgr_feedforward := feedforward_config, mgr_initialized := True\<rparr> \<and>
      fw_link s = zero_link\<lparr>heartbeat_timeout_ms := LINK_HEARTBEAT_TIMEOUT_MS, link_initialized := True\<rparr> \<and>
      board_guard (fw_board s) = g \<and> board_stop (fw_board s) = zero_stop_state \<and>
      fw_queue s = zero_queue \<and> rcv_bound (fw_receiver s)"
    using assms g
    by (auto simp: firmware_init_def firmware_first_sample_def stm32_motion_protocol_manager_init_def
        uart_link_manager_init_def uart_protocol_receiver_init_def uart_rx_port_init_def uart_rx_queue_init_def
        feedforward_config_def power_on_def Let_def split: if_splits prod.splits)
  have "queue_wf zero_queue" by (simp add: queue_wf_def zero_queue_def queue_used_def)
  moreover have "manager_inv driver_inv still ready (fw_manager s) (fw_board s)"
    using s guard by (simp add: manager_inv_def board_ready_def guard_ready_def zero_manager_def
        zero_stop_state_def config_valid_def feedforward_config_def) (simp add: motion_lifecycle_coordinator_init_def)
  ultimately show ?thesis
    using s guard by (simp add: firmware_inv_def firmware_down_def zero_manager_def zero_link_def
        motion_lifecycle_coordinator_init_def)
qed

end

text \<open>The invariant holds in every reachable state, with either driver.\<close>

interpretation stm32: inductive_invariant "firmware_started dri0041 rnd" "firmware_step dri0041 rnd"
  "firmware_inv dri0041_inv dri0041_still dri0041_ready" for rnd
proof
  show "firmware_inv dri0041_inv dri0041_still dri0041_ready s" if "firmware_started dri0041 rnd s" for s
    using that dri0041_driver.firmware_init_inv by (auto simp: firmware_started_def)
  show "firmware_inv dri0041_inv dri0041_still dri0041_ready t"
    if "firmware_inv dri0041_inv dri0041_still dri0041_ready s" "firmware_step dri0041 rnd s t" for s t
    using that(2,1) by (auto elim!: firmware_stepE intro: dri0041_driver.iteration_inv(1) dri0041_driver.interrupt_inv
        dri0041_driver.rx_event_inv)
qed

interpretation stm32_drv8833: inductive_invariant "firmware_started drv8833 rnd" "firmware_step drv8833 rnd"
  "firmware_inv drv8833_inv drv8833_still drv8833_ready" for rnd
proof
  show "firmware_inv drv8833_inv drv8833_still drv8833_ready s" if "firmware_started drv8833 rnd s" for s
    using that drv8833_driver.firmware_init_inv by (auto simp: firmware_started_def)
  show "firmware_inv drv8833_inv drv8833_still drv8833_ready t"
    if "firmware_inv drv8833_inv drv8833_still drv8833_ready s" "firmware_step drv8833 rnd s t" for s t
    using that(2,1) by (auto elim!: firmware_stepE intro: drv8833_driver.iteration_inv(1) drv8833_driver.interrupt_inv
        drv8833_driver.rx_event_inv)
qed

end
