(* ===== verification/Firmware_Progress.thy ===== *)
theory Firmware_Progress
  imports Firmware_Safety Uart_Transmitter
begin

section \<open>Progress of the firmware\<close>

text \<open>
  What the peer can achieve on working hardware: with a quiet line, an encoder that stands
  and a serial port that sends, five iterations bring the firmware from a link that is down
  to driven wheels. The theory follows the bytes of each message through the receive queue,
  the decoder, the dispatch, the managers and the motor driver to the timer and the pins.
\<close>

subsection \<open>A quiet line\<close>

definition line_idle :: "'d Firmware \<Rightarrow> bool" where
  "line_idle s \<longleftrightarrow> queue_contents (fw_queue s) = [] \<and> \<not> q_overflowed (fw_queue s) \<and>
     decoder_idle (rcv_decoder (fw_receiver s)) \<and> decoder_wf (rcv_decoder (fw_receiver s))"

lemma loop_prefix:
  assumes "queue_wf q" and "\<not> q_overflowed q" and "queue_contents q = pre @ rest"
    and "decoder_feed_all pre (rcv_decoder r) = ([], d)"
  shows "\<exists>q'. receiver_loop [] r q = receiver_loop [] (r\<lparr>rcv_decoder := d\<rparr>) q' \<and>
    queue_wf q' \<and> \<not> q_overflowed q' \<and> queue_contents q' = rest"
  using assms
proof (induction pre arbitrary: r q)
  case Nil
  then show ?case by (intro exI [of _ q]) (cases r; simp)
next
  case (Cons b pre)
  obtain d1 where d1: "decoder_feed b (rcv_decoder r) = (None, d1)" "decoder_feed_all pre d1 = ([], d)"
    using Cons.prems(4) by (auto split: prod.splits option.splits)
  let ?q = "q\<lparr>q_read_count := q_read_count q + 1\<rparr>"
  have ne: "queue_contents q \<noteq> []" using Cons.prems(3) by simp
  note pop = pop_contents [OF Cons.prems(1)]
  have q: "queue_wf ?q" "\<not> q_overflowed ?q" "queue_contents ?q = pre @ rest"
    using pop(2) [OF ne] Cons.prems(2,3) by simp_all
  have "receiver_loop [] r q = receiver_loop [] (r\<lparr>rcv_decoder := d1\<rparr>) ?q"
    using pop(1) ne Cons.prems(2,3) d1(1) by (simp add: receiver_loop.simps [of "[]" r q])
  with Cons.IH [OF q, of "r\<lparr>rcv_decoder := d1\<rparr>"] d1(2) show ?case by simp
qed

lemma poll_quiet:
  assumes "queue_wf q" and "\<not> q_overflowed q" and "queue_contents q = []" and "rcv_bound r"
  shows "\<exists>q'. uart_protocol_receiver_poll True [] (Some r) q = ((UART_PROTOCOL_RECEIVER_RESULT_NONE, None), Some r, q')
    \<and> queue_contents q' = [] \<and> \<not> q_overflowed q'"
  using assms pop_contents(1) [OF assms(1)]
  by (simp add: uart_protocol_receiver_poll_def uart_protocol_receiver_handle_overflow_def
      uart_rx_queue_has_overflowed_def receiver_loop.simps [of "[]" r q] receiver_finish_def)

text \<open>The decoder delivers a frame with the last byte of its image.\<close>

lemma wire_last_byte:
  assumes "decoder_wf d" and "decoder_idle d" and "frame_sendable f"
    and "decoder_feed_all (frame_wire f) d = ([g], d')" and "frame_equiv f g"
  shows "\<exists>pre b d1. frame_wire f = pre @ [b] \<and> decoder_feed_all pre d = ([], d1) \<and> decoder_feed b d1 = (Some g, d')"
proof -
  obtain pre b where w: "frame_wire f = pre @ [b]"
    using length_frame_wire [OF assms(3)] by (metis append_butlast_last_id list.size(3) add_is_0 zero_neq_numeral)
  obtain fs d1 where pre: "decoder_feed_all pre d = (fs, d1)" by fastforce
  obtain r e where b: "decoder_feed b d1 = (r, e)" by fastforce
  have split: "fs @ (case r of None \<Rightarrow> [] | Some h \<Rightarrow> [h]) = [g]" "e = d'"
    using assms(4) w pre b by (auto simp: decoder_feed_all_append split: option.splits)
  have "fs \<noteq> [g]"
  proof
    assume fs: "fs = [g]"
    have "decoder_tracks [] d" using assms(2) by (simp add: decoder_tracks_def decoder_idle_def)
    from decoder_feed_all_sound [OF assms(1) this pre] fs obtain gaps tail where
      "length gaps = 1" "pre = interleave_wire gaps [g] @ tail" by auto
    then have "length (frame_wire g) \<le> length pre" by (cases gaps) auto
    moreover have "length (frame_wire g) = Suc (length pre)"
      using frame_equiv_wire [OF assms(5)] w by (metis length_append_singleton)
    ultimately show False by simp
  qed
  with split have "fs = []" "r = Some g" by (auto simp: append_eq_Cons_conv split: option.splits)
  with w pre b split(2) show ?thesis by blast
qed

lemma poll_frame:
  assumes "queue_wf q" and "\<not> q_overflowed q" and "queue_contents q = frame_wire f" and "rcv_bound r"
    and "decoder_idle (rcv_decoder r)" and "decoder_wf (rcv_decoder r)" and "frame_sendable f"
  shows "\<exists>g d q'. uart_protocol_receiver_poll True [] (Some r) q =
      ((UART_PROTOCOL_RECEIVER_RESULT_FRAME, Some g), Some (r\<lparr>rcv_decoder := d\<rparr>), q') \<and>
    frame_equiv f g \<and> decoder_feed_all (frame_wire f) (rcv_decoder r) = ([g], d) \<and>
    decoder_idle d \<and> decoder_wf d \<and> queue_contents q' = [] \<and> \<not> q_overflowed q' \<and> queue_wf q'"
proof -
  from feed_frame_wire [OF assms(5,7)] obtain g d where
    g: "decoder_feed_all (frame_wire f) (rcv_decoder r) = ([g], d)" "frame_equiv f g" "decoder_idle d" by metis
  from wire_last_byte [OF assms(6,5,7) g(1,2)] obtain pre b d1 where
    w: "frame_wire f = pre @ [b]" "decoder_feed_all pre (rcv_decoder r) = ([], d1)" "decoder_feed b d1 = (Some g, d)"
    by blast
  from loop_prefix [OF assms(1,2) _ w(2), of "[b]"] assms(3) w(1) obtain q1 where
    q1: "receiver_loop [] r q = receiver_loop [] (r\<lparr>rcv_decoder := d1\<rparr>) q1" "queue_wf q1" "\<not> q_overflowed q1"
      "queue_contents q1 = [b]" by auto
  let ?q = "q1\<lparr>q_read_count := q_read_count q1 + 1\<rparr>"
  note pop = pop_contents [OF q1(2)]
  have "receiver_loop [] r q = ((UART_PROTOCOL_RECEIVER_RESULT_FRAME, Some g), r\<lparr>rcv_decoder := d\<rparr>, ?q)"
    using q1 pop(1) w(3)
    by (simp add: receiver_loop.simps [of "[]" "r\<lparr>rcv_decoder := d1\<rparr>"] receiver_finish_def
        uart_protocol_receiver_handle_overflow_def uart_rx_queue_has_overflowed_def)
  then have "uart_protocol_receiver_poll True [] (Some r) q =
      ((UART_PROTOCOL_RECEIVER_RESULT_FRAME, Some g), Some (r\<lparr>rcv_decoder := d\<rparr>), ?q)"
    using assms(2,4) by (simp add: uart_protocol_receiver_poll_def uart_protocol_receiver_handle_overflow_def
        uart_rx_queue_has_overflowed_def)
  moreover have "queue_contents ?q = []" "queue_wf ?q" using pop(2) q1(4) by simp_all
  moreover have "decoder_wf d" using decoder_wf_feed_all [OF assms(6), of "frame_wire f"] g(1) by simp
  ultimately show ?thesis using g q1(3) by auto
qed

subsection \<open>One exchange\<close>

text \<open>Bytes arrive, then the loop body runs once, at one time.\<close>

definition exchange :: "(real \<Rightarrow> real) \<Rightarrow> u8 list \<times> u32 \<Rightarrow> Dri0041 Firmware \<Rightarrow> Dri0041 Firmware" where
  "exchange rnd e s = firmware_iteration dri0041 rnd [] (snd e) (snd e) (firmware_interrupt (fst e) s)"

definition before_receive :: "(real \<Rightarrow> real) \<Rightarrow> u32 \<Rightarrow> Dri0041 Firmware \<Rightarrow> Dri0041 Firmware" where
  "before_receive rnd now s = firmware_sample_speed rnd now (firmware_motion_update dri0041 now s)"

lemma interrupt_queued:
  assumes "queue_wf (fw_queue s)" and "line_idle s" and "length bs \<le> 256"
  shows "queue_wf (fw_queue (firmware_interrupt bs s)) \<and> \<not> q_overflowed (fw_queue (firmware_interrupt bs s)) \<and>
    queue_contents (fw_queue (firmware_interrupt bs s)) = bs"
proof -
  obtain ok q where q: "push_all queue_push bs (fw_queue s) = (ok, q)" by fastforce
  have "length (queue_contents (fw_queue s)) + length bs \<le> 256"
    using assms(2,3) unfolding line_idle_def by (metis add_0 list.size(3))
  then have "ok" using rx_queue.push_all_room [of "fw_queue s" bs] assms(1,2) q by (simp add: line_idle_def)
  with rx_queue.push_all_spec [OF assms(1) q] q assms(2) show ?thesis
    by (auto simp: firmware_interrupt_def line_idle_def)
qed

lemma before_receive_line [simp]:
  "fw_receiver (before_receive rnd now s) = fw_receiver s" "fw_queue (before_receive rnd now s) = fw_queue s"
  by (auto simp: before_receive_def firmware_sample_speed_def firmware_motion_update_def reset_link_and_stop_motion_def Let_def
      split: prod.splits)

lemma after_receive_line [simp]:
  "fw_receiver (firmware_link_update drv now s) = fw_receiver s" "fw_queue (firmware_link_update drv now s) = fw_queue s"
  "fw_receiver (firmware_dispatch drv tick f now s) = fw_receiver s" "fw_queue (firmware_dispatch drv tick f now s) = fw_queue s"
  by (auto simp: firmware_link_update_def firmware_dispatch_def reset_link_and_stop_motion_def Let_def
      split: prod.splits)

lemma line_idle_line:
  "fw_receiver s = fw_receiver t \<Longrightarrow> fw_queue s = fw_queue t \<Longrightarrow> line_idle s = line_idle t"
  by (simp add: line_idle_def)

lemma exchange_frame:
  assumes "queue_wf (fw_queue s)" and "rcv_bound (fw_receiver s)" and "line_idle s" and "frame_sendable f"
    and "s1 = before_receive rnd now (firmware_interrupt (frame_wire f) s)"
  shows "\<exists>g r q. frame_equiv f g \<and> (\<exists>d. decoder_feed_all (frame_wire f) (rcv_decoder (fw_receiver s)) = ([g], d)) \<and>
    rcv_bound r \<and> queue_wf q \<and> exchange rnd (frame_wire f, now) s =
      firmware_link_update dri0041 now (firmware_dispatch dri0041 now g now (s1\<lparr>fw_receiver := r, fw_queue := q\<rparr>)) \<and>
    line_idle (exchange rnd (frame_wire f, now) s)"
proof -
  let ?q = "fw_queue (firmware_interrupt (frame_wire f) s)"
  have "length (frame_wire f) \<le> 256"
    using length_frame_wire [OF assms(4)] assms(4) by (simp add: frame_sendable_def)
  note q = interrupt_queued [OF assms(1,3) this]
  have "fw_receiver s1 = fw_receiver s" "fw_queue s1 = ?q" by (simp_all add: assms(5) firmware_interrupt_def)
  moreover from poll_frame [of ?q f "fw_receiver s"] q assms(2-4) obtain g d q' where
    poll: "uart_protocol_receiver_poll True [] (Some (fw_receiver s)) ?q =
      ((UART_PROTOCOL_RECEIVER_RESULT_FRAME, Some g), Some ((fw_receiver s)\<lparr>rcv_decoder := d\<rparr>), q')"
    and g: "frame_equiv f g" "decoder_idle d" "decoder_wf d" "queue_contents q' = []" "\<not> q_overflowed q'" "queue_wf q'"
      "decoder_feed_all (frame_wire f) (rcv_decoder (fw_receiver s)) = ([g], d)"
    by (auto simp: line_idle_def)
  ultimately have e: "exchange rnd (frame_wire f, now) s = firmware_link_update dri0041 now
      (firmware_dispatch dri0041 now g now (s1\<lparr>fw_receiver := (fw_receiver s)\<lparr>rcv_decoder := d\<rparr>, fw_queue := q'\<rparr>))"
    by (simp add: exchange_def firmware_iteration_def before_receive_def [symmetric] assms(5) [symmetric]
        firmware_receive_def Let_def)
  moreover from this g have "line_idle (exchange rnd (frame_wire f, now) s)" by (simp add: line_idle_def)
  moreover have "rcv_bound ((fw_receiver s)\<lparr>rcv_decoder := d\<rparr>)" using assms(2) by simp
  ultimately show ?thesis using g(1,6,7) by blast
qed

lemma exchange_quiet:
  assumes "queue_wf (fw_queue s)" and "rcv_bound (fw_receiver s)" and "line_idle s"
    and "s1 = before_receive rnd now (firmware_interrupt [] s)"
  shows "\<exists>r q. exchange rnd ([], now) s = firmware_link_update dri0041 now (s1\<lparr>fw_receiver := r, fw_queue := q\<rparr>) \<and>
    line_idle (exchange rnd ([], now) s)"
proof -
  let ?q = "fw_queue (firmware_interrupt [] s)"
  note q = interrupt_queued [OF assms(1,3), of "[]"]
  have "fw_receiver s1 = fw_receiver s" "fw_queue s1 = ?q" by (simp_all add: assms(4) firmware_interrupt_def)
  moreover from poll_quiet [of ?q "fw_receiver s"] q assms(2) obtain q' where
    poll: "uart_protocol_receiver_poll True [] (Some (fw_receiver s)) ?q =
      ((UART_PROTOCOL_RECEIVER_RESULT_NONE, None), Some (fw_receiver s), q')"
    and g: "queue_contents q' = []" "\<not> q_overflowed q'" by auto
  ultimately have e: "exchange rnd ([], now) s = firmware_link_update dri0041 now
      (s1\<lparr>fw_receiver := fw_receiver s, fw_queue := q'\<rparr>)"
    by (simp add: exchange_def firmware_iteration_def before_receive_def [symmetric] assms(4) [symmetric]
        firmware_receive_def Let_def)
  moreover from this g assms(3) have "line_idle (exchange rnd ([], now) s)" by (simp add: line_idle_def)
  ultimately show ?thesis by blast
qed

lemma exchange_inv:
  "firmware_inv dri0041_inv dri0041_still dri0041_ready s \<Longrightarrow>
     firmware_inv dri0041_inv dri0041_still dri0041_ready (exchange rnd e s)"
  unfolding exchange_def by (intro dri0041_driver.iteration_inv(1) dri0041_driver.interrupt_inv)

lemma exchange_reachable:
  assumes "firmware_reachable dri0041 rnd s"
  shows "firmware_reachable dri0041 rnd (exchange rnd e s)"
  unfolding exchange_def
  by (rule reachable_step [OF reachable_step [OF assms interrupted] iterate])

subsection \<open>Working hardware\<close>

text \<open>The serial line sends, the encoders stand at \<open>c\<close>, the timer has the period the board configures.\<close>

abbreviation driver_period :: "Dri0041 Board \<Rightarrow> u32" where
  "driver_period b \<equiv> tim_period (d41_tim8 (d41_port (guard_driver (board_guard b))))"

definition works :: "WheelEncoderCounts \<Rightarrow> Dri0041 Board \<Rightarrow> bool" where
  "works c b \<longleftrightarrow> tx_is_USART2 (board_tx b) \<and> (\<forall>n. tx_status (board_tx b) n) \<and>
     (\<forall>n. enc_samples (board_encoder b) n = c) \<and> driver_period b = TIM8_PERIOD"

text \<open>The wheels were stopped and no command was given since.\<close>

definition rested :: "Dri0041 Board \<Rightarrow> bool" where
  "rested b \<longleftrightarrow> \<not> wd_armed (guard_watchdog (board_guard b)) \<and>
     (let d = guard_driver (board_guard b)
      in \<not> reversal_pending (d41_left d) \<and> wheel_direction (d41_left d) = DRI0041_DIRECTION_STOPPED \<and>
         \<not> reversal_pending (d41_right d) \<and> wheel_direction (d41_right d) = DRI0041_DIRECTION_STOPPED)"

lemma try_stop_dri0041:
  assumes "dri0041_ready (guard_driver g)" and "motion_command_guard_try_stop dri0041 g = (ok, g')"
  shows "ok" and "tim_period (d41_tim8 (d41_port (guard_driver g'))) = tim_period (d41_tim8 (d41_port (guard_driver g)))"
    and "rested (b\<lparr>board_guard := g'\<rparr>)"
proof -
  have "fst (motor_driver_dri0041_port_apply (Some zero_dri0041_control) (d41_port (guard_driver g)))"
    using assms(1) port_apply_ok [OF zero_control_ok] by (simp add: dri0041_ready_def)
  then show "ok" and "tim_period (d41_tim8 (d41_port (guard_driver g'))) = tim_period (d41_tim8 (d41_port (guard_driver g)))"
    and "rested (b\<lparr>board_guard := g'\<rparr>)"
    using assms port_apply_frame(3) [of "Some zero_dri0041_control" "d41_port (guard_driver g)"]
    by (auto simp: motion_command_guard_try_stop_def dri0041_def motor_driver_stop_dri0041_def dri0041_ready_def
        rested_def motion_watchdog_disarm_def Let_def split: prod.splits if_splits)
qed

lemma guard_update_works:
  assumes "guard_ready dri0041_inv dri0041_still dri0041_ready (board_guard b)"
    and "b' = b\<lparr>board_guard := snd (motion_command_guard_update dri0041 now (board_guard b))\<rparr>"
  shows "works c b' = works c b" and "rested b \<Longrightarrow> rested b'"
proof -
  obtain ok g where g: "motion_command_guard_try_stop dri0041 (board_guard b) = (ok, g)" by fastforce
  have "dri0041_ready (guard_driver (board_guard b))" using assms(1) by (simp add: guard_ready_def)
  note stop = try_stop_dri0041 [OF this g]
  show "works c b' = works c b"
    using g stop(1,2) by (simp add: assms(2) works_def motion_command_guard_update_def)
  show "rested b \<Longrightarrow> rested b'"
    using g stop(1) stop(3) [of b] by (simp add: assms(2) motion_command_guard_update_def rested_def)
qed

lemma halt_works:
  assumes "guard_ready dri0041_inv dri0041_still dri0041_ready (board_guard b)"
  shows "works c (board_halt dri0041 b) = works c b" and "rested (board_halt dri0041 b)"
proof -
  obtain ok g where g: "motion_command_guard_try_stop dri0041 (board_guard b) = (ok, g)" by fastforce
  have r: "dri0041_ready (guard_driver (board_guard b))" "guard_initialized (board_guard b)"
    using assms by (simp_all add: guard_ready_def)
  note stop = try_stop_dri0041 [OF r(1) g]
  from g stop(1,2) stop(3) [of b] r(2) show "works c (board_halt dri0041 b) = works c b" "rested (board_halt dri0041 b)"
    by (simp_all add: board_halt_def motion_command_guard_stop_def works_def)
qed

lemma send_works:
  assumes "works c b" and "frame_sendable f"
  shows "fst (board_send f b)" and "works c (snd (board_send f b))" and "rested (snd (board_send f b)) = rested b"
  using assms board_send_call(1) [OF assms(2), of b] send_frame_simps [of "Some f" "board_tx b"]
  by (simp_all add: works_def rested_def board_send_def case_prod_beta)

subsection \<open>Before the receive\<close>

lemma before_receive_inv:
  assumes "firmware_inv dri0041_inv dri0041_still dri0041_ready s"
  shows "firmware_inv dri0041_inv dri0041_still dri0041_ready (before_receive rnd now s)"
  using dri0041_driver.motion_update_part(1) [OF assms, of now]
    dri0041_driver.sample_speed_part [of "firmware_motion_update dri0041 now s" now rnd]
  by (simp add: part_ok_def before_receive_def)

text \<open>What the speed sample leaves alone.\<close>

lemma sample_speed_keeps:
  "fw_manager (firmware_sample_speed rnd now s) = fw_manager s"
  "fw_link (firmware_sample_speed rnd now s) = fw_link s"
  "board_guard (fw_board (firmware_sample_speed rnd now s)) = board_guard (fw_board s)"
  "board_stop (fw_board (firmware_sample_speed rnd now s)) = board_stop (fw_board s)"
  "works c (fw_board (firmware_sample_speed rnd now s)) = works c (fw_board s)"
  "rested (fw_board (firmware_sample_speed rnd now s)) = rested (fw_board s)"
  by (auto simp: firmware_sample_speed_def wheel_encoder_read_def wheel_encoder_port_read_def works_def rested_def
      Let_def split: prod.splits)

lemma inv_guard_ready:
  "firmware_inv dri0041_inv dri0041_still dri0041_ready s \<Longrightarrow>
     guard_ready dri0041_inv dri0041_still dri0041_ready (board_guard (fw_board s))"
  by (simp add: firmware_inv_def manager_inv_def board_ready_def)

lemma before_idle:
  assumes "firmware_inv dri0041_inv dri0041_still dri0041_ready s" and "pending_stop_operation_id (fw_manager s) = 0"
    and "t = before_receive rnd now s" and "works c (fw_board s)"
  shows "fw_manager t = fw_manager s" and "fw_link t = fw_link s" and "works c (fw_board t)"
    and "rested (fw_board s) \<Longrightarrow> rested (fw_board t)"
proof -
  note g = inv_guard_ready [OF assms(1)]
  have "mgr_initialized (fw_manager s)" using assms(1) by (simp add: firmware_inv_def manager_inv_def)
  then have "firmware_motion_update dri0041 now s = s\<lparr>fw_board := (fw_board s)\<lparr>board_guard :=
      snd (motion_command_guard_update dri0041 now (board_guard (fw_board s)))\<rparr>\<rparr>"
    using assms(2) dri0041_driver.guard_update_ready(3) [OF g, of now]
    by (simp add: firmware_motion_update_def stm32_motion_protocol_manager_update_def case_prod_beta Let_def)
  then show "fw_manager t = fw_manager s" "fw_link t = fw_link s" "works c (fw_board t)"
    "rested (fw_board s) \<Longrightarrow> rested (fw_board t)"
    using guard_update_works [OF g refl, where now = now] assms(4)
    by (simp_all add: assms(3) before_receive_def sample_speed_keeps)
qed

subsection \<open>The peer's messages\<close>

definition sync_message :: "u16 \<Rightarrow> LinkSyncPayload \<Rightarrow> ProtocolFrame" where
  "sync_message sq p = message PROTOCOL_MESSAGE_TYPE_LINK_SYNC sq (link_sync_encode p)"

definition start_message :: "u16 \<Rightarrow> u32 \<Rightarrow> ProtocolFrame" where
  "start_message sq sid = message PROTOCOL_MESSAGE_TYPE_MOTION_COMMAND sq (motion_lifecycle_command_encode
     \<lparr>lc_command = MOTION_LIFECYCLE_COMMAND_START_SESSION, lc_motion_session_id = sid\<rparr>)"

definition velocity_message :: "u16 \<Rightarrow> u32 \<Rightarrow> WheelVelocityCommand \<Rightarrow> ProtocolFrame" where
  "velocity_message sq sid v = message PROTOCOL_MESSAGE_TYPE_WHEEL_VELOCITY sq
     (wheel_velocity_payload_encode \<lparr>wv_motion_session_id = sid, wv_command = v\<rparr>)"

lemma link_update_alive:
  assumes "heartbeat_timeout_ms (fw_link s) = LINK_HEARTBEAT_TIMEOUT_MS"
    and "now - last_heartbeat_ms (fw_link s) < LINK_HEARTBEAT_TIMEOUT_MS"
  shows "firmware_link_update dri0041 now s = s"
  using assms by (simp add: firmware_link_update_def uart_link_manager_update_def)

text \<open>A message that arrives while no stop operation is pending is dispatched in the same iteration.\<close>

lemma message_exchange:
  assumes inv: "firmware_inv dri0041_inv dri0041_still dri0041_ready s" and idle: "line_idle s"
    and w: "works c (fw_board s)" and op: "pending_stop_operation_id (fw_manager s) = 0"
    and bytes: "length bytes \<le> 64" and t: "t = exchange rnd (frame_wire (message ty sq bytes), now) s"
  obtains s1 g rest where "firmware_inv dri0041_inv dri0041_still dri0041_ready s1"
    and "fw_manager s1 = fw_manager s" and "fw_link s1 = fw_link s" and "works c (fw_board s1)"
    and "rested (fw_board s) \<Longrightarrow> rested (fw_board s1)"
    and "message_type g = ty" and "frame_sequence g = sq" and "unat (payload_length g) = length bytes"
    and "payload g = bytes @ rest"
    and "t = firmware_link_update dri0041 now (firmware_dispatch dri0041 now g now s1)" and "line_idle t"
proof -
  let ?f = "message ty sq bytes"
  define s0 where "s0 = firmware_interrupt (frame_wire ?f) s"
  define s1 where "s1 = before_receive rnd now s0"
  have inv0: "firmware_inv dri0041_inv dri0041_still dri0041_ready s0"
    unfolding s0_def by (rule dri0041_driver.interrupt_inv [OF inv])
  have inv1: "firmware_inv dri0041_inv dri0041_still dri0041_ready s1"
    unfolding s1_def by (rule before_receive_inv [OF inv0])
  have s0: "fw_manager s0 = fw_manager s" "fw_link s0 = fw_link s" "fw_board s0 = fw_board s"
    by (simp_all add: s0_def firmware_interrupt_def)
  note s1 = before_idle [OF inv0 _ s1_def, unfolded s0, OF op w]
  have "queue_wf (fw_queue s)" "rcv_bound (fw_receiver s)" using inv by (simp_all add: firmware_inv_def)
  from exchange_frame [OF this idle message_sendable [OF bytes], of s1 rnd now] s1_def s0_def t
  obtain g r q where g: "frame_equiv ?f g" and e: "t = firmware_link_update dri0041 now
      (firmware_dispatch dri0041 now g now (s1\<lparr>fw_receiver := r, fw_queue := q\<rparr>))"
    and r: "rcv_bound r" "queue_wf q" and idle': "line_idle t" by blast
  note msg = message_equiv [OF g bytes]
  obtain rest where "payload g = bytes @ rest" using msg(4) by blast
  show thesis
    by (rule that [OF _ _ _ _ _ msg(1-3) \<open>payload g = bytes @ rest\<close> e idle']) (use inv1 r s1 in \<open>simp_all add: firmware_inv_def\<close>)
qed

subsection \<open>The five exchanges that start a session\<close>

lemma sync_exchange:
  assumes inv: "firmware_inv dri0041_inv dri0041_still dri0041_ready s" and idle: "line_idle s"
    and w: "works c (fw_board s)" and down: "\<not> link_synchronized (fw_link s)"
    and t: "t = exchange rnd (frame_wire (sync_message sq p), now) s"
  shows "line_idle t" and "works c (fw_board t)" and "link_synchronized (fw_link t)"
    and "last_heartbeat_ms (fw_link t) = now"
    and "lifecycle_state (mgr_coordinator (fw_manager t)) = MOTION_LIFECYCLE_STATE_NO_SESSION"
    and "\<not> latest_sequence_valid (reliable_receiver (mgr_coordinator (fw_manager t)))"
proof -
  have "pending_stop_operation_id (fw_manager s) = 0"
    using dri0041_driver.inv_down [OF inv down] by (simp add: firmware_down_def)
  from message_exchange [OF inv idle w this _ t [unfolded sync_message_def]] obtain s1 g rest where
    inv1: "firmware_inv dri0041_inv dri0041_still dri0041_ready s1" and w1: "works c (fw_board s1)"
    and msg: "message_type g = PROTOCOL_MESSAGE_TYPE_LINK_SYNC" "unat (payload_length g) = LINK_SYNC_WIRE_SIZE"
    and e: "t = firmware_link_update dri0041 now (firmware_dispatch dri0041 now g now s1)" and idle': "line_idle t"
    by (metis link_sync.enc_length link_sync_frame.fits_frame)
  have rdy: "stm32_ready (fw_board s1)" and m: "mgr_initialized (fw_manager s1)" and l: "link_initialized (fw_link s1)"
    using inv1 by (simp_all add: firmware_inv_def manager_inv_def)
  let ?b = "board_halt dri0041 (fw_board s1)"
  have wb: "works c ?b" using halt_works(1) [OF inv_guard_ready [OF inv1]] w1 by simp
  note sent = send_works [OF wb link_frames_sendable(1) [of g]]
  have "uart_link_manager_handle dri0041 (Some g) now (fw_link s1) (fw_board s1) =
      (UART_LINK_MANAGER_RESULT_SYNCHRONIZED, (fw_link s1)\<lparr>link_synchronized := True, last_heartbeat_ms := now\<rparr>,
       snd (board_send (link_sync_ok_frame g) ?b))"
    using dri0041_driver.handle_link_sync_spec [OF rdy msg(1), of now "fw_link s1"] msg l sent(1)
    by (simp add: uart_link_manager_handle_def Let_def)
  then have "firmware_dispatch dri0041 now g now s1 =
      s1\<lparr>fw_link := (fw_link s1)\<lparr>link_synchronized := True, last_heartbeat_ms := now\<rparr>,
        fw_board := (snd (board_send (link_sync_ok_frame g) ?b))\<lparr>board_stop := motion_stop_cancel\<rparr>,
        fw_manager := (fw_manager s1)\<lparr>mgr_coordinator := motion_lifecycle_coordinator_reset (mgr_coordinator (fw_manager s1)),
          pending_stop_operation_id := 0, stop_confirmation_started := False\<rparr>\<rparr>" (is "_ = ?s3")
    using msg m by (simp add: firmware_dispatch_def stm32_motion_protocol_manager_reset_def Let_def)
  moreover have "firmware_link_update dri0041 now ?s3 = ?s3"
    using inv1 by (simp add: firmware_link_update_def uart_link_manager_update_def firmware_inv_def)
  ultimately have t3: "t = ?s3" using e by simp
  show "line_idle t" by (rule idle')
  show "works c (fw_board t)" using sent(2) by (simp add: t3 works_def)
  show "link_synchronized (fw_link t)" "last_heartbeat_ms (fw_link t) = now"
    "lifecycle_state (mgr_coordinator (fw_manager t)) = MOTION_LIFECYCLE_STATE_NO_SESSION"
    "\<not> latest_sequence_valid (reliable_receiver (mgr_coordinator (fw_manager t)))"
    by (simp_all add: t3) (simp add: motion_lifecycle_coordinator_reset_def motion_reliable_receiver_reset_def)
qed

lemma process_action_works:
  assumes "works c b" and "stm32_ready b" and "process_action dri0041 a m b = (res, m', b')"
  shows "works c b'"
    and "act_operation a = MOTION_LIFECYCLE_OPERATION_ENSURE_STOPPED \<Longrightarrow>
      res = STM32_MOTION_PROTOCOL_MANAGER_RESULT_STOP_PENDING \<and> rested b' \<and>
      m' = m\<lparr>pending_stop_operation_id := act_operation_id a, stop_confirmation_started := False\<rparr>"
    and "act_operation a \<noteq> MOTION_LIFECYCLE_OPERATION_ENSURE_STOPPED \<Longrightarrow>
      res = STM32_MOTION_PROTOCOL_MANAGER_RESULT_PROCESSED \<and> rested b' = rested b \<and> m' = m"
proof -
  let ?f = "motion_command_frames_build a"
  define b1 where "b1 = (if ack_valid ?f then snd (board_send (ack_frame ?f) b) else b)"
  define b2 where "b2 = (if response_valid ?f then snd (board_send (response_frame ?f) b1) else b1)"
  have 1: "ack_valid ?f \<Longrightarrow> fst (board_send (ack_frame ?f) b)" "works c b1" "rested b1 = rested b" "stm32_ready b1"
    using send_works [OF assms(1) frames_build_wf(1) [of a]] assms(1,2) by (auto simp: b1_def)
  have 2: "response_valid ?f \<Longrightarrow> fst (board_send (response_frame ?f) b1)" "works c b2" "rested b2 = rested b1" "stm32_ready b2"
    using send_works [OF 1(2) frames_build_wf(2) [of a]] 1 by (auto simp: b2_def)
  note halt = dri0041_driver.board_halt_spec(1) [OF 2(4)] halt_works [OF 2(4) [unfolded board_ready_def]]
  have "(res, m', b') =
      (if act_operation a = MOTION_LIFECYCLE_OPERATION_ENSURE_STOPPED
       then (STM32_MOTION_PROTOCOL_MANAGER_RESULT_STOP_PENDING,
         m\<lparr>pending_stop_operation_id := act_operation_id a, stop_confirmation_started := False\<rparr>, board_halt dri0041 b2)
       else (STM32_MOTION_PROTOCOL_MANAGER_RESULT_PROCESSED, m, b2))"
    using assms(3) 1(1) 2(1) halt(1) by (auto simp: process_action_def b1_def b2_def Let_def split: prod.splits if_splits)
  then show "works c b'"
    and "act_operation a = MOTION_LIFECYCLE_OPERATION_ENSURE_STOPPED \<Longrightarrow>
      res = STM32_MOTION_PROTOCOL_MANAGER_RESULT_STOP_PENDING \<and> rested b' \<and>
      m' = m\<lparr>pending_stop_operation_id := act_operation_id a, stop_confirmation_started := False\<rparr>"
    and "act_operation a \<noteq> MOTION_LIFECYCLE_OPERATION_ENSURE_STOPPED \<Longrightarrow>
      res = STM32_MOTION_PROTOCOL_MANAGER_RESULT_PROCESSED \<and> rested b' = rested b \<and> m' = m"
    using 1 2 halt(2,3) by (auto split: if_splits)
qed

lemma start_exchange:
  assumes inv: "firmware_inv dri0041_inv dri0041_still dri0041_ready s" and idle: "line_idle s"
    and w: "works c (fw_board s)" and up: "link_synchronized (fw_link s)"
    and alive: "now - last_heartbeat_ms (fw_link s) < LINK_HEARTBEAT_TIMEOUT_MS"
    and state: "lifecycle_state (mgr_coordinator (fw_manager s)) = MOTION_LIFECYCLE_STATE_NO_SESSION"
    and new: "\<not> latest_sequence_valid (reliable_receiver (mgr_coordinator (fw_manager s)))"
    and t: "t = exchange rnd (frame_wire (start_message sq sid), now) s"
  shows "line_idle t" and "works c (fw_board t)" and "rested (fw_board t)" and "fw_link t = fw_link s"
    and "session_of (mgr_coordinator (fw_manager t)) = Starting sid"
    and "pending_stop_operation_id (fw_manager t) \<noteq> 0" and "\<not> stop_confirmation_started (fw_manager t)"
proof -
  let ?p = "\<lparr>lc_command = MOTION_LIFECYCLE_COMMAND_START_SESSION, lc_motion_session_id = sid\<rparr>"
  let ?t = "\<lparr>tx_sequence = sq, tx_command = MOTION_LIFECYCLE_COMMAND_START_SESSION, tx_motion_session_id = sid\<rparr>"
  have wf: "coordinator_wf (mgr_coordinator (fw_manager s))" using inv by (simp add: firmware_inv_def manager_inv_def)
  have "pending_stop_operation_id (fw_manager s) = 0"
    using inv no_session_idle [OF wf state] by (simp add: firmware_inv_def manager_inv_def)
  from message_exchange [OF inv idle w this _ t [unfolded start_message_def]] obtain s1 g rest where
    inv1: "firmware_inv dri0041_inv dri0041_still dri0041_ready s1" and w1: "works c (fw_board s1)"
    and same: "fw_manager s1 = fw_manager s" "fw_link s1 = fw_link s"
    and msg: "message_type g = PROTOCOL_MESSAGE_TYPE_MOTION_COMMAND" "frame_sequence g = sq"
      "unat (payload_length g) = MOTION_LIFECYCLE_COMMAND_WIRE_SIZE"
      "payload g = motion_lifecycle_command_encode ?p @ rest"
    and e: "t = firmware_link_update dri0041 now (firmware_dispatch dri0041 now g now s1)" and idle': "line_idle t"
    by (metis lifecycle_command.enc_length lifecycle_command_frame.fits_frame)
  have m1: "mgr_initialized (fw_manager s)" and rdy: "stm32_ready (fw_board s1)"
    and link: "link_synchronized (fw_link s1)" "heartbeat_timeout_ms (fw_link s1) = LINK_HEARTBEAT_TIMEOUT_MS"
      "now - last_heartbeat_ms (fw_link s1) < LINK_HEARTBEAT_TIMEOUT_MS"
    using inv inv1 same up alive by (simp_all add: firmware_inv_def manager_inv_def)
  have dec: "motion_lifecycle_command_decode (payload g) = ?p"
    unfolding msg(4) by (rule lifecycle_command.dec_enc)
  have "decision (mgr_coordinator (fw_manager s)) ?t = MOTION_RELIABLE_DECISION_NEW"
    using new by (simp add: motion_reliable_receiver_classify_def)
  from handle_new [OF this] state obtain a k where hc: "motion_lifecycle_coordinator_handle_transaction
      (mgr_coordinator (fw_manager s)) ?t = (a, k)" and k: "session_of k = Starting sid" "active_operation_id k \<noteq> 0"
    and a: "act_operation a = MOTION_LIFECYCLE_OPERATION_ENSURE_STOPPED" "act_operation_id a = active_operation_id k"
    by (auto simp: session_of.simps session_on_command_def new_operation_id_def Let_def)
  obtain res m b where p: "process_action dri0041 a ((fw_manager s)\<lparr>mgr_coordinator := k\<rparr>) (fw_board s1) = (res, m, b)"
    using prod_cases3 by blast
  note acted = process_action_works [OF w1 rdy p]
  have "firmware_dispatch dri0041 now g now s1 = s1\<lparr>fw_manager := m, fw_board := b\<rparr>"
    using msg dec hc p acted(2) [OF a(1)] m1 same link(1)
    by (simp add: firmware_dispatch_def stm32_motion_protocol_manager_handle_def manager_handle_command_def
        uart_link_manager_is_synchronized_def Let_def)
  with e link link_update_alive [of "s1\<lparr>fw_manager := m, fw_board := b\<rparr>" now] have "t = s1\<lparr>fw_manager := m, fw_board := b\<rparr>"
    by simp
  with idle' acted(1) acted(2) [OF a(1)] same a(2) k show "line_idle t" "works c (fw_board t)" "rested (fw_board t)"
    "fw_link t = fw_link s" "session_of (mgr_coordinator (fw_manager t)) = Starting sid"
    "pending_stop_operation_id (fw_manager t) \<noteq> 0" "\<not> stop_confirmation_started (fw_manager t)"
    by simp_all
qed

text \<open>An iteration in which nothing arrives.\<close>

lemma quiet_exchange:
  assumes inv: "firmware_inv dri0041_inv dri0041_still dri0041_ready s" and idle: "line_idle s"
    and alive: "now - last_heartbeat_ms (fw_link s) < LINK_HEARTBEAT_TIMEOUT_MS"
    and link: "fw_link (before_receive rnd now (firmware_interrupt [] s)) = fw_link s"
    and t: "t = exchange rnd ([], now) s"
  shows "line_idle t" and "fw_link t = fw_link s"
    and "fw_manager t = fw_manager (before_receive rnd now (firmware_interrupt [] s))"
    and "fw_board t = fw_board (before_receive rnd now (firmware_interrupt [] s))"
proof -
  let ?s1 = "before_receive rnd now (firmware_interrupt [] s)"
  have q: "queue_wf (fw_queue s)" "rcv_bound (fw_receiver s)" "heartbeat_timeout_ms (fw_link s) = LINK_HEARTBEAT_TIMEOUT_MS"
    using inv by (simp_all add: firmware_inv_def)
  from exchange_quiet [OF q(1,2) idle refl, of rnd now] t obtain r k where
    e: "t = firmware_link_update dri0041 now (?s1\<lparr>fw_receiver := r, fw_queue := k\<rparr>)" and "line_idle t" by blast
  with link_update_alive [of "?s1\<lparr>fw_receiver := r, fw_queue := k\<rparr>" now] q(3) alive link
  show "line_idle t" "fw_link t = fw_link s" "fw_manager t = fw_manager ?s1" "fw_board t = fw_board ?s1"
    by simp_all
qed

text \<open>The stop detection of a standing robot that was begun at \<open>begun\<close>.\<close>

definition watching :: "WheelEncoderCounts \<Rightarrow> u32 \<Rightarrow> MotionStopState \<Rightarrow> bool" where
  "watching c begun st \<longleftrightarrow> stop_active st \<and> stop_started_at_ms st = begun \<and> stop_last_movement_at_ms st = begun \<and>
     stop_previous_counts st = c"

lemma begin_exchange:
  assumes inv: "firmware_inv dri0041_inv dri0041_still dri0041_ready s" and idle: "line_idle s"
    and w: "works c (fw_board s)" and r: "rested (fw_board s)"
    and alive: "now - last_heartbeat_ms (fw_link s) < LINK_HEARTBEAT_TIMEOUT_MS"
    and op: "pending_stop_operation_id (fw_manager s) \<noteq> 0" "\<not> stop_confirmation_started (fw_manager s)"
    and t: "t = exchange rnd ([], now) s"
  shows "line_idle t" and "works c (fw_board t)" and "rested (fw_board t)" and "fw_link t = fw_link s"
    and "mgr_coordinator (fw_manager t) = mgr_coordinator (fw_manager s)"
    and "stop_confirmation_started (fw_manager t)" and "watching c now (board_stop (fw_board t))"
proof -
  define s0 where "s0 = firmware_interrupt [] s"
  define s1 where "s1 = before_receive rnd now s0"
  let ?b = "(fw_board s)\<lparr>board_guard := snd (motion_command_guard_update dri0041 now (board_guard (fw_board s)))\<rparr>"
  have s0: "fw_manager s0 = fw_manager s" "fw_link s0 = fw_link s" "fw_board s0 = fw_board s"
    by (simp_all add: s0_def firmware_interrupt_def)
  note g = inv_guard_ready [OF inv]
  have m: "mgr_initialized (fw_manager s)" using inv by (simp add: firmware_inv_def manager_inv_def)
  have counts: "enc_samples (board_encoder (fw_board s)) n = c" for n using w by (simp add: works_def)
  note board = guard_update_works(1) [OF g refl, where now = now and c = c] guard_update_works(2) [OF g refl, where now = now]
  obtain b where upd: "stm32_motion_protocol_manager_update dri0041 now (Some (fw_manager s)) (fw_board s) =
      (STM32_MOTION_PROTOCOL_MANAGER_RESULT_STOP_PENDING, Some ((fw_manager s)\<lparr>stop_confirmation_started := True\<rparr>), b)"
    and b: "board_guard b = board_guard ?b" "board_tx b = board_tx ?b" "enc_samples (board_encoder b) = enc_samples (board_encoder ?b)"
      "watching c now (board_stop b)"
    using m op counts dri0041_driver.guard_update_ready(3) [OF g, of now]
    by (simp add: stm32_motion_protocol_manager_update_def manager_poll_stop_def motion_stop_begin_def motion_stop_update_def
        wheel_encoder_read_def wheel_encoder_port_read_def no_completion_def watching_def zero_stop_state_def
        case_prod_beta Let_def)
  have "works c b" "rested b" using board w r b by (simp_all add: works_def rested_def)
  then have s1: "fw_manager s1 = (fw_manager s)\<lparr>stop_confirmation_started := True\<rparr>" "fw_link s1 = fw_link s"
    "works c (fw_board s1)" "rested (fw_board s1)" "watching c now (board_stop (fw_board s1))"
    using upd b(4) by (simp_all add: s1_def before_receive_def sample_speed_keeps firmware_motion_update_def s0)
  note q = quiet_exchange [OF inv idle alive s1(2) [unfolded s1_def s0_def] t, folded s0_def, folded s1_def]
  from q s1 show "line_idle t" "works c (fw_board t)" "rested (fw_board t)" "fw_link t = fw_link s"
    "mgr_coordinator (fw_manager t) = mgr_coordinator (fw_manager s)"
    "stop_confirmation_started (fw_manager t)" "watching c now (board_stop (fw_board t))" by simp_all
qed

lemma settle_exchange:
  assumes inv: "firmware_inv dri0041_inv dri0041_still dri0041_ready s" and idle: "line_idle s"
    and w: "works c (fw_board s)" and r: "rested (fw_board s)"
    and alive: "now - last_heartbeat_ms (fw_link s) < LINK_HEARTBEAT_TIMEOUT_MS"
    and op: "stop_confirmation_started (fw_manager s)" "watching c begun (board_stop (fw_board s))"
    and time: "MOTION_STOP_SETTLE_TIME_MS \<le> now - begun" "now - begun < MOTION_STOP_TIMEOUT_MS"
    and sess: "session_of (mgr_coordinator (fw_manager s)) = Starting sid"
    and t: "t = exchange rnd ([], now) s"
  shows "line_idle t" and "works c (fw_board t)" and "rested (fw_board t)" and "fw_link t = fw_link s"
    and "session_of (mgr_coordinator (fw_manager t)) = Active sid"
proof -
  define s0 where "s0 = firmware_interrupt [] s"
  define s1 where "s1 = before_receive rnd now s0"
  let ?b = "(fw_board s)\<lparr>board_guard := snd (motion_command_guard_update dri0041 now (board_guard (fw_board s)))\<rparr>"
  have s0: "fw_manager s0 = fw_manager s" "fw_link s0 = fw_link s" "fw_board s0 = fw_board s"
    by (simp_all add: s0_def firmware_interrupt_def)
  note g = inv_guard_ready [OF inv]
  let ?k = "mgr_coordinator (fw_manager s)"
  have m: "mgr_initialized (fw_manager s)" "pending_stop_operation_id (fw_manager s) \<noteq> 0" "coordinator_wf ?k"
    "stop_op_id (board_stop (fw_board s)) = active_operation_id ?k" "active_operation_id ?k \<noteq> 0"
    using inv op(1) by (auto simp: firmware_inv_def manager_inv_def split: if_splits)
  have counts: "enc_samples (board_encoder (fw_board s)) n = c" for n using w by (simp add: works_def)
  note board = guard_update_works(1) [OF g refl, where now = now and c = c] guard_update_works(2) [OF g refl, where now = now]
  let ?m = "(fw_manager s)\<lparr>pending_stop_operation_id := 0, stop_confirmation_started := False\<rparr>"
  define b1 where "b1 = ?b\<lparr>board_encoder := (board_encoder (fw_board s))\<lparr>enc_reads := enc_reads (board_encoder (fw_board s)) + 1\<rparr>,
      board_stop := (board_stop (fw_board s))\<lparr>stop_active := False\<rparr>\<rparr>"
  have b1: "works c b1" "rested b1" "stm32_ready b1"
    using board w r dri0041_driver.guard_update_ready(1) [OF g, of now]
    by (simp_all add: b1_def works_def rested_def board_ready_def)
  have "session_on_stopped (session_of ?k) MOTION_LIFECYCLE_OPERATION_RESULT_SUCCESS = (MOTION_RESPONSE_OK, Active sid)"
    using sess by simp
  from complete_active [OF m(3) refl m(5) this] obtain a k where
    complete: "motion_lifecycle_coordinator_complete_operation ?k (active_operation_id ?k) MOTION_LIFECYCLE_OPERATION_RESULT_SUCCESS = (a, k)"
    and a: "act_operation a \<noteq> MOTION_LIFECYCLE_OPERATION_ENSURE_STOPPED" and k: "session_of k = Active sid"
    by (simp add: session_of.simps)
  obtain res m' b where p: "process_action dri0041 a (?m\<lparr>mgr_coordinator := k\<rparr>) b1 = (res, m', b)"
    using prod_cases3 by blast
  note acted = process_action_works [OF b1(1,3) p]
  have "stm32_motion_protocol_manager_update dri0041 now (Some (fw_manager s)) (fw_board s) =
      (STM32_MOTION_PROTOCOL_MANAGER_RESULT_PROCESSED, Some m', b)"
    using m op counts time complete p acted(3) [OF a] dri0041_driver.guard_update_ready(3) [OF g, of now]
    by (simp add: stm32_motion_protocol_manager_update_def manager_poll_stop_def motion_stop_update_def manager_complete_def
        wheel_encoder_read_def wheel_encoder_port_read_def watching_def b1_def not_le
        case_prod_beta Let_def)
  then have s1: "fw_manager s1 = m'" "fw_link s1 = fw_link s" "works c (fw_board s1)" "rested (fw_board s1)"
    using acted b1 a by (simp_all add: s1_def before_receive_def sample_speed_keeps firmware_motion_update_def s0)
  note q = quiet_exchange [OF inv idle alive s1(2) [unfolded s1_def s0_def] t, folded s0_def, folded s1_def]
  from q s1 acted(3) [OF a] k show "line_idle t" "works c (fw_board t)" "rested (fw_board t)" "fw_link t = fw_link s"
    "session_of (mgr_coordinator (fw_manager t)) = Active sid" by simp_all
qed

text \<open>From rest the driver sets the wheels as commanded at once.\<close>

definition wheels_follow :: "MotorDriverCommand \<Rightarrow> Dri0041Port \<Rightarrow> bool" where
  "wheels_follow cmd p \<longleftrightarrow>
     unat (tim_ccr4 (d41_tim8 p)) = 18 * nat \<bar>sint (cmd_left cmd)\<bar> \<and>
     unat (tim_ccr3 (d41_tim8 p)) = 18 * nat \<bar>sint (cmd_right cmd)\<bar> \<and>
     pin_left_in1 p = (0 < sint (cmd_left cmd)) \<and> pin_left_in2 p = (sint (cmd_left cmd) < 0) \<and>
     pin_right_in3 p = (0 < sint (cmd_right cmd)) \<and> pin_right_in4 p = (sint (cmd_right cmd) < 0)"

lemma apply_from_rest:
  assumes "dri0041_ready d" and "tim_period (d41_tim8 (d41_port d)) = TIM8_PERIOD" and "command_in_range cmd"
    and "\<not> reversal_pending (d41_left d)" "wheel_direction (d41_left d) = DRI0041_DIRECTION_STOPPED"
    and "\<not> reversal_pending (d41_right d)" "wheel_direction (d41_right d) = DRI0041_DIRECTION_STOPPED"
  shows "wheels_follow cmd (d41_port (snd (motor_driver_apply_dri0041 now (Some cmd) d)))"
proof -
  obtain control where control: "dri0041_control_from_command (Some cmd) = Some control"
    using control_from_command_iff [of cmd] assms(3) by blast
  have gate: "wheel_gate (d41_left d) q now = (False, False, d41_left d)" "wheel_gate (d41_right d) q now = (False, False, d41_right d)" for q
    using assms(4-7) by (simp_all add: wheel_gate_def direction_reverses_def)
  have range: "command_in_range cmd" by (rule assms(3))
  have magnitude: "0 < sint v \<Longrightarrow> unat v = nat \<bar>sint v\<bar>" "sint v < 0 \<Longrightarrow> unat (- v) = nat \<bar>sint v\<bar>" for v :: i16
    using unat_nonneg [of v] unat_neg [of v] by linarith+
  have duty: "unat (ctl_left_duty control) = nat \<bar>sint (cmd_left cmd)\<bar>" "unat (ctl_right_duty control) = nat \<bar>sint (cmd_right cmd)\<bar>"
    and pins: "ctl_left_in1 control = (0 < sint (cmd_left cmd))" "ctl_left_in2 control = (sint (cmd_left cmd) < 0)"
      "ctl_right_in3 control = (0 < sint (cmd_right cmd))" "ctl_right_in4 control = (sint (cmd_right cmd) < 0)"
    using control magnitude by (auto simp: dri0041_control_from_command_def zero_dri0041_control_def Let_def split: if_splits)
  then have le: "unat (ctl_left_duty control) \<le> 1000" "unat (ctl_right_duty control) \<le> 1000"
    using range by (auto simp: command_in_range_def)
  note compare = compare_from_duty_exact [OF assms(2) le(1)] compare_from_duty_exact [OF assms(2) le(2)]
  show ?thesis
  proof (cases rule: apply_dri0041_cases [of now "Some cmd" d])
    case rejected
    with assms(1) control show ?thesis by (simp add: dri0041_ready_def)
  next
    case (written c' ctl bl sl l br sr r ok p)
    with gate control have "brake_wheels bl br ctl = control" by (auto simp: brake_wheels_def)
    with written(6,7) assms(1) le have p: "d41_port (snd (motor_driver_apply_dri0041 now (Some cmd) d)) =
        snd (motor_driver_dri0041_port_apply (Some control) (d41_port d))" by simp
    show ?thesis
      using assms(1) le duty pins compare unfolding p
      by (simp add: motor_driver_dri0041_port_apply_def dri0041_ready_def wheels_follow_def set_direction_pins_def Let_def
          not_less [symmetric])
  qed
qed

lemma velocity_exchange:
  assumes inv: "firmware_inv dri0041_inv dri0041_still dri0041_ready s" and idle: "line_idle s"
    and w: "works c (fw_board s)" and rest: "rested (fw_board s)" and up: "link_synchronized (fw_link s)"
    and alive: "now - last_heartbeat_ms (fw_link s) < LINK_HEARTBEAT_TIMEOUT_MS"
    and sess: "session_of (mgr_coordinator (fw_manager s)) = Active sid"
    and t: "t = exchange rnd (frame_wire (velocity_message sq sid v), now) s"
  shows "\<exists>cmd. wheel_velocity_feedforward_convert (Some (mgr_feedforward (fw_manager s))) (Some v) = Some cmd \<and>
    wheels_follow cmd (d41_port (guard_driver (board_guard (fw_board t)))) \<and>
    session_of (mgr_coordinator (fw_manager t)) = Active sid"
proof -
  let ?p = "\<lparr>wv_motion_session_id = sid, wv_command = v\<rparr>"
  have active: "lifecycle_state (mgr_coordinator (fw_manager s)) = MOTION_LIFECYCLE_STATE_ACTIVE"
    "motion_session_id (mgr_coordinator (fw_manager s)) = sid" using sess by (simp_all add: session_active)
  have "pending_stop_operation_id (fw_manager s) = 0"
    using inv active_no_operation [OF _ active(1)] by (simp add: firmware_inv_def manager_inv_def)
  from message_exchange [OF inv idle w this _ t [unfolded velocity_message_def]] rest obtain s1 g rest where
    inv1: "firmware_inv dri0041_inv dri0041_still dri0041_ready s1" and w1: "works c (fw_board s1)"
    and rest1: "rested (fw_board s1)" and same: "fw_manager s1 = fw_manager s" "fw_link s1 = fw_link s"
    and msg: "message_type g = PROTOCOL_MESSAGE_TYPE_WHEEL_VELOCITY"
      "unat (payload_length g) = WHEEL_VELOCITY_PAYLOAD_WIRE_SIZE"
      "payload g = wheel_velocity_payload_encode ?p @ rest"
    and e: "t = firmware_link_update dri0041 now (firmware_dispatch dri0041 now g now s1)"
    by (metis wheel_velocity.enc_length wheel_velocity_frame.fits_frame)
  have link: "link_synchronized (fw_link s1)" "heartbeat_timeout_ms (fw_link s1) = LINK_HEARTBEAT_TIMEOUT_MS"
      "now - last_heartbeat_ms (fw_link s1) < LINK_HEARTBEAT_TIMEOUT_MS"
    and minv: "stm32_manager_inv (fw_manager s) (fw_board s1)"
    using inv1 same up alive by (simp_all add: firmware_inv_def)
  then have m: "mgr_initialized (fw_manager s)" by (simp add: manager_inv_def)
  have dec: "wheel_velocity_payload_decode (payload g) = ?p"
    unfolding msg(3) by (rule wheel_velocity.dec_enc)
  from dri0041_driver.manager_velocity_spec [OF minv, of g now now] dec active obtain cmd where
    cmd: "wheel_velocity_feedforward_convert (Some (mgr_feedforward (fw_manager s))) (Some v) = Some cmd" "command_in_range cmd"
    and h: "manager_handle_velocity dri0041 now g now (fw_manager s) (fw_board s1) =
      (STM32_MOTION_PROTOCOL_MANAGER_RESULT_PROCESSED, fw_manager s, (fw_board s1)\<lparr>board_guard :=
         snd (motion_command_guard_apply dri0041 now (Some cmd) now (board_guard (fw_board s1)))\<rparr>)" by auto
  let ?b = "(fw_board s1)\<lparr>board_guard := snd (motion_command_guard_apply dri0041 now (Some cmd) now (board_guard (fw_board s1)))\<rparr>"
  note g1 = inv_guard_ready [OF inv1]
  have "firmware_dispatch dri0041 now g now s1 = s1\<lparr>fw_manager := fw_manager s, fw_board := ?b\<rparr>"
    using msg h m same link(1)
    by (simp add: firmware_dispatch_def stm32_motion_protocol_manager_handle_def uart_link_manager_is_synchronized_def Let_def)
  with e link link_update_alive [of "s1\<lparr>fw_manager := fw_manager s, fw_board := ?b\<rparr>" now]
  have t1: "t = s1\<lparr>fw_manager := fw_manager s, fw_board := ?b\<rparr>" by simp
  have "guard_driver (board_guard ?b) = snd (motor_driver_apply_dri0041 now (Some cmd) (guard_driver (board_guard (fw_board s1))))"
    using dri0041_driver.guard_apply_ready(2,4) [OF g1, of now cmd now] cmd(2) by (simp add: dri0041_def)
  moreover have "wheels_follow cmd (d41_port (snd (motor_driver_apply_dri0041 now (Some cmd) (guard_driver (board_guard (fw_board s1))))))"
    using apply_from_rest [OF _ _ cmd(2), of "guard_driver (board_guard (fw_board s1))" now] dri0041_driver.guard_readyD(2) [OF g1]
      w1 rest1 by (simp add: works_def rested_def Let_def)
  ultimately show ?thesis using cmd(1) sess t1 by auto
qed

subsection \<open>The calibration never changes\<close>

abbreviation calibration :: "'d Firmware \<Rightarrow> WheelVelocityFeedforwardConfig" where
  "calibration s \<equiv> mgr_feedforward (fw_manager s)"

lemma process_action_calibration:
  "mgr_feedforward (fst (snd (process_action drv a m b))) = mgr_feedforward m"
  by (simp add: process_action_def case_prod_beta Let_def)

lemma manager_complete_calibration:
  "mgr_feedforward (fst (snd (manager_complete drv i r m b))) = mgr_feedforward m"
  by (simp add: manager_complete_def process_action_calibration case_prod_beta Let_def)

lemma manager_poll_stop_calibration:
  "mgr_feedforward (fst (snd (manager_poll_stop drv now m b))) = mgr_feedforward m"
  by (simp add: manager_poll_stop_def manager_complete_calibration case_prod_beta Let_def)

lemma manager_calibration:
  "mgr_feedforward (the (fst (snd (stm32_motion_protocol_manager_update drv now (Some m) b)))) = mgr_feedforward m"
  "mgr_feedforward (the (fst (snd (stm32_motion_protocol_manager_handle drv tick (Some f) synced now (Some m) b)))) =
     mgr_feedforward m"
  "mgr_feedforward (the (fst (stm32_motion_protocol_manager_reset (Some m) b))) = mgr_feedforward m"
  by (simp_all add: stm32_motion_protocol_manager_update_def manager_poll_stop_calibration manager_complete_calibration
      stm32_motion_protocol_manager_handle_def manager_handle_command_def manager_handle_velocity_def
      stm32_motion_protocol_manager_reset_def process_action_calibration case_prod_beta Let_def
      split: option.splits del: protocol_ingress_route.simps)

lemma parts_calibration:
  "calibration (reset_link_and_stop_motion drv s) = calibration s"
  "calibration (firmware_motion_update drv now s) = calibration s"
  "calibration (firmware_sample_speed rnd now s) = calibration s"
  "calibration (firmware_dispatch drv tick f now s) = calibration s"
  "calibration (firmware_receive drv irqs tick now s) = calibration s"
  "calibration (firmware_link_update drv now s) = calibration s"
proof -
  show reset: "calibration (reset_link_and_stop_motion drv s) = calibration s" for s
    by (simp add: reset_link_and_stop_motion_def manager_calibration case_prod_beta Let_def)
  show "calibration (firmware_motion_update drv now s) = calibration s"
    by (simp add: firmware_motion_update_def reset manager_calibration case_prod_beta Let_def)
  show "calibration (firmware_sample_speed rnd now s) = calibration s"
    by (simp add: firmware_sample_speed_def case_prod_beta Let_def)
  show dispatch: "calibration (firmware_dispatch drv tick f now s) = calibration s" for s f
    by (simp add: firmware_dispatch_def reset manager_calibration case_prod_beta Let_def)
  show "calibration (firmware_receive drv irqs tick now s) = calibration s"
    by (simp add: firmware_receive_def dispatch reset case_prod_beta Let_def)
  show "calibration (firmware_link_update drv now s) = calibration s"
    by (simp add: firmware_link_update_def manager_calibration case_prod_beta Let_def)
qed

lemma iteration_calibration: "calibration (firmware_iteration drv rnd irqs tick now s) = calibration s"
  by (simp add: firmware_iteration_def parts_calibration Let_def)

lemma exchange_calibration: "calibration (exchange rnd e s) = calibration s"
  by (simp add: exchange_def iteration_calibration firmware_interrupt_def)

interpretation calibrated: inductive_invariant "firmware_started drv rnd" "firmware_step drv rnd"
  "\<lambda>s. calibration s = feedforward_config" for drv rnd
proof
  show "calibration s = feedforward_config" if "firmware_started drv rnd s" for s
    using that
    by (auto simp: firmware_started_def firmware_init_def stm32_motion_protocol_manager_init_def feedforward_config_def
        case_prod_beta Let_def split: if_splits)
  show "calibration t = feedforward_config" if "calibration s = feedforward_config" "firmware_step drv rnd s t" for s t
    using that(2,1)
    by (auto elim!: firmware_stepE simp: iteration_calibration firmware_interrupt_def firmware_rx_event_def case_prod_beta)
qed

subsection \<open>The whole session start\<close>

text \<open>The bytes of the five iterations and their times.\<close>

fun session_script :: "LinkSyncPayload \<Rightarrow> u16 \<Rightarrow> u32 \<Rightarrow> WheelVelocityCommand \<Rightarrow> u32 \<times> u32 \<times> u32 \<times> u32 \<times> u32 \<Rightarrow>
    (u8 list \<times> u32) list" where
  "session_script p sq sid v (t1, t2, t3, t4, t5) =
     [(frame_wire (sync_message sq p), t1), (frame_wire (start_message (sq + 1) sid), t2), ([], t3), ([], t4),
      (frame_wire (velocity_message (sq + 2) sid v), t5)]"

text \<open>All within the heartbeat timeout of the synchronization, and long enough for the stop detection.\<close>

fun session_times :: "u32 \<times> u32 \<times> u32 \<times> u32 \<times> u32 \<Rightarrow> bool" where
  "session_times (t1, t2, t3, t4, t5) \<longleftrightarrow>
     list_all (\<lambda>t. t - t1 < LINK_HEARTBEAT_TIMEOUT_MS) [t2, t3, t4, t5] \<and>
     MOTION_STOP_SETTLE_TIME_MS \<le> t4 - t3 \<and> t4 - t3 < MOTION_STOP_TIMEOUT_MS"

lemma session_script_drives:
  assumes inv: "firmware_inv dri0041_inv dri0041_still dri0041_ready s" and idle: "line_idle s"
    and w: "works c (fw_board s)" and down: "\<not> link_synchronized (fw_link s)"
    and times: "session_times ts" and t: "t = fold (exchange rnd) (session_script p sq sid v ts) s"
  shows "\<exists>cmd. wheel_velocity_feedforward_convert (Some (calibration s)) (Some v) = Some cmd \<and>
    wheels_follow cmd (d41_port (guard_driver (board_guard (fw_board t)))) \<and>
    session_of (mgr_coordinator (fw_manager t)) = Active sid"
proof -
  obtain t1 t2 t3 t4 t5 where ts: "ts = (t1, t2, t3, t4, t5)" by (cases ts)
  have time: "t2 - t1 < 1000" "t3 - t1 < 1000" "t4 - t1 < 1000" "t5 - t1 < 1000" "200 \<le> t4 - t3" "t4 - t3 < 1000"
    using times by (simp_all add: ts)
  define s1 where "s1 = exchange rnd (frame_wire (sync_message sq p), t1) s"
  define s2 where "s2 = exchange rnd (frame_wire (start_message (sq + 1) sid), t2) s1"
  define s3 where "s3 = exchange rnd ([], t3) s2"
  define s4 where "s4 = exchange rnd ([], t4) s3"
  have t5: "t = exchange rnd (frame_wire (velocity_message (sq + 2) sid v), t5) s4"
    by (simp add: t ts s1_def s2_def s3_def s4_def)
  note invs = exchange_inv [OF inv, of rnd "(frame_wire (sync_message sq p), t1)", folded s1_def]
  note inv2 = exchange_inv [OF invs, of rnd "(frame_wire (start_message (sq + 1) sid), t2)", folded s2_def]
  note inv3 = exchange_inv [OF inv2, of rnd "([], t3)", folded s3_def]
  note inv4 = exchange_inv [OF inv3, of rnd "([], t4)", folded s4_def]
  note 1 = sync_exchange [OF inv idle w down s1_def]
  note 2 = start_exchange [OF invs 1(1,2,3) _ 1(5,6) s2_def, unfolded 1(4), OF time(1)]
  have l2: "last_heartbeat_ms (fw_link s2) = t1" using 2(4) 1(4) by simp
  note 3 = begin_exchange [OF inv2 2(1,2,3) _ 2(6,7) s3_def, unfolded l2, OF time(2)]
  have l3: "last_heartbeat_ms (fw_link s3) = t1" using 3(4) l2 by simp
  have "session_of (mgr_coordinator (fw_manager s3)) = Starting sid" using 3(5) 2(5) by simp
  note 4 = settle_exchange [OF inv3 3(1,2,3) _ 3(6,7) time(5,6) this s4_def, unfolded l3, OF time(3)]
  have l4: "last_heartbeat_ms (fw_link s4) = t1" "link_synchronized (fw_link s4)"
    using 4(4) 3(4) 2(4) 1(3,4) by simp_all
  have "calibration s4 = calibration s"
    by (simp add: s1_def s2_def s3_def s4_def exchange_calibration)
  with velocity_exchange [OF inv4 4(1,2,3) l4(2) _ 4(5) t5, unfolded l4(1), OF time(4)] show ?thesis by simp
qed

lemma exchanges_reachable:
  "firmware_reachable dri0041 rnd s \<Longrightarrow> firmware_reachable dri0041 rnd (fold (exchange rnd) es s)"
  by (induction es arbitrary: s) (simp_all add: exchange_reachable)

text \<open>A wheel that is told to turn is driven.\<close>

lemma wheels_follow_driven:
  assumes "wheels_follow cmd (d41_port (guard_driver (board_guard b)))"
    and "wheel_velocity_feedforward_convert (Some feedforward_config) (Some v) = Some cmd"
    and "left_velocity_mm_s v \<noteq> 0 \<or> right_velocity_mm_s v \<noteq> 0"
  shows "\<not> wheels_still b"
proof -
  have cfg: "config_valid feedforward_config" by (simp add: config_valid_def feedforward_config_def)
  have nz: "sint k \<noteq> 0" if "wheel_velocity_feedforward_convert_one (Some feedforward_config) vel = Some k" "vel \<noteq> 0" for vel k
    using feedforward_exact [OF cfg, of vel] feedforward_magnitude_bounds(1) [OF cfg, of "nat \<bar>sint vel\<bar>"] that
    by (auto simp: feedforward_config_def split: if_splits)
  have "wheel_velocity_feedforward_convert_one (Some feedforward_config) (left_velocity_mm_s v) = Some (cmd_left cmd)"
    "wheel_velocity_feedforward_convert_one (Some feedforward_config) (right_velocity_mm_s v) = Some (cmd_right cmd)"
    using assms(2) by (auto simp: wheel_velocity_feedforward_convert_def split: option.splits)
  with nz assms(3) have "sint (cmd_left cmd) \<noteq> 0 \<or> sint (cmd_right cmd) \<noteq> 0" by blast
  with assms(1) show ?thesis by (auto simp: wheels_follow_def dri0041_still_def)
qed

end
