(* ===== verification/Message_Views.thy ===== *)
theory Message_Views
  imports Stream_Delivery Motion_Reliable
begin

section \<open>What a frame says\<close>

text \<open>
  The content of a frame as the two ends of the link understand it: synchronization requests
  and answers with their token, lifecycle commands, responses and velocities. Heartbeats,
  acknowledgements and everything the router rejects are \<open>Quiet\<close>: they carry nothing about a
  motion session. Equivalent frames have the same view, so what a decoder delivers says
  what was sent.
\<close>

datatype message_view =
    Sync u16 u64
  | Sync_Ok u16 u64
  | Command MotionTransaction
  | Response u16 MotionResponsePayload
  | Velocity u32
  | Quiet

definition view :: "ProtocolFrame \<Rightarrow> message_view" where
  "view f =
     (case protocol_ingress_route (Some f) of
        PROTOCOL_INGRESS_ROUTE_LINK_SYNC \<Rightarrow>
          Sync (frame_sequence f) (ls_sync_token (link_sync_decode (payload f)))
      | PROTOCOL_INGRESS_ROUTE_LINK_SYNC_OK \<Rightarrow>
          Sync_Ok (frame_sequence f) (ls_sync_token (link_sync_decode (payload f)))
      | PROTOCOL_INGRESS_ROUTE_MOTION_COMMAND \<Rightarrow>
          (let p = motion_lifecycle_command_decode (payload f)
           in Command \<lparr>tx_sequence = frame_sequence f, tx_command = lc_command p,
                tx_motion_session_id = lc_motion_session_id p\<rparr>)
      | PROTOCOL_INGRESS_ROUTE_MOTION_RESPONSE \<Rightarrow>
          Response (frame_sequence f) (motion_response_decode (payload f))
      | PROTOCOL_INGRESS_ROUTE_WHEEL_VELOCITY \<Rightarrow>
          Velocity (wv_motion_session_id (wheel_velocity_payload_decode (payload f)))
      | _ \<Rightarrow> Quiet)"

text \<open>The view by the type and the length of the frame.\<close>

lemma view_cases:
  "message_type f = PROTOCOL_MESSAGE_TYPE_LINK_SYNC \<Longrightarrow> view f =
     (if unat (payload_length f) = LINK_SYNC_WIRE_SIZE
      then Sync (frame_sequence f) (ls_sync_token (link_sync_decode (payload f))) else Quiet)"
  "message_type f = PROTOCOL_MESSAGE_TYPE_LINK_SYNC_OK \<Longrightarrow> view f =
     (if unat (payload_length f) = LINK_SYNC_WIRE_SIZE
      then Sync_Ok (frame_sequence f) (ls_sync_token (link_sync_decode (payload f))) else Quiet)"
  "message_type f = PROTOCOL_MESSAGE_TYPE_HEARTBEAT \<Longrightarrow> view f = Quiet"
  "message_type f = PROTOCOL_MESSAGE_TYPE_MOTION_ACK \<Longrightarrow> view f = Quiet"
  "message_type f = PROTOCOL_MESSAGE_TYPE_MOTION_COMMAND \<Longrightarrow> view f =
     (if unat (payload_length f) = MOTION_LIFECYCLE_COMMAND_WIRE_SIZE
      then Command \<lparr>tx_sequence = frame_sequence f, tx_command = lc_command (motion_lifecycle_command_decode (payload f)),
             tx_motion_session_id = lc_motion_session_id (motion_lifecycle_command_decode (payload f))\<rparr>
      else Quiet)"
  "message_type f = PROTOCOL_MESSAGE_TYPE_MOTION_RESPONSE \<Longrightarrow> view f =
     (if unat (payload_length f) = MOTION_RESPONSE_WIRE_SIZE
      then Response (frame_sequence f) (motion_response_decode (payload f)) else Quiet)"
  "message_type f = PROTOCOL_MESSAGE_TYPE_WHEEL_VELOCITY \<Longrightarrow> view f =
     (if unat (payload_length f) = WHEEL_VELOCITY_PAYLOAD_WIRE_SIZE
      then Velocity (wv_motion_session_id (wheel_velocity_payload_decode (payload f))) else Quiet)"
  by (simp_all add: view_def Let_def)

lemma view_iff:
  "view f = Sync sq tok \<longleftrightarrow> message_type f = PROTOCOL_MESSAGE_TYPE_LINK_SYNC \<and>
     unat (payload_length f) = LINK_SYNC_WIRE_SIZE \<and> frame_sequence f = sq \<and>
     ls_sync_token (link_sync_decode (payload f)) = tok"
  "view f = Sync_Ok sq tok \<longleftrightarrow> message_type f = PROTOCOL_MESSAGE_TYPE_LINK_SYNC_OK \<and>
     unat (payload_length f) = LINK_SYNC_WIRE_SIZE \<and> frame_sequence f = sq \<and>
     ls_sync_token (link_sync_decode (payload f)) = tok"
  "view f = Response sq p \<longleftrightarrow> message_type f = PROTOCOL_MESSAGE_TYPE_MOTION_RESPONSE \<and>
     unat (payload_length f) = MOTION_RESPONSE_WIRE_SIZE \<and> frame_sequence f = sq \<and>
     motion_response_decode (payload f) = p"
  by (auto simp: view_def Let_def)

lemma view_equiv:
  assumes "frame_equiv f g" and "frame_wf f" and "frame_wf g"
  shows "view g = view f"
proof -
  have same: "message_type g = message_type f" "frame_sequence g = frame_sequence f" "payload_length g = payload_length f"
    and pre: "take (unat (payload_length f)) (payload g) = take (unat (payload_length f)) (payload f)"
    using assms(1) by (auto simp: frame_equiv_def)
  have len: "length (payload f) = 64" "length (payload g) = 64" using assms(2,3) by (simp_all add: frame_wf_def)
  have "unat (payload_length f) = 8 \<Longrightarrow> link_sync_decode (payload g) = link_sync_decode (payload f)"
    "unat (payload_length f) = 5 \<Longrightarrow>
       motion_lifecycle_command_decode (payload g) = motion_lifecycle_command_decode (payload f)"
    "unat (payload_length f) = 6 \<Longrightarrow> motion_response_decode (payload g) = motion_response_decode (payload f)"
    "unat (payload_length f) = 8 \<Longrightarrow>
       wheel_velocity_payload_decode (payload g) = wheel_velocity_payload_decode (payload f)"
    using pre len by (simp_all add: link_sync.dec_reads_prefix lifecycle_command.dec_reads_prefix
        motion_response.dec_reads_prefix wheel_velocity.dec_reads_prefix)
  with same show ?thesis by (simp add: view_def Let_def)
qed

text \<open>The views of the messages both ends build.\<close>

lemma message_fields:
  assumes "length bytes \<le> 64"
  shows "message_type (message ty sq bytes) = ty" "frame_sequence (message ty sq bytes) = sq"
    "unat (payload_length (message ty sq bytes)) = length bytes"
    "payload (message ty sq bytes) = bytes @ drop (length bytes) (payload zero_frame)"
  using assms by (simp_all add: message_def unat_of_nat take_bit_nat_eq_self buffer_write_def)

lemma view_message:
  "view (message PROTOCOL_MESSAGE_TYPE_LINK_SYNC sq (link_sync_encode s)) = Sync sq (ls_sync_token s)"
  "view (message PROTOCOL_MESSAGE_TYPE_LINK_SYNC_OK sq (link_sync_encode s)) = Sync_Ok sq (ls_sync_token s)"
  "view (message PROTOCOL_MESSAGE_TYPE_HEARTBEAT sq (heartbeat_encode h)) = Quiet"
  "view (message PROTOCOL_MESSAGE_TYPE_MOTION_ACK sq (motion_ack_encode a)) = Quiet"
  "view (message PROTOCOL_MESSAGE_TYPE_MOTION_COMMAND sq (motion_lifecycle_command_encode c)) =
     Command \<lparr>tx_sequence = sq, tx_command = lc_command c, tx_motion_session_id = lc_motion_session_id c\<rparr>"
  "view (message PROTOCOL_MESSAGE_TYPE_MOTION_RESPONSE sq (motion_response_encode p)) = Response sq p"
  "view (message PROTOCOL_MESSAGE_TYPE_WHEEL_VELOCITY sq (wheel_velocity_payload_encode w)) =
     Velocity (wv_motion_session_id w)"
  by (simp_all add: view_cases message_fields link_sync.enc_length heartbeat.enc_length motion_ack.enc_length
      lifecycle_command.enc_length motion_response.enc_length wheel_velocity.enc_length link_sync.dec_enc
      lifecycle_command.dec_enc motion_response.dec_enc wheel_velocity.dec_enc)

lemma codec_message_sendable [simp]:
  "frame_sendable (message ty sq (link_sync_encode s))" "frame_sendable (message ty sq (heartbeat_encode h))"
  "frame_sendable (message ty sq (motion_ack_encode a))"
  "frame_sendable (message ty sq (motion_lifecycle_command_encode c))"
  "frame_sendable (message ty sq (motion_response_encode p))"
  "frame_sendable (message ty sq (wheel_velocity_payload_encode w))"
  by (simp_all add: message_sendable link_sync.enc_length heartbeat.enc_length motion_ack.enc_length
      lifecycle_command.enc_length motion_response.enc_length wheel_velocity.enc_length)

subsection \<open>Images in flight\<close>

text \<open>
  What is in flight on the serial line are wire images. \<open>arrives w g\<close>: a decoder between two frames,
  whatever it received before, delivers exactly the frame \<open>g\<close> from the image \<open>w\<close>. The view of an
  image is the view of that frame.
\<close>

definition wire_image :: "u8 list \<Rightarrow> bool" where
  "wire_image w \<longleftrightarrow> (\<exists>f. frame_sendable f \<and> w = frame_wire f)"

definition arrives :: "u8 list \<Rightarrow> ProtocolFrame \<Rightarrow> bool" where
  "arrives w g \<longleftrightarrow> (\<exists>d d'. decoder_idle d \<and> decoder_wf d \<and> decoder_feed_all w d = ([g], d'))"

definition image_view :: "u8 list \<Rightarrow> message_view" where
  "image_view w = (case fst (decoder_feed_all w protocol_frame_decoder_init) of [g] \<Rightarrow> view g | _ \<Rightarrow> Quiet)"

lemma arrives_view:
  assumes "arrives (frame_wire f) g" and "frame_sendable f"
  shows "view g = view f"
proof -
  from assms obtain d d' where d: "decoder_idle d" "decoder_wf d" "decoder_feed_all (frame_wire f) d = ([g], d')"
    by (auto simp: arrives_def)
  with feed_frame_wire [OF d(1) assms(2)] have eq: "frame_equiv f g" by auto
  have "decoder_tracks [] d" using d(1) by (simp add: decoder_tracks_def decoder_idle_def)
  from decoder_feed_all_sound [OF d(2) this d(3)] have "frame_sendable g" by auto
  with view_equiv [OF eq] assms(2) show ?thesis by (simp add: frame_sendable_def)
qed

lemma image_arrives: "frame_sendable f \<Longrightarrow> \<exists>g. arrives (frame_wire f) g \<and>
    fst (decoder_feed_all (frame_wire f) protocol_frame_decoder_init) = [g]"
  using feed_frame_wire [OF decoder_idle_init] decoder_wf_init decoder_idle_init by (metis arrives_def fst_conv)

lemma image_view_wire [simp]: "frame_sendable f \<Longrightarrow> image_view (frame_wire f) = view f"
  using image_arrives [of f] arrives_view [of f] by (auto simp: image_view_def)

lemma arrives_image_view: "wire_image w \<Longrightarrow> arrives w g \<Longrightarrow> view g = image_view w"
  using arrives_view by (auto simp: wire_image_def)

lemma image_wire [simp]: "frame_sendable f \<Longrightarrow> wire_image (frame_wire f)"
  by (auto simp: wire_image_def)

end
