(* ===== verification/Peer_Link.thy ===== *)
theory Peer_Link
  imports Message_Views
begin

section \<open>The peer's link session (software/rpi/src/stm32\_link\_session.cpp)\<close>

text \<open>
  The Raspberry Pi side of the link: it asks for synchronization with a fresh token, accepts
  only the answer that repeats sequence number and token, sends a heartbeat every 250 ms and
  gives the link up after one second without a valid answer, or when an answer says that
  the robot is not synchronized.

  The members of the class are the fields of a record; a method that changes them returns
  the new record after its result. The answer to a heartbeat may say that the robot is not
  synchronized: the method then reports no success but the session is disconnected.
\<close>

datatype Stm32LinkState = Disconnected | SyncPending | Synchronized

record Stm32LinkSession =
  lks_state :: Stm32LinkState
  lks_next_sequence :: u16
  lks_pending_sync_sequence :: u16
  lks_pending_sync_token :: u64
  lks_pending_heartbeat_sequence :: u16
  lks_last_valid_response_ms :: u32
  lks_last_heartbeat_tx_ms :: u32
  lks_heartbeat_response_pending :: bool

abbreviation (input) heartbeat_period_ms :: u32 where "heartbeat_period_ms \<equiv> 250"
abbreviation (input) link_timeout_ms :: u32 where "link_timeout_ms \<equiv> 1000"

text \<open>The initializers of the members.\<close>

definition link_session_new :: Stm32LinkSession where
  "link_session_new =
     \<lparr>lks_state = Disconnected, lks_next_sequence = 1, lks_pending_sync_sequence = 0, lks_pending_sync_token = 0,
      lks_pending_heartbeat_sequence = 0, lks_last_valid_response_ms = 0, lks_last_heartbeat_tx_ms = 0,
      lks_heartbeat_response_pending = False\<rparr>"

definition heartbeat_if_due :: "u32 \<Rightarrow> Stm32LinkSession \<Rightarrow> ProtocolFrame option \<times> Stm32LinkSession" where
  "heartbeat_if_due now_ms l =
     (if lks_state l \<noteq> Synchronized then (None, l)
      else
        let elapsed_ms = now_ms - lks_last_heartbeat_tx_ms l
        in if elapsed_ms < heartbeat_period_ms then (None, l)
           else
             let p = \<lparr>hb_link_state = LINK_STATE_SYNCHRONIZED, hb_uptime_ms = now_ms\<rparr>;
                 sequence = lks_next_sequence l;
                 l = l\<lparr>lks_next_sequence := lks_next_sequence l + 1\<rparr>;
                 l = l\<lparr>lks_pending_heartbeat_sequence := sequence, lks_heartbeat_response_pending := True\<rparr>;
                 frame = zero_frame\<lparr>message_type := PROTOCOL_MESSAGE_TYPE_HEARTBEAT, frame_sequence := sequence,
                           payload_length := of_nat HEARTBEAT_WIRE_SIZE\<rparr>;
                 frame = frame\<lparr>payload := buffer_write 0 (heartbeat_encode p) (payload frame)\<rparr>
             in (Some frame, l\<lparr>lks_last_heartbeat_tx_ms := now_ms\<rparr>))"

definition begin_synchronization :: "u64 \<Rightarrow> Stm32LinkSession \<Rightarrow> ProtocolFrame \<times> Stm32LinkSession" where
  "begin_synchronization sync_token l =
     (let l = l\<lparr>lks_heartbeat_response_pending := False\<rparr>;
          sequence = lks_next_sequence l;
          l = l\<lparr>lks_next_sequence := lks_next_sequence l + 1\<rparr>;
          l = l\<lparr>lks_pending_sync_sequence := sequence, lks_pending_sync_token := sync_token, lks_state := SyncPending\<rparr>;
          p = \<lparr>ls_sync_token = sync_token\<rparr>;
          frame = zero_frame\<lparr>message_type := PROTOCOL_MESSAGE_TYPE_LINK_SYNC, frame_sequence := sequence,
                    payload_length := of_nat LINK_SYNC_WIRE_SIZE\<rparr>;
          frame = frame\<lparr>payload := buffer_write 0 (link_sync_encode p) (payload frame)\<rparr>
      in (frame, l))"

definition handle_link_sync_ok :: "ProtocolFrame \<Rightarrow> u32 \<Rightarrow> Stm32LinkSession \<Rightarrow> bool \<times> Stm32LinkSession" where
  "handle_link_sync_ok frame now_ms l =
     (if lks_state l \<noteq> SyncPending then (False, l)
      else if message_type frame \<noteq> PROTOCOL_MESSAGE_TYPE_LINK_SYNC_OK then (False, l)
      else if unat (payload_length frame) \<noteq> LINK_SYNC_WIRE_SIZE then (False, l)
      else if frame_sequence frame \<noteq> lks_pending_sync_sequence l then (False, l)
      else
        let p = link_sync_decode (payload frame)
        in if ls_sync_token p \<noteq> lks_pending_sync_token l then (False, l)
           else (True, l\<lparr>lks_state := Synchronized, lks_last_heartbeat_tx_ms := now_ms,
                         lks_last_valid_response_ms := now_ms\<rparr>))"

definition handle_heartbeat_response :: "ProtocolFrame \<Rightarrow> u32 \<Rightarrow> Stm32LinkSession \<Rightarrow> bool \<times> Stm32LinkSession" where
  "handle_heartbeat_response frame now_ms l =
     (if \<not> lks_heartbeat_response_pending l then (False, l)
      else if lks_state l \<noteq> Synchronized then (False, l)
      else if message_type frame \<noteq> PROTOCOL_MESSAGE_TYPE_HEARTBEAT then (False, l)
      else if unat (payload_length frame) \<noteq> HEARTBEAT_WIRE_SIZE then (False, l)
      else if frame_sequence frame \<noteq> lks_pending_heartbeat_sequence l then (False, l)
      else
        let p = heartbeat_decode (payload frame)
        in if hb_link_state p = LINK_STATE_UNSYNCHRONIZED
           then (False, l\<lparr>lks_heartbeat_response_pending := False, lks_state := Disconnected\<rparr>)
           else if hb_link_state p \<noteq> LINK_STATE_SYNCHRONIZED then (False, l)
           else (True, l\<lparr>lks_heartbeat_response_pending := False, lks_last_valid_response_ms := now_ms\<rparr>))"

definition check_link_timeout :: "u32 \<Rightarrow> Stm32LinkSession \<Rightarrow> Stm32LinkSession" where
  "check_link_timeout now_ms l =
     (if lks_state l \<noteq> Synchronized then l
      else
        let elapsed_ms = now_ms - lks_last_valid_response_ms l
        in if elapsed_ms \<ge> link_timeout_ms
           then l\<lparr>lks_heartbeat_response_pending := False, lks_state := Disconnected\<rparr> else l)"

definition link_disconnect :: "Stm32LinkSession \<Rightarrow> Stm32LinkSession" where
  "link_disconnect l =
     l\<lparr>lks_state := Disconnected, lks_heartbeat_response_pending := False, lks_pending_sync_sequence := 0,
       lks_pending_sync_token := 0, lks_last_heartbeat_tx_ms := 0, lks_last_valid_response_ms := 0\<rparr>"

subsection \<open>What the session guarantees\<close>

text \<open>The request the session waits for: its sequence number and its token.\<close>

definition request_of :: "Stm32LinkSession \<Rightarrow> u16 \<times> u64" where
  "request_of l = (lks_pending_sync_sequence l, lks_pending_sync_token l)"

lemma disconnect_spec [simp]: "lks_state (link_disconnect l) = Disconnected"
  by (simp add: link_disconnect_def)

lemma synchronization_spec:
  assumes "begin_synchronization tok l = (f, l')"
  shows "f = message PROTOCOL_MESSAGE_TYPE_LINK_SYNC (lks_next_sequence l) (link_sync_encode \<lparr>ls_sync_token = tok\<rparr>)"
    and "lks_state l' = SyncPending" and "request_of l' = (lks_next_sequence l, tok)"
  using assms
  by (auto simp: begin_synchronization_def message_def link_sync.enc_length request_of_def Let_def)

lemma beat_spec:
  assumes "heartbeat_if_due now l = (Some f, l')"
  shows "frame_sendable f" and "view f = Quiet" and "lks_state l = Synchronized" and "lks_state l' = Synchronized"
    and "request_of l' = request_of l"
proof -
  have f: "f = message PROTOCOL_MESSAGE_TYPE_HEARTBEAT (lks_next_sequence l) (heartbeat_encode
      \<lparr>hb_link_state = LINK_STATE_SYNCHRONIZED, hb_uptime_ms = now\<rparr>)"
    using assms by (auto simp: heartbeat_if_due_def message_def heartbeat.enc_length Let_def split: if_splits)
  then show "frame_sendable f" "view f = Quiet" by (simp_all add: view_message)
  show "lks_state l = Synchronized" "lks_state l' = Synchronized" "request_of l' = request_of l"
    using assms by (auto simp: heartbeat_if_due_def request_of_def Let_def split: if_splits)
qed

lemma sync_ok_spec:
  assumes "handle_link_sync_ok f now l = (ok, l')"
  shows "ok \<longleftrightarrow> lks_state l = SyncPending \<and> view f = Sync_Ok (fst (request_of l)) (snd (request_of l))"
    and "ok \<Longrightarrow> lks_state l' = Synchronized" and "request_of l' = request_of l" and "\<not> ok \<Longrightarrow> l' = l"
  using assms by (auto simp: handle_link_sync_ok_def view_iff request_of_def Let_def split: if_splits)

lemma heartbeat_response_spec:
  assumes "handle_heartbeat_response f now l = (ok, l')"
  shows "request_of l' = request_of l"
    and "ok \<Longrightarrow> lks_state l = Synchronized \<and> lks_state l' = Synchronized \<and> view f = Quiet"
    and "\<not> ok \<Longrightarrow> l' = l \<or> lks_state l = Synchronized \<and> lks_state l' = Disconnected \<and> view f = Quiet"
  using assms by (auto simp: handle_heartbeat_response_def request_of_def view_cases Let_def split: if_splits)

lemma timeout_spec:
  "check_link_timeout now l = l \<or> lks_state (check_link_timeout now l) = Disconnected"
  by (simp add: check_link_timeout_def Let_def)

end
