(* ===== verification/Session_Protocol.thy ===== *)
theory Session_Protocol
  imports Peer_Link Lifecycle_Correctness
begin

section \<open>The session protocol between the peer and the robot\<close>

text \<open>
  The two ends of the link and the messages in flight, reduced to what matters for motion
  sessions: the peer's link state, the request it waits for and its motion session; the
  robot's link flag and its lifecycle coordinator; two first-in-first-out channels that may
  lose messages. The invariant proved here says how both ends agree on the session at
  every moment between two synchronizations.
\<close>

subsection \<open>The robot's part\<close>

text \<open>The messages of an action of the coordinator.\<close>

definition response_view :: "MotionTransaction \<Rightarrow> u8 \<Rightarrow> message_view" where
  "response_view t r = Response (tx_sequence t)
     \<lparr>resp_command = tx_command t, resp_motion_session_id = tx_motion_session_id t, resp_result = r\<rparr>"

definition action_views :: "MotionLifecycleAction \<Rightarrow> message_view list" where
  "action_views a = (if send_ack a then [Quiet] else []) @
     (if send_response a then [response_view (response_transaction a) (response_result a)] else [])"

lemma action_none_views [simp]: "\<not> send_ack motion_lifecycle_action_none" "\<not> send_response motion_lifecycle_action_none"
  by (simp_all add: motion_lifecycle_action_none_def)

text \<open>
  What the robot may do, seen from the link: keep its state and send nothing that concerns a
  session, let the coordinator handle a command or complete a stop operation, synchronize,
  or take the link down. In the last case anything may have been sent before, except
  an answer to a synchronization request that was not received.
\<close>

type_synonym robot_state = "bool \<times> MotionLifecycleCoordinator"

inductive robot_act :: "message_view option \<Rightarrow> robot_state \<Rightarrow> robot_state \<Rightarrow> message_view list \<Rightarrow> bool" where
  act_keep: "list_all ((=) Quiet) out \<Longrightarrow> robot_act v (l, c) (l, c) out"
| act_command: "motion_lifecycle_coordinator_handle_transaction c t = (a, c') \<Longrightarrow>
    robot_act (Some (Command t)) (True, c) (True, c') (action_views a)"
| act_complete: "motion_lifecycle_coordinator_complete_operation c i r = (a, c') \<Longrightarrow>
    robot_act None (True, c) (True, c') (action_views a)"
| act_sync: "robot_act (Some (Sync sq tok)) (l, c) (True, motion_lifecycle_coordinator_reset c) [Sync_Ok sq tok]"
| act_down: "(\<And>sq tok. Sync_Ok sq tok \<in> set out \<Longrightarrow> v = Some (Sync sq tok)) \<Longrightarrow> coordinator_wf c' \<Longrightarrow>
    robot_act v (l, c) (False, c') out"

inductive_cases robot_act_linkedE: "robot_act v (True, c) (True, c') out"
inductive_cases robot_act_upE: "robot_act v (False, c) (True, c') out"

lemma robot_act_wf:
  assumes "robot_act v (l, c) (l', c') out" and "coordinator_wf c"
  shows "coordinator_wf c'"
  using assms(1)
  by cases (use assms(2) coordinator_wf_handle coordinator_wf_complete in \<open>auto, (metis snd_conv)+\<close>)

lemma robot_act_synced:
  "robot_act (Some (Sync sq tok)) (l, c) (True, c') out \<Longrightarrow> Sync_Ok sq tok \<in> set out \<Longrightarrow>
     c' = motion_lifecycle_coordinator_reset c \<and> out = [Sync_Ok sq tok]"
  by (erule robot_act.cases) (auto simp: list_all_iff)

lemma robot_act_sync_ok:
  "robot_act v (l, c) (l', c') out \<Longrightarrow> Sync_Ok sq tok \<in> set out \<Longrightarrow> v = Some (Sync sq tok)"
  by (erule robot_act.cases)
    (auto simp: action_views_def response_view_def list_all_iff split: if_splits)

subsection \<open>The peer's part and the channels\<close>

datatype peer_motion = Resting | Driving u32 | Asking MotionTransaction

text \<open>What the peer makes of the result of its transaction.\<close>

definition answered :: "MotionTransaction \<Rightarrow> u8 \<Rightarrow> peer_motion" where
  "answered t r =
     (if tx_command t = MOTION_LIFECYCLE_COMMAND_START_SESSION \<and>
         (r = MOTION_RESPONSE_OK \<or> r = MOTION_RESPONSE_ALREADY_ACTIVE)
      then Driving (tx_motion_session_id t) else Resting)"

record protocol_state =
  pr_link :: Stm32LinkState
  pr_request :: "u16 \<times> u64"
  pr_motion :: peer_motion
  pr_next :: u16
  pr_to_robot :: "message_view list"
  pr_linked :: bool
  pr_coordinator :: MotionLifecycleCoordinator
  pr_to_peer :: "message_view list"

definition may_ask :: "peer_motion \<Rightarrow> MotionTransaction \<Rightarrow> bool" where
  "may_ask m t \<longleftrightarrow>
     (\<forall>u. m \<noteq> Asking u) \<and>
     (tx_command t = MOTION_LIFECYCLE_COMMAND_START_SESSION \<or>
      tx_command t = MOTION_LIFECYCLE_COMMAND_END_SESSION \<and> m = Driving (tx_motion_session_id t))"

inductive protocol_step :: "protocol_state \<Rightarrow> protocol_state \<Rightarrow> bool" where
  connect: "Sync sq tok \<notin> set (pr_to_robot s) \<Longrightarrow> Sync_Ok sq tok \<notin> set (pr_to_peer s) \<Longrightarrow>
    protocol_step s (s\<lparr>pr_link := SyncPending, pr_request := (sq, tok), pr_motion := Resting,
      pr_to_robot := pr_to_robot s @ [Sync sq tok]\<rparr>)"
| disconnect: "protocol_step s (s\<lparr>pr_link := Disconnected, pr_request := q, pr_motion := m\<rparr>)"
| ask: "pr_link s = Synchronized \<Longrightarrow> may_ask (pr_motion s) t \<Longrightarrow> tx_sequence t = pr_next s \<Longrightarrow>
    protocol_step s (s\<lparr>pr_motion := Asking t, pr_next := pr_next s + 1, pr_to_robot := pr_to_robot s @ [Command t]\<rparr>)"
| ask_again: "pr_link s = Synchronized \<Longrightarrow> pr_motion s = Asking t \<Longrightarrow>
    protocol_step s (s\<lparr>pr_to_robot := pr_to_robot s @ [Command t]\<rparr>)"
| drive: "pr_link s = Synchronized \<Longrightarrow> pr_motion s = Driving i \<Longrightarrow>
    protocol_step s (s\<lparr>pr_to_robot := pr_to_robot s @ [Velocity i]\<rparr>)"
| beat: "pr_link s = Synchronized \<Longrightarrow> protocol_step s (s\<lparr>pr_to_robot := pr_to_robot s @ [Quiet]\<rparr>)"
| robot_receives: "pr_to_robot s = v # rest \<Longrightarrow>
    robot_act (Some v) (pr_linked s, pr_coordinator s) (l, c) out \<Longrightarrow>
    protocol_step s (s\<lparr>pr_to_robot := rest, pr_linked := l, pr_coordinator := c, pr_to_peer := pr_to_peer s @ out\<rparr>)"
| robot_runs: "robot_act None (pr_linked s, pr_coordinator s) (l, c) out \<Longrightarrow>
    protocol_step s (s\<lparr>pr_linked := l, pr_coordinator := c, pr_to_peer := pr_to_peer s @ out\<rparr>)"
| lose_to_robot: "pr_to_robot s = v # rest \<Longrightarrow> protocol_step s (s\<lparr>pr_to_robot := rest\<rparr>)"
| lose_to_peer: "pr_to_peer s = v # rest \<Longrightarrow> protocol_step s (s\<lparr>pr_to_peer := rest\<rparr>)"
| peer_synchronizes: "pr_to_peer s = Sync_Ok sq tok # rest \<Longrightarrow> pr_link s = SyncPending \<Longrightarrow> pr_request s = (sq, tok) \<Longrightarrow>
    protocol_step s (s\<lparr>pr_link := Synchronized, pr_to_peer := rest\<rparr>)"
| peer_learns: "pr_to_peer s = Response (tx_sequence t) p # rest \<Longrightarrow> pr_link s = Synchronized \<Longrightarrow>
    pr_motion s = Asking t \<Longrightarrow>
    protocol_step s (s\<lparr>pr_motion := answered t (resp_result p), pr_to_peer := rest\<rparr>)"

subsection \<open>Agreement\<close>

text \<open>
  The stages of a transaction. \<open>settled n c\<close>: the robot's last transaction, if any, has the number
  \<open>n\<close> and is finished. Messages in flight are \<open>known\<close> when the robot has dealt with their
  transaction or drives their session.
\<close>

definition settled :: "u16 \<Rightarrow> MotionLifecycleCoordinator \<Rightarrow> bool" where
  "settled n c \<longleftrightarrow> \<not> stopping (session_of c) \<and>
     (latest_sequence_valid (reliable_receiver c) \<longrightarrow>
        terminal_valid (reliable_receiver c) \<and> latest_sequence (reliable_receiver c) = n \<and>
        tx_sequence (terminal_transaction (reliable_receiver c)) = n)"

fun known :: "MotionLifecycleCoordinator \<Rightarrow> message_view \<Rightarrow> bool" where
  "known c (Command t) \<longleftrightarrow> latest_sequence_valid (reliable_receiver c) \<and> terminal_transaction (reliable_receiver c) = t"
| "known c (Velocity i) \<longleftrightarrow> session_of c = Active i"
| "known c (Sync sq tok) \<longleftrightarrow> False"
| "known c v \<longleftrightarrow> True"

fun asks :: "MotionTransaction \<Rightarrow> message_view \<Rightarrow> bool" where
  "asks t (Command u) \<longleftrightarrow> u = t"
| "asks t (Velocity i) \<longleftrightarrow> False"
| "asks t (Sync sq tok) \<longleftrightarrow> False"
| "asks t v \<longleftrightarrow> True"

fun numbered :: "u16 \<Rightarrow> message_view \<Rightarrow> bool" where
  "numbered n (Response sq p) \<longleftrightarrow> sq = n"
| "numbered n v \<longleftrightarrow> True"

fun tells :: "MotionTransaction \<Rightarrow> u8 \<Rightarrow> message_view \<Rightarrow> bool" where
  "tells t r (Response sq p) \<longleftrightarrow> sq = tx_sequence t \<and> resp_result p = r"
| "tells t r v \<longleftrightarrow> True"

fun agrees :: "peer_motion \<Rightarrow> session \<Rightarrow> bool" where
  "agrees Resting s \<longleftrightarrow> s = No_Session"
| "agrees (Driving i) s \<longleftrightarrow> s = Active i"
| "agrees (Asking t) s \<longleftrightarrow> True"

definition unseen :: "MotionTransaction \<Rightarrow> message_view list \<Rightarrow> MotionLifecycleCoordinator \<Rightarrow> message_view list \<Rightarrow> bool" where
  "unseen t out c inp \<longleftrightarrow> settled (tx_sequence t - 1) c \<and>
     (tx_command t = MOTION_LIFECYCLE_COMMAND_END_SESSION \<longrightarrow> session_of c = Active (tx_motion_session_id t)) \<and>
     staged (known c) (asks t) out \<and> list_all (numbered (tx_sequence t - 1)) inp"

definition working :: "MotionTransaction \<Rightarrow> message_view list \<Rightarrow> MotionLifecycleCoordinator \<Rightarrow> message_view list \<Rightarrow> bool" where
  "working t out c inp \<longleftrightarrow> stopping (session_of c) \<and> pending_transaction (reliable_receiver c) = t \<and>
     pending_valid (reliable_receiver c) \<and> \<not> terminal_valid (reliable_receiver c) \<and>
     latest_sequence_valid (reliable_receiver c) \<and> latest_sequence (reliable_receiver c) = tx_sequence t \<and>
     list_all (asks t) out \<and> list_all (numbered (tx_sequence t - 1)) inp"

definition finished :: "MotionTransaction \<Rightarrow> message_view list \<Rightarrow> MotionLifecycleCoordinator \<Rightarrow> message_view list \<Rightarrow> bool" where
  "finished t out c inp \<longleftrightarrow> settled (tx_sequence t) c \<and> latest_sequence_valid (reliable_receiver c) \<and>
     terminal_transaction (reliable_receiver c) = t \<and>
     agrees (answered t (terminal_result (reliable_receiver c))) (session_of c) \<and>
     list_all (asks t) out \<and>
     staged (numbered (tx_sequence t - 1)) (tells t (terminal_result (reliable_receiver c))) inp"

definition agreement ::
  "peer_motion \<Rightarrow> u16 \<Rightarrow> message_view list \<Rightarrow> MotionLifecycleCoordinator \<Rightarrow> message_view list \<Rightarrow> bool" where
  "agreement m n out c inp \<longleftrightarrow>
     (case m of
        Asking t \<Rightarrow> tx_sequence t = n - 1 \<and>
          tx_command t \<in> {MOTION_LIFECYCLE_COMMAND_START_SESSION, MOTION_LIFECYCLE_COMMAND_END_SESSION} \<and>
          (unseen t out c inp \<or> working t out c inp \<or> finished t out c inp)
      | _ \<Rightarrow> settled (n - 1) c \<and> agrees m (session_of c) \<and> list_all (known c) out \<and> list_all (numbered (n - 1)) inp)"

lemma settled_old:
  assumes "settled n c" and "latest_sequence_valid (reliable_receiver c)" and "terminal_transaction (reliable_receiver c) = t"
  shows "decision c t = MOTION_RELIABLE_DECISION_COMPLETED_RETRY"
  using assms by (auto simp: settled_def motion_reliable_receiver_classify_def transaction_eq_iff
      motion_sequence_classify_def simp del: motion_transaction_equal.simps)

lemma settled_new:
  assumes "settled (tx_sequence t - 1) c"
  shows "decision c t = MOTION_RELIABLE_DECISION_NEW"
  using assms classify_delta [of "tx_sequence t - 1" 1]
  by (auto simp: settled_def motion_reliable_receiver_classify_def)

lemma working_same:
  "working t out c inp \<Longrightarrow> decision c t = MOTION_RELIABLE_DECISION_PENDING_RETRY"
  by (auto simp: working_def motion_reliable_receiver_classify_def transaction_eq_iff
      motion_sequence_classify_def coordinator_wf_def receiver_wf_def simp del: motion_transaction_equal.simps)

text \<open>
  Messages leave a channel at its head and enter it at its end; each stage is kept when the new
  message fits the last part of its channel.
\<close>

lemma stages_receive:
  "unseen t (v # out) c inp \<Longrightarrow> unseen t out c inp" "working t (v # out) c inp \<Longrightarrow> working t out c inp"
  "finished t (v # out) c inp \<Longrightarrow> finished t out c inp"
  unfolding unseen_def working_def finished_def by (simp_all add: staged_tl [where x = v])

lemma stages_forget:
  "unseen t out c (v # inp) \<Longrightarrow> unseen t out c inp" "working t out c (v # inp) \<Longrightarrow> working t out c inp"
  "finished t out c (v # inp) \<Longrightarrow> finished t out c inp"
  unfolding unseen_def working_def finished_def by (simp_all add: staged_tl [where x = v])

lemma stages_send:
  assumes "asks t v"
  shows "unseen t out c inp \<Longrightarrow> unseen t (out @ [v]) c inp" "working t out c inp \<Longrightarrow> working t (out @ [v]) c inp"
    "finished t out c inp \<Longrightarrow> finished t (out @ [v]) c inp"
  using assms unfolding unseen_def working_def finished_def by (simp_all add: staged_append)

lemma stages_answer:
  assumes "list_all (\<lambda>v. \<forall>k. numbered k v) sent" and "list_all (tells t (terminal_result (reliable_receiver c))) sent"
  shows "unseen t out c inp \<Longrightarrow> unseen t out c (inp @ sent)" "working t out c inp \<Longrightarrow> working t out c (inp @ sent)"
    "finished t out c inp \<Longrightarrow> finished t out c (inp @ sent)"
proof -
  have "list_all (numbered k) sent" for k using assms(1) by (simp add: list_all_iff)
  with assms(2) show "unseen t out c inp \<Longrightarrow> unseen t out c (inp @ sent)" "working t out c inp \<Longrightarrow> working t out c (inp @ sent)"
    "finished t out c inp \<Longrightarrow> finished t out c (inp @ sent)"
    unfolding unseen_def working_def finished_def by (simp_all add: staged_append)
qed

lemma agreement_tl: "agreement m n (v # out) c inp \<Longrightarrow> agreement m n out c inp"
  by (cases m) (auto simp: agreement_def dest: stages_receive)

lemma agreement_quiet:
  assumes "agreement m n out c inp" and "list_all ((=) Quiet) sent"
  shows "agreement m n out c (inp @ sent)"
proof -
  have quiet: "list_all (\<lambda>v. \<forall>k. numbered k v) sent" "list_all (tells t r) sent" "list_all (numbered k) sent" for k t r
    using assms(2) by (auto simp: list_all_iff)
  show ?thesis
    using assms(1) quiet(3) stages_answer [OF quiet(1,2)] by (cases m) (auto simp: agreement_def)
qed

text \<open>The robot sees a new transaction.\<close>

lemma session_begins:
  assumes "\<not> stopping s" and "tx_command t \<in> {MOTION_LIFECYCLE_COMMAND_START_SESSION, MOTION_LIFECYCLE_COMMAND_END_SESSION}"
    and "tx_command t = MOTION_LIFECYCLE_COMMAND_END_SESSION \<longrightarrow> s = Active (tx_motion_session_id t)"
    and "s = Active (tx_motion_session_id t) \<longrightarrow> tx_command t \<noteq> MOTION_LIFECYCLE_COMMAND_START_SESSION"
  shows "\<exists>s'. session_on_command s t = (Begin, s') \<and> stopping s'"
proof (cases "tx_command t = MOTION_LIFECYCLE_COMMAND_START_SESSION")
  case True
  with assms(1,4) show ?thesis by (cases s) (auto simp: session_on_command_def)
next
  case False
  with assms(2,3) show ?thesis by (auto simp: session_on_command_def)
qed

lemma unseen_new:
  assumes "coordinator_wf c" and "unseen t (Command t # out) c inp" and "list_all (asks t) out"
    and "tx_command t \<in> {MOTION_LIFECYCLE_COMMAND_START_SESSION, MOTION_LIFECYCLE_COMMAND_END_SESSION}"
    and "motion_lifecycle_coordinator_handle_transaction c t = (a, c')"
  shows "working t out c' (inp @ action_views a) \<or> finished t out c' (inp @ action_views a)"
proof -
  have c: "settled (tx_sequence t - 1) c" "list_all (numbered (tx_sequence t - 1)) inp"
    and ending: "tx_command t = MOTION_LIFECYCLE_COMMAND_END_SESSION \<longrightarrow> session_of c = Active (tx_motion_session_id t)"
    using assms(2) by (simp_all add: unseen_def)
  have idle: "\<not> stopping (session_of c)" using c(1) by (simp add: settled_def)
  have out: "carry_out (session_on_command (session_of c) t) t c = (a, c')"
    using assms(5) unfolding handle_new [OF settled_new [OF c(1)]] .
  show ?thesis
  proof (cases "session_of c = Active (tx_motion_session_id t) \<and> tx_command t = MOTION_LIFECYCLE_COMMAND_START_SESSION")
    case True
    with out have a: "action_views a = [Quiet, response_view t MOTION_RESPONSE_ALREADY_ACTIVE]"
      and c': "c' = c\<lparr>reliable_receiver :=
        motion_reliable_receiver_record_immediate_terminal t MOTION_RESPONSE_ALREADY_ACTIVE (reliable_receiver c)\<rparr>"
      by (auto simp: session_on_command_def action_views_def)
    have "staged (numbered (tx_sequence t - 1)) (tells t MOTION_RESPONSE_ALREADY_ACTIVE) (inp @ action_views a)"
      using c(2) by (intro staged_append staged_first) (simp_all add: a response_view_def)
    with True idle assms(3) have "finished t out c' (inp @ action_views a)"
      by (simp add: finished_def settled_def c' answered_def receiver_defs)
    then show ?thesis ..
  next
    case False
    then obtain s where s: "session_on_command (session_of c) t = (Begin, s)" "stopping s"
      using session_begins [OF idle assms(4) ending] by blast
    from out s(1) have "a = fst (carry_out (Begin, s) t c)" "c' = snd (carry_out (Begin, s) t c)" by simp_all
    then have "action_views a = [Quiet]" "session_of c' = s"
      "reliable_receiver c' = motion_reliable_receiver_begin_pending t (reliable_receiver c)"
      by (simp_all add: action_views_def Let_def)
    with s(2) assms(3) c have "working t out c' (inp @ action_views a)"
      by (simp add: working_def receiver_defs)
    then show ?thesis ..
  qed
qed

lemma retry_views:
  assumes "decision c t = MOTION_RELIABLE_DECISION_COMPLETED_RETRY"
    and "motion_lifecycle_coordinator_handle_transaction c t = (a, c')"
  shows "c' = c" and "action_views a = [Quiet, response_view t (terminal_result (reliable_receiver c))]"
  using assms handle_retry(2) [OF assms(1)] by (auto simp: action_views_def)

lemma agreement_command:
  assumes "coordinator_wf c" and "agreement m n (Command u # out) c inp"
    and "motion_lifecycle_coordinator_handle_transaction c u = (a, c')"
  shows "agreement m n out c' (inp @ action_views a)"
proof -
  have old: "c' = c \<and> list_all (numbered k) (action_views a)"
    if "settled k c" "known c (Command u)" for k
    using that retry_views [OF settled_old [OF that(1)] assms(3)] by (auto simp: settled_def response_view_def)
  show ?thesis
  proof (cases m)
    case (Asking t)
    then have t: "tx_sequence t = n - 1"
      "tx_command t \<in> {MOTION_LIFECYCLE_COMMAND_START_SESSION, MOTION_LIFECYCLE_COMMAND_END_SESSION}"
      using assms(2) by (simp_all add: agreement_def)
    consider "unseen t (Command u # out) c inp" | "working t (Command u # out) c inp" | "finished t (Command u # out) c inp"
      using Asking assms(2) by (auto simp: agreement_def)
    then show ?thesis
    proof cases
      case 1
      show ?thesis
      proof (cases "known c (Command u)")
        case True
        with 1 old [of "tx_sequence t - 1"] Asking t show ?thesis
          by (auto simp: agreement_def unseen_def dest: staged_tl)
      next
        case False
        with 1 have "u = t" "list_all (asks t) out" by (auto simp: unseen_def dest!: staged_hd)
        with unseen_new [OF assms(1) _ _ t(2), of out inp] 1 assms(3) Asking t show ?thesis
          by (auto simp: agreement_def)
      qed
    next
      case 2
      then have "u = t" by (simp add: working_def)
      with assms(3) handle_retry(1) [OF working_same [OF 2]] have "c' = c" "action_views a = [Quiet]"
        by (auto simp: action_views_def)
      with 2 Asking t show ?thesis by (simp add: agreement_def working_def)
    next
      case 3
      then have "u = t" "settled (tx_sequence t) c" "terminal_transaction (reliable_receiver c) = t"
        "latest_sequence_valid (reliable_receiver c)" by (auto simp: finished_def)
      with retry_views [OF settled_old assms(3)] have "c' = c"
        "list_all (tells t (terminal_result (reliable_receiver c))) (action_views a)"
        by (auto simp: response_view_def)
      with 3 Asking t show ?thesis by (auto simp: agreement_def finished_def intro: staged_append)
    qed
  qed (use assms(2) old [of "n - 1"] in \<open>auto simp: agreement_def\<close>)
qed

text \<open>The robot's stop operation ends.\<close>

lemma agreement_complete:
  assumes "coordinator_wf c" and "agreement m n out c inp"
    and "motion_lifecycle_coordinator_complete_operation c i r = (a, c')"
  shows "agreement m n out c' (inp @ action_views a)"
proof (cases "i = 0 \<or> i \<noteq> active_operation_id c")
  case True
  with assms(2,3) show ?thesis by (simp add: complete_ignored action_views_def)
next
  case False
  then have stop: "stopping (session_of c)" "pending_valid (reliable_receiver c)"
    "pending_matches (session_of c) (pending_transaction (reliable_receiver c))"
    using assms(1) by (auto simp: coordinator_wf_def)
  with assms(2) obtain t where m: "m = Asking t" and w: "working t out c inp"
    by (cases m) (auto simp: agreement_def settled_def unseen_def finished_def)
  obtain res s where rs: "session_on_stopped (session_of c) r = (res, s)" by fastforce
  from complete_active [OF assms(1) _ _ rs, of i] False assms(3)
  have a: "action_views a = [response_view t res]" and c': "c' = (enter_session s c)\<lparr>active_operation_id := 0,
      reliable_receiver := snd (motion_reliable_receiver_complete_pending t res (reliable_receiver c))\<rparr>"
    using w by (auto simp: action_views_def working_def)
  have rcv: "reliable_receiver c' = (reliable_receiver c)\<lparr>pending_valid := False, pending_transaction := zero_transaction,
      terminal_transaction := t, terminal_result := res, terminal_valid := True\<rparr>"
    using w by (simp add: c' working_def motion_reliable_receiver_complete_pending_def transaction_eq_iff Let_def
        del: motion_transaction_equal.simps)
  have "agrees (answered t res) s"
    using stop w rs by (cases "(session_of c, r)" rule: session_on_stopped.cases) (auto simp: answered_def working_def)
  moreover have "\<not> stopping s" using rs by (rule session_on_stopped_not_stopping)
  moreover have "staged (numbered (tx_sequence t - 1)) (tells t res) (inp @ action_views a)"
    using w by (intro staged_append staged_first) (simp_all add: a response_view_def working_def)
  moreover have "session_of c' = s" by (simp add: c')
  ultimately have "finished t out c' (inp @ action_views a)"
    using w by (simp add: finished_def settled_def rcv working_def)
  then show ?thesis using assms(2) m by (simp add: agreement_def)
qed

lemma agreement_no_sync: "agreement m n out c inp \<Longrightarrow> v \<in> set out \<Longrightarrow> v \<noteq> Sync sq tok"
  by (cases m) (fastforce simp: agreement_def unseen_def working_def finished_def staged_def list_all_iff)+

text \<open>Agreement is kept by everything the robot does while its link is up.\<close>

lemma agreement_receives:
  assumes "robot_act (Some v) (True, c) (True, c') sent" and "coordinator_wf c" and "agreement m n (v # out) c inp"
  shows "agreement m n out c' (inp @ sent)"
  using assms(1)
  by (rule robot_act_linkedE)
    (use assms(2,3) agreement_no_sync [OF assms(3), of v] in
      \<open>auto intro: agreement_quiet agreement_command dest: agreement_tl\<close>)

lemma agreement_runs:
  assumes "robot_act None (True, c) (True, c') sent" and "coordinator_wf c" and "agreement m n out c inp"
  shows "agreement m n out c' (inp @ sent)"
  using assms(1)
  by (rule robot_act_linkedE) (use assms(2,3) in \<open>auto intro: agreement_quiet agreement_complete\<close>)

subsection \<open>The invariant\<close>

text \<open>
  While the peer waits for the answer to its request, the request is the last message on its
  way, or the answer is on its way back and the robot, if its link is up, has just been reset.
\<close>

definition fresh :: "MotionLifecycleCoordinator \<Rightarrow> bool" where
  "fresh c \<longleftrightarrow> \<not> latest_sequence_valid (reliable_receiver c) \<and> session_of c = No_Session"

definition requesting ::
  "u16 \<Rightarrow> u64 \<Rightarrow> message_view list \<Rightarrow> bool \<Rightarrow> MotionLifecycleCoordinator \<Rightarrow> message_view list \<Rightarrow> bool" where
  "requesting sq tok out linked c inp \<longleftrightarrow>
     (\<forall>xs ys. out = xs @ Sync sq tok # ys \<longrightarrow> ys = [] \<and> Sync_Ok sq tok \<notin> set inp) \<and>
     (\<forall>xs ys. inp = xs @ Sync_Ok sq tok # ys \<longrightarrow>
        out = [] \<and> (linked \<longrightarrow> fresh c \<and> list_all (\<lambda>v. \<forall>n. numbered n v) ys))"

definition unsynced :: "message_view \<Rightarrow> bool" where
  "unsynced v \<longleftrightarrow> (\<forall>sq tok. v \<noteq> Sync sq tok)"

definition protocol_inv :: "protocol_state \<Rightarrow> bool" where
  "protocol_inv s \<longleftrightarrow> coordinator_wf (pr_coordinator s) \<and>
     (case pr_link s of
        Disconnected \<Rightarrow> True
      | SyncPending \<Rightarrow> pr_motion s = Resting \<and>
          requesting (fst (pr_request s)) (snd (pr_request s)) (pr_to_robot s) (pr_linked s) (pr_coordinator s) (pr_to_peer s)
      | Synchronized \<Rightarrow> list_all unsynced (pr_to_robot s) \<and>
          (pr_linked s \<longrightarrow> agreement (pr_motion s) (pr_next s) (pr_to_robot s) (pr_coordinator s) (pr_to_peer s)))"

lemma fresh_reset: "fresh (motion_lifecycle_coordinator_reset c)"
  by (simp add: fresh_def motion_lifecycle_coordinator_reset_def session_of.simps receiver_defs)

lemma fresh_runs:
  assumes "robot_act None (l, c) (True, c') out" and "coordinator_wf c" and "fresh c"
  shows "fresh c' \<and> list_all (\<lambda>v. \<forall>n. numbered n v) out"
  using assms(1)
proof cases
  case (act_complete i r a)
  have "active_operation_id c = 0" using assms(2,3) by (auto simp: coordinator_wf_def fresh_def)
  with act_complete complete_ignored [of i c r] assms(3) show ?thesis by (auto simp: action_views_def)
qed (use assms(3) in \<open>auto simp: list_all_iff\<close>)

lemma requesting_runs:
  assumes "robot_act None (l, c) (l', c') out" and "coordinator_wf c" and "requesting sq tok tr l c tp"
  shows "requesting sq tok tr l' c' (tp @ out)"
proof -
  have no: "Sync_Ok sq tok \<notin> set out" using robot_act_sync_ok [OF assms(1)] by auto
  have up: "l' \<Longrightarrow> l" using assms(1) by (cases rule: robot_act.cases) auto
  have "tr = [] \<and> (l' \<longrightarrow> fresh c' \<and> list_all (\<lambda>v. \<forall>n. numbered n v) ys)"
    if "tp @ out = xs @ Sync_Ok sq tok # ys" for xs ys
  proof -
    from that obtain zs where zs: "tp = xs @ Sync_Ok sq tok # zs" "ys = zs @ out" by (rule append_split_left [OF _ no])
    with assms(3) have "tr = []" "l \<longrightarrow> fresh c \<and> list_all (\<lambda>v. \<forall>n. numbered n v) zs"
      by (simp_all add: requesting_def)
    with fresh_runs [of l c c' out] assms(1,2) zs(2) up show ?thesis by auto
  qed
  moreover have "\<forall>xs ys. tr = xs @ Sync sq tok # ys \<longrightarrow> ys = [] \<and> Sync_Ok sq tok \<notin> set (tp @ out)"
    using assms(3) no by (simp add: requesting_def)
  ultimately show ?thesis by (simp add: requesting_def)
qed

lemma requesting_receives:
  assumes "robot_act (Some v) (l, c) (l', c') out" and "requesting sq tok (v # tr) l c tp"
  shows "requesting sq tok tr l' c' (tp @ out)"
proof -
  have last: "v = Sync sq tok \<Longrightarrow> tr = []" using assms(2) by (auto simp: requesting_def)
  have tp: "Sync_Ok sq tok \<notin> set tp"
  proof
    assume "Sync_Ok sq tok \<in> set tp"
    then obtain xs ys where "tp = xs @ Sync_Ok sq tok # ys" by (meson split_list)
    with assms(2) show False unfolding requesting_def by blast
  qed
  have mine: "v = Sync sq tok" if "Sync_Ok sq tok \<in> set out" using robot_act_sync_ok [OF assms(1) that] by simp
  have "\<forall>xs ys. tr = xs @ Sync sq tok # ys \<longrightarrow> ys = [] \<and> Sync_Ok sq tok \<notin> set (tp @ out)"
    using assms(2) last tp mine by (fastforce simp: requesting_def)
  moreover have "tr = [] \<and> (l' \<longrightarrow> fresh c' \<and> list_all (\<lambda>v. \<forall>n. numbered n v) ys)"
    if eq: "tp @ out = xs @ Sync_Ok sq tok # ys" for xs ys
  proof -
    have "Sync_Ok sq tok \<in> set (tp @ out)" unfolding eq by simp
    with tp mine last have v: "v = Sync sq tok" "tr = []" "Sync_Ok sq tok \<in> set out" by auto
    have "l' \<longrightarrow> c' = motion_lifecycle_coordinator_reset c \<and> out = [Sync_Ok sq tok]"
      using robot_act_synced [of sq tok l c c' out] assms(1) v(1,3) by (cases l') simp_all
    moreover have "ys = []" if "out = [Sync_Ok sq tok]"
      using eq tp that by (auto simp: append_eq_append_conv2 append_eq_Cons_conv Cons_eq_append_conv)
    ultimately show ?thesis using v fresh_reset by auto
  qed
  ultimately show ?thesis by (auto simp: requesting_def)
qed

lemma requesting_answered:
  assumes "requesting sq tok tr l c (Sync_Ok sq tok # tp)"
  shows "tr = [] \<and> (l \<longrightarrow> fresh c \<and> list_all (\<lambda>v. \<forall>n. numbered n v) tp)"
proof -
  have "Sync_Ok sq tok # tp = [] @ Sync_Ok sq tok # tp" by simp
  with assms show ?thesis unfolding requesting_def by blast
qed

lemma requesting_loses:
  "requesting sq tok (v # tr) l c tp \<Longrightarrow> requesting sq tok tr l c tp"
  "requesting sq tok tr l c (v # tp) \<Longrightarrow> requesting sq tok tr l c tp"
  unfolding requesting_def by (metis append_Cons list.distinct(1), metis append_Cons list.set_intros(2))

lemma agreement_asks:
  assumes "agreement m n out c inp" and "may_ask m t" and "tx_sequence t = n"
  shows "agreement (Asking t) (n + 1) (out @ [Command t]) c inp"
proof -
  have "settled (n - 1) c" "agrees m (session_of c)" "list_all (known c) out" "list_all (numbered (n - 1)) inp"
    using assms(1,2) by (cases m; simp add: agreement_def may_ask_def)+
  moreover from this have "staged (known c) (asks t) (out @ [Command t])" by (intro staged_append staged_first) simp_all
  ultimately have "unseen t (out @ [Command t]) c inp" using assms(2,3) by (auto simp: unseen_def may_ask_def)
  with assms(2,3) show ?thesis by (auto simp: agreement_def may_ask_def)
qed

lemma agreement_repeats:
  "agreement (Asking t) n out c inp \<Longrightarrow> agreement (Asking t) n (out @ [Command t]) c inp"
  using stages_send [of t "Command t"] by (auto simp: agreement_def)

lemma agreement_drives:
  "agreement (Driving i) n out c inp \<Longrightarrow> agreement (Driving i) n (out @ [Velocity i]) c inp"
  by (auto simp: agreement_def)

lemma agreement_beats: "agreement m n out c inp \<Longrightarrow> agreement m n (out @ [Quiet]) c inp"
  using stages_send [of _ Quiet] by (cases m) (auto simp: agreement_def)

lemma agreement_forgets: "agreement m n out c (v # inp) \<Longrightarrow> agreement m n out c inp"
  by (cases m) (auto simp: agreement_def dest: stages_forget)

lemma agreement_learns:
  assumes "agreement (Asking t) n out c (Response (tx_sequence t) p # inp)"
  shows "agreement (answered t (resp_result p)) n out c inp"
proof -
  have ne: "tx_sequence t \<noteq> tx_sequence t - 1" by simp
  from assms have f: "finished t out c (Response (tx_sequence t) p # inp)" and t: "tx_sequence t = n - 1"
    using ne by (auto simp: agreement_def unseen_def working_def)
  from f staged_hd [of "numbered (tx_sequence t - 1)" "tells t (terminal_result (reliable_receiver c))"] ne
  have r: "resp_result p = terminal_result (reliable_receiver c)" "list_all (tells t (resp_result p)) inp"
    by (fastforce simp: finished_def)+
  have num: "numbered (n - 1) v" if "tells t r v" for v r using that t by (cases v) simp_all
  have kn: "known c v" if "asks t v" for v using that f by (cases v) (simp_all add: finished_def)
  have "list_all (asks t) out" using f by (simp add: finished_def)
  then have "list_all (known c) out" by (rule list.pred_mono_strong) (rule kn)
  moreover have "list_all (numbered (n - 1)) inp" using r(2) by (rule list.pred_mono_strong) (rule num)
  moreover have "settled (n - 1) c" "agrees (answered t (resp_result p)) (session_of c)"
    using f t r(1) by (simp_all add: finished_def)
  ultimately show ?thesis by (simp add: agreement_def answered_def split: if_splits)
qed

lemma agreement_starts:
  assumes "fresh c" and "list_all (\<lambda>v. \<forall>n. numbered n v) inp"
  shows "agreement Resting n [] c inp"
  using assms by (auto simp: agreement_def fresh_def settled_def list_all_iff)

lemmas peer_agreement = agreement_asks agreement_repeats agreement_drives agreement_beats agreement_learns

lemma list_all_unsynced [simp]: "unsynced (Command t)" "unsynced (Velocity i)" "unsynced Quiet"
  by (simp_all add: unsynced_def)

lemma protocol_robot:
  assumes "protocol_inv s" and "robot_act v (pr_linked s, pr_coordinator s) (l, c) out"
    and "v = None \<and> rest = pr_to_robot s \<or> (\<exists>w. v = Some w \<and> pr_to_robot s = w # rest)"
  shows "protocol_inv (s\<lparr>pr_to_robot := rest, pr_linked := l, pr_coordinator := c, pr_to_peer := pr_to_peer s @ out\<rparr>)"
proof -
  have wf: "coordinator_wf (pr_coordinator s)" "coordinator_wf c"
    using assms(1) robot_act_wf [OF assms(2)] by (auto simp: protocol_inv_def)
  show ?thesis
  proof (cases "pr_link s")
    case Disconnected
    with wf show ?thesis by (simp add: protocol_inv_def)
  next
    case SyncPending
    with assms(1,3) wf requesting_runs [OF _ wf(1)] requesting_receives assms(2) show ?thesis
      by (auto simp: protocol_inv_def)
  next
    case Synchronized
    then have out: "list_all unsynced (pr_to_robot s)"
      and agree: "pr_linked s \<longrightarrow> agreement (pr_motion s) (pr_next s) (pr_to_robot s) (pr_coordinator s) (pr_to_peer s)"
      using assms(1) by (simp_all add: protocol_inv_def)
    have up: "pr_linked s" if l
      using assms(2,3) that out by (cases "pr_linked s") (auto simp: unsynced_def elim: robot_act_upE)
    have "agreement (pr_motion s) (pr_next s) rest c (pr_to_peer s @ out)" if l
      using up [OF that] agree assms(2,3) that agreement_runs [OF _ wf(1)] agreement_receives [OF _ wf(1)] by auto
    with Synchronized wf out assms(3) show ?thesis by (auto simp: protocol_inv_def)
  qed
qed

theorem protocol_inv_step:
  assumes "protocol_step s t" and "protocol_inv s"
  shows "protocol_inv t"
  using assms(1)
proof cases
  case (connect sq tok)
  then have "requesting sq tok (pr_to_robot s @ [Sync sq tok]) (pr_linked s) (pr_coordinator s) (pr_to_peer s)"
    by (auto simp: requesting_def append_eq_append_conv2 append_eq_Cons_conv Cons_eq_append_conv)
  with connect(1) assms(2) show ?thesis by (simp add: protocol_inv_def)
next
  case (robot_receives v rest l c out)
  with protocol_robot [OF assms(2) robot_receives(3), of rest] show ?thesis by simp
next
  case (robot_runs l c out)
  with protocol_robot [OF assms(2) robot_runs(2), of "pr_to_robot s"] show ?thesis by simp
next
  case (lose_to_robot v rest)
  with assms(2) requesting_loses(1) show ?thesis
    by (auto simp: protocol_inv_def split: Stm32LinkState.splits dest: agreement_tl)
next
  case (lose_to_peer v rest)
  with assms(2) requesting_loses(2) show ?thesis
    by (auto simp: protocol_inv_def split: Stm32LinkState.splits dest: agreement_forgets)
next
  case (peer_synchronizes sq tok rest)
  then have "pr_motion s = Resting" "pr_to_robot s = []"
    "pr_linked s \<longrightarrow> fresh (pr_coordinator s) \<and> list_all (\<lambda>v. \<forall>n. numbered n v) rest"
    using assms(2) requesting_answered by (auto simp: protocol_inv_def)
  with peer_synchronizes assms(2) agreement_starts show ?thesis by (auto simp: protocol_inv_def)
qed (use assms(2) in \<open>auto simp: protocol_inv_def dest: peer_agreement\<close>)

end
