(* ===== verification/Peer_Motion.thy ===== *)
theory Peer_Motion
  imports Session_Protocol
begin

section \<open>The peer's motion session (software/rpi/src/stm32\_motion\_session.cpp)\<close>

text \<open>
  The Raspberry Pi side of a motion session: one transaction at a time, repeated until it is
  answered or the retries are used up, and wheel velocities while a session is active.
\<close>

datatype motion_session_state = Inactive | StartPending | ActiveSession | EndPending

record Stm32MotionSession =
  ms_state :: motion_session_state
  ms_next_sequence :: u16
  ms_pending_sequence :: u16
  ms_pending_session_id :: u32
  ms_transaction_pending :: bool
  ms_pending_command :: u8
  ms_pending_frame :: ProtocolFrame
  ms_ack_received :: bool
  ms_retry_timer_running :: bool
  ms_retry_count :: u8
  ms_last_transmit_ms :: u32
  ms_next_wheel_sequence :: u16
  ms_active_session_id :: u32

abbreviation (input) ack_timeout_ms :: u32 where "ack_timeout_ms \<equiv> 100"
abbreviation (input) terminal_timeout_ms :: u32 where "terminal_timeout_ms \<equiv> 750"
abbreviation (input) max_retries :: u8 where "max_retries \<equiv> 3"

definition motion_session_new :: Stm32MotionSession where
  "motion_session_new =
     \<lparr>ms_state = Inactive, ms_next_sequence = 1, ms_pending_sequence = 0, ms_pending_session_id = 0,
      ms_transaction_pending = False, ms_pending_command = 0, ms_pending_frame = zero_frame, ms_ack_received = False,
      ms_retry_timer_running = False, ms_retry_count = 0, ms_last_transmit_ms = 0, ms_next_wheel_sequence = 1,
      ms_active_session_id = 0\<rparr>"

definition build_wheel_velocity :: "i16 \<Rightarrow> i16 \<Rightarrow> Stm32MotionSession \<Rightarrow> ProtocolFrame option \<times> Stm32MotionSession" where
  "build_wheel_velocity left right s =
     (if ms_state s \<noteq> ActiveSession then (None, s)
      else
        let p = \<lparr>wv_motion_session_id = ms_active_session_id s,
                 wv_command = \<lparr>left_velocity_mm_s = left, right_velocity_mm_s = right\<rparr>\<rparr>;
            frame = zero_frame\<lparr>message_type := PROTOCOL_MESSAGE_TYPE_WHEEL_VELOCITY,
                      frame_sequence := ms_next_wheel_sequence s,
                      payload_length := of_nat WHEEL_VELOCITY_PAYLOAD_WIRE_SIZE\<rparr>;
            s = s\<lparr>ms_next_wheel_sequence := ms_next_wheel_sequence s + 1\<rparr>;
            frame = frame\<lparr>payload := buffer_write 0 (wheel_velocity_payload_encode p) (payload frame)\<rparr>
        in (Some frame, s))"

definition begin_start_session :: "u32 \<Rightarrow> Stm32MotionSession \<Rightarrow> ProtocolFrame option \<times> Stm32MotionSession" where
  "begin_start_session session_id s =
     (if ms_transaction_pending s then (None, s)
      else
        let p = \<lparr>lc_command = MOTION_LIFECYCLE_COMMAND_START_SESSION, lc_motion_session_id = session_id\<rparr>;
            frame = zero_frame\<lparr>message_type := PROTOCOL_MESSAGE_TYPE_MOTION_COMMAND,
                      frame_sequence := ms_next_sequence s,
                      payload_length := of_nat MOTION_LIFECYCLE_COMMAND_WIRE_SIZE\<rparr>;
            s = s\<lparr>ms_next_sequence := ms_next_sequence s + 1\<rparr>;
            frame = frame\<lparr>payload := buffer_write 0 (motion_lifecycle_command_encode p) (payload frame)\<rparr>;
            s = s\<lparr>ms_pending_sequence := frame_sequence frame, ms_pending_session_id := session_id,
                  ms_pending_command := MOTION_LIFECYCLE_COMMAND_START_SESSION, ms_pending_frame := frame\<rparr>;
            s = s\<lparr>ms_ack_received := False, ms_retry_timer_running := False, ms_retry_count := 0,
                  ms_transaction_pending := True\<rparr>
        in (Some frame, s\<lparr>ms_state := StartPending, ms_active_session_id := 0\<rparr>))"

definition handle_ack :: "ProtocolFrame \<Rightarrow> u32 \<Rightarrow> Stm32MotionSession \<Rightarrow> bool \<times> Stm32MotionSession" where
  "handle_ack frame now_ms s =
     (if \<not> ms_transaction_pending s then (False, s)
      else if message_type frame \<noteq> PROTOCOL_MESSAGE_TYPE_MOTION_ACK then (False, s)
      else if frame_sequence frame \<noteq> ms_pending_sequence s then (False, s)
      else if unat (payload_length frame) \<noteq> MOTION_ACK_WIRE_SIZE then (False, s)
      else
        let p = motion_ack_decode (payload frame)
        in if ack_status p \<noteq> MOTION_ACK_ACCEPTED then (False, s)
           else if \<not> ms_ack_received s then (True, s\<lparr>ms_ack_received := True, ms_last_transmit_ms := now_ms\<rparr>)
           else (True, s))"

definition handle_response :: "ProtocolFrame \<Rightarrow> Stm32MotionSession \<Rightarrow> u8 option \<times> Stm32MotionSession" where
  "handle_response frame s =
     (if \<not> ms_transaction_pending s then (None, s)
      else if message_type frame \<noteq> PROTOCOL_MESSAGE_TYPE_MOTION_RESPONSE then (None, s)
      else if frame_sequence frame \<noteq> ms_pending_sequence s then (None, s)
      else if unat (payload_length frame) \<noteq> MOTION_RESPONSE_WIRE_SIZE then (None, s)
      else
        let p = motion_response_decode (payload frame)
        in if resp_command p \<noteq> ms_pending_command s then (None, s)
           else if resp_motion_session_id p \<noteq> ms_pending_session_id s then (None, s)
           else
             let s =
               (if ms_pending_command s = MOTION_LIFECYCLE_COMMAND_START_SESSION then
                  (if resp_result p = MOTION_RESPONSE_OK \<or> resp_result p = MOTION_RESPONSE_ALREADY_ACTIVE
                   then s\<lparr>ms_state := ActiveSession, ms_active_session_id := ms_pending_session_id s\<rparr>
                   else s\<lparr>ms_state := Inactive, ms_active_session_id := 0\<rparr>)
                else if ms_pending_command s = MOTION_LIFECYCLE_COMMAND_END_SESSION
                then s\<lparr>ms_state := Inactive, ms_active_session_id := 0\<rparr>
                else s)
             in (Some (resp_result p), s\<lparr>ms_transaction_pending := False, ms_retry_timer_running := False\<rparr>))"

definition begin_end_session :: "u32 \<Rightarrow> Stm32MotionSession \<Rightarrow> ProtocolFrame option \<times> Stm32MotionSession" where
  "begin_end_session session_id s =
     (if ms_transaction_pending s \<or> ms_state s \<noteq> ActiveSession \<or> session_id \<noteq> ms_active_session_id s
      then (None, s)
      else
        let p = \<lparr>lc_command = MOTION_LIFECYCLE_COMMAND_END_SESSION, lc_motion_session_id = session_id\<rparr>;
            frame = zero_frame\<lparr>message_type := PROTOCOL_MESSAGE_TYPE_MOTION_COMMAND,
                      frame_sequence := ms_next_sequence s,
                      payload_length := of_nat MOTION_LIFECYCLE_COMMAND_WIRE_SIZE\<rparr>;
            s = s\<lparr>ms_next_sequence := ms_next_sequence s + 1\<rparr>;
            frame = frame\<lparr>payload := buffer_write 0 (motion_lifecycle_command_encode p) (payload frame)\<rparr>;
            s = s\<lparr>ms_pending_sequence := frame_sequence frame, ms_pending_session_id := session_id,
                  ms_pending_command := MOTION_LIFECYCLE_COMMAND_END_SESSION, ms_pending_frame := frame\<rparr>;
            s = s\<lparr>ms_ack_received := False, ms_retry_timer_running := False, ms_retry_count := 0,
                  ms_transaction_pending := True\<rparr>
        in (Some frame, s\<lparr>ms_state := EndPending\<rparr>))"

definition retry_pending_transaction :: "Stm32MotionSession \<Rightarrow> ProtocolFrame option" where
  "retry_pending_transaction s = (if \<not> ms_transaction_pending s then None else Some (ms_pending_frame s))"

definition mark_pending_transmitted :: "u32 \<Rightarrow> Stm32MotionSession \<Rightarrow> Stm32MotionSession" where
  "mark_pending_transmitted now_ms s =
     (if \<not> ms_transaction_pending s then s
      else s\<lparr>ms_last_transmit_ms := now_ms, ms_retry_timer_running := True\<rparr>)"

definition retry_if_due :: "u32 \<Rightarrow> Stm32MotionSession \<Rightarrow> ProtocolFrame option \<times> Stm32MotionSession" where
  "retry_if_due now_ms s =
     (if \<not> ms_transaction_pending s \<or> \<not> ms_retry_timer_running s then (None, s)
      else
        let timeout_ms = (if ms_ack_received s then terminal_timeout_ms else ack_timeout_ms)
        in if now_ms - ms_last_transmit_ms s < timeout_ms then (None, s)
           else if ms_retry_count s \<ge> max_retries then (None, s)
           else (Some (ms_pending_frame s),
                 s\<lparr>ms_retry_count := ms_retry_count s + 1, ms_retry_timer_running := False\<rparr>))"

definition retry_exhausted :: "u32 \<Rightarrow> Stm32MotionSession \<Rightarrow> bool" where
  "retry_exhausted now_ms s =
     (if \<not> ms_transaction_pending s \<or> \<not> ms_retry_timer_running s then False
      else if ms_retry_count s < max_retries then False
      else
        let timeout_ms = (if ms_ack_received s then terminal_timeout_ms else ack_timeout_ms)
        in now_ms - ms_last_transmit_ms s \<ge> timeout_ms)"

definition motion_session_reset :: "Stm32MotionSession \<Rightarrow> Stm32MotionSession" where
  "motion_session_reset s =
     s\<lparr>ms_pending_sequence := 0, ms_pending_session_id := 0, ms_pending_command := 0, ms_pending_frame := zero_frame,
       ms_transaction_pending := False, ms_ack_received := False, ms_retry_timer_running := False,
       ms_retry_count := 0, ms_last_transmit_ms := 0, ms_state := Inactive, ms_active_session_id := 0\<rparr>"

subsection \<open>What the session guarantees\<close>

text \<open>
  The transaction a session waits for, and the session as the protocol sees it. The invariant:
  a pending state goes with a pending transaction of its kind, whose frame is stored for
  the retries, and which has the last sequence number that was used.
\<close>

definition pending_of :: "Stm32MotionSession \<Rightarrow> MotionTransaction" where
  "pending_of s = \<lparr>tx_sequence = ms_pending_sequence s, tx_command = ms_pending_command s,
     tx_motion_session_id = ms_pending_session_id s\<rparr>"

definition peer_motion_of :: "Stm32MotionSession \<Rightarrow> peer_motion" where
  "peer_motion_of s =
     (if ms_transaction_pending s then Asking (pending_of s)
      else if ms_state s = ActiveSession then Driving (ms_active_session_id s) else Resting)"

definition motion_session_wf :: "Stm32MotionSession \<Rightarrow> bool" where
  "motion_session_wf s \<longleftrightarrow>
     (if ms_transaction_pending s
      then ms_state s = (if ms_pending_command s = MOTION_LIFECYCLE_COMMAND_START_SESSION then StartPending else EndPending) \<and>
        ms_pending_command s \<in> {MOTION_LIFECYCLE_COMMAND_START_SESSION, MOTION_LIFECYCLE_COMMAND_END_SESSION} \<and>
        frame_sendable (ms_pending_frame s) \<and> view (ms_pending_frame s) = Command (pending_of s)
      else ms_state s \<in> {Inactive, ActiveSession}) \<and>
     (ms_state s \<in> {Inactive, StartPending} \<longrightarrow> ms_active_session_id s = 0)"

definition command_message :: "u16 \<Rightarrow> u8 \<Rightarrow> u32 \<Rightarrow> ProtocolFrame" where
  "command_message sq cmd sid = message PROTOCOL_MESSAGE_TYPE_MOTION_COMMAND sq
     (motion_lifecycle_command_encode \<lparr>lc_command = cmd, lc_motion_session_id = sid\<rparr>)"

lemma command_message [simp]:
  "frame_sendable (command_message sq cmd sid)"
  "view (command_message sq cmd sid) = Command \<lparr>tx_sequence = sq, tx_command = cmd, tx_motion_session_id = sid\<rparr>"
  by (simp_all add: command_message_def view_message)

lemma session_wf_new [simp]: "motion_session_wf motion_session_new" "peer_motion_of motion_session_new = Resting"
  by (simp_all add: motion_session_wf_def motion_session_new_def peer_motion_of_def)

lemma session_reset [simp]:
  "motion_session_wf (motion_session_reset s)" "peer_motion_of (motion_session_reset s) = Resting"
  "ms_next_sequence (motion_session_reset s) = ms_next_sequence s"
  by (simp_all add: motion_session_wf_def motion_session_reset_def peer_motion_of_def)

lemma session_marked [simp]:
  "motion_session_wf (mark_pending_transmitted now s) = motion_session_wf s"
  "peer_motion_of (mark_pending_transmitted now s) = peer_motion_of s"
  "ms_next_sequence (mark_pending_transmitted now s) = ms_next_sequence s"
  "ms_retry_count (mark_pending_transmitted now s) = ms_retry_count s"
  by (simp_all add: motion_session_wf_def mark_pending_transmitted_def peer_motion_of_def pending_of_def)

lemma start_session_spec:
  assumes "motion_session_wf s" and "begin_start_session sid s = (Some f, s')"
  shows "f = command_message (ms_next_sequence s) MOTION_LIFECYCLE_COMMAND_START_SESSION sid \<and>
    peer_motion_of s' = Asking \<lparr>tx_sequence = ms_next_sequence s, tx_command = MOTION_LIFECYCLE_COMMAND_START_SESSION,
      tx_motion_session_id = sid\<rparr> \<and>
    \<not> ms_transaction_pending s \<and> ms_next_sequence s' = ms_next_sequence s + 1 \<and> motion_session_wf s'"
proof -
  have f: "f = command_message (ms_next_sequence s) MOTION_LIFECYCLE_COMMAND_START_SESSION sid"
    using assms(2) by (auto simp: begin_start_session_def command_message_def message_def lifecycle_command.enc_length Let_def
        split: if_splits)
  moreover have "ms_pending_frame s' = f" using assms(2) by (auto simp: begin_start_session_def Let_def split: if_splits)
  moreover have "\<not> ms_transaction_pending s" "ms_transaction_pending s'" "ms_state s' = StartPending"
    "ms_next_sequence s' = ms_next_sequence s + 1" "ms_active_session_id s' = 0"
    "pending_of s' = \<lparr>tx_sequence = ms_next_sequence s, tx_command = MOTION_LIFECYCLE_COMMAND_START_SESSION,
      tx_motion_session_id = sid\<rparr>"
    using assms(2) by (auto simp: begin_start_session_def pending_of_def Let_def split: if_splits)
  ultimately show ?thesis by (simp add: motion_session_wf_def peer_motion_of_def) (simp add: pending_of_def)
qed

lemma end_session_spec:
  assumes "motion_session_wf s" and "begin_end_session sid s = (Some f, s')"
  shows "f = command_message (ms_next_sequence s) MOTION_LIFECYCLE_COMMAND_END_SESSION sid \<and>
    peer_motion_of s = Driving sid \<and>
    peer_motion_of s' = Asking \<lparr>tx_sequence = ms_next_sequence s, tx_command = MOTION_LIFECYCLE_COMMAND_END_SESSION,
      tx_motion_session_id = sid\<rparr> \<and>
    ms_next_sequence s' = ms_next_sequence s + 1 \<and> motion_session_wf s'"
proof -
  have f: "f = command_message (ms_next_sequence s) MOTION_LIFECYCLE_COMMAND_END_SESSION sid"
    using assms(2) by (auto simp: begin_end_session_def command_message_def message_def lifecycle_command.enc_length Let_def
        split: if_splits)
  moreover have "ms_pending_frame s' = f" using assms(2) by (auto simp: begin_end_session_def Let_def split: if_splits)
  moreover have "\<not> ms_transaction_pending s" "ms_state s = ActiveSession" "ms_active_session_id s = sid"
    "ms_transaction_pending s'" "ms_state s' = EndPending" "ms_next_sequence s' = ms_next_sequence s + 1"
    "pending_of s' = \<lparr>tx_sequence = ms_next_sequence s, tx_command = MOTION_LIFECYCLE_COMMAND_END_SESSION,
      tx_motion_session_id = sid\<rparr>"
    using assms(2) by (auto simp: begin_end_session_def pending_of_def Let_def split: if_splits)
  ultimately show ?thesis by (simp add: motion_session_wf_def peer_motion_of_def) (simp add: pending_of_def)
qed

lemma velocity_message:
  assumes "build_wheel_velocity left right s = (Some f, s')"
  shows "f = message PROTOCOL_MESSAGE_TYPE_WHEEL_VELOCITY (ms_next_wheel_sequence s) (wheel_velocity_payload_encode
      \<lparr>wv_motion_session_id = ms_active_session_id s, wv_command = \<lparr>left_velocity_mm_s = left, right_velocity_mm_s = right\<rparr>\<rparr>)"
    and "s' = s\<lparr>ms_next_wheel_sequence := ms_next_wheel_sequence s + 1\<rparr>" and "ms_state s = ActiveSession"
  using assms by (auto simp: build_wheel_velocity_def message_def wheel_velocity.enc_length Let_def split: if_splits)

lemma velocity_spec:
  assumes "motion_session_wf s" and "build_wheel_velocity left right s = (Some f, s')"
  shows "frame_sendable f" and "view f = Velocity (ms_active_session_id s)"
    and "peer_motion_of s = Driving (ms_active_session_id s)" and "peer_motion_of s' = peer_motion_of s"
    and "ms_next_sequence s' = ms_next_sequence s" and "motion_session_wf s'"
proof -
  note f = velocity_message [OF assms(2)]
  then show "frame_sendable f" "view f = Velocity (ms_active_session_id s)" by (simp_all add: view_message)
  show "peer_motion_of s = Driving (ms_active_session_id s)" "peer_motion_of s' = peer_motion_of s"
    "ms_next_sequence s' = ms_next_sequence s" "motion_session_wf s'"
    using assms(1) f(2,3) by (auto simp: motion_session_wf_def peer_motion_of_def pending_of_def split: if_splits)
qed

lemma retry_spec:
  assumes "motion_session_wf s" and "retry_if_due now s = (Some f, s')"
  shows "frame_sendable f" and "\<exists>t. peer_motion_of s = Asking t \<and> view f = Command t"
    and "peer_motion_of s' = peer_motion_of s" and "ms_next_sequence s' = ms_next_sequence s" and "motion_session_wf s'"
  using assms by (auto simp: retry_if_due_def motion_session_wf_def peer_motion_of_def pending_of_def Let_def split: if_splits)

lemma ack_spec:
  assumes "handle_ack f now s = (ok, s')"
  shows "peer_motion_of s' = peer_motion_of s" and "ms_next_sequence s' = ms_next_sequence s"
    and "motion_session_wf s \<Longrightarrow> motion_session_wf s'" and "ok \<Longrightarrow> view f = Quiet" and "\<not> ok \<Longrightarrow> s' = s"
  using assms by (auto simp: handle_ack_def motion_session_wf_def peer_motion_of_def pending_of_def view_cases Let_def
      split: if_splits)

text \<open>A response ends the transaction exactly when it answers it.\<close>

definition answers_pending :: "message_view \<Rightarrow> Stm32MotionSession \<Rightarrow> bool" where
  "answers_pending v s \<longleftrightarrow> ms_transaction_pending s \<and>
     (\<exists>r. v = response_view (pending_of s) r)"

lemma response_iff:
  "v = response_view t r \<longleftrightarrow> (\<exists>p. v = Response (tx_sequence t) p \<and> resp_command p = tx_command t \<and>
     resp_motion_session_id p = tx_motion_session_id t \<and> resp_result p = r)"
  unfolding response_view_def by (auto intro: MotionResponsePayload.equality)

lemma response_spec:
  assumes "motion_session_wf s" and "handle_response f s = (res, s')"
  shows "ms_next_sequence s' = ms_next_sequence s" and "motion_session_wf s'"
    and "res = None \<Longrightarrow> s' = s \<and> \<not> answers_pending (view f) s"
    and "res = Some r \<Longrightarrow> ms_transaction_pending s \<and> view f = response_view (pending_of s) r \<and>
      peer_motion_of s' = answered (pending_of s) r"
  using assms
  by (auto simp: handle_response_def motion_session_wf_def peer_motion_of_def pending_of_def answers_pending_def
      response_iff view_iff answered_def Let_def split: if_splits)

subsection \<open>Retries\<close>

text \<open>
  What the client runner does about a transaction that is never answered, polled at the given times:
  it gives up when the retries are exhausted, and sends the frame again when a retry is due.
\<close>

fun retry_run :: "u32 list \<Rightarrow> Stm32MotionSession \<Rightarrow> ProtocolFrame list \<times> bool" where
  "retry_run [] s = ([], False)"
| "retry_run (now # nows) s =
     (if retry_exhausted now s then ([], True)
      else case retry_if_due now s of
             (None, s) \<Rightarrow> retry_run nows s
           | (Some f, s) \<Rightarrow> let (fs, given_up) = retry_run nows (mark_pending_transmitted now s) in (f # fs, given_up))"

text \<open>Polls that are at least \<open>d\<close> milliseconds apart, the first one after \<open>t\<close>.\<close>

fun spaced :: "u32 \<Rightarrow> u32 \<Rightarrow> u32 list \<Rightarrow> bool" where
  "spaced d t [] \<longleftrightarrow> True"
| "spaced d t (u # us) \<longleftrightarrow> d \<le> u - t \<and> spaced d u us"

abbreviation answer_timeout :: "Stm32MotionSession \<Rightarrow> u32" where
  "answer_timeout s \<equiv> (if ms_ack_received s then terminal_timeout_ms else ack_timeout_ms)"

lemma retry_count_step: "r < 3 \<Longrightarrow> unat (r + 1 :: u8) = unat r + 1"
  by (simp add: word_less_nat_alt unat_word_ariths)

lemma retry_run_bounded:
  assumes "ms_transaction_pending s" and "ms_retry_timer_running s" and "unat (ms_retry_count s) \<le> 3"
    and "retry_run nows s = (fs, given_up)"
  shows "length fs \<le> 3 - unat (ms_retry_count s) \<and> set fs \<subseteq> {ms_pending_frame s} \<and>
    (given_up \<longrightarrow> length fs = 3 - unat (ms_retry_count s)) \<and>
    (spaced (answer_timeout s) (ms_last_transmit_ms s) nows \<and> 3 - unat (ms_retry_count s) < length nows \<longrightarrow> given_up)"
  using assms
proof (induction nows arbitrary: s fs given_up)
  case (Cons now nows)
  let ?due = "answer_timeout s \<le> now - ms_last_transmit_ms s"
  have three: "ms_retry_count s < 3 \<longleftrightarrow> unat (ms_retry_count s) < 3" by (simp add: word_less_nat_alt)
  show ?case
  proof (cases ?due)
    case False
    then have "\<not> retry_exhausted now s" "retry_if_due now s = (None, s)"
      "\<not> spaced (answer_timeout s) (ms_last_transmit_ms s) (now # nows)"
      using Cons.prems(1,2) by (auto simp: retry_exhausted_def retry_if_due_def not_le Let_def)
    moreover from this(1,2) Cons.prems(4) have "retry_run nows s = (fs, given_up)" by simp
    ultimately show ?thesis using Cons.IH [OF Cons.prems(1-3)] by blast
  next
    case due: True
    show ?thesis
    proof (cases "ms_retry_count s < 3")
      case False
      with due Cons.prems three have "fs = []" "given_up" "unat (ms_retry_count s) = 3"
        by (auto simp: retry_exhausted_def Let_def)
      then show ?thesis by simp
    next
      case True
      let ?s = "mark_pending_transmitted now (s\<lparr>ms_retry_count := ms_retry_count s + 1, ms_retry_timer_running := False\<rparr>)"
      have s: "ms_transaction_pending ?s" "ms_retry_timer_running ?s" "ms_pending_frame ?s = ms_pending_frame s"
        "ms_ack_received ?s = ms_ack_received s" "ms_last_transmit_ms ?s = now"
        "unat (ms_retry_count ?s) = unat (ms_retry_count s) + 1"
        using Cons.prems(1) retry_count_step [OF True] by (simp_all add: mark_pending_transmitted_def)
      obtain gs e where run: "retry_run nows ?s = (gs, e)" by fastforce
      have "\<not> retry_exhausted now s" "retry_if_due now s =
          (Some (ms_pending_frame s), s\<lparr>ms_retry_count := ms_retry_count s + 1, ms_retry_timer_running := False\<rparr>)"
        using Cons.prems(1,2) True due by (simp_all add: retry_exhausted_def retry_if_due_def not_less [symmetric] Let_def)
      then have "fs = ms_pending_frame s # gs" "given_up = e" using Cons.prems(4) run by auto
      with Cons.IH [OF s(1,2) _ run] s True three show ?thesis by auto
    qed
  qed
qed simp

text \<open>
  C23: A transaction is repeated at most three times. After it was sent, polled at any times and
  never answered, the session sends only copies of the same frame, at most three of them,
  and gives up only after three; polled at least 100 ms apart, it gives up with the
  fourth poll at the latest.
\<close>

theorem retries_bounded:
  assumes "begin_start_session sid s = (Some f, s') \<or> begin_end_session sid s = (Some f, s')"
    and "retry_run nows (mark_pending_transmitted now s') = (fs, given_up)"
  shows "length fs \<le> 3 \<and> set fs \<subseteq> {f} \<and> (given_up \<longrightarrow> length fs = 3) \<and>
    (spaced 100 now nows \<and> 4 \<le> length nows \<longrightarrow> given_up)"
proof -
  let ?s = "mark_pending_transmitted now s'"
  have "ms_transaction_pending ?s" "ms_retry_timer_running ?s" "ms_retry_count ?s = 0" "ms_pending_frame ?s = f"
    "ms_last_transmit_ms ?s = now" "\<not> ms_ack_received ?s"
    using assms(1) by (auto simp: begin_start_session_def begin_end_session_def mark_pending_transmitted_def Let_def
        split: if_splits)
  with retry_run_bounded [OF _ _ _ assms(2)] show ?thesis by auto
qed

lemma retries_bounded_witness:
  "snd (retry_run [100, 200, 300, 400] (mark_pending_transmitted 0 (snd (begin_start_session 9 motion_session_new))))"
proof -
  obtain f s where s: "begin_start_session 9 motion_session_new = (Some f, s)"
    by (simp add: begin_start_session_def motion_session_new_def Let_def)
  obtain fs e where "retry_run [100, 200, 300, 400] (mark_pending_transmitted 0 s) = (fs, e)" by fastforce
  with retries_bounded [OF disjI1 [OF s] this] s show ?thesis by simp
qed

subsection \<open>The invariant of the class\<close>

text \<open>Every call a client can make.\<close>

inductive motion_session_call :: "Stm32MotionSession \<Rightarrow> Stm32MotionSession \<Rightarrow> bool" where
  call_start: "motion_session_call s (snd (begin_start_session sid s))"
| call_end: "motion_session_call s (snd (begin_end_session sid s))"
| call_velocity: "motion_session_call s (snd (build_wheel_velocity left right s))"
| call_ack: "motion_session_call s (snd (handle_ack f now s))"
| call_response: "motion_session_call s (snd (handle_response f s))"
| call_retry: "motion_session_call s (snd (retry_if_due now s))"
| call_mark: "motion_session_call s (mark_pending_transmitted now s)"
| call_reset: "motion_session_call s (motion_session_reset s)"

lemma refused_calls:
  "begin_start_session sid s = (None, s') \<Longrightarrow> s' = s" "begin_end_session sid s = (None, s') \<Longrightarrow> s' = s"
  "build_wheel_velocity left right s = (None, s') \<Longrightarrow> s' = s" "retry_if_due now s = (None, s') \<Longrightarrow> s' = s"
  by (auto simp: begin_start_session_def begin_end_session_def build_wheel_velocity_def retry_if_due_def Let_def
      split: if_splits)

lemma optional_call:
  assumes "P s" and "\<And>s'. call = (None, s') \<Longrightarrow> s' = s" and "\<And>f s'. call = (Some f, s') \<Longrightarrow> P s'"
  shows "P (snd call)"
  using assms by (cases call; cases "fst call") auto

lemma motion_session_call_wf:
  assumes "motion_session_call s t" and "motion_session_wf s"
  shows "motion_session_wf t"
  using assms(1)
proof cases
  case (call_start sid)
  show ?thesis unfolding call_start
    by (rule optional_call [where P = motion_session_wf, OF assms(2) refused_calls(1)]) (use start_session_spec [OF assms(2)] in blast)+
next
  case (call_end sid)
  show ?thesis unfolding call_end
    by (rule optional_call [where P = motion_session_wf, OF assms(2) refused_calls(2)]) (use end_session_spec [OF assms(2)] in blast)+
next
  case (call_velocity left right)
  show ?thesis unfolding call_velocity by (rule optional_call [where P = motion_session_wf, OF assms(2) refused_calls(3) velocity_spec(6) [OF assms(2)]])
next
  case (call_retry now)
  show ?thesis unfolding call_retry by (rule optional_call [where P = motion_session_wf, OF assms(2) refused_calls(4) retry_spec(5) [OF assms(2)]])
next
  case (call_ack f now)
  then show ?thesis using ack_spec(3) [of f now s, OF prod.collapse [symmetric]] assms(2) by simp
next
  case (call_response f)
  then show ?thesis using response_spec(2) [OF assms(2), of f, OF prod.collapse [symmetric]] by simp
qed (use assms(2) in simp_all)

interpretation motion_session: inductive_invariant "\<lambda>s. s = motion_session_new" motion_session_call motion_session_wf
  by unfold_locales (auto intro: motion_session_call_wf)

text \<open>
  C24: The fields of the peer's motion session are always consistent. Whatever calls were made, in
  any order, a session waits for an answer exactly when a transaction is pending; the
  transaction is then of the kind of the state, and the frame kept for retries is the
  command with its sequence number and session, with a length the encoder accepts; a
  session identifier is set only while a session is active or ending.
\<close>

theorem motion_session_consistent:
  assumes "reachable (\<lambda>s. s = motion_session_new) motion_session_call s"
  shows "(ms_transaction_pending s \<longleftrightarrow> ms_state s = StartPending \<or> ms_state s = EndPending) \<and>
    (ms_state s = StartPending \<longrightarrow> ms_pending_command s = MOTION_LIFECYCLE_COMMAND_START_SESSION) \<and>
    (ms_state s = EndPending \<longrightarrow> ms_pending_command s = MOTION_LIFECYCLE_COMMAND_END_SESSION) \<and>
    (ms_transaction_pending s \<longrightarrow> frame_sendable (ms_pending_frame s) \<and>
       protocol_ingress_route (Some (ms_pending_frame s)) = PROTOCOL_INGRESS_ROUTE_MOTION_COMMAND \<and>
       frame_sequence (ms_pending_frame s) = ms_pending_sequence s \<and>
       motion_lifecycle_command_decode (payload (ms_pending_frame s)) =
         \<lparr>lc_command = ms_pending_command s, lc_motion_session_id = ms_pending_session_id s\<rparr>) \<and>
    (ms_active_session_id s \<noteq> 0 \<longrightarrow> ms_state s = ActiveSession \<or> ms_state s = EndPending)"
proof -
  have wf: "motion_session_wf s" using assms by (rule motion_session.inv_reachable)
  have "protocol_ingress_route (Some f) = PROTOCOL_INGRESS_ROUTE_MOTION_COMMAND \<and> frame_sequence f = tx_sequence t \<and>
      motion_lifecycle_command_decode (payload f) = \<lparr>lc_command = tx_command t, lc_motion_session_id = tx_motion_session_id t\<rparr>"
    if "view f = Command t" for f t
    using that by (auto simp: view_def Let_def simp del: protocol_ingress_route.simps
        split: ProtocolIngressRoute.splits intro: MotionLifecycleCommandPayload.equality)
  with wf show ?thesis
    by (cases "ms_state s") (auto simp: motion_session_wf_def pending_of_def split: if_splits)
qed

lemma motion_session_consistent_witness:
  "ms_transaction_pending (snd (begin_start_session 9 motion_session_new)) \<and>
   ms_pending_command (snd (begin_start_session 9 motion_session_new)) = MOTION_LIFECYCLE_COMMAND_START_SESSION"
proof -
  let ?s = "snd (begin_start_session 9 motion_session_new)"
  have "reachable (\<lambda>s. s = motion_session_new) motion_session_call motion_session_new" by (rule reachable_init) simp
  then have "reachable (\<lambda>s. s = motion_session_new) motion_session_call ?s" by (rule reachable_step) (rule call_start)
  moreover have "ms_state ?s = StartPending" by (simp add: begin_start_session_def motion_session_new_def Let_def)
  ultimately show ?thesis using motion_session_consistent [of ?s] by blast
qed

end
