(* ===== verification/Peer_Robot.thy ===== *)
theory Peer_Robot
  imports Peer_Motion
begin

section \<open>The peer and the robot on one serial line\<close>

text \<open>
  The sessions of the Raspberry Pi and a robot, joined by the wire images in flight. The
  robot enters through an interface: its link flag, its coordinator, the images it has
  sent, and its two kinds of steps, on a received frame and on its own.
\<close>

subsection \<open>The peer receives a frame\<close>

text \<open>
  What the client runner does with a delivered frame: while it synchronizes, only the answer
  to its request counts; afterwards the heartbeat answer, the acknowledgement and the response
  are tried in this order, unless the robot reports to be unsynchronized.
\<close>

definition peer_receive ::
  "ProtocolFrame \<Rightarrow> u32 \<Rightarrow> Stm32LinkSession \<Rightarrow> Stm32MotionSession \<Rightarrow> Stm32LinkSession \<times> Stm32MotionSession" where
  "peer_receive frame now_ms l m =
     (case lks_state l of
        Disconnected \<Rightarrow> (l, m)
      | SyncPending \<Rightarrow> (snd (handle_link_sync_ok frame now_ms l), m)
      | Synchronized \<Rightarrow>
          let (ok, l) = handle_heartbeat_response frame now_ms l
          in if ok then (l, m)
             else if lks_state l = Disconnected then (l, m)
             else
               let (ok, m) = handle_ack frame now_ms m
               in if ok then (l, m) else (l, snd (handle_response frame m)))"

subsection \<open>The steps of the peer\<close>

text \<open>
  What the peer does, one call of its sessions at a time, labelled with the message it sends
  or hears. A connection attempt carries its token.
\<close>

datatype peer_event = Connects u64 ProtocolFrame | Sends ProtocolFrame | Hears ProtocolFrame | Silent

type_synonym peer = "Stm32LinkSession \<times> Stm32MotionSession"

inductive peer_step :: "peer_event \<Rightarrow> peer \<Rightarrow> peer \<Rightarrow> bool" where
  peer_connect: "begin_synchronization tok (link_disconnect l) = (f, l') \<Longrightarrow>
    peer_step (Connects tok f) (l, m) (l', motion_session_reset m)"
| peer_disconnect: "peer_step Silent (l, m) (link_disconnect l, motion_session_reset m)"
| peer_timeout: "peer_step Silent (l, m) (check_link_timeout now l, m)"
| peer_start: "lks_state l = Synchronized \<Longrightarrow> begin_start_session sid m = (Some f, m') \<Longrightarrow> peer_step (Sends f) (l, m) (l, m')"
| peer_end: "lks_state l = Synchronized \<Longrightarrow> begin_end_session sid m = (Some f, m') \<Longrightarrow> peer_step (Sends f) (l, m) (l, m')"
| peer_retry: "lks_state l = Synchronized \<Longrightarrow> retry_if_due now m = (Some f, m') \<Longrightarrow> peer_step (Sends f) (l, m) (l, m')"
| peer_mark: "peer_step Silent (l, m) (l, mark_pending_transmitted now m)"
| peer_velocity: "lks_state l = Synchronized \<Longrightarrow> build_wheel_velocity left right m = (Some f, m') \<Longrightarrow>
    peer_step (Sends f) (l, m) (l, m')"
| peer_beat: "heartbeat_if_due now l = (Some f, l') \<Longrightarrow> peer_step (Sends f) (l, m) (l', m)"
| peer_hears: "peer_receive g now l m = (l', m') \<Longrightarrow> peer_step (Hears g) (l, m) (l', m')"

inductive_cases peer_connectsE: "peer_step (Connects tok f) p p'"
inductive_cases peer_hearsE: "peer_step (Hears g) p p'"

text \<open>Several steps, the messages they send and hear, and the bytes of those they send.\<close>

inductive peer_steps :: "peer_event list \<Rightarrow> peer \<Rightarrow> peer \<Rightarrow> bool" where
  peer_steps_nil: "peer_steps [] p p"
| peer_steps_cons: "peer_step e p p1 \<Longrightarrow> peer_steps es p1 p2 \<Longrightarrow> peer_steps (e # es) p p2"

inductive_simps peer_steps_simps [simp]: "peer_steps [] p p'" "peer_steps (e # es) p p'"

fun sent_frames :: "peer_event list \<Rightarrow> ProtocolFrame list" where
  "sent_frames [] = []"
| "sent_frames (Connects tok f # es) = f # sent_frames es"
| "sent_frames (Sends f # es) = f # sent_frames es"
| "sent_frames (e # es) = sent_frames es"

fun heard_frames :: "peer_event list \<Rightarrow> ProtocolFrame list" where
  "heard_frames [] = []"
| "heard_frames (Hears g # es) = g # heard_frames es"
| "heard_frames (e # es) = heard_frames es"

abbreviation event_bytes :: "peer_event list \<Rightarrow> u8 list" where
  "event_bytes es \<equiv> concat (map frame_wire (sent_frames es))"

lemma sent_frames_append [simp]: "sent_frames (es @ es') = sent_frames es @ sent_frames es'"
  by (induction es rule: sent_frames.induct) simp_all

lemma heard_frames_append [simp]: "heard_frames (es @ es') = heard_frames es @ heard_frames es'"
  by (induction es rule: heard_frames.induct) simp_all

lemma peer_steps_append: "peer_steps es p p1 \<Longrightarrow> peer_steps es' p1 p2 \<Longrightarrow> peer_steps (es @ es') p p2"
  by (induction es p p1 rule: peer_steps.induct) auto

lemma peer_steps_single: "peer_step e p p' \<Longrightarrow> peer_steps [e] p p'"
  by (rule peer_steps_cons [OF _ peer_steps_nil])

subsection \<open>Both ends\<close>

record 'r Net =
  net_link :: Stm32LinkSession
  net_motion :: Stm32MotionSession
  net_to_robot :: "u8 list list"
  net_robot :: 'r
  net_to_peer :: "u8 list list"

text \<open>A token no message in flight carries: what a random token of sixty-four bits stands for.\<close>

definition unused_token :: "u64 \<Rightarrow> u8 list list \<Rightarrow> bool" where
  "unused_token tok ws \<longleftrightarrow> (\<forall>w \<in> set ws. \<forall>sq. image_view w \<noteq> Sync sq tok \<and> image_view w \<noteq> Sync_Ok sq tok)"

lemma unused_tokenD:
  assumes "unused_token tok (ws @ us)"
  shows "Sync sq tok \<notin> image_view ` set ws" "Sync_Ok sq tok \<notin> image_view ` set us"
  using assms unfolding unused_token_def by (metis (no_types, lifting) Un_iff imageE set_append)+

inductive net_step ::
  "('r \<Rightarrow> u8 list list) \<Rightarrow> (ProtocolFrame \<Rightarrow> 'r \<Rightarrow> 'r \<Rightarrow> bool) \<Rightarrow> ('r \<Rightarrow> 'r \<Rightarrow> bool) \<Rightarrow> 'r Net \<Rightarrow> 'r Net \<Rightarrow> bool"
  for sent :: "'r \<Rightarrow> u8 list list" and receives :: "ProtocolFrame \<Rightarrow> 'r \<Rightarrow> 'r \<Rightarrow> bool" and runs :: "'r \<Rightarrow> 'r \<Rightarrow> bool" where
  net_peer_connects: "peer_step (Connects tok f) (net_link n, net_motion n) (l, m) \<Longrightarrow>
    unused_token tok (net_to_robot n @ net_to_peer n) \<Longrightarrow>
    net_step sent receives runs n (n\<lparr>net_link := l, net_motion := m, net_to_robot := net_to_robot n @ [frame_wire f]\<rparr>)"
| net_peer_sends: "peer_step (Sends f) (net_link n, net_motion n) (l, m) \<Longrightarrow>
    net_step sent receives runs n (n\<lparr>net_link := l, net_motion := m, net_to_robot := net_to_robot n @ [frame_wire f]\<rparr>)"
| net_peer_hears: "net_to_peer n = w # rest \<Longrightarrow> arrives w g \<Longrightarrow>
    peer_step (Hears g) (net_link n, net_motion n) (l, m) \<Longrightarrow>
    net_step sent receives runs n (n\<lparr>net_link := l, net_motion := m, net_to_peer := rest\<rparr>)"
| net_peer_silent: "peer_step Silent (net_link n, net_motion n) (l, m) \<Longrightarrow>
    net_step sent receives runs n (n\<lparr>net_link := l, net_motion := m\<rparr>)"
| net_robot_receives: "net_to_robot n = w # rest \<Longrightarrow> arrives w g \<Longrightarrow> receives g (net_robot n) r \<Longrightarrow>
    sent r = sent (net_robot n) @ ws \<Longrightarrow>
    net_step sent receives runs n (n\<lparr>net_to_robot := rest, net_robot := r, net_to_peer := net_to_peer n @ ws\<rparr>)"
| net_robot_runs: "runs (net_robot n) r \<Longrightarrow> sent r = sent (net_robot n) @ ws \<Longrightarrow>
    net_step sent receives runs n (n\<lparr>net_robot := r, net_to_peer := net_to_peer n @ ws\<rparr>)"
| net_lose_to_robot: "net_to_robot n = w # rest \<Longrightarrow> net_step sent receives runs n (n\<lparr>net_to_robot := rest\<rparr>)"
| net_lose_to_peer: "net_to_peer n = w # rest \<Longrightarrow> net_step sent receives runs n (n\<lparr>net_to_peer := rest\<rparr>)"

text \<open>
  Steps of the peer are steps of the net, as long as what it hears is what arrives and the tokens
  it draws are unused.
\<close>

fun tokens_unused :: "peer_event list \<Rightarrow> u8 list list \<Rightarrow> u8 list list \<Rightarrow> bool" where
  "tokens_unused [] out inp \<longleftrightarrow> True"
| "tokens_unused (Connects tok f # es) out inp \<longleftrightarrow> unused_token tok (out @ inp) \<and> tokens_unused es (out @ [frame_wire f]) inp"
| "tokens_unused (Sends f # es) out inp \<longleftrightarrow> tokens_unused es (out @ [frame_wire f]) inp"
| "tokens_unused (Hears g # es) out inp \<longleftrightarrow> tokens_unused es out (tl inp)"
| "tokens_unused (Silent # es) out inp \<longleftrightarrow> tokens_unused es out inp"

lemma peer_steps_net:
  assumes "peer_steps es (net_link n, net_motion n) (l, m)" and "net_to_peer n = ws @ rest"
    and "list_all2 arrives ws (heard_frames es)" and "tokens_unused es (net_to_robot n) (net_to_peer n)"
  shows "(net_step sent receives runs)\<^sup>*\<^sup>* n (n\<lparr>net_link := l, net_motion := m,
    net_to_robot := net_to_robot n @ map frame_wire (sent_frames es), net_to_peer := rest\<rparr>)"
  using assms
proof (induction es arbitrary: n ws)
  case Nil
  then show ?case by (cases n) simp
next
  case (Cons e es)
  from Cons.prems(1) obtain l1 m1 where e: "peer_step e (net_link n, net_motion n) (l1, m1)" and es: "peer_steps es (l1, m1) (l, m)"
    by auto
  show ?case
  proof (cases e)
    case (Connects tok f)
    let ?n = "n\<lparr>net_link := l1, net_motion := m1, net_to_robot := net_to_robot n @ [frame_wire f]\<rparr>"
    have "net_step sent receives runs n ?n" using net_peer_connects e Cons.prems(4) Connects by force
    with Cons.IH [of ?n ws] es Cons.prems Connects show ?thesis by (simp add: converse_rtranclp_into_rtranclp)
  next
    case (Sends f)
    let ?n = "n\<lparr>net_link := l1, net_motion := m1, net_to_robot := net_to_robot n @ [frame_wire f]\<rparr>"
    have "net_step sent receives runs n ?n" using net_peer_sends e Sends by force
    with Cons.IH [of ?n ws] es Cons.prems Sends show ?thesis by (simp add: converse_rtranclp_into_rtranclp)
  next
    case (Hears g)
    with Cons.prems(3) obtain w us where ws: "ws = w # us" "arrives w g" "list_all2 arrives us (heard_frames es)"
      by (auto simp: list_all2_Cons2)
    let ?n = "n\<lparr>net_link := l1, net_motion := m1, net_to_peer := us @ rest\<rparr>"
    have "net_step sent receives runs n ?n" using net_peer_hears [of n w "us @ rest" g] e Hears ws Cons.prems(2) by simp
    with Cons.IH [of ?n us] es Cons.prems Hears ws show ?thesis by (simp add: converse_rtranclp_into_rtranclp)
  next
    case Silent
    let ?n = "n\<lparr>net_link := l1, net_motion := m1\<rparr>"
    have "net_step sent receives runs n ?n" using net_peer_silent e Silent by force
    with Cons.IH [of ?n ws] es Cons.prems Silent show ?thesis by (simp add: converse_rtranclp_into_rtranclp)
  qed
qed

text \<open>At the start the peer is disconnected and nothing is in flight.\<close>

definition net_started :: "('r \<Rightarrow> bool) \<Rightarrow> 'r Net \<Rightarrow> bool" where
  "net_started started n \<longleftrightarrow> net_link n = link_session_new \<and> net_motion n = motion_session_new \<and>
     net_to_robot n = [] \<and> net_to_peer n = [] \<and> started (net_robot n)"

subsection \<open>The interface of a robot\<close>

text \<open>
  Every step of the robot acts on its link flag and its coordinator as the protocol allows,
  and what it sends meanwhile are the images of the messages of that act.
\<close>

locale session_robot =
  fixes linked :: "'r \<Rightarrow> bool" and coordinator :: "'r \<Rightarrow> MotionLifecycleCoordinator"
    and sent :: "'r \<Rightarrow> u8 list list" and receives :: "ProtocolFrame \<Rightarrow> 'r \<Rightarrow> 'r \<Rightarrow> bool"
    and runs :: "'r \<Rightarrow> 'r \<Rightarrow> bool" and started :: "'r \<Rightarrow> bool" and robot_inv :: "'r \<Rightarrow> bool"
  assumes started_inv: "started r \<Longrightarrow> robot_inv r"
    and inv_wf: "robot_inv r \<Longrightarrow> coordinator_wf (coordinator r)"
    and receives_inv: "robot_inv r \<Longrightarrow> receives g r r' \<Longrightarrow> robot_inv r'"
    and runs_inv: "robot_inv r \<Longrightarrow> runs r r' \<Longrightarrow> robot_inv r'"
    and receives_act: "robot_inv r \<Longrightarrow> receives g r r' \<Longrightarrow> \<exists>fs. list_all frame_sendable fs \<and>
      sent r' = sent r @ map frame_wire fs \<and>
      robot_act (Some (view g)) (linked r, coordinator r) (linked r', coordinator r') (map view fs)"
    and runs_act: "robot_inv r \<Longrightarrow> runs r r' \<Longrightarrow> \<exists>fs. list_all frame_sendable fs \<and>
      sent r' = sent r @ map frame_wire fs \<and>
      robot_act None (linked r, coordinator r) (linked r', coordinator r') (map view fs)"
begin

text \<open>The net as the protocol sees it, and the invariant.\<close>

definition protocol_of :: "'r Net \<Rightarrow> protocol_state" where
  "protocol_of n = \<lparr>pr_link = lks_state (net_link n), pr_request = request_of (net_link n),
     pr_motion = peer_motion_of (net_motion n), pr_next = ms_next_sequence (net_motion n),
     pr_to_robot = map image_view (net_to_robot n), pr_linked = linked (net_robot n),
     pr_coordinator = coordinator (net_robot n), pr_to_peer = map image_view (net_to_peer n)\<rparr>"

definition net_wf :: "'r Net \<Rightarrow> bool" where
  "net_wf n \<longleftrightarrow> robot_inv (net_robot n) \<and> motion_session_wf (net_motion n) \<and>
     list_all wire_image (net_to_robot n) \<and> list_all wire_image (net_to_peer n)"

lemma images_of:
  assumes "list_all frame_sendable fs" and "ws = map frame_wire fs"
  shows "map image_view ws = map view fs" and "list_all wire_image ws"
  using assms by (induction fs arbitrary: ws) simp_all

text \<open>Every step of the net is a step of the protocol, or leaves what the protocol sees alone.\<close>

lemma peer_sends:
  assumes "net_wf n" and "lks_state (net_link n) = Synchronized" and "frame_sendable f" and "motion_session_wf m"
    and "lks_state l = Synchronized" and "request_of l = request_of (net_link n)"
    and "protocol_step (protocol_of n) ((protocol_of n)\<lparr>pr_motion := peer_motion_of m, pr_next := ms_next_sequence m,
      pr_to_robot := pr_to_robot (protocol_of n) @ [view f]\<rparr>)"
  shows "net_wf (n\<lparr>net_link := l, net_motion := m, net_to_robot := net_to_robot n @ [frame_wire f]\<rparr>) \<and>
    protocol_step\<^sup>*\<^sup>* (protocol_of n)
      (protocol_of (n\<lparr>net_link := l, net_motion := m, net_to_robot := net_to_robot n @ [frame_wire f]\<rparr>))"
  using assms by (simp add: net_wf_def protocol_of_def r_into_rtranclp)

lemma peer_asks:
  assumes "net_wf n" and "lks_state (net_link n) = Synchronized" and "motion_session_wf m"
    and "peer_motion_of m = Asking t" and "ms_next_sequence m = ms_next_sequence (net_motion n) + 1"
    and "may_ask (peer_motion_of (net_motion n)) t" and "tx_sequence t = ms_next_sequence (net_motion n)"
    and "frame_sendable f" and "view f = Command t"
  shows "net_wf (n\<lparr>net_link := net_link n, net_motion := m, net_to_robot := net_to_robot n @ [frame_wire f]\<rparr>) \<and>
    protocol_step\<^sup>*\<^sup>* (protocol_of n)
      (protocol_of (n\<lparr>net_link := net_link n, net_motion := m, net_to_robot := net_to_robot n @ [frame_wire f]\<rparr>))"
  using peer_sends [OF assms(1,2,8,3,2) refl] protocol_step.ask [of "protocol_of n" t] assms
  by (simp add: protocol_of_def)

text \<open>What the peer sends is a command, a velocity of its session or a heartbeat, as the protocol allows.\<close>

lemma peer_sends_simulates:
  assumes "peer_step (Sends f) (net_link n, net_motion n) (l, m)" and "net_wf n"
  shows "net_wf (n\<lparr>net_link := l, net_motion := m, net_to_robot := net_to_robot n @ [frame_wire f]\<rparr>) \<and>
    protocol_step\<^sup>*\<^sup>* (protocol_of n)
      (protocol_of (n\<lparr>net_link := l, net_motion := m, net_to_robot := net_to_robot n @ [frame_wire f]\<rparr>))"
proof -
  have wf: "motion_session_wf (net_motion n)" using assms(2) by (simp add: net_wf_def)
  show ?thesis using assms(1)
  proof cases
    case (peer_start sid)
    note start = start_session_spec [OF wf peer_start(3)]
    have "may_ask (peer_motion_of (net_motion n)) \<lparr>tx_sequence = ms_next_sequence (net_motion n),
        tx_command = MOTION_LIFECYCLE_COMMAND_START_SESSION, tx_motion_session_id = sid\<rparr>"
      using start by (simp add: may_ask_def peer_motion_of_def)
    with peer_asks [OF assms(2) peer_start(2), of m _ f] start peer_start(1) show ?thesis by simp
  next
    case (peer_end sid)
    note ending = end_session_spec [OF wf peer_end(3)]
    have "may_ask (peer_motion_of (net_motion n)) \<lparr>tx_sequence = ms_next_sequence (net_motion n),
        tx_command = MOTION_LIFECYCLE_COMMAND_END_SESSION, tx_motion_session_id = sid\<rparr>"
      using ending by (simp add: may_ask_def)
    with peer_asks [OF assms(2) peer_end(2), of m _ f] ending peer_end(1) show ?thesis by simp
  next
    case (peer_retry now)
    note retry = retry_spec [OF wf peer_retry(3)]
    from retry(2) obtain t where "peer_motion_of (net_motion n) = Asking t" "view f = Command t" by blast
    with peer_sends [OF assms(2) peer_retry(2) retry(1), of m l]
      protocol_step.ask_again [of "protocol_of n" t] retry peer_retry(1,2) show ?thesis by (simp add: protocol_of_def)
  next
    case (peer_velocity left right)
    note vel = velocity_spec [OF wf peer_velocity(3)]
    with peer_sends [OF assms(2) peer_velocity(2) vel(1), of m l]
      protocol_step.drive [of "protocol_of n"] peer_velocity(1,2) show ?thesis by (simp add: protocol_of_def)
  next
    case (peer_beat now)
    with peer_sends [OF assms(2) beat_spec(3) [OF peer_beat(2)] beat_spec(1) [OF peer_beat(2)], of m l]
      protocol_step.beat [of "protocol_of n"] beat_spec [OF peer_beat(2)] wf show ?thesis
      by (simp add: protocol_of_def)
  qed
qed

lemma peer_silent_simulates:
  assumes "peer_step Silent (net_link n, net_motion n) (l, m)" and "net_wf n"
  shows "net_wf (n\<lparr>net_link := l, net_motion := m\<rparr>) \<and>
    protocol_step\<^sup>*\<^sup>* (protocol_of n) (protocol_of (n\<lparr>net_link := l, net_motion := m\<rparr>))"
  using assms(1)
proof cases
  case peer_disconnect
  then show ?thesis
    using protocol_step.disconnect [of "protocol_of n" Resting "request_of l"] assms(2)
    by (simp add: protocol_of_def net_wf_def r_into_rtranclp)
next
  case (peer_timeout now)
  have "protocol_of (n\<lparr>net_link := l, net_motion := m\<rparr>) = protocol_of n \<or>
      protocol_step (protocol_of n) (protocol_of (n\<lparr>net_link := l, net_motion := m\<rparr>))"
    using timeout_spec [of now "net_link n"]
      protocol_step.disconnect [of "protocol_of n" "pr_motion (protocol_of n)" "request_of l"]
    by (auto simp: protocol_of_def peer_timeout)
  with assms(2) peer_timeout show ?thesis by (auto simp: net_wf_def)
next
  case peer_mark
  with assms(2) show ?thesis by (simp add: protocol_of_def net_wf_def)
qed

lemma peer_receive_simulates:
  assumes "net_wf n" and "net_to_peer n = w # rest" and "arrives w g"
    and "peer_receive g now (net_link n) (net_motion n) = (l, m)"
  shows "motion_session_wf m"
    and "protocol_step\<^sup>*\<^sup>* (protocol_of n) (protocol_of (n\<lparr>net_link := l, net_motion := m, net_to_peer := rest\<rparr>))"
proof -
  let ?p = "protocol_of n" and ?n = "\<lambda>l m. n\<lparr>net_link := l, net_motion := m, net_to_peer := rest\<rparr>"
  have wf: "motion_session_wf (net_motion n)" and v: "image_view w = view g"
    using assms(1-3) arrives_image_view by (auto simp: net_wf_def)
  have lose: "protocol_step ?p (?p\<lparr>pr_to_peer := map image_view rest\<rparr>)"
    by (rule lose_to_peer) (simp add: protocol_of_def assms(2))
  have same: "protocol_step\<^sup>*\<^sup>* ?p (protocol_of (?n l m))"
    if "lks_state l = lks_state (net_link n)" "request_of l = request_of (net_link n)"
      "peer_motion_of m = peer_motion_of (net_motion n)" "ms_next_sequence m = ms_next_sequence (net_motion n)" for l m
    using r_into_rtranclp [of protocol_step, OF lose] that by (simp add: protocol_of_def)
  have down: "protocol_step\<^sup>*\<^sup>* ?p (protocol_of (?n l m))"
    if "lks_state l = Disconnected" "ms_next_sequence m = ms_next_sequence (net_motion n)" for l m
  proof -
    have "protocol_step (?p\<lparr>pr_to_peer := map image_view rest\<rparr>) (protocol_of (?n l m))"
      using protocol_step.disconnect [of "?p\<lparr>pr_to_peer := map image_view rest\<rparr>" "peer_motion_of m" "request_of l"] that
      by (simp add: protocol_of_def)
    with lose show ?thesis by (meson converse_rtranclp_into_rtranclp r_into_rtranclp)
  qed
  obtain ok1 l1 where h1: "handle_link_sync_ok g now (net_link n) = (ok1, l1)" by fastforce
  obtain ok2 l2 where h2: "handle_heartbeat_response g now (net_link n) = (ok2, l2)" by fastforce
  obtain ok3 m3 where h3: "handle_ack g now (net_motion n) = (ok3, m3)" by fastforce
  obtain res m4 where h4: "handle_response g (net_motion n) = (res, m4)" by fastforce
  note spec1 = sync_ok_spec [OF h1] and spec2 = heartbeat_response_spec [OF h2] and spec3 = ack_spec [OF h3]
    and spec4 = response_spec [OF wf h4]
  have synced: "protocol_step\<^sup>*\<^sup>* ?p (protocol_of (?n l1 (net_motion n)))" if "lks_state (net_link n) = SyncPending"
  proof (cases ok1)
    case True
    with spec1 v that assms(2) have "protocol_step ?p (?p\<lparr>pr_link := Synchronized, pr_to_peer := map image_view rest\<rparr>)"
      by (intro protocol_step.peer_synchronizes [of _ "fst (request_of (net_link n))" "snd (request_of (net_link n))"])
        (simp_all add: protocol_of_def)
    with True spec1 show ?thesis by (simp add: protocol_of_def r_into_rtranclp)
  qed (use spec1 same [of "net_link n" "net_motion n"] in simp)
  have learned: "protocol_step\<^sup>*\<^sup>* ?p (protocol_of (?n (net_link n) m4))" if "lks_state (net_link n) = Synchronized"
  proof (cases res)
    case (Some r)
    then have r: "view g = response_view (pending_of (net_motion n)) r" "ms_transaction_pending (net_motion n)"
      "peer_motion_of m4 = answered (pending_of (net_motion n)) r" using spec4 by simp_all
    have "protocol_step ?p (?p\<lparr>pr_motion := answered (pending_of (net_motion n)) r, pr_to_peer := map image_view rest\<rparr>)"
      using protocol_step.peer_learns [of ?p "pending_of (net_motion n)" _ "map image_view rest"] r that v assms(2)
      by (simp add: protocol_of_def peer_motion_of_def response_view_def)
    with r spec4 show ?thesis by (simp add: protocol_of_def r_into_rtranclp)
  qed (use spec4 same [of "net_link n" "net_motion n"] in simp)
  show "motion_session_wf m" "protocol_step\<^sup>*\<^sup>* ?p (protocol_of (?n l m))"
    using assms(4) h1 h2 h3 h4 wf spec2 spec3 spec4 same down synced learned
    by (auto simp: peer_receive_def split: Stm32LinkState.splits if_splits)
qed

lemma net_simulates:
  assumes "net_step sent receives runs n n'" and "net_wf n"
  shows "net_wf n' \<and> protocol_step\<^sup>*\<^sup>* (protocol_of n) (protocol_of n')"
  using assms(1)
proof cases
  case (net_peer_connects tok f l m)
  from net_peer_connects(2) have begun: "begin_synchronization tok (link_disconnect (net_link n)) = (f, l)"
    and m: "m = motion_session_reset (net_motion n)" by (auto elim: peer_connectsE)
  note sync = synchronization_spec [OF begun]
  let ?sq = "lks_next_sequence (link_disconnect (net_link n))"
  have f: "view f = Sync ?sq tok" "frame_sendable f" by (simp_all add: sync(1) view_message)
  have "Sync ?sq tok \<notin> set (pr_to_robot (protocol_of n))" "Sync_Ok ?sq tok \<notin> set (pr_to_peer (protocol_of n))"
    using unused_tokenD [OF net_peer_connects(3)] by (simp_all add: protocol_of_def)
  from protocol_step.connect [OF this] net_peer_connects(1) m sync f assms(2) show ?thesis
    by (simp add: protocol_of_def net_wf_def r_into_rtranclp)
next
  case (net_peer_sends f l m)
  with peer_sends_simulates [OF net_peer_sends(2) assms(2)] show ?thesis by simp
next
  case (net_peer_silent l m)
  with peer_silent_simulates [OF net_peer_silent(2) assms(2)] show ?thesis by simp
next
  case (net_robot_receives w rest g r ws)
  have w: "image_view w = view g" "robot_inv (net_robot n)"
    using assms(2) net_robot_receives(2,3) arrives_image_view by (auto simp: net_wf_def)
  from receives_act [OF w(2) net_robot_receives(4)] obtain fs where fs: "list_all frame_sendable fs" "ws = map frame_wire fs"
    "robot_act (Some (view g)) (linked (net_robot n), coordinator (net_robot n)) (linked r, coordinator r) (map view fs)"
    using net_robot_receives(5) by auto
  from fs(3) protocol_step.robot_receives [of "protocol_of n" "view g" "map image_view rest" "linked r" "coordinator r" "map view fs"]
    receives_inv [OF w(2) net_robot_receives(4)] assms(2) net_robot_receives(1,2) w(1) images_of [OF fs(1,2)]
  show ?thesis by (simp add: protocol_of_def net_wf_def r_into_rtranclp)
next
  case (net_robot_runs r ws)
  have w: "robot_inv (net_robot n)" using assms(2) by (simp add: net_wf_def)
  from runs_act [OF w net_robot_runs(2)] obtain fs where fs: "list_all frame_sendable fs" "ws = map frame_wire fs"
    "robot_act None (linked (net_robot n), coordinator (net_robot n)) (linked r, coordinator r) (map view fs)"
    using net_robot_runs(3) by auto
  from fs(3) protocol_step.robot_runs [of "protocol_of n" "linked r" "coordinator r" "map view fs"]
    runs_inv [OF w net_robot_runs(2)] assms(2) net_robot_runs(1) images_of [OF fs(1,2)]
  show ?thesis by (simp add: protocol_of_def net_wf_def r_into_rtranclp)
next
  case (net_lose_to_robot w rest)
  with protocol_step.lose_to_robot [of "protocol_of n" "image_view w" "map image_view rest"] assms(2)
  show ?thesis by (simp add: protocol_of_def net_wf_def r_into_rtranclp)
next
  case (net_lose_to_peer w rest)
  with protocol_step.lose_to_peer [of "protocol_of n" "image_view w" "map image_view rest"] assms(2)
  show ?thesis by (simp add: protocol_of_def net_wf_def r_into_rtranclp)
next
  case (net_peer_hears w rest g l m)
  from net_peer_hears(4) obtain now where "peer_receive g now (net_link n) (net_motion n) = (l, m)" by (auto elim: peer_hearsE)
  from peer_receive_simulates [OF assms(2) net_peer_hears(2,3) this] net_peer_hears(1,2) assms(2) show ?thesis
    by (simp add: net_wf_def)
qed

lemma net_reachable:
  assumes "reachable (net_started started) (net_step sent receives runs) n"
  shows "net_wf n \<and> protocol_inv (protocol_of n)"
  using assms
proof (induction rule: reachable.induct)
  case (reachable_init n)
  then show ?case using started_inv [of "net_robot n"] inv_wf [of "net_robot n"]
    by (simp add: net_started_def net_wf_def protocol_of_def protocol_inv_def link_session_new_def)
next
  case (reachable_step n n')
  from net_simulates [OF reachable_step(2)] reachable_step(3) have wf: "net_wf n'"
    and "protocol_step\<^sup>*\<^sup>* (protocol_of n) (protocol_of n')" by simp_all
  from this(2) have "protocol_inv (protocol_of n')"
    by (induction rule: rtranclp_induct) (use reachable_step(3) protocol_inv_step in auto)
  with wf show ?case ..
qed

text \<open>What agreement means for the sessions of both ends.\<close>

lemma peer_motion_states:
  assumes "motion_session_wf m"
  shows "ms_state m = ActiveSession \<Longrightarrow> peer_motion_of m = Driving (ms_active_session_id m)"
    and "ms_state m = Inactive \<Longrightarrow> peer_motion_of m = Resting"
    and "ms_state m = EndPending \<Longrightarrow> peer_motion_of m = Asking (pending_of m) \<and>
      tx_command (pending_of m) = MOTION_LIFECYCLE_COMMAND_END_SESSION"
  using assms by (auto simp: motion_session_wf_def peer_motion_of_def pending_of_def split: if_splits)

lemma agreement_ending:
  assumes "agreement (Asking t) k out c inp" and "tx_command t = MOTION_LIFECYCLE_COMMAND_END_SESSION" and "coordinator_wf c"
  shows "session_of c \<in> {Active (tx_motion_session_id t), Ending (tx_motion_session_id t), No_Session}"
  using assms
  by (cases "session_of c") (auto simp: agreement_def unseen_def working_def finished_def answered_def settled_def coordinator_wf_def)

lemma agreement_velocity: "agreement m k (Velocity i # out) c inp \<Longrightarrow> session_of c = Active i"
  by (cases m) (auto simp: agreement_def unseen_def working_def finished_def dest!: staged_hd)

lemma reachable_agreement:
  assumes "reachable (net_started started) (net_step sent receives runs) n"
    and "lks_state (net_link n) = Synchronized" and "linked (net_robot n)"
  defines "c \<equiv> coordinator (net_robot n)" and "m \<equiv> net_motion n"
  shows "ms_state m = ActiveSession \<Longrightarrow> session_of c = Active (ms_active_session_id m)"
    and "ms_state m = Inactive \<Longrightarrow> session_of c = No_Session"
    and "ms_state m = EndPending \<Longrightarrow>
      session_of c \<in> {Active (ms_pending_session_id m), Ending (ms_pending_session_id m), No_Session}"
    and "net_to_robot n = w # rest \<Longrightarrow> image_view w = Velocity i \<Longrightarrow> session_of c = Active i"
proof -
  have wf: "motion_session_wf m" "coordinator_wf c"
    and agree: "agreement (peer_motion_of m) (ms_next_sequence m) (map image_view (net_to_robot n)) c (map image_view (net_to_peer n))"
    using net_reachable [OF assms(1)] assms(2,3) by (simp_all add: net_wf_def protocol_inv_def protocol_of_def c_def m_def inv_wf)
  note states = peer_motion_states [OF wf(1)]
  show "session_of c = Active (ms_active_session_id m)" if "ms_state m = ActiveSession"
    using agree states(1) [OF that] by (simp add: agreement_def)
  show "session_of c = No_Session" if "ms_state m = Inactive"
    using agree states(2) [OF that] by (simp add: agreement_def)
  show "session_of c \<in> {Active (ms_pending_session_id m), Ending (ms_pending_session_id m), No_Session}" if "ms_state m = EndPending"
    using agreement_ending [of "pending_of m", OF _ _ wf(2)] agree states(3) [OF that] by (simp add: pending_of_def)
  show "session_of c = Active i" if "net_to_robot n = w # rest" "image_view w = Velocity i"
    using agree that agreement_velocity by simp
qed

lemma reachable_synchronizes:
  assumes "reachable (net_started started) (net_step sent receives runs) n"
    and "lks_state (net_link n) = SyncPending"
    and "net_to_peer n = w # rest" and "image_view w = Sync_Ok (fst (request_of (net_link n))) (snd (request_of (net_link n)))"
  shows "net_to_robot n = [] \<and> (linked (net_robot n) \<longrightarrow> fresh (coordinator (net_robot n)))"
  using net_reachable [OF assms(1)] assms(2-4)
    requesting_answered [of "fst (request_of (net_link n))" "snd (request_of (net_link n))"]
  by (auto simp: protocol_inv_def protocol_of_def)

end

end
