(* ===== verification/Firmware_Session.thy ===== *)
theory Firmware_Session
  imports Peer_Robot Firmware_Safety
begin

section \<open>The firmware as the robot of the session protocol\<close>

text \<open>
  The parts of the loop body of \<^verbatim>\<open>main\<close> are steps of the robot: the dispatch of a received frame,
  and everything else. Each acts on the link flag and the coordinator as the protocol
  allows, and hands to the serial port exactly the images of the messages of that act.
\<close>

text \<open>The images handed to the vendor's transmit function so far.\<close>

abbreviation images_sent :: "'d Firmware \<Rightarrow> u8 list list" where
  "images_sent s \<equiv> tx_calls (board_tx (fw_board s))"

abbreviation robot_of :: "'d Firmware \<Rightarrow> robot_state" where
  "robot_of s \<equiv> (link_synchronized (fw_link s), mgr_coordinator (fw_manager s))"

definition board_sends :: "'d Board \<Rightarrow> ProtocolFrame list \<Rightarrow> 'd Board \<Rightarrow> bool" where
  "board_sends b fs b' \<longleftrightarrow> list_all frame_sendable fs \<and> tx_calls (board_tx b') = tx_calls (board_tx b) @ map frame_wire fs"

definition firmware_acts :: "message_view option \<Rightarrow> 'd Firmware \<Rightarrow> 'd Firmware \<Rightarrow> bool" where
  "firmware_acts v s t \<longleftrightarrow>
     (\<exists>fs. board_sends (fw_board s) fs (fw_board t) \<and> robot_act v (robot_of s) (robot_of t) (map view fs))"

lemma sends_none [simp]: "tx_calls (board_tx b') = tx_calls (board_tx b) \<Longrightarrow> board_sends b [] b'"
  by (simp add: board_sends_def)

lemma sends_trans: "board_sends b fs b' \<Longrightarrow> board_sends b' gs b'' \<Longrightarrow> board_sends b (fs @ gs) b''"
  by (simp add: board_sends_def)

lemma board_send_sends:
  assumes "frame_sendable f"
  shows "\<exists>fs. board_sends b fs (snd (board_send f b)) \<and> set fs \<subseteq> {f} \<and> (fst (board_send f b) \<longrightarrow> fs = [f])"
proof (cases "tx_is_USART2 (board_tx b)")
  case True
  with board_send_call [OF assms] assms show ?thesis by (auto simp: board_sends_def intro!: exI [of _ "[f]"])
next
  case False
  have "board_send f b = (False, b)"
    using False by (auto simp: board_send_def uart_protocol_transmitter_send_def uart_tx_port_write_def Let_def
        split: prod.splits)
  then show ?thesis by (intro exI [of _ "[]"]) simp
qed

text \<open>The frames of the robot's answers and their views.\<close>

lemma link_frame_views:
  "view (link_sync_ok_frame f) = Sync_Ok (frame_sequence f) (ls_sync_token (link_sync_decode (payload f)))"
  "view (heartbeat_answer sq st now) = Quiet"
proof -
  have "link_sync_ok_frame f = message PROTOCOL_MESSAGE_TYPE_LINK_SYNC_OK (frame_sequence f)
      (link_sync_encode (link_sync_decode (payload f)))"
    by (simp add: link_sync_ok_frame_def message_def link_sync.enc_length)
  then show "view (link_sync_ok_frame f) = Sync_Ok (frame_sequence f) (ls_sync_token (link_sync_decode (payload f)))"
    by (simp add: view_message)
  have "heartbeat_answer sq st now = message PROTOCOL_MESSAGE_TYPE_HEARTBEAT sq
      (heartbeat_encode \<lparr>hb_link_state = st, hb_uptime_ms = now\<rparr>)"
    by (simp add: heartbeat_answer_def message_def heartbeat.enc_length)
  then show "view (heartbeat_answer sq st now) = Quiet" by (simp add: view_message)
qed

lemma action_frame_views:
  "send_ack a \<Longrightarrow> view (ack_frame (motion_command_frames_build a)) = Quiet"
  "send_response a \<Longrightarrow> view (response_frame (motion_command_frames_build a)) =
     response_view (response_transaction a) (response_result a)"
proof -
  assume "send_ack a"
  then have "ack_frame (motion_command_frames_build a) = message PROTOCOL_MESSAGE_TYPE_MOTION_ACK
      (tx_sequence (ack_transaction a)) (motion_ack_encode \<lparr>ack_status = MOTION_ACK_ACCEPTED\<rparr>)"
    by (simp add: frames_build_ack message_def motion_ack.enc_length)
  then show "view (ack_frame (motion_command_frames_build a)) = Quiet" by (simp add: view_message)
next
  assume "send_response a"
  then have "response_frame (motion_command_frames_build a) = message PROTOCOL_MESSAGE_TYPE_MOTION_RESPONSE
      (tx_sequence (response_transaction a)) (motion_response_encode
        \<lparr>resp_command = tx_command (response_transaction a),
         resp_motion_session_id = tx_motion_session_id (response_transaction a), resp_result = response_result a\<rparr>)"
    by (simp add: frames_build_response message_def motion_response.enc_length)
  then show "view (response_frame (motion_command_frames_build a)) =
      response_view (response_transaction a) (response_result a)"
    by (simp add: view_message response_view_def)
qed

lemma view_not_sync_ok: "response_view t r \<noteq> Sync_Ok sq tok"
  by (simp add: response_view_def)

definition no_sync_ok :: "ProtocolFrame list \<Rightarrow> bool" where
  "no_sync_ok fs \<longleftrightarrow> (\<forall>sq tok. Sync_Ok sq tok \<notin> view ` set fs)"

lemma board_guard_stop_tx [simp]: "board_tx (snd (board_guard_stop drv b)) = board_tx b"
  by (simp add: board_guard_stop_def case_prod_beta)

lemma optional_send:
  assumes "c \<Longrightarrow> frame_sendable f" and "c \<Longrightarrow> view f = v" and "\<forall>sq tok. v \<noteq> Sync_Ok sq tok"
  shows "\<exists>fs. board_sends b fs (snd (if c then board_send f b else (True, b))) \<and> no_sync_ok fs \<and>
    (fst (if c then board_send f b else (True, b)) \<longrightarrow> map view fs = (if c then [v] else []))"
proof (cases c)
  case True
  with board_send_sends [OF assms(1), of b] obtain fs where
    fs: "board_sends b fs (snd (board_send f b))" "set fs \<subseteq> {f}" "fst (board_send f b) \<longrightarrow> fs = [f]" by blast
  have "\<forall>g \<in> set fs. view g = v" using fs(2) assms(2) [OF True] by auto
  then have "no_sync_ok fs" using assms(3) by (auto simp: no_sync_ok_def)
  with True fs assms(2) show ?thesis by auto
qed (auto simp: no_sync_ok_def intro!: exI [of _ "[]"])

lemma process_action_sends:
  assumes "process_action drv a m b = (res, m', b')"
  shows "\<exists>fs. board_sends b fs b' \<and> no_sync_ok fs \<and> mgr_coordinator m' = mgr_coordinator m \<and>
    (res \<noteq> STM32_MOTION_PROTOCOL_MANAGER_RESULT_TRANSMIT_FAILED \<longrightarrow> map view fs = action_views a)"
proof -
  let ?f = "motion_command_frames_build a"
  let ?s1 = "if send_ack a then board_send (ack_frame ?f) b else (True, b)"
  let ?s2 = "if send_response a then board_send (response_frame ?f) (snd ?s1) else (True, snd ?s1)"
  from optional_send [of "send_ack a" "ack_frame ?f" Quiet b] frames_build_wf(1) action_frame_views(1) obtain fs where fs: "board_sends b fs (snd ?s1)"
    "no_sync_ok fs" "fst ?s1 \<longrightarrow> map view fs = (if send_ack a then [Quiet] else [])" by auto
  from optional_send [of "send_response a" "response_frame ?f" "response_view (response_transaction a) (response_result a)" "snd ?s1"]
    frames_build_wf(2) action_frame_views(2) view_not_sync_ok obtain gs where
    gs: "board_sends (snd ?s1) gs (snd ?s2)" "no_sync_ok gs" "fst ?s2 \<longrightarrow> map view gs =
      (if send_response a then [response_view (response_transaction a) (response_result a)] else [])" by auto
  have out: "tx_calls (board_tx b') = tx_calls (board_tx (snd ?s2))" "mgr_coordinator m' = mgr_coordinator m"
    "res \<noteq> STM32_MOTION_PROTOCOL_MANAGER_RESULT_TRANSMIT_FAILED \<longrightarrow> fst ?s1 \<and> fst ?s2"
    using assms by (auto simp: process_action_def Let_def case_prod_beta split: if_splits)
  have "board_sends b (fs @ gs) b'"
    using sends_trans [OF fs(1) gs(1)] out(1) by (simp add: board_sends_def)
  moreover have "no_sync_ok (fs @ gs)" using fs(2) gs(2) by (simp add: no_sync_ok_def image_Un)
  ultimately show ?thesis
    using out fs(3) gs(3) by (intro exI [of _ "fs @ gs"]) (auto simp: action_views_def)
qed

subsection \<open>The parts of the loop body\<close>

lemma reset_link_sent [simp]:
  "images_sent (reset_link_and_stop_motion drv s) = images_sent s"
  "\<not> link_synchronized (fw_link (reset_link_and_stop_motion drv s))"
  by (simp_all add: reset_link_and_stop_motion_def stm32_motion_protocol_manager_reset_def uart_link_manager_init_def
      board_guard_stop_def case_prod_beta Let_def zero_link_def)

lemma manager_reset_sent:
  "stm32_motion_protocol_manager_reset (Some m) b = (m', b') \<Longrightarrow> tx_calls (board_tx b') = tx_calls (board_tx b)"
  by (auto simp: stm32_motion_protocol_manager_reset_def Let_def split: if_splits)

lemma manager_reset_coordinator:
  "mgr_initialized m \<Longrightarrow> stm32_motion_protocol_manager_reset (Some m) b = (m', b') \<Longrightarrow>
     mgr_coordinator (the m') = motion_lifecycle_coordinator_reset (mgr_coordinator m)"
  by (auto simp: stm32_motion_protocol_manager_reset_def Let_def)

lemma acts_down:
  assumes "board_sends (fw_board s) fs (fw_board t)" and "no_sync_ok fs"
    and "\<not> link_synchronized (fw_link t)" and "coordinator_wf (mgr_coordinator (fw_manager t))"
  shows "firmware_acts v s t"
  unfolding firmware_acts_def
proof (intro exI [of _ fs] conjI)
  show "robot_act v (robot_of s) (robot_of t) (map view fs)"
    using assms(2-4) act_down [of "map view fs" v] by (auto simp: no_sync_ok_def)
qed (use assms(1) in simp)

lemma acts_keep:
  assumes "robot_of t = robot_of s" and "images_sent t = images_sent s"
  shows "firmware_acts v s t"
  unfolding firmware_acts_def using assms act_keep [of "[]"]
  by (intro exI [of _ "[]"]) (simp add: board_sends_def)

text \<open>
  What an operation of the manager does for the peer: the images it hands to the port, and, unless
  the transmission failed, an act of the coordinator with exactly these messages.
\<close>

definition manager_acts ::
  "message_view option \<Rightarrow> Stm32MotionProtocolManagerResult \<Rightarrow> Stm32MotionProtocolManager \<Rightarrow> 'd Board \<Rightarrow>
     Stm32MotionProtocolManager \<Rightarrow> 'd Board \<Rightarrow> bool" where
  "manager_acts v res m b m' b' \<longleftrightarrow> (\<exists>fs. board_sends b fs b' \<and> no_sync_ok fs \<and>
     (res \<noteq> STM32_MOTION_PROTOCOL_MANAGER_RESULT_TRANSMIT_FAILED \<longrightarrow>
        robot_act v (True, mgr_coordinator m) (True, mgr_coordinator m') (map view fs)))"

context motor_driver_contract
begin

lemma inv_coordinator: "firmware_inv driver_inv still ready s \<Longrightarrow> coordinator_wf (mgr_coordinator (fw_manager s))"
  by (simp add: firmware_inv_def manager_inv_def)

lemma link_update_acts:
  assumes "firmware_inv driver_inv still ready s"
  shows "firmware_acts None s (firmware_link_update ops now s)"
proof -
  have rdy: "board_ready driver_inv still ready (fw_board s)" "link_initialized (fw_link s)"
    using assms by (simp_all add: firmware_inv_def manager_inv_def)
  let ?t = "firmware_link_update ops now s"
  obtain m b where r: "stm32_motion_protocol_manager_reset (Some (fw_manager s)) (board_halt ops (fw_board s)) = (m, b)"
    by fastforce
  have "coordinator_wf (mgr_coordinator (fw_manager ?t))"
    using link_update_part(1) [OF assms] inv_coordinator by (simp add: part_ok_def)
  moreover have "?t = s \<or> \<not> link_synchronized (fw_link ?t) \<and> images_sent ?t = images_sent s"
    using link_update_spec [OF rdy, of now] r manager_reset_sent [OF r]
    by (auto simp: firmware_link_update_def Let_def)
  ultimately show ?thesis
    using acts_keep [of s s] acts_down [of s "[]" ?t] by (auto simp: no_sync_ok_def)
qed

lemma sample_speed_acts: "firmware_acts None s (firmware_sample_speed rnd now s)"
  by (rule acts_keep) (simp_all add: firmware_sample_speed_def case_prod_beta Let_def)

text \<open>The periodic update: nothing for the peer, or the completion of the stop operation.\<close>

lemma manager_complete_sends:
  assumes "manager_complete ops i r m b = (res, m', b')"
  shows "\<exists>fs a. motion_lifecycle_coordinator_complete_operation (mgr_coordinator m) i r = (a, mgr_coordinator m') \<and>
    board_sends b fs b' \<and> no_sync_ok fs \<and>
    (res \<noteq> STM32_MOTION_PROTOCOL_MANAGER_RESULT_TRANSMIT_FAILED \<longrightarrow> map view fs = action_views a)"
proof -
  obtain a c where c: "motion_lifecycle_coordinator_complete_operation (mgr_coordinator m) i r = (a, c)" by fastforce
  with assms have "process_action ops a (m\<lparr>mgr_coordinator := c\<rparr>) b = (res, m', b')"
    by (simp add: manager_complete_def)
  from process_action_sends [OF this] c show ?thesis by auto
qed

lemma manager_acts_idle:
  "mgr_coordinator m' = mgr_coordinator m \<Longrightarrow> tx_calls (board_tx b') = tx_calls (board_tx b) \<Longrightarrow>
     manager_acts v res m b m' b'"
  unfolding manager_acts_def using act_keep [of "[]"]
  by (intro exI [of _ "[]"]) (simp add: board_sends_def no_sync_ok_def)

lemma manager_complete_acts:
  assumes "manager_complete ops i r m b = (res, m', b')" and "res \<noteq> STM32_MOTION_PROTOCOL_MANAGER_RESULT_TRANSMIT_FAILED \<or>
      res' = STM32_MOTION_PROTOCOL_MANAGER_RESULT_TRANSMIT_FAILED"
    and "mgr_coordinator m0 = mgr_coordinator m" and "tx_calls (board_tx b0) = tx_calls (board_tx b)"
  shows "manager_acts None res' m0 b0 m' b'"
proof -
  from manager_complete_sends [OF assms(1)] obtain fs a where
    c: "motion_lifecycle_coordinator_complete_operation (mgr_coordinator m) i r = (a, mgr_coordinator m')"
      "board_sends b fs b'" "no_sync_ok fs"
      "res \<noteq> STM32_MOTION_PROTOCOL_MANAGER_RESULT_TRANSMIT_FAILED \<longrightarrow> map view fs = action_views a" by blast
  with act_complete [OF c(1)] assms(2-4) show ?thesis
    unfolding manager_acts_def by (intro exI [of _ fs]) (auto simp: board_sends_def)
qed

lemma poll_stop_acts:
  assumes "manager_poll_stop ops now m b = (res, m', b')"
    and "mgr_coordinator m0 = mgr_coordinator m" and "tx_calls (board_tx b0) = tx_calls (board_tx b)"
  shows "manager_acts None res m0 b0 m' b'"
proof -
  obtain c enc st where u: "motion_stop_update now (board_encoder b) (board_stop b) = (c, enc, st)"
    using prod_cases3 by blast
  show ?thesis
  proof (cases "stop_completed c")
    case True
    let ?r = "if stop_result c = MOTION_STOP_RESULT_SUCCESS
        then MOTION_LIFECYCLE_OPERATION_RESULT_SUCCESS else MOTION_LIFECYCLE_OPERATION_RESULT_FAILED"
    obtain res1 m1 b1 where compl: "manager_complete ops (stop_operation_id c) ?r
        (m\<lparr>pending_stop_operation_id := 0, stop_confirmation_started := False\<rparr>)
        (b\<lparr>board_encoder := enc, board_stop := st\<rparr>) = (res1, m1, b1)" using prod_cases3 by blast
    then have "m' = m1" "b' = b1" "res1 \<noteq> STM32_MOTION_PROTOCOL_MANAGER_RESULT_TRANSMIT_FAILED \<or>
        res = STM32_MOTION_PROTOCOL_MANAGER_RESULT_TRANSMIT_FAILED"
      using assms(1) u True by (auto simp: manager_poll_stop_def Let_def split: if_splits)
    with manager_complete_acts [OF compl] assms(2,3) show ?thesis by simp
  next
    case False
    then show ?thesis using assms u by (auto simp: manager_poll_stop_def intro!: manager_acts_idle)
  qed
qed

lemma manager_update_acts:
  assumes "stm32_motion_protocol_manager_update ops now (Some m) b = (res, m', b')" and "mgr_initialized m"
  shows "manager_acts None res m b (the m') b'"
proof -
  let ?b = "b\<lparr>board_guard := snd (motion_command_guard_update ops now (board_guard b))\<rparr>"
  obtain begun enc st where u: "motion_stop_begin (pending_stop_operation_id m) now (board_encoder b) (board_stop b) =
      (begun, enc, st)" using prod_cases3 by blast
  let ?b2 = "?b\<lparr>board_encoder := enc, board_stop := st\<rparr>"
  obtain r1 m1 b1 where p1: "manager_poll_stop ops now m ?b = (r1, m1, b1)" using prod_cases3 by blast
  obtain r2 m2 b2 where p2: "manager_poll_stop ops now (m\<lparr>stop_confirmation_started := True\<rparr>) ?b2 = (r2, m2, b2)"
    using prod_cases3 by blast
  obtain r3 m3 b3 where p3: "manager_complete ops (pending_stop_operation_id m) MOTION_LIFECYCLE_OPERATION_RESULT_FAILED
      (m\<lparr>pending_stop_operation_id := 0\<rparr>) ?b2 = (r3, m3, b3)" using prod_cases3 by blast
  have "m' = Some m \<and> b' = ?b \<or> (res, m', b') = (r1, Some m1, b1) \<or> (res, m', b') = (r2, Some m2, b2) \<or>
      m' = Some m3 \<and> b' = b3 \<and> (r3 \<noteq> STM32_MOTION_PROTOCOL_MANAGER_RESULT_TRANSMIT_FAILED \<or>
        res = STM32_MOTION_PROTOCOL_MANAGER_RESULT_TRANSMIT_FAILED)"
    using assms u p1 p2 p3
    by (auto simp: stm32_motion_protocol_manager_update_def case_prod_beta Let_def split: if_splits)
  then show ?thesis
    using poll_stop_acts [OF p1, of m b] poll_stop_acts [OF p2, of m b] manager_complete_acts [OF p3, of res m b]
    by (auto intro: manager_acts_idle)
qed

lemma manager_acts_firmware:
  assumes "manager_acts v res (fw_manager s) (fw_board s) m b" and "link_synchronized (fw_link s)"
    and "res \<noteq> STM32_MOTION_PROTOCOL_MANAGER_RESULT_TRANSMIT_FAILED"
  shows "firmware_acts v s (s\<lparr>fw_manager := m, fw_board := b\<rparr>)"
  using assms by (auto simp: manager_acts_def firmware_acts_def)

lemma manager_acts_reset:
  assumes "manager_acts v res (fw_manager s) (fw_board s) m b"
    and "firmware_inv driver_inv still ready (reset_link_and_stop_motion ops (s\<lparr>fw_manager := m, fw_board := b\<rparr>))"
  shows "firmware_acts v s (reset_link_and_stop_motion ops (s\<lparr>fw_manager := m, fw_board := b\<rparr>))"
proof -
  from assms(1) obtain fs where "board_sends (fw_board s) fs b" "no_sync_ok fs" by (auto simp: manager_acts_def)
  with assms(2) show ?thesis
    by (intro acts_down [of _ fs]) (simp_all add: board_sends_def inv_coordinator)
qed

lemma motion_update_acts:
  assumes "firmware_inv driver_inv still ready s"
  shows "firmware_acts None s (firmware_motion_update ops now s)"
proof -
  obtain res m b where u: "stm32_motion_protocol_manager_update ops now (Some (fw_manager s)) (fw_board s) = (res, m, b)"
    using prod_cases3 by blast
  have init: "mgr_initialized (fw_manager s)" using assms by (simp add: firmware_inv_def manager_inv_def)
  note acts = manager_update_acts [OF u init]
  have inv: "firmware_inv driver_inv still ready (firmware_motion_update ops now s)"
    using motion_update_part(1) [OF assms] by (simp add: part_ok_def)
  have t: "firmware_motion_update ops now s =
      (if res = STM32_MOTION_PROTOCOL_MANAGER_RESULT_STOP_FAILED \<or> res = STM32_MOTION_PROTOCOL_MANAGER_RESULT_TRANSMIT_FAILED
       then reset_link_and_stop_motion ops (s\<lparr>fw_manager := the m, fw_board := b\<rparr>)
       else s\<lparr>fw_manager := the m, fw_board := b\<rparr>)"
    using u by (simp add: firmware_motion_update_def)
  show ?thesis
  proof (cases "link_synchronized (fw_link s)")
    case True
    with acts manager_acts_firmware [OF acts] manager_acts_reset [OF acts] inv show ?thesis
      by (auto simp: t split: if_splits)
  next
    case False
    then have "pending_stop_operation_id (fw_manager s) = 0" using inv_down [OF assms] by (simp add: firmware_down_def)
    with u init have "m = Some (fw_manager s)" "tx_calls (board_tx b) = images_sent s"
      by (auto simp: stm32_motion_protocol_manager_update_def case_prod_beta Let_def split: if_splits)
    then show ?thesis using False manager_acts_reset [OF acts] inv by (auto simp: t intro: acts_keep split: if_splits)
  qed
qed

text \<open>The dispatch of link messages.\<close>

lemma heartbeat_sends:
  assumes "uart_link_manager_handle_heartbeat ops f now l b = (res, l', b')"
  shows "\<exists>fs. board_sends b fs b' \<and> list_all (\<lambda>g. view g = Quiet) fs"
    and "link_synchronized l' \<Longrightarrow> link_synchronized l \<and> res \<noteq> UART_LINK_MANAGER_RESULT_SYNCHRONIZED"
proof -
  have "board_tx b' = board_tx b \<or>
      (\<exists>st. board_tx b' = board_tx (snd (board_send (heartbeat_answer (frame_sequence f) st now) b)))"
    using assms by (auto simp: uart_link_manager_handle_heartbeat_def uart_link_manager_stop_and_clear_def
        send_heartbeat_answer board_guard_stop_def board_send_def case_prod_beta Let_def
        simp del: protocol_ingress_route.simps split: if_splits)
  then show "\<exists>fs. board_sends b fs b' \<and> list_all (\<lambda>g. view g = Quiet) fs"
  proof (elim disjE exE)
    assume "board_tx b' = board_tx b"
    then show ?thesis by (intro exI [of _ "[]"]) simp
  next
    fix st assume tx: "board_tx b' = board_tx (snd (board_send (heartbeat_answer (frame_sequence f) st now) b))"
    from board_send_sends [of "heartbeat_answer (frame_sequence f) st now" b] obtain fs where
      "board_sends b fs (snd (board_send (heartbeat_answer (frame_sequence f) st now) b))"
      "set fs \<subseteq> {heartbeat_answer (frame_sequence f) st now}" by auto
    then show ?thesis
      using tx link_frame_views(2) by (intro exI [of _ fs]) (auto simp: board_sends_def list_all_iff)
  qed
  show "link_synchronized l \<and> res \<noteq> UART_LINK_MANAGER_RESULT_SYNCHRONIZED" if "link_synchronized l'"
    using assms that by (auto simp: uart_link_manager_handle_heartbeat_def uart_link_manager_stop_and_clear_def
        case_prod_beta Let_def simp del: protocol_ingress_route.simps split: if_splits)
qed

lemma sync_acts:
  assumes inv: "firmware_inv driver_inv still ready s" and ty: "message_type f = PROTOCOL_MESSAGE_TYPE_LINK_SYNC"
  shows "firmware_acts (Some (view f)) s (firmware_dispatch ops tick f now s)"
proof -
  have rdy: "board_ready driver_inv still ready (fw_board s)" and init: "link_initialized (fw_link s)"
    "mgr_initialized (fw_manager s)" using inv by (simp_all add: firmware_inv_def manager_inv_def)
  let ?t = "firmware_dispatch ops tick f now s" and ?h = "board_halt ops (fw_board s)" and ?g = "link_sync_ok_frame f"
  let ?sent = "board_send ?g ?h"
  obtain res l b where h: "uart_link_manager_handle_link_sync ops f now (fw_link s) (fw_board s) = (res, l, b)"
    using prod_cases3 by blast
  obtain m1 b1 where r: "stm32_motion_protocol_manager_reset (Some (fw_manager s)) b = (m1, b1)" by fastforce
  note out = handle_link_sync_spec [OF rdy ty, of now "fw_link s", unfolded h]
  have t: "?t = s\<lparr>fw_link := l, fw_manager := the m1, fw_board := b1\<rparr>"
    using ty init(1) h r out
    by (auto simp: firmware_dispatch_def uart_link_manager_handle_def uart_link_manager_is_synchronized_def Let_def
        split: if_splits)
  have wf: "coordinator_wf (mgr_coordinator (fw_manager ?t))"
    using link_message_part [OF inv, of f now tick] ty inv_coordinator by (simp add: part_ok_def)
  have c: "mgr_coordinator (the m1) = motion_lifecycle_coordinator_reset (mgr_coordinator (fw_manager s))"
    by (rule manager_reset_coordinator [OF init(2) r])
  have tx: "tx_calls (board_tx b1) = tx_calls (board_tx b)" by (rule manager_reset_sent [OF r])
  from board_send_sends [OF link_frames_sendable(1), of ?h f] obtain fs where
    fs: "board_sends ?h fs (snd ?sent)" "set fs \<subseteq> {?g}" "fst ?sent \<longrightarrow> fs = [?g]" by blast
  consider "unat (payload_length f) \<noteq> LINK_SYNC_WIRE_SIZE" "\<not> link_synchronized l" "b = ?h"
    | "unat (payload_length f) = LINK_SYNC_WIRE_SIZE" "b = snd ?sent" "link_synchronized l \<longrightarrow> fst ?sent"
    using out by (auto simp: Let_def split: if_splits)
  then show ?thesis
  proof cases
    case 1
    then show ?thesis using tx wf by (intro acts_down [of _ "[]"]) (simp_all add: t no_sync_ok_def)
  next
    case 2
    then have v: "view f = Sync (frame_sequence f) (ls_sync_token (link_sync_decode (payload f)))"
      using ty by (simp add: view_cases)
    have sends: "board_sends (fw_board s) fs (fw_board ?t)" using fs(1) 2 tx by (simp add: t board_sends_def)
    have "robot_act (Some (view f)) (robot_of s) (robot_of ?t) (map view fs)"
    proof (cases "link_synchronized l")
      case True
      with 2 fs(3) have "fs = [?g]" by simp
      with True c show ?thesis using act_sync by (simp add: t v link_frame_views)
    next
      case False
      have "\<forall>g \<in> set fs. view g = Sync_Ok (frame_sequence f) (ls_sync_token (link_sync_decode (payload f)))"
        using fs(2) link_frame_views(1) by auto
      then have "Some (view f) = Some (Sync sq tok)" if "Sync_Ok sq tok \<in> set (map view fs)" for sq tok
        using that v by auto
      then have "robot_act (Some (view f)) (robot_of s) (False, mgr_coordinator (fw_manager ?t)) (map view fs)"
        by (rule act_down [OF _ wf])
      with False show ?thesis by (simp add: t)
    qed
    with sends show ?thesis by (auto simp: firmware_acts_def)
  qed
qed

lemma heartbeat_acts:
  assumes inv: "firmware_inv driver_inv still ready s" and ty: "message_type f = PROTOCOL_MESSAGE_TYPE_HEARTBEAT"
  shows "firmware_acts (Some (view f)) s (firmware_dispatch ops tick f now s)"
proof -
  have init: "link_initialized (fw_link s)" using inv by (simp add: firmware_inv_def)
  let ?t = "firmware_dispatch ops tick f now s"
  obtain res l b where h: "uart_link_manager_handle_heartbeat ops f now (fw_link s) (fw_board s) = (res, l, b)"
    using prod_cases3 by blast
  obtain m1 b1 where r: "stm32_motion_protocol_manager_reset (Some (fw_manager s)) b = (m1, b1)" by fastforce
  have t: "?t = (if link_synchronized l then s\<lparr>fw_link := l, fw_board := b\<rparr>
      else s\<lparr>fw_link := l, fw_manager := the m1, fw_board := b1\<rparr>)"
    using ty init h r heartbeat_sends(2) [OF h]
    by (auto simp: firmware_dispatch_def uart_link_manager_handle_def uart_link_manager_is_synchronized_def Let_def)
  have wf: "coordinator_wf (mgr_coordinator (fw_manager ?t))"
    using link_message_part [OF inv, of f now tick] ty inv_coordinator by (simp add: part_ok_def)
  from heartbeat_sends(1) [OF h] obtain fs where fs: "board_sends (fw_board s) fs b" "list_all (\<lambda>g. view g = Quiet) fs" by blast
  then have quiet: "list_all ((=) Quiet) (map view fs)" "no_sync_ok fs" by (auto simp: list_all_iff no_sync_ok_def)
  have sends: "board_sends (fw_board s) fs (fw_board ?t)"
    using fs(1) manager_reset_sent [OF r] by (simp add: t board_sends_def)
  show ?thesis
  proof (cases "link_synchronized l")
    case True
    with heartbeat_sends(2) [OF h] have "robot_of ?t = robot_of s" by (simp add: t)
    with act_keep [OF quiet(1)] sends show ?thesis unfolding firmware_acts_def by auto
  next
    case False
    then show ?thesis using acts_down [OF sends quiet(2) _ wf] by (simp add: t)
  qed
qed

lemma link_message_acts:
  assumes "firmware_inv driver_inv still ready s"
    and "message_type f \<in> {PROTOCOL_MESSAGE_TYPE_LINK_SYNC, PROTOCOL_MESSAGE_TYPE_HEARTBEAT}"
  shows "firmware_acts (Some (view f)) s (firmware_dispatch ops tick f now s)"
  using sync_acts [OF assms(1)] heartbeat_acts [OF assms(1)] assms(2) by auto

lemma manager_command_acts:
  assumes "manager_handle_command ops f m b = (res, m', b')"
    and "protocol_ingress_route (Some f) = PROTOCOL_INGRESS_ROUTE_MOTION_COMMAND"
  shows "manager_acts (Some (view f)) res m b m' b'"
proof -
  let ?p = "motion_lifecycle_command_decode (payload f)"
  let ?t = "\<lparr>tx_sequence = frame_sequence f, tx_command = lc_command ?p, tx_motion_session_id = lc_motion_session_id ?p\<rparr>"
  have v: "view f = Command ?t" using assms(2) by (simp add: view_def Let_def del: protocol_ingress_route.simps)
  obtain a c where hc: "motion_lifecycle_coordinator_handle_transaction (mgr_coordinator m) ?t = (a, c)" by fastforce
  then have "process_action ops a (m\<lparr>mgr_coordinator := c\<rparr>) b = (res, m', b')"
    using assms(1) by (simp add: manager_handle_command_def Let_def)
  from process_action_sends [OF this] act_command [OF hc] show ?thesis by (auto simp: manager_acts_def v)
qed

lemma motion_message_acts:
  assumes inv: "firmware_inv driver_inv still ready s"
    and ty: "message_type f \<in> {PROTOCOL_MESSAGE_TYPE_MOTION_COMMAND, PROTOCOL_MESSAGE_TYPE_WHEEL_VELOCITY}"
  shows "firmware_acts (Some (view f)) s (firmware_dispatch ops tick f now s)"
proof -
  have minv: "manager_inv driver_inv still ready (fw_manager s) (fw_board s)" using inv by (simp add: firmware_inv_def)
  then have init: "mgr_initialized (fw_manager s)" by (simp add: manager_inv_def)
  obtain res m b where h: "stm32_motion_protocol_manager_handle ops tick (Some f) (link_synchronized (fw_link s)) now
      (Some (fw_manager s)) (fw_board s) = (res, m, b)" using prod_cases3 by blast
  have t: "firmware_dispatch ops tick f now s =
      (if res \<in> {STM32_MOTION_PROTOCOL_MANAGER_RESULT_APPLY_FAILED, STM32_MOTION_PROTOCOL_MANAGER_RESULT_STOP_FAILED,
          STM32_MOTION_PROTOCOL_MANAGER_RESULT_TRANSMIT_FAILED}
       then reset_link_and_stop_motion ops (s\<lparr>fw_manager := the m, fw_board := b\<rparr>)
       else s\<lparr>fw_manager := the m, fw_board := b\<rparr>)"
    using ty h by (auto simp: firmware_dispatch_def uart_link_manager_is_synchronized_def Let_def)
  have inv': "firmware_inv driver_inv still ready (firmware_dispatch ops tick f now s)"
    using motion_message_part [OF inv ty] by (simp add: part_ok_def)
  obtain r1 m1 b1 where c: "manager_handle_command ops f (fw_manager s) (fw_board s) = (r1, m1, b1)" using prod_cases3 by blast
  obtain r2 m2 b2 where v: "manager_handle_velocity ops tick f now (fw_manager s) (fw_board s) = (r2, m2, b2)" using prod_cases3 by blast
  have vel: "m2 = fw_manager s" "tx_calls (board_tx b2) = images_sent s"
    using manager_velocity_spec [OF minv, of f tick now] v by (auto split: if_splits)
  have acts: "manager_acts (Some (view f)) res (fw_manager s) (fw_board s) (the m) b" if "link_synchronized (fw_link s)"
    using h init c v vel that manager_command_acts [OF c]
    by (auto simp: stm32_motion_protocol_manager_handle_def Let_def simp del: protocol_ingress_route.simps
        intro: manager_acts_idle split: if_splits)
  show ?thesis
  proof (cases "link_synchronized (fw_link s)")
    case True
    with manager_acts_firmware [OF acts] manager_acts_reset [OF acts] inv' show ?thesis
      by (auto simp: t split: if_splits)
  next
    case False
    then have "m = Some (fw_manager s)" "b = fw_board s" "\<not> res \<in> {STM32_MOTION_PROTOCOL_MANAGER_RESULT_APPLY_FAILED,
        STM32_MOTION_PROTOCOL_MANAGER_RESULT_STOP_FAILED, STM32_MOTION_PROTOCOL_MANAGER_RESULT_TRANSMIT_FAILED}"
      using h init by (auto simp: stm32_motion_protocol_manager_handle_def Let_def simp del: protocol_ingress_route.simps
          split: if_splits)
    then show ?thesis by (simp add: t acts_keep)
  qed
qed

lemma dispatch_acts:
  assumes "firmware_inv driver_inv still ready s"
  shows "firmware_acts (Some (view f)) s (firmware_dispatch ops tick f now s)"
proof (cases "message_type f \<in> {PROTOCOL_MESSAGE_TYPE_LINK_SYNC, PROTOCOL_MESSAGE_TYPE_HEARTBEAT,
    PROTOCOL_MESSAGE_TYPE_MOTION_COMMAND, PROTOCOL_MESSAGE_TYPE_WHEEL_VELOCITY}")
  case True
  with link_message_acts [OF assms, of f tick now] motion_message_acts [OF assms, of f tick now] show ?thesis by auto
next
  case False
  then show ?thesis by (simp add: firmware_dispatch_def acts_keep)
qed

lemma reset_link_acts:
  assumes "firmware_inv driver_inv still ready s"
  shows "firmware_acts v s (reset_link_and_stop_motion ops s)"
    and "firmware_inv driver_inv still ready (reset_link_and_stop_motion ops s)"
proof -
  show inv: "firmware_inv driver_inv still ready (reset_link_and_stop_motion ops s)"
    using assms reset_link_down(1) [of s] by (simp add: firmware_inv_def)
  from inv_coordinator [OF inv] show "firmware_acts v s (reset_link_and_stop_motion ops s)"
    by (intro acts_down [of s "[]"]) (simp_all add: no_sync_ok_def)
qed

end

subsection \<open>The robot's steps\<close>

text \<open>
  \<open>firmware_receives\<close> dispatches a received frame. \<open>firmware_runs\<close> is every other part of the loop body
  and the receive interrupt, which changes only the receiver, the queue and the port.
\<close>

definition firmware_receives :: "'d MotorDriver \<Rightarrow> ProtocolFrame \<Rightarrow> 'd Firmware \<Rightarrow> 'd Firmware \<Rightarrow> bool" where
  "firmware_receives drv f s t \<longleftrightarrow> (\<exists>tick now. t = firmware_dispatch drv tick f now s)"

inductive firmware_runs :: "'d MotorDriver \<Rightarrow> 'd Firmware \<Rightarrow> 'd Firmware \<Rightarrow> bool"
  for drv :: "'d MotorDriver" where
  run_update: "firmware_runs drv s (firmware_motion_update drv now s)"
| run_sample: "firmware_runs drv s (firmware_sample_speed rnd now s)"
| run_link: "firmware_runs drv s (firmware_link_update drv now s)"
| run_reset: "firmware_runs drv s (reset_link_and_stop_motion drv s)"
| run_line: "rcv_bound r \<Longrightarrow> queue_wf q \<Longrightarrow> firmware_runs drv s (s\<lparr>fw_receiver := r, fw_queue := q, fw_rx_port := p\<rparr>)"

lemma dri0041_runs:
  assumes "firmware_inv dri0041_inv dri0041_still dri0041_ready s" and "firmware_runs dri0041 s t"
  shows "firmware_inv dri0041_inv dri0041_still dri0041_ready t" and "firmware_acts None s t"
proof -
  have line: "firmware_inv dri0041_inv dri0041_still dri0041_ready (s\<lparr>fw_receiver := r, fw_queue := q, fw_rx_port := p\<rparr>)"
    if "rcv_bound r" "queue_wf q" for r q p using assms(1) that by (simp add: firmware_inv_def)
  have sample: "firmware_inv dri0041_inv dri0041_still dri0041_ready (firmware_sample_speed rnd now s)" for rnd now
    using dri0041_driver.sample_speed_part [OF assms(1)] by (simp add: part_ok_def)
  show "firmware_inv dri0041_inv dri0041_still dri0041_ready t"
    using assms(2) by cases (use assms(1) line sample dri0041_driver.motion_update_part(1) [OF assms(1)]
      dri0041_driver.link_update_part(1) [OF assms(1)] dri0041_driver.reset_link_acts(2) [OF assms(1)]
      in \<open>auto simp: part_ok_def\<close>)
  show "firmware_acts None s t"
    using assms(2) by cases (use dri0041_driver.motion_update_acts [OF assms(1)] dri0041_driver.link_update_acts [OF assms(1)]
      dri0041_driver.reset_link_acts(1) [OF assms(1)] dri0041_driver.sample_speed_acts in \<open>auto intro: acts_keep\<close>)
qed

text \<open>The firmware with the DRI0041 driver is a robot of the session protocol.\<close>

interpretation dri0041_robot: session_robot "\<lambda>s. link_synchronized (fw_link s)" "\<lambda>s. mgr_coordinator (fw_manager s)"
  images_sent "firmware_receives dri0041" "firmware_runs dri0041" "firmware_started dri0041 rnd"
  "firmware_inv dri0041_inv dri0041_still dri0041_ready"
  for rnd :: "real \<Rightarrow> real"
proof
  fix r r' :: "Dri0041 Firmware" and g
  assume inv: "firmware_inv dri0041_inv dri0041_still dri0041_ready r"
  then show "coordinator_wf (mgr_coordinator (fw_manager r))" by (rule dri0041_driver.inv_coordinator)
  show "firmware_inv dri0041_inv dri0041_still dri0041_ready r'" if "firmware_receives dri0041 g r r'"
    using that dri0041_driver.dispatch_part [OF inv] by (auto simp: firmware_receives_def part_ok_def)
  show "firmware_inv dri0041_inv dri0041_still dri0041_ready r'" if "firmware_runs dri0041 r r'"
    using that by (rule dri0041_runs(1) [OF inv])
  show "\<exists>fs. list_all frame_sendable fs \<and> images_sent r' = images_sent r @ map frame_wire fs \<and>
      robot_act (Some (view g)) (robot_of r) (robot_of r') (map view fs)" if "firmware_receives dri0041 g r r'"
    using that dri0041_driver.dispatch_acts [OF inv]
    by (auto simp: firmware_receives_def firmware_acts_def board_sends_def)
  show "\<exists>fs. list_all frame_sendable fs \<and> images_sent r' = images_sent r @ map frame_wire fs \<and>
      robot_act None (robot_of r) (robot_of r') (map view fs)" if "firmware_runs dri0041 r r'"
    using dri0041_runs(2) [OF inv that] by (auto simp: firmware_acts_def board_sends_def)
qed (rule stm32.inv_init)

end
