(* ===== verification/Session_Progress.thy ===== *)
theory Session_Progress
  imports Firmware_Session Firmware_Progress
begin

section \<open>The peer starts a session and drives the wheels\<close>

text \<open>
  On working hardware and a line that loses nothing, the peer connects, starts a session and
  sends a velocity; the firmware's loop body runs on each message. The theorem follows both
  ends through the exchange, with the images one sends arriving at the other.
\<close>

context session_robot
begin

abbreviation net_steps :: "'r Net \<Rightarrow> 'r Net \<Rightarrow> bool" where
  "net_steps \<equiv> (net_step sent receives runs)\<^sup>*\<^sup>*"

text \<open>A run of the robot on its own, and the answer it gives when its stop operation ends.\<close>

definition starts :: "u32 \<Rightarrow> MotionTransaction \<Rightarrow> 'r \<Rightarrow> bool" where
  "starts sid t r \<longleftrightarrow> session_of (coordinator r) = Starting sid \<and> pending_transaction (reliable_receiver (coordinator r)) = t"

lemma run_answers:
  assumes "robot_act None (True, c) (True, c') out" and "coordinator_wf c"
  shows "session_of c = Starting sid \<Longrightarrow> pending_transaction (reliable_receiver c) = t \<Longrightarrow>
      c' = c \<or> session_of c' = Active sid \<and> response_view t MOTION_RESPONSE_OK \<in> set out \<or> session_of c' = No_Session"
    and "\<not> stopping (session_of c) \<Longrightarrow> c' = c"
proof -
  show "c' = c \<or> session_of c' = Active sid \<and> response_view t MOTION_RESPONSE_OK \<in> set out \<or> session_of c' = No_Session"
    if s: "session_of c = Starting sid" "pending_transaction (reliable_receiver c) = t"
    using assms(1)
  proof cases
    case (act_complete i r a)
    show ?thesis
    proof (cases "i = 0 \<or> i \<noteq> active_operation_id c")
      case True
      with act_complete complete_ignored [of i c r] show ?thesis by simp
    next
      case False
      obtain res s where rs: "session_on_stopped (session_of c) r = (res, s)" by fastforce
      from complete_active [OF assms(2) _ _ rs, of i] False act_complete have "session_of c' = s" "out = [response_view t res]"
        using s(2) by (auto simp: action_views_def)
      with rs s(1) show ?thesis by (cases r) auto
    qed
  qed simp_all
  show "c' = c" if "\<not> stopping (session_of c)"
    using assms(1)
  proof cases
    case (act_complete i r a)
    have "active_operation_id c = 0" using that assms(2) by (simp add: coordinator_wf_def)
    with act_complete complete_ignored [of i c r] show ?thesis by auto
  qed simp_all
qed

lemma net_run:
  assumes "runs r r'" and "sent r' = sent r @ ws" and "net_robot n = r"
  shows "net_step sent receives runs n (n\<lparr>net_robot := r', net_to_peer := net_to_peer n @ ws\<rparr>)"
  using net_robot_runs [of runs n r' sent ws] assms by simp

lemma runs_star:
  assumes "runs\<^sup>*\<^sup>* r r'" and "robot_inv r"
  shows "robot_inv r' \<and> (linked r' \<longrightarrow> linked r) \<and> (\<exists>fs. list_all frame_sendable fs \<and>
    (\<forall>n. net_robot n = r \<longrightarrow> net_steps n (n\<lparr>net_robot := r', net_to_peer := net_to_peer n @ map frame_wire fs\<rparr>)) \<and>
    (starts sid t r \<and> linked r' \<longrightarrow> starts sid t r' \<or>
       session_of (coordinator r') = Active sid \<and> response_view t MOTION_RESPONSE_OK \<in> view ` set fs \<or>
       session_of (coordinator r') = No_Session))"
  using assms
proof (induction rule: rtranclp_induct)
  case base
  then show ?case by (intro conjI exI [of _ "[]"]) auto
next
  case (step r1 r2)
  then have inv: "robot_inv r1" "linked r1 \<longrightarrow> linked r" by simp_all
  from step obtain fs where fs: "list_all frame_sendable fs"
    "\<And>n. net_robot n = r \<Longrightarrow> net_steps n (n\<lparr>net_robot := r1, net_to_peer := net_to_peer n @ map frame_wire fs\<rparr>)"
    "starts sid t r \<and> linked r1 \<longrightarrow> starts sid t r1 \<or>
       session_of (coordinator r1) = Active sid \<and> response_view t MOTION_RESPONSE_OK \<in> view ` set fs \<or>
       session_of (coordinator r1) = No_Session" by blast
  from runs_act [OF inv(1) step(2)] obtain gs where gs: "list_all frame_sendable gs" "sent r2 = sent r1 @ map frame_wire gs"
    "robot_act None (linked r1, coordinator r1) (linked r2, coordinator r2) (map view gs)" by blast
  have up: "linked r2 \<Longrightarrow> linked r1" using gs(3) by cases auto
  have net: "net_steps n (n\<lparr>net_robot := r2, net_to_peer := net_to_peer n @ map frame_wire (fs @ gs)\<rparr>)"
    if "net_robot n = r" for n
    using rtranclp.rtrancl_into_rtrancl [OF fs(2) [OF that] net_run [OF step(2) gs(2)]] by simp
  have "starts sid t r2 \<or> session_of (coordinator r2) = Active sid \<and> response_view t MOTION_RESPONSE_OK \<in> view ` set (fs @ gs) \<or>
      session_of (coordinator r2) = No_Session" if "starts sid t r" "linked r2"
  proof -
    have act: "robot_act None (True, coordinator r1) (True, coordinator r2) (map view gs)" using gs(3) up that(2) by simp
    note ans = run_answers [OF act inv_wf [OF inv(1)]]
    from fs(3) that up consider "starts sid t r1"
      | "session_of (coordinator r1) = Active sid" "response_view t MOTION_RESPONSE_OK \<in> view ` set fs"
      | "session_of (coordinator r1) = No_Session" by blast
    then show ?thesis
    proof cases
      case 1
      with ans(1) [of sid t] show ?thesis by (auto simp: starts_def)
    qed (use ans(2) in auto)
  qed
  then show ?case
    using runs_inv [OF inv(1) step(2)] inv(2) up net fs(1) gs(1)
    by (intro conjI exI [of _ "fs @ gs"]) (auto simp: image_Un)
qed

text \<open>Images that do not matter can be lost.\<close>

lemma lose_images:
  "net_steps (n\<lparr>net_to_peer := ws @ us\<rparr>) (n\<lparr>net_to_peer := us\<rparr>)"
proof (induction ws)
  case (Cons w ws)
  have "net_step sent receives runs (n\<lparr>net_to_peer := w # ws @ us\<rparr>) (n\<lparr>net_to_peer := ws @ us\<rparr>)"
    using net_lose_to_peer [of "n\<lparr>net_to_peer := w # ws @ us\<rparr>" w "ws @ us" sent receives runs] by simp
  with Cons show ?case by (simp add: converse_rtranclp_into_rtranclp)
qed simp

text \<open>The peer picks one image out of those that arrive.\<close>

lemma bring_image:
  assumes "f \<in> set fs" and "list_all frame_sendable fs" and "net_to_peer n = map frame_wire fs"
  shows "\<exists>gs. frame_sendable f \<and> net_steps n (n\<lparr>net_to_peer := frame_wire f # map frame_wire gs\<rparr>)"
proof -
  from assms(1) obtain as bs where fs: "fs = as @ f # bs" by (meson split_list)
  with assms(2) lose_images [where n = n and ws = "map frame_wire as" and us = "frame_wire f # map frame_wire bs"]
  show ?thesis by (intro exI [of _ bs]) (simp add: assms(3) [symmetric, unfolded fs, simplified])
qed

lemma receive_image:
  assumes "frame_sendable f" and "net_to_peer n = frame_wire f # map frame_wire gs"
  shows "\<exists>g l m. view g = view f \<and> peer_receive g now (net_link n) (net_motion n) = (l, m) \<and>
    net_steps n (n\<lparr>net_link := l, net_motion := m, net_to_peer := []\<rparr>)"
proof -
  from image_arrives [OF assms(1)] obtain g where g: "arrives (frame_wire f) g" by blast
  obtain l m where p: "peer_receive g now (net_link n) (net_motion n) = (l, m)" by fastforce
  have "net_step sent receives runs n (n\<lparr>net_link := l, net_motion := m, net_to_peer := map frame_wire gs\<rparr>)"
    using net_peer_hears [OF assms(2) g peer_hears [OF p]] .
  also have "net_steps (n\<lparr>net_link := l, net_motion := m, net_to_peer := map frame_wire gs\<rparr>)
      (n\<lparr>net_link := l, net_motion := m, net_to_peer := []\<rparr>)"
    using lose_images [where n = "n\<lparr>net_link := l, net_motion := m\<rparr>" and ws = "map frame_wire gs" and us = "[]"] by simp
  finally show ?thesis using p arrives_view [OF g assms(1)] by blast
qed

lemma pick_image:
  assumes "f \<in> set fs" and "list_all frame_sendable fs" and "net_to_peer n = map frame_wire fs"
  shows "\<exists>g l m. view g = view f \<and> peer_receive g now (net_link n) (net_motion n) = (l, m) \<and>
    net_steps n (n\<lparr>net_link := l, net_motion := m, net_to_peer := []\<rparr>)"
proof -
  from bring_image [OF assms] obtain gs where gs: "frame_sendable f"
    "net_steps n (n\<lparr>net_to_peer := frame_wire f # map frame_wire gs\<rparr>)" by blast
  from receive_image [OF gs(1), of "n\<lparr>net_to_peer := frame_wire f # map frame_wire gs\<rparr>" gs now] obtain g l m where
    "view g = view f" "peer_receive g now (net_link n) (net_motion n) = (l, m)"
    "net_steps (n\<lparr>net_to_peer := frame_wire f # map frame_wire gs\<rparr>) (n\<lparr>net_link := l, net_motion := m, net_to_peer := []\<rparr>)"
    by auto
  with rtranclp_trans [OF gs(2)] show ?thesis by blast
qed

end

subsection \<open>An iteration of the firmware as steps of the robot\<close>

abbreviation firmware_net_steps :: "Dri0041 Firmware Net \<Rightarrow> Dri0041 Firmware Net \<Rightarrow> bool" where
  "firmware_net_steps \<equiv> (net_step images_sent (firmware_receives dri0041) (firmware_runs dri0041))\<^sup>*\<^sup>*"

lemma interrupt_runs:
  assumes "firmware_inv dri0041_inv dri0041_still dri0041_ready s"
  shows "(firmware_runs dri0041)\<^sup>*\<^sup>* s (before_receive rnd now (firmware_interrupt bs s))"
proof -
  let ?s0 = "firmware_interrupt bs s"
  have "firmware_inv dri0041_inv dri0041_still dri0041_ready ?s0" by (rule dri0041_driver.interrupt_inv [OF assms])
  then have "queue_wf (fw_queue ?s0)" "rcv_bound (fw_receiver s)" using assms by (simp_all add: firmware_inv_def)
  from run_line [OF this(2,1), of dri0041 s "fw_rx_port s"] have "(firmware_runs dri0041)\<^sup>*\<^sup>* s ?s0"
    by (simp add: firmware_interrupt_def r_into_rtranclp)
  also have "firmware_runs dri0041 ?s0 (firmware_motion_update dri0041 now ?s0)" by (rule run_update)
  also have "firmware_runs dri0041 (firmware_motion_update dri0041 now ?s0) (before_receive rnd now ?s0)"
    unfolding before_receive_def by (rule run_sample)
  finally show ?thesis .
qed

lemma quiet_exchange_runs:
  assumes inv: "firmware_inv dri0041_inv dri0041_still dri0041_ready s" and idle: "line_idle s"
  shows "(firmware_runs dri0041)\<^sup>*\<^sup>* s (exchange rnd ([], now) s)"
proof -
  let ?s1 = "before_receive rnd now (firmware_interrupt [] s)" and ?t = "exchange rnd ([], now) s"
  have "queue_wf (fw_queue s)" "rcv_bound (fw_receiver s)" using inv by (simp_all add: firmware_inv_def)
  from exchange_quiet [OF this idle refl] obtain r q where
    t: "?t = firmware_link_update dri0041 now (?s1\<lparr>fw_receiver := r, fw_queue := q\<rparr>)" by blast
  have "firmware_inv dri0041_inv dri0041_still dri0041_ready ?t" by (rule exchange_inv [OF inv])
  moreover have "fw_receiver ?t = r" "fw_queue ?t = q" by (simp_all add: t)
  ultimately have rq: "rcv_bound r" "queue_wf q" by (simp_all add: firmware_inv_def)
  have "(firmware_runs dri0041)\<^sup>*\<^sup>* s ?s1" by (rule interrupt_runs [OF inv])
  also have "firmware_runs dri0041 ?s1 (?s1\<lparr>fw_receiver := r, fw_queue := q\<rparr>)"
    using run_line [OF rq, of dri0041 ?s1 "fw_rx_port ?s1"] by simp
  also have "firmware_runs dri0041 (?s1\<lparr>fw_receiver := r, fw_queue := q\<rparr>) ?t" unfolding t by (rule run_link)
  finally show ?thesis .
qed

lemma message_exchange_runs:
  assumes inv: "firmware_inv dri0041_inv dri0041_still dri0041_ready s" and idle: "line_idle s" and f: "frame_sendable f"
  obtains s1 g s2 where "(firmware_runs dri0041)\<^sup>*\<^sup>* s s1" and "arrives (frame_wire f) g"
    and "firmware_receives dri0041 g s1 s2" and "firmware_runs dri0041 s2 (exchange rnd (frame_wire f, now) s)"
proof -
  let ?s1 = "before_receive rnd now (firmware_interrupt (frame_wire f) s)"
  have "queue_wf (fw_queue s)" "rcv_bound (fw_receiver s)" using inv by (simp_all add: firmware_inv_def)
  from exchange_frame [OF this idle f refl] obtain g r q d where
    g: "decoder_feed_all (frame_wire f) (rcv_decoder (fw_receiver s)) = ([g], d)" and rq: "rcv_bound r" "queue_wf q"
    and t: "exchange rnd (frame_wire f, now) s = firmware_link_update dri0041 now
      (firmware_dispatch dri0041 now g now (?s1\<lparr>fw_receiver := r, fw_queue := q\<rparr>))" by blast
  have "arrives (frame_wire f) g" using idle g by (auto simp: line_idle_def arrives_def)
  moreover have "(firmware_runs dri0041)\<^sup>*\<^sup>* s ?s1" by (rule interrupt_runs [OF inv])
  then have "(firmware_runs dri0041)\<^sup>*\<^sup>* s (?s1\<lparr>fw_receiver := r, fw_queue := q\<rparr>)"
    using run_line [OF rq, of dri0041 ?s1 "fw_rx_port ?s1"] by (simp add: rtranclp.rtrancl_into_rtrancl)
  moreover have "firmware_receives dri0041 g (?s1\<lparr>fw_receiver := r, fw_queue := q\<rparr>)
      (firmware_dispatch dri0041 now g now (?s1\<lparr>fw_receiver := r, fw_queue := q\<rparr>))"
    by (auto simp: firmware_receives_def)
  ultimately show thesis using that run_link [of dri0041 _ now] t by metis
qed

lemma net_exchange:
  assumes inv: "firmware_inv dri0041_inv dri0041_still dri0041_ready (net_robot n)" and idle: "line_idle (net_robot n)"
    and f: "frame_sendable f" and line: "net_to_robot n = [frame_wire f]" and t: "t = exchange rnd (frame_wire f, now) (net_robot n)"
  obtains s1 s2 :: "Dri0041 Firmware" and fs gs hs where "list_all frame_sendable (fs @ gs @ hs)"
    and "firmware_net_steps n (n\<lparr>net_to_robot := [], net_robot := t, net_to_peer := net_to_peer n @ map frame_wire (fs @ gs @ hs)\<rparr>)"
    and "link_synchronized (fw_link s1) \<longrightarrow> link_synchronized (fw_link (net_robot n))"
    and "link_synchronized (fw_link t) \<longrightarrow> link_synchronized (fw_link s2)"
    and "robot_act (Some (view f)) (robot_of s1) (robot_of s2) (map view gs)"
proof -
  from message_exchange_runs [OF inv idle f, of rnd now] obtain s1 g s2 where
    r1: "(firmware_runs dri0041)\<^sup>*\<^sup>* (net_robot n) s1" and g: "arrives (frame_wire f) g"
    and rcv: "firmware_receives dri0041 g s1 s2" and r2: "firmware_runs dri0041 s2 t" unfolding t by blast
  from dri0041_robot.runs_star [OF r1 inv] obtain fs where s1: "firmware_inv dri0041_inv dri0041_still dri0041_ready s1"
    "link_synchronized (fw_link s1) \<longrightarrow> link_synchronized (fw_link (net_robot n))"
    and fs: "list_all frame_sendable fs"
      "firmware_net_steps n (n\<lparr>net_robot := s1, net_to_peer := net_to_peer n @ map frame_wire fs\<rparr>)" by blast
  from dri0041_robot.receives_act [OF s1(1) rcv] obtain gs where gs: "list_all frame_sendable gs"
    "images_sent s2 = images_sent s1 @ map frame_wire gs"
    "robot_act (Some (view g)) (robot_of s1) (robot_of s2) (map view gs)" by blast
  have inv2: "firmware_inv dri0041_inv dri0041_still dri0041_ready s2" by (rule dri0041_robot.receives_inv [OF s1(1) rcv])
  from dri0041_robot.runs_act [OF inv2 r2] obtain hs where hs: "list_all frame_sendable hs"
    "images_sent t = images_sent s2 @ map frame_wire hs" "robot_act None (robot_of s2) (robot_of t) (map view hs)" by blast
  have up: "link_synchronized (fw_link t) \<longrightarrow> link_synchronized (fw_link s2)" using hs(3) by cases auto
  let ?n1 = "n\<lparr>net_robot := s1, net_to_peer := net_to_peer n @ map frame_wire fs\<rparr>"
  let ?n2 = "n\<lparr>net_to_robot := [], net_robot := s2, net_to_peer := net_to_peer n @ map frame_wire (fs @ gs)\<rparr>"
  let ?n3 = "n\<lparr>net_to_robot := [], net_robot := t, net_to_peer := net_to_peer n @ map frame_wire (fs @ gs @ hs)\<rparr>"
  have "net_step images_sent (firmware_receives dri0041) (firmware_runs dri0041) ?n1 ?n2"
    using net_robot_receives [of ?n1 "frame_wire f" "[]" g "firmware_receives dri0041" s2 images_sent "map frame_wire gs"]
      line g rcv gs(2) by simp
  moreover have "net_step images_sent (firmware_receives dri0041) (firmware_runs dri0041) ?n2 ?n3"
    using net_robot_runs [of "firmware_runs dri0041" ?n2 t images_sent "map frame_wire hs"] r2 hs(2) by simp
  ultimately have "firmware_net_steps n ?n3"
    using fs(2) by (meson rtranclp.rtrancl_into_rtrancl)
  moreover have "view g = view f" by (rule arrives_view [OF g f])
  ultimately show thesis using that [of fs gs hs s1 s2] fs(1) gs(1,3) hs(1) s1(2) up by simp
qed

lemma net_exchange_images:
  assumes "firmware_inv dri0041_inv dri0041_still dri0041_ready (net_robot n)" and "line_idle (net_robot n)"
    and "frame_sendable f" and "net_to_robot n = [frame_wire f]" and "t = exchange rnd (frame_wire f, now) (net_robot n)"
  shows "\<exists>fs. list_all frame_sendable fs \<and>
    firmware_net_steps n (n\<lparr>net_to_robot := [], net_robot := t, net_to_peer := net_to_peer n @ map frame_wire fs\<rparr>)"
  by (rule net_exchange [OF assms]) blast

subsection \<open>The three phases\<close>

text \<open>The peer connects, and the robot's answer synchronizes it.\<close>

lemma request_phase:
  assumes inv: "firmware_inv dri0041_inv dri0041_still dri0041_ready (net_robot n)" and idle: "line_idle (net_robot n)"
    and w: "works c (fw_board (net_robot n))" and down: "\<not> link_synchronized (fw_link (net_robot n))"
    and empty: "net_to_robot n = []" "net_to_peer n = []"
    and t: "t = exchange rnd (frame_wire (sync_message (lks_next_sequence (net_link n)) \<lparr>ls_sync_token = tok\<rparr>), now) (net_robot n)"
  obtains l h ws where "lks_state l = SyncPending" and "request_of l = (lks_next_sequence (net_link n), tok)"
    and "frame_sendable h" and "view h = Sync_Ok (lks_next_sequence (net_link n)) tok"
    and "firmware_net_steps n (n\<lparr>net_link := l, net_motion := motion_session_reset (net_motion n), net_robot := t,
      net_to_peer := frame_wire h # map frame_wire ws\<rparr>)"
proof -
  let ?sq = "lks_next_sequence (net_link n)" and ?m = "motion_session_reset (net_motion n)"
  obtain f l0 where begun: "begin_synchronization tok (link_disconnect (net_link n)) = (f, l0)" by fastforce
  note sync = synchronization_spec [OF this]
  have sq: "lks_next_sequence (link_disconnect (net_link n)) = ?sq" by (simp add: link_disconnect_def)
  have f: "f = sync_message ?sq \<lparr>ls_sync_token = tok\<rparr>" "frame_sendable f" "view f = Sync ?sq tok"
    using sync(1) by (simp_all add: sync_message_def sq view_message)
  let ?n0 = "n\<lparr>net_link := l0, net_motion := ?m, net_to_robot := [frame_wire f]\<rparr>"
  have step0: "net_step images_sent (firmware_receives dri0041) (firmware_runs dri0041) n ?n0"
    using net_peer_connects [OF peer_connect [OF begun], of images_sent "firmware_receives dri0041" "firmware_runs dri0041"] empty
    by (simp add: unused_token_def)
  have ex: "t = exchange rnd (frame_wire f, now) (net_robot ?n0)" using t f(1) by simp
  have up: "link_synchronized (fw_link t)" by (rule sync_exchange(3) [OF inv idle w down t])
  obtain s1 s2 :: "Dri0041 Firmware" and fs gs hs where out: "list_all frame_sendable (fs @ gs @ hs)"
    and steps: "firmware_net_steps ?n0 (?n0\<lparr>net_to_robot := [], net_robot := t,
      net_to_peer := net_to_peer ?n0 @ map frame_wire (fs @ gs @ hs)\<rparr>)"
    and links: "link_synchronized (fw_link s1) \<longrightarrow> link_synchronized (fw_link (net_robot ?n0))"
      "link_synchronized (fw_link t) \<longrightarrow> link_synchronized (fw_link s2)"
    and act: "robot_act (Some (view f)) (robot_of s1) (robot_of s2) (map view gs)"
    by (rule net_exchange [of ?n0 f t rnd now]) (use inv idle f(2) ex in auto)
  have "robot_act (Some (view f)) (False, mgr_coordinator (fw_manager s1)) (True, mgr_coordinator (fw_manager s2)) (map view gs)"
    using act links down up by simp
  then have "map view gs = [Sync_Ok ?sq tok]" by (rule robot_act_upE) (use f(3) in simp)
  then obtain h where h: "h \<in> set gs" "view h = Sync_Ok ?sq tok" by auto
  let ?n1 = "n\<lparr>net_link := l0, net_motion := ?m, net_to_robot := [], net_robot := t, net_to_peer := map frame_wire (fs @ gs @ hs)\<rparr>"
  from dri0041_robot.bring_image [of h "fs @ gs @ hs" ?n1] h(1) out obtain ws where
    ws: "frame_sendable h" "firmware_net_steps ?n1 (?n1\<lparr>net_to_peer := frame_wire h # map frame_wire ws\<rparr>)" by auto
  have "firmware_net_steps n ?n1" using converse_rtranclp_into_rtranclp [OF step0 steps] empty by simp
  from rtranclp_trans [OF this ws(2)] show thesis
    using that [OF sync(2) _ ws(1) h(2)] sync(3) sq empty by (cases n) simp
qed

lemma connect_phase:
  assumes inv: "firmware_inv dri0041_inv dri0041_still dri0041_ready (net_robot n)" and idle: "line_idle (net_robot n)"
    and w: "works c (fw_board (net_robot n))" and down: "\<not> link_synchronized (fw_link (net_robot n))"
    and empty: "net_to_robot n = []" "net_to_peer n = []"
    and t: "t = exchange rnd (frame_wire (sync_message (lks_next_sequence (net_link n)) \<lparr>ls_sync_token = tok\<rparr>), now) (net_robot n)"
  obtains l where "lks_state l = Synchronized"
    and "firmware_net_steps n (n\<lparr>net_link := l, net_motion := motion_session_reset (net_motion n), net_robot := t\<rparr>)"
proof -
  let ?m = "motion_session_reset (net_motion n)"
  obtain l0 h ws where 0: "lks_state l0 = SyncPending" "request_of l0 = (lks_next_sequence (net_link n), tok)"
    "frame_sendable h" "view h = Sync_Ok (lks_next_sequence (net_link n)) tok"
    and steps: "firmware_net_steps n (n\<lparr>net_link := l0, net_motion := ?m, net_robot := t, net_to_peer := frame_wire h # map frame_wire ws\<rparr>)"
    by (rule request_phase [OF assms])
  let ?n1 = "n\<lparr>net_link := l0, net_motion := ?m, net_robot := t, net_to_peer := frame_wire h # map frame_wire ws\<rparr>"
  from dri0041_robot.receive_image [OF 0(3), of ?n1 ws now] obtain g l m where
    g: "view g = view h" "peer_receive g now l0 ?m = (l, m)"
    and last: "firmware_net_steps ?n1 (?n1\<lparr>net_link := l, net_motion := m, net_to_peer := []\<rparr>)" by auto
  obtain ok l' where hs: "handle_link_sync_ok g now l0 = (ok, l')" by fastforce
  have l: "lks_state l = Synchronized" "m = ?m"
    using g 0 sync_ok_spec [OF hs] hs by (auto simp: peer_receive_def)
  have "firmware_net_steps n (n\<lparr>net_link := l, net_motion := ?m, net_robot := t\<rparr>)"
    using rtranclp_trans [OF steps last] l(2) empty by (cases n) simp
  with l(1) show thesis by (rule that)
qed

text \<open>The response that ends the peer's transaction, among the images that arrive.\<close>

lemma response_received:
  assumes wf: "motion_session_wf m" and pend: "ms_transaction_pending m" and l: "lks_state l = Synchronized"
    and v: "view g = response_view (pending_of m) r" and rcv: "peer_receive g now l m = (l', m')"
  shows "l' = l" and "motion_session_wf m'" and "peer_motion_of m' = answered (pending_of m) r"
proof -
  obtain ok1 l1 where h1: "handle_heartbeat_response g now l = (ok1, l1)" by fastforce
  obtain ok2 m2 where h2: "handle_ack g now m = (ok2, m2)" by fastforce
  obtain res m3 where h3: "handle_response g m = (res, m3)" by fastforce
  have nq: "view g \<noteq> Quiet" using v by (simp add: response_view_def)
  have out: "l' = l" "m' = m3"
    using rcv h1 h2 h3 l nq heartbeat_response_spec(2,3) [OF h1] ack_spec(4,5) [OF h2]
    by (auto simp: peer_receive_def split: if_splits)
  note spec = response_spec [OF wf h3]
  have "answers_pending (view g) m" using pend v by (auto simp: answers_pending_def)
  with spec(3) obtain r' where r': "res = Some r'" by (cases res) auto
  with spec(4) v have "r' = r" by (auto simp: response_view_def)
  with out spec(2,4) r' show "l' = l" "motion_session_wf m'" "peer_motion_of m' = answered (pending_of m) r" by auto
qed

lemma driving_state:
  assumes "peer_motion_of m = Driving sid"
  shows "ms_state m = ActiveSession" and "ms_active_session_id m = sid"
  using assms by (auto simp: peer_motion_of_def split: if_splits)

lemma steps_reachable:
  "step\<^sup>*\<^sup>* n n' \<Longrightarrow> reachable init step n \<Longrightarrow> reachable init step n'"
  by (induction rule: rtranclp_induct) (auto intro: reachable_step)

abbreviation firmware_net_reachable :: "(real \<Rightarrow> real) \<Rightarrow> Dri0041 Firmware Net \<Rightarrow> bool" where
  "firmware_net_reachable rnd \<equiv> reachable (net_started (firmware_started dri0041 rnd))
     (net_step images_sent (firmware_receives dri0041) (firmware_runs dri0041))"

lemma robot_reachable_inv:
  "firmware_net_reachable rnd n \<Longrightarrow> firmware_inv dri0041_inv dri0041_still dri0041_ready (net_robot n)"
  using dri0041_robot.net_reachable [of rnd n] by (simp add: dri0041_robot.net_wf_def)

text \<open>The transaction the peer waits for is the one the robot works on.\<close>

lemma working_transaction:
  assumes "firmware_net_reachable rnd n" and "lks_state (net_link n) = Synchronized"
    and "link_synchronized (fw_link (net_robot n))" and "session_of (mgr_coordinator (fw_manager (net_robot n))) = Starting sid"
  shows "ms_transaction_pending (net_motion n)" and "dri0041_robot.starts sid (pending_of (net_motion n)) (net_robot n)"
proof -
  have "agreement (peer_motion_of (net_motion n)) (ms_next_sequence (net_motion n)) (map image_view (net_to_robot n))
      (mgr_coordinator (fw_manager (net_robot n))) (map image_view (net_to_peer n))"
    using dri0041_robot.net_reachable [OF assms(1)] assms(2,3) by (simp add: dri0041_robot.protocol_of_def protocol_inv_def)
  with assms(4) show "ms_transaction_pending (net_motion n)" "dri0041_robot.starts sid (pending_of (net_motion n)) (net_robot n)"
    by (auto simp: peer_motion_of_def agreement_def unseen_def working_def finished_def settled_def
        dri0041_robot.starts_def split: if_splits)
qed

text \<open>The robot's three iterations, from the command to the active session.\<close>

lemma robot_starts:
  assumes inv: "firmware_inv dri0041_inv dri0041_still dri0041_ready s" and idle: "line_idle s" and w: "works c (fw_board s)"
    and up: "link_synchronized (fw_link s)" and hb: "last_heartbeat_ms (fw_link s) = t1"
    and new: "lifecycle_state (mgr_coordinator (fw_manager s)) = MOTION_LIFECYCLE_STATE_NO_SESSION"
      "\<not> latest_sequence_valid (reliable_receiver (mgr_coordinator (fw_manager s)))"
    and time: "t2 - t1 < 1000" "t3 - t1 < 1000" "t4 - t1 < 1000" "200 \<le> t4 - t3" "t4 - t3 < 1000"
  obtains s2 s4 where "s2 = exchange rnd (frame_wire (start_message sq sid), t2) s"
    and "session_of (mgr_coordinator (fw_manager s2)) = Starting sid" and "fw_link s2 = fw_link s"
    and "firmware_inv dri0041_inv dri0041_still dri0041_ready s2" and "(firmware_runs dri0041)\<^sup>*\<^sup>* s2 s4"
    and "line_idle s4" and "works c (fw_board s4)" and "rested (fw_board s4)" and "fw_link s4 = fw_link s"
    and "session_of (mgr_coordinator (fw_manager s4)) = Active sid" and "calibration s4 = calibration s"
proof -
  define s2 where "s2 = exchange rnd (frame_wire (start_message sq sid), t2) s"
  define s3 where "s3 = exchange rnd ([], t3) s2"
  define s4 where "s4 = exchange rnd ([], t4) s3"
  have alive: "t2 - last_heartbeat_ms (fw_link s) < LINK_HEARTBEAT_TIMEOUT_MS" using time(1) hb by simp
  note 2 = start_exchange [OF inv idle w up alive new s2_def]
  note inv2 = exchange_inv [OF inv, of rnd "(frame_wire (start_message sq sid), t2)", folded s2_def]
  note inv3 = exchange_inv [OF inv2, of rnd "([], t3)", folded s3_def]
  have l2: "last_heartbeat_ms (fw_link s2) = t1" using 2(4) hb by simp
  note 3 = begin_exchange [OF inv2 2(1,2,3) _ 2(6,7) s3_def, unfolded l2, OF time(2)]
  have l3: "last_heartbeat_ms (fw_link s3) = t1" using 3(4) l2 by simp
  have "session_of (mgr_coordinator (fw_manager s3)) = Starting sid" using 3(5) 2(5) by simp
  note 4 = settle_exchange [OF inv3 3(1,2,3) _ 3(6,7) time(4,5) this s4_def, unfolded l3, OF time(3)]
  have "(firmware_runs dri0041)\<^sup>*\<^sup>* s2 s4"
    using rtranclp_trans [OF quiet_exchange_runs [OF inv2 2(1), of rnd t3, folded s3_def]
        quiet_exchange_runs [OF inv3 3(1), of rnd t4, folded s4_def]] .
  moreover have "fw_link s4 = fw_link s" "calibration s4 = calibration s"
    using 4(4) 3(4) 2(4) by (simp_all add: s2_def s3_def s4_def exchange_calibration)
  ultimately show thesis using that [OF s2_def 2(5,4) inv2 _ 4(1-3) _ 4(5)] by simp
qed

text \<open>
  A run of the robot that ends its stop operation brings the peer, among the images it sends, the
  response that makes the session active.
\<close>

lemma run_activates:
  assumes reach: "firmware_net_reachable rnd n" and link: "lks_state (net_link n) = Synchronized"
    and up: "link_synchronized (fw_link (net_robot n))"
    and sess: "session_of (mgr_coordinator (fw_manager (net_robot n))) = Starting sid"
    and runs: "(firmware_runs dri0041)\<^sup>*\<^sup>* (net_robot n) s" "link_synchronized (fw_link s)"
      "session_of (mgr_coordinator (fw_manager s)) = Active sid"
    and sent: "net_to_peer n = map frame_wire fs" "list_all frame_sendable fs"
  obtains m where "firmware_net_steps n (n\<lparr>net_motion := m, net_robot := s, net_to_peer := []\<rparr>)"
    and "motion_session_wf m" and "peer_motion_of m = answered (pending_of (net_motion n)) MOTION_RESPONSE_OK"
proof -
  let ?t = "pending_of (net_motion n)"
  note start = working_transaction [OF reach link up sess]
  have mwf: "motion_session_wf (net_motion n)" using dri0041_robot.net_reachable [OF reach] by (simp add: dri0041_robot.net_wf_def)
  from dri0041_robot.runs_star [OF runs(1) robot_reachable_inv [OF reach], of sid ?t] obtain gs where
    gs: "list_all frame_sendable gs"
    and net: "\<forall>k. net_robot k = net_robot n \<longrightarrow>
      firmware_net_steps k (k\<lparr>net_robot := s, net_to_peer := net_to_peer k @ map frame_wire gs\<rparr>)"
    and "dri0041_robot.starts sid ?t (net_robot n) \<and> link_synchronized (fw_link s) \<longrightarrow>
      dri0041_robot.starts sid ?t s \<or>
      session_of (mgr_coordinator (fw_manager s)) = Active sid \<and> response_view ?t MOTION_RESPONSE_OK \<in> view ` set gs \<or>
      session_of (mgr_coordinator (fw_manager s)) = No_Session" by blast
  then obtain h where h: "h \<in> set gs" "view h = response_view ?t MOTION_RESPONSE_OK"
    using start(2) runs(2,3) by (auto simp: dri0041_robot.starts_def)
  let ?n = "n\<lparr>net_robot := s, net_to_peer := map frame_wire (fs @ gs)\<rparr>"
  have to: "firmware_net_steps n ?n" using net [rule_format, OF refl] sent(1) by simp
  from dri0041_robot.pick_image [of h "fs @ gs" ?n 0] h(1) sent(2) gs obtain g l m where
    g: "view g = view h" "peer_receive g 0 (net_link n) (net_motion n) = (l, m)"
    and last: "firmware_net_steps ?n (?n\<lparr>net_link := l, net_motion := m, net_to_peer := []\<rparr>)" by auto
  note rcv = response_received [OF mwf start(1) link g(1) [unfolded h(2)] g(2)]
  show thesis using rtranclp_trans [OF to last] rcv by (intro that [where m = m]) (cases n; simp)+
qed

text \<open>The peer starts a session.\<close>

lemma start_phase:
  assumes reach: "firmware_net_reachable rnd n" and link: "lks_state (net_link n) = Synchronized"
    and rest: "\<not> ms_transaction_pending (net_motion n)"
    and idle: "line_idle (net_robot n)" and w: "works c (fw_board (net_robot n))"
    and up: "link_synchronized (fw_link (net_robot n))" and hb: "last_heartbeat_ms (fw_link (net_robot n)) = t1"
    and new: "lifecycle_state (mgr_coordinator (fw_manager (net_robot n))) = MOTION_LIFECYCLE_STATE_NO_SESSION"
      "\<not> latest_sequence_valid (reliable_receiver (mgr_coordinator (fw_manager (net_robot n))))"
    and empty: "net_to_robot n = []" "net_to_peer n = []"
    and time: "t2 - t1 < 1000" "t3 - t1 < 1000" "t4 - t1 < 1000" "200 \<le> t4 - t3" "t4 - t3 < 1000"
  obtains m s where "firmware_net_steps n (n\<lparr>net_motion := m, net_robot := s\<rparr>)"
    and "motion_session_wf m" and "peer_motion_of m = Driving sid" and "line_idle s" and "works c (fw_board s)"
    and "rested (fw_board s)" and "fw_link s = fw_link (net_robot n)" and "session_of (mgr_coordinator (fw_manager s)) = Active sid"
    and "calibration s = calibration (net_robot n)"
proof -
  have inv: "firmware_inv dri0041_inv dri0041_still dri0041_ready (net_robot n)" by (rule robot_reachable_inv [OF reach])
  have mwf: "motion_session_wf (net_motion n)" using dri0041_robot.net_reachable [OF reach] by (simp add: dri0041_robot.net_wf_def)
  obtain f m0 where begun: "begin_start_session sid (net_motion n) = (Some f, m0)"
    using rest by (simp add: begin_start_session_def Let_def)
  note spec = start_session_spec [OF mwf begun]
  let ?sq = "ms_next_sequence (net_motion n)" and ?m = m0
  have f: "f = start_message ?sq sid" "frame_sendable f"
    using spec by (simp_all add: start_message_def command_message_def)
  let ?n0 = "n\<lparr>net_motion := ?m, net_to_robot := [frame_wire f]\<rparr>"
  have step0: "net_step images_sent (firmware_receives dri0041) (firmware_runs dri0041) n ?n0"
    using net_peer_sends [OF peer_start [OF link begun], of images_sent "firmware_receives dri0041" "firmware_runs dri0041"] empty by simp
  obtain s2 s4 where s2: "s2 = exchange rnd (frame_wire (start_message ?sq sid), t2) (net_robot n)"
    "session_of (mgr_coordinator (fw_manager s2)) = Starting sid" "fw_link s2 = fw_link (net_robot n)"
    and s4: "(firmware_runs dri0041)\<^sup>*\<^sup>* s2 s4" "line_idle s4" "works c (fw_board s4)" "rested (fw_board s4)"
      "fw_link s4 = fw_link (net_robot n)" "session_of (mgr_coordinator (fw_manager s4)) = Active sid"
      "calibration s4 = calibration (net_robot n)"
    by (rule robot_starts [OF inv idle w up hb new time, where rnd = rnd and sq = ?sq and sid = sid])
  from net_exchange_images [of ?n0 f s2 rnd t2] inv idle f s2(1) empty(2) obtain fs where fs: "list_all frame_sendable fs"
    and steps2: "firmware_net_steps ?n0 (?n0\<lparr>net_to_robot := [], net_robot := s2, net_to_peer := map frame_wire fs\<rparr>)" by auto
  let ?n2 = "n\<lparr>net_motion := ?m, net_to_robot := [], net_robot := s2, net_to_peer := map frame_wire fs\<rparr>"
  have to2: "firmware_net_steps n ?n2" using converse_rtranclp_into_rtranclp [OF step0 steps2] by simp
  obtain m where m: "firmware_net_steps ?n2 (?n2\<lparr>net_motion := m, net_robot := s4, net_to_peer := []\<rparr>)" "motion_session_wf m"
    "peer_motion_of m = answered (pending_of ?m) MOTION_RESPONSE_OK"
    by (rule run_activates [OF steps_reachable [OF to2 reach], of sid s4 fs]) (use link s2(2,3) up s4 fs in auto)
  have "peer_motion_of m = Driving sid"
    using m(3) spec by (auto simp: answered_def peer_motion_of_def pending_of_def split: if_splits)
  moreover have "firmware_net_steps n (n\<lparr>net_motion := m, net_robot := s4\<rparr>)"
    using rtranclp_trans [OF to2 m(1)] empty by (cases n) simp
  ultimately show thesis using m(2) s4 by (intro that [where m = m and s = s4]) auto
qed

text \<open>A velocity of the active session reaches the wheels.\<close>

lemma drive_phase:
  assumes inv: "firmware_inv dri0041_inv dri0041_still dri0041_ready (net_robot n)"
    and link: "lks_state (net_link n) = Synchronized" and mwf: "motion_session_wf (net_motion n)"
    and driving: "peer_motion_of (net_motion n) = Driving sid"
    and idle: "line_idle (net_robot n)" and w: "works c (fw_board (net_robot n))" and r: "rested (fw_board (net_robot n))"
    and up: "link_synchronized (fw_link (net_robot n))"
    and alive: "now - last_heartbeat_ms (fw_link (net_robot n)) < LINK_HEARTBEAT_TIMEOUT_MS"
    and sess: "session_of (mgr_coordinator (fw_manager (net_robot n))) = Active sid"
    and empty: "net_to_robot n = []"
  obtains m s ws cmd where "firmware_net_steps n (n\<lparr>net_motion := m, net_robot := s, net_to_peer := net_to_peer n @ ws\<rparr>)"
    and "peer_motion_of m = Driving sid" and "session_of (mgr_coordinator (fw_manager s)) = Active sid"
    and "wheel_velocity_feedforward_convert (Some (calibration (net_robot n))) (Some v) = Some cmd"
    and "wheels_follow cmd (d41_port (guard_driver (board_guard (fw_board s))))"
proof -
  note st = driving_state [OF driving]
  obtain f m where b: "build_wheel_velocity (left_velocity_mm_s v) (right_velocity_mm_s v) (net_motion n) = (Some f, m)"
    using st(1) by (simp add: build_wheel_velocity_def Let_def)
  note spec = velocity_spec [OF mwf b]
  have f: "f = velocity_message (ms_next_wheel_sequence (net_motion n)) sid v"
    using b st by (cases v) (auto simp: build_wheel_velocity_def velocity_message_def message_def wheel_velocity.enc_length Let_def)
  let ?n0 = "n\<lparr>net_motion := m, net_to_robot := [frame_wire f]\<rparr>"
  have step0: "net_step images_sent (firmware_receives dri0041) (firmware_runs dri0041) n ?n0"
    using net_peer_sends [OF peer_velocity [OF link b], of images_sent "firmware_receives dri0041" "firmware_runs dri0041"] empty by simp
  define s where "s = exchange rnd (frame_wire f, now) (net_robot n)"
  from net_exchange_images [of ?n0 f s rnd now] inv idle spec(1) s_def obtain fs where
    "firmware_net_steps ?n0 (?n0\<lparr>net_to_robot := [], net_robot := s, net_to_peer := net_to_peer n @ map frame_wire fs\<rparr>)" by auto
  from converse_rtranclp_into_rtranclp [OF step0 this] empty
  have steps: "firmware_net_steps n (n\<lparr>net_motion := m, net_robot := s, net_to_peer := net_to_peer n @ map frame_wire fs\<rparr>)"
    by (cases n) simp
  from velocity_exchange [OF inv idle w r up alive sess s_def [unfolded f]] obtain cmd where
    "wheel_velocity_feedforward_convert (Some (calibration (net_robot n))) (Some v) = Some cmd"
    "wheels_follow cmd (d41_port (guard_driver (board_guard (fw_board s))))"
    "session_of (mgr_coordinator (fw_manager s)) = Active sid" by auto
  with steps spec(4) driving show thesis by (intro that [where m = m and s = s and ws = "map frame_wire fs" and cmd = cmd]) simp_all
qed

subsection \<open>The whole exchange\<close>

lemma peer_drives:
  assumes "firmware_net_reachable rnd n" and "net_to_robot n = []" and "net_to_peer n = []"
    and "line_idle (net_robot n)" and "works c (fw_board (net_robot n))"
    and down: "\<not> link_synchronized (fw_link (net_robot n))"
  shows "\<exists>n' cmd. firmware_net_steps n n' \<and> lks_state (net_link n') = Synchronized \<and>
    link_synchronized (fw_link (net_robot n')) \<and>
    ms_state (net_motion n') = ActiveSession \<and> ms_active_session_id (net_motion n') = sid \<and>
    session_of (mgr_coordinator (fw_manager (net_robot n'))) = Active sid \<and>
    wheel_velocity_feedforward_convert (Some (calibration (net_robot n))) (Some v) = Some cmd \<and>
    wheels_follow cmd (d41_port (guard_driver (board_guard (fw_board (net_robot n')))))"
proof -
  have inv: "firmware_inv dri0041_inv dri0041_still dri0041_ready (net_robot n)" by (rule robot_reachable_inv [OF assms(1)])
  define s1 where "s1 = exchange rnd (frame_wire (sync_message (lks_next_sequence (net_link n)) \<lparr>ls_sync_token = 0\<rparr>), 0) (net_robot n)"
  note 1 = sync_exchange [OF inv assms(4,5) down s1_def]
  from connect_phase [OF inv assms(4,5) down assms(2,3) s1_def] obtain l where l: "lks_state l = Synchronized"
    "firmware_net_steps n (n\<lparr>net_link := l, net_motion := motion_session_reset (net_motion n), net_robot := s1\<rparr>)" by blast
  let ?n1 = "n\<lparr>net_link := l, net_motion := motion_session_reset (net_motion n), net_robot := s1\<rparr>"
  have reach1: "firmware_net_reachable rnd ?n1" by (rule steps_reachable [OF l(2) assms(1)])
  obtain m s where 2: "firmware_net_steps ?n1 (?n1\<lparr>net_motion := m, net_robot := s\<rparr>)" "motion_session_wf m"
    "peer_motion_of m = Driving sid" "line_idle s" "works c (fw_board s)" "rested (fw_board s)" "fw_link s = fw_link s1"
    "session_of (mgr_coordinator (fw_manager s)) = Active sid" "calibration s = calibration s1"
    by (rule start_phase [of rnd ?n1 c 0 10 20 300 sid])
       (use reach1 l(1) 1 assms(2,3) in \<open>auto simp: motion_session_reset_def\<close>)
  let ?n2 = "n\<lparr>net_link := l, net_motion := m, net_robot := s\<rparr>"
  have to2: "firmware_net_steps n ?n2" using rtranclp_trans [OF l(2) 2(1)] by simp
  have inv2: "firmware_inv dri0041_inv dri0041_still dri0041_ready s"
    using robot_reachable_inv [OF steps_reachable [OF to2 assms(1)]] by simp
  obtain m' s' ws cmd where 3: "firmware_net_steps ?n2 (?n2\<lparr>net_motion := m', net_robot := s', net_to_peer := net_to_peer ?n2 @ ws\<rparr>)"
    "peer_motion_of m' = Driving sid" "session_of (mgr_coordinator (fw_manager s')) = Active sid"
    "wheel_velocity_feedforward_convert (Some (calibration s)) (Some v) = Some cmd"
    "wheels_follow cmd (d41_port (guard_driver (board_guard (fw_board s'))))"
    by (rule drive_phase [of ?n2 sid c 310 v]) (use inv2 l(1) 2 1(3,4) assms(2) in auto)
  have inv3: "firmware_inv dri0041_inv dri0041_still dri0041_ready s'"
    using robot_reachable_inv [OF steps_reachable [OF rtranclp_trans [OF to2 3(1)] assms(1)]] by simp
  have "link_synchronized (fw_link s')"
    using dri0041_driver.inv_down [OF inv3] 3(3) by (auto simp: firmware_down_def session_active)
  moreover have "calibration s = calibration (net_robot n)" using 2(9) by (simp add: s1_def exchange_calibration)
  ultimately show ?thesis
    using rtranclp_trans [OF to2 3(1)] 3 l(1) driving_state [OF 3(2)]
    by (intro exI [of _ "?n2\<lparr>net_motion := m', net_robot := s', net_to_peer := net_to_peer ?n2 @ ws\<rparr>"] exI [of _ cmd])
       simp
qed

end
