(* ===== verification/Crsf.thy ===== *)
theory Crsf
  imports Prelude
begin

section \<open>The radio receiver's frames (crsf\_crc8.cpp, crsf\_frame\_decoder.cpp, crsf\_channels.cpp)\<close>

text \<open>
  The manual control reads frames of the CRSF protocol from a radio receiver: an address byte, a
  length byte, a type, a payload of up to 60 bytes and an 8-bit checksum over type and payload.
  The model has the checksum, the decoder with its buffer of 64 bytes, and the extraction of the
  sixteen 11-bit channel values. A call that returns \<^verbatim>\<open>true\<close> with its output parameter is \<open>Some\<close> of
  the output; the output is assigned in that case only. Every index is shown to stay inside its
  array.
\<close>

subsection \<open>The checksum\<close>

definition crsf_crc8_bit :: "u8 \<Rightarrow> u8" where
  "crsf_crc8_bit crc = (if crc AND 0x80 \<noteq> 0 then push_bit 1 crc XOR 0xD5 else push_bit 1 crc)"

definition crsf_crc8_update :: "u8 \<Rightarrow> u8 \<Rightarrow> u8" where
  "crsf_crc8_update crc byte = (crsf_crc8_bit ^^ 8) (crc XOR byte)"

subsection \<open>The decoder\<close>

record CrsfFrame =
  crsf_type :: u8
  crsf_payload :: "u8 list"
  crsf_payload_length :: nat

datatype CrsfDecoderState = WaitingForAddress | WaitingForLength | Collecting

record CrsfFrameDecoder =
  crsf_state :: CrsfDecoderState
  crsf_buffer :: "u8 list"
  crsf_used :: nat
  crsf_expected_size :: nat

text \<open>The initializers of the members.\<close>

definition crsf_decoder_new :: CrsfFrameDecoder where
  "crsf_decoder_new = \<lparr>crsf_state = WaitingForAddress, crsf_buffer = replicate 64 0, crsf_used = 0, crsf_expected_size = 0\<rparr>"

definition crsf_reset :: "CrsfFrameDecoder \<Rightarrow> CrsfFrameDecoder" where
  "crsf_reset d = d\<lparr>crsf_state := WaitingForAddress, crsf_used := 0, crsf_expected_size := 0\<rparr>"

text \<open>The address byte starts a frame, in two of the states.\<close>

definition crsf_begin :: "u8 \<Rightarrow> CrsfFrameDecoder \<Rightarrow> CrsfFrameDecoder" where
  "crsf_begin byte d =
     (if byte \<noteq> 0xC8 then d
      else d\<lparr>crsf_buffer := (crsf_buffer d)[0 := byte], crsf_used := 1, crsf_state := WaitingForLength\<rparr>)"

definition crsf_take_length :: "u8 \<Rightarrow> CrsfFrameDecoder \<Rightarrow> CrsfFrameDecoder" where
  "crsf_take_length byte d =
     (if unat byte \<ge> 2 \<and> unat byte \<le> length (crsf_buffer d) - 2 then
        d\<lparr>crsf_buffer := (crsf_buffer d)[1 := byte], crsf_used := 2,
          crsf_expected_size := unat byte + 2, crsf_state := Collecting\<rparr>
      else crsf_begin byte (crsf_reset d))"

definition crsf_collect :: "u8 \<Rightarrow> CrsfFrameDecoder \<Rightarrow> CrsfFrame option \<times> CrsfFrameDecoder" where
  "crsf_collect byte d =
     (let d = d\<lparr>crsf_buffer := (crsf_buffer d)[crsf_used d := byte], crsf_used := crsf_used d + 1\<rparr>
      in if crsf_used d < crsf_expected_size d then (None, d)
         else
           let calculated_crc = fold (\<lambda>i crc. crsf_crc8_update crc (crsf_buffer d ! i)) [2..<Suc (crsf_expected_size d - 2)] 0
           in if calculated_crc = crsf_buffer d ! (crsf_expected_size d - 1) then
                let n = crsf_expected_size d - 4
                in (Some \<lparr>crsf_type = crsf_buffer d ! 2,
                          crsf_payload = buffer_write 0 (take n (drop 3 (crsf_buffer d))) (replicate 60 0),
                          crsf_payload_length = n\<rparr>,
                    crsf_reset d)
              else (None, crsf_reset d))"

definition crsf_feed_byte :: "u8 \<Rightarrow> CrsfFrameDecoder \<Rightarrow> CrsfFrame option \<times> CrsfFrameDecoder" where
  "crsf_feed_byte byte d =
     (case crsf_state d of
        WaitingForAddress \<Rightarrow> (None, crsf_begin byte d)
      | WaitingForLength \<Rightarrow> (None, crsf_take_length byte d)
      | Collecting \<Rightarrow> crsf_collect byte d)"

text \<open>The caller's loop over received bytes.\<close>

fun crsf_feed_all :: "u8 list \<Rightarrow> CrsfFrameDecoder \<Rightarrow> CrsfFrame list \<times> CrsfFrameDecoder" where
  "crsf_feed_all [] d = ([], d)"
| "crsf_feed_all (b # bs) d =
     (case crsf_feed_byte b d of (frame, d) \<Rightarrow>
        case crsf_feed_all bs d of (frames, d) \<Rightarrow>
          ((case frame of None \<Rightarrow> frames | Some f \<Rightarrow> f # frames), d))"

subsection \<open>The channels\<close>

text \<open>The inner loop takes bytes into the accumulator until it holds at least eleven bits.\<close>

function crsf_fill :: "u8 list \<Rightarrow> u32 \<times> nat \<times> nat \<Rightarrow> u32 \<times> nat \<times> nat" where
  "crsf_fill data (bits, available_bits, byte_index) =
     (if available_bits < 11
      then crsf_fill data (bits OR push_bit available_bits (ucast (data ! byte_index)), available_bits + 8, byte_index + 1)
      else (bits, available_bits, byte_index))"
  by pat_completeness auto
termination by (relation "measure (\<lambda>(_, _, a, _). 32 - a)") auto

declare crsf_fill.simps [simp del]

text \<open>
  The loop over the channels gives their values and leaves the accumulator, the number of bits in
  it and the index of the next byte. The index is the only one a byte is read at, and each
  reading advances it.
\<close>

fun crsf_unpack :: "u8 list \<Rightarrow> nat \<Rightarrow> u32 \<times> nat \<times> nat \<Rightarrow> u16 list \<times> u32 \<times> nat \<times> nat" where
  "crsf_unpack data 0 acc = ([], acc)"
| "crsf_unpack data (Suc n) acc =
     (case crsf_fill data acc of (bits, available_bits, byte_index) \<Rightarrow>
        case crsf_unpack data n (drop_bit 11 bits, available_bits - 11, byte_index) of
          (temp_values, acc) \<Rightarrow> (ucast (bits AND 0x07FF) # temp_values, acc))"

definition crsf_channels_decode :: "CrsfFrame \<Rightarrow> u16 list option" where
  "crsf_channels_decode frame =
     (if crsf_type frame \<noteq> 0x16 \<or> crsf_payload_length frame \<noteq> 22 then None
      else Some (fst (crsf_unpack (crsf_payload frame) 16 (0, 0, 0))))"

subsection \<open>What the decoder's state says about the bytes seen\<close>

definition crsf_crc8 :: "u8 list \<Rightarrow> u8" where
  "crsf_crc8 bs = foldl crsf_crc8_update 0 bs"

text \<open>The wire image of a frame.\<close>

definition crsf_image :: "CrsfFrame \<Rightarrow> u8 list" where
  "crsf_image f = (let body = crsf_type f # take (crsf_payload_length f) (crsf_payload f)
     in [0xC8, of_nat (length body + 1)] @ body @ [crsf_crc8 body])"

definition crsf_frame_wf :: "CrsfFrame \<Rightarrow> bool" where
  "crsf_frame_wf f \<longleftrightarrow> length (crsf_payload f) = 60 \<and> crsf_payload_length f \<le> 60 \<and>
     drop (crsf_payload_length f) (crsf_payload f) = replicate (60 - crsf_payload_length f) 0"

text \<open>The buffer begins with the last bytes seen, and there is room for the next one.\<close>

definition crsf_tracks :: "u8 list \<Rightarrow> CrsfFrameDecoder \<Rightarrow> bool" where
  "crsf_tracks bs d \<longleftrightarrow> length (crsf_buffer d) = 64 \<and>
     (case crsf_state d of
        WaitingForAddress \<Rightarrow> True
      | WaitingForLength \<Rightarrow> (\<exists>pre. bs = pre @ [0xC8] \<and> crsf_buffer d ! 0 = 0xC8)
      | Collecting \<Rightarrow> 2 \<le> crsf_used d \<and> crsf_used d < crsf_expected_size d \<and> 4 \<le> crsf_expected_size d \<and>
          crsf_expected_size d \<le> 64 \<and> crsf_buffer d ! 0 = 0xC8 \<and>
          crsf_expected_size d = unat (crsf_buffer d ! 1) + 2 \<and>
          (\<exists>pre. bs = pre @ take (crsf_used d) (crsf_buffer d)))"

lemma crsf_tracks_new: "crsf_tracks bs crsf_decoder_new"
  by (simp add: crsf_tracks_def crsf_decoder_new_def)

lemma crsf_tracks_reset: "length (crsf_buffer d) = 64 \<Longrightarrow> crsf_tracks bs (crsf_reset d)"
  by (simp add: crsf_tracks_def crsf_reset_def)

lemma crsf_tracks_begin:
  "length (crsf_buffer d) = 64 \<Longrightarrow> crsf_state d = WaitingForAddress \<Longrightarrow> crsf_tracks (bs @ [b]) (crsf_begin b d)"
  by (simp add: crsf_tracks_def crsf_begin_def)

lemma crsf_tracks_length:
  assumes "crsf_tracks bs d" and "crsf_state d = WaitingForLength"
  shows "crsf_tracks (bs @ [b]) (crsf_take_length b d)"
proof (cases "2 \<le> unat b \<and> unat b \<le> 62")
  case True
  obtain pre where pre: "bs = pre @ [0xC8]" "crsf_buffer d ! 0 = 0xC8" and len: "length (crsf_buffer d) = 64"
    using assms by (auto simp: crsf_tracks_def)
  have "take 2 ((crsf_buffer d)[1 := b]) = [0xC8, b]"
    using len pre(2) take_store [of 1 "crsf_buffer d" 2 b] by (cases "crsf_buffer d") simp_all
  with True pre len show ?thesis
    by (auto simp: crsf_tracks_def crsf_take_length_def)
next
  case False
  have len: "length (crsf_buffer d) = 64" using assms by (simp add: crsf_tracks_def)
  then have "crsf_take_length b d = crsf_begin b (crsf_reset d)" using False by (auto simp: crsf_take_length_def)
  then show ?thesis using crsf_tracks_begin [of "crsf_reset d" bs b] len by (simp add: crsf_reset_def)
qed

lemma fold_nth_segment:
  "m \<le> n \<Longrightarrow> n \<le> length xs \<Longrightarrow> fold (\<lambda>i acc. f acc (xs ! i)) [m..<n] a = foldl f a (take (n - m) (drop m xs))"
proof -
  assume "m \<le> n" "n \<le> length xs"
  then have seg: "take (n - m) (drop m xs) = map ((!) xs) [m..<n]"
    by (intro nth_equalityI) (simp_all add: add.commute)
  show ?thesis unfolding seg by (simp add: foldl_conv_fold fold_map comp_def)
qed

text \<open>A complete frame is its image in the buffer.\<close>

lemma crsf_complete_image:
  assumes "length buf = 64" and "4 \<le> n" and "n \<le> 64" and "buf ! 0 = 0xC8" and "n = unat (buf ! 1) + 2"
    and "crsf_crc8 (take (n - 3) (drop 2 buf)) = buf ! (n - 1)"
    and f: "f = \<lparr>crsf_type = buf ! 2, crsf_payload = buffer_write 0 (take (n - 4) (drop 3 buf)) (replicate 60 0), crsf_payload_length = n - 4\<rparr>"
  shows "take n buf = crsf_image f" and "crsf_frame_wf f"
proof -
  have len: "length (take (n - 4) (drop 3 buf)) = n - 4" using assms(1-3) by simp
  have pay: "take (n - 4) (crsf_payload f) = take (n - 4) (drop 3 buf)"
    unfolding f using len by (simp add: buffer_write_def)
  have body: "buf ! 2 # take (n - 4) (drop 3 buf) = take (n - 3) (drop 2 buf)"
  proof -
    have "drop 2 buf = buf ! 2 # drop 3 buf" using assms(1) Cons_nth_drop_Suc [of 2 buf] by simp
    moreover have "n - 3 = Suc (n - 4)" using assms(2) by simp
    ultimately show ?thesis by simp
  qed
  have "take n buf = take 2 buf @ take (n - 3) (drop 2 buf) @ [buf ! (n - 1)]"
  proof -
    have "take n buf = take (n - 1) buf @ [buf ! (n - 1)]"
      using assms(1-3) take_Suc_conv_app_nth [of "n - 1" buf] by simp
    moreover have "take (n - 1) buf = take 2 buf @ take (n - 3) (drop 2 buf)"
    proof -
      have "n - 1 = 2 + (n - 3)" using assms(2) by simp
      then show ?thesis by (simp only: take_add)
    qed
    ultimately show ?thesis by simp
  qed
  moreover have "take 2 buf = [buf ! 0, buf ! 1]" using assms(1)
    by (cases buf; cases "tl buf") (auto simp: numeral_eq_Suc)
  moreover have "(of_nat (n - 2) :: u8) = buf ! 1" using assms(5) by simp
  moreover have "n - 4 + 2 = n - 2" using assms(2) by simp
  ultimately show "take n buf = crsf_image f"
    using assms(1-4,6) pay body by (simp add: crsf_image_def f Let_def len)
  show "crsf_frame_wf f"
    using assms(2,3) len by (simp add: crsf_frame_wf_def f buffer_write_def)
qed

lemma crsf_tracks_collect:
  assumes "crsf_tracks bs d" and "crsf_state d = Collecting" and "crsf_collect b d = (out, d')"
  shows "(case out of None \<Rightarrow> crsf_tracks (bs @ [b]) d'
    | Some f \<Rightarrow> crsf_tracks [] d' \<and> crsf_frame_wf f \<and> (\<exists>pre. bs @ [b] = pre @ crsf_image f))"
proof -
  let ?k = "crsf_used d" and ?n = "crsf_expected_size d" and ?buf = "(crsf_buffer d)[crsf_used d := b]"
  obtain pre where tr: "length (crsf_buffer d) = 64" "2 \<le> ?k" "?k < ?n" "4 \<le> ?n" "?n \<le> 64"
    "crsf_buffer d ! 0 = 0xC8" "?n = unat (crsf_buffer d ! 1) + 2" "bs = pre @ take ?k (crsf_buffer d)"
    using assms(1,2) by (auto simp: crsf_tracks_def)
  have buf: "length ?buf = 64" "?buf ! 0 = 0xC8" "?buf ! 1 = crsf_buffer d ! 1" using tr by simp_all
  have seen: "bs @ [b] = pre @ take (Suc ?k) ?buf" using tr take_store [of ?k "crsf_buffer d" "Suc ?k" b] by simp
  show ?thesis
  proof (cases "Suc ?k < ?n")
    case True
    then have "out = None" "d' = d\<lparr>crsf_buffer := ?buf, crsf_used := Suc ?k\<rparr>" using assms(3) by (simp_all add: crsf_collect_def)
    with True tr buf seen assms(2) show ?thesis by (auto simp: crsf_tracks_def)
  next
    case False
    then have n: "?n = Suc ?k" using tr(3) by simp
    let ?f = "\<lparr>crsf_type = ?buf ! 2, crsf_payload = buffer_write 0 (take (?n - 4) (drop 3 ?buf)) (replicate 60 0), crsf_payload_length = ?n - 4\<rparr>"
    have "Suc (?n - 2) - 2 = ?n - 3" "2 \<le> Suc (?n - 2)" "Suc (?n - 2) \<le> length ?buf" using tr by simp_all
    then have crc: "fold (\<lambda>i crc. crsf_crc8_update crc (?buf ! i)) [2..<Suc (?n - 2)] 0 = crsf_crc8 (take (?n - 3) (drop 2 ?buf))"
      unfolding crsf_crc8_def by (subst fold_nth_segment) simp_all
    have "d' = crsf_reset (d\<lparr>crsf_buffer := ?buf, crsf_used := Suc ?k\<rparr>)" and
      out: "out = (if crsf_crc8 (take (?n - 3) (drop 2 ?buf)) = ?buf ! (?n - 1) then Some ?f else None)"
      using assms(3) False by (simp_all add: crsf_collect_def crc Let_def del: upt_Suc split: if_splits)
    then have d': "crsf_tracks xs d'" for xs using crsf_tracks_reset buf(1) by simp
    show ?thesis
    proof (cases "crsf_crc8 (take (?n - 3) (drop 2 ?buf)) = ?buf ! (?n - 1)")
      case True
      note im = crsf_complete_image [OF buf(1) tr(4,5) buf(2) _ True refl]
      with True out d' seen n tr(7) buf(3) show ?thesis by auto
    qed (use out d' in simp)
  qed
qed

lemma crsf_feed_tracks:
  assumes "crsf_tracks bs d" and "crsf_feed_byte b d = (out, d')"
  shows "(case out of None \<Rightarrow> crsf_tracks (bs @ [b]) d'
    | Some f \<Rightarrow> crsf_tracks [] d' \<and> crsf_frame_wf f \<and> (\<exists>pre. bs @ [b] = pre @ crsf_image f))"
proof (cases "crsf_state d")
  case WaitingForAddress
  with assms crsf_tracks_begin [of d bs b] show ?thesis by (auto simp: crsf_feed_byte_def crsf_tracks_def)
next
  case WaitingForLength
  with assms crsf_tracks_length [of bs d b] show ?thesis by (auto simp: crsf_feed_byte_def)
next
  case Collecting
  with assms crsf_tracks_collect [of bs d b out d'] show ?thesis by (simp add: crsf_feed_byte_def)
qed

text \<open>Images with skipped bytes in front of each.\<close>

fun crsf_interleave :: "u8 list list \<Rightarrow> CrsfFrame list \<Rightarrow> u8 list" where
  "crsf_interleave (gap # gaps) (f # fs) = gap @ crsf_image f @ crsf_interleave gaps fs"
| "crsf_interleave _ _ = []"

lemma crsf_feed_all_tracks:
  "crsf_tracks seen d \<Longrightarrow> crsf_feed_all bs d = (fs, d') \<Longrightarrow>
     \<exists>gaps tail. length gaps = length fs \<and> seen @ bs = crsf_interleave gaps fs @ tail \<and> list_all crsf_frame_wf fs \<and> crsf_tracks tail d'"
proof (induction bs arbitrary: seen d fs)
  case Nil
  then show ?case by (intro exI [of _ "[]"] exI [of _ seen]) simp
next
  case (Cons b bs)
  obtain out d1 where f: "crsf_feed_byte b d = (out, d1)" by fastforce
  obtain fs1 d2 where r: "crsf_feed_all bs d1 = (fs1, d2)" by fastforce
  have "d2 = d'" using Cons.prems(2) f r by (simp split: option.splits)
  note tr = crsf_feed_tracks [OF Cons.prems(1) f]
  show ?case
  proof (cases out)
    case None
    with Cons.IH [of "seen @ [b]" d1 fs1] tr r \<open>d2 = d'\<close> Cons.prems(2) f show ?thesis by simp
  next
    case (Some fr)
    with tr obtain pre where pre: "crsf_tracks [] d1" "crsf_frame_wf fr" "seen @ [b] = pre @ crsf_image fr" by auto
    with Cons.IH [of "[]" d1 fs1] r \<open>d2 = d'\<close> obtain gaps tail where
      "length gaps = length fs1" "bs = crsf_interleave gaps fs1 @ tail" "list_all crsf_frame_wf fs1" "crsf_tracks tail d'" by auto
    moreover have "fs = fr # fs1" using Cons.prems(2) Some f r by simp
    moreover have "seen @ b # bs = (seen @ [b]) @ bs" by simp
    ultimately show ?thesis using pre
      by (intro exI [of _ "pre # gaps"] exI [of _ tail]) simp
  qed
qed

subsection \<open>Delivery\<close>

lemma crsf_feed_all_append:
  "crsf_feed_all (xs @ ys) d = (case crsf_feed_all xs d of (fs, d1) \<Rightarrow> case crsf_feed_all ys d1 of (gs, d2) \<Rightarrow> (fs @ gs, d2))"
  by (induction xs arbitrary: d) (auto split: prod.splits option.splits)

lemma crsf_feed_noise: "crsf_state d = WaitingForAddress \<Longrightarrow> 0xC8 \<notin> set bs \<Longrightarrow> crsf_feed_all bs d = ([], d)"
  by (induction bs) (auto simp: crsf_feed_byte_def crsf_begin_def)

text \<open>While the bytes of a frame come in they are stored one after the other.\<close>

lemma crsf_feed_collecting:
  assumes "crsf_state d = Collecting" and "crsf_used d + length bs < crsf_expected_size d" and "crsf_expected_size d \<le> length (crsf_buffer d)"
  shows "crsf_feed_all bs d =
    ([], d\<lparr>crsf_buffer := buffer_write (crsf_used d) bs (crsf_buffer d), crsf_used := crsf_used d + length bs\<rparr>)"
  using assms
proof (induction bs arbitrary: d)
  case (Cons b bs)
  let ?d = "d\<lparr>crsf_buffer := (crsf_buffer d)[crsf_used d := b], crsf_used := Suc (crsf_used d)\<rparr>"
  have "crsf_feed_byte b d = (None, ?d)" using Cons.prems by (simp add: crsf_feed_byte_def crsf_collect_def)
  moreover have "buffer_write (Suc (crsf_used d)) bs ((crsf_buffer d)[crsf_used d := b]) = buffer_write (crsf_used d) (b # bs) (crsf_buffer d)"
    using Cons.prems take_store [of "crsf_used d" "crsf_buffer d" "Suc (crsf_used d)" b] by (simp add: buffer_write_def)
  ultimately show ?case using Cons.IH [of ?d] Cons.prems by simp
qed simp

text \<open>The last byte of an image completes the frame.\<close>

lemma crsf_collect_last:
  assumes "crsf_frame_wf f" and "body = crsf_type f # take (crsf_payload_length f) (crsf_payload f)"
    and "crsf_state d = Collecting" and "crsf_used d = length body + 2" and "crsf_expected_size d = length body + 3"
    and "crsf_buffer d = [0xC8, L] @ body @ x # rest"
  shows "crsf_collect (crsf_crc8 body) d = (Some f, crsf_reset (d\<lparr>crsf_buffer := [0xC8, L] @ body @ crsf_crc8 body # rest\<rparr>))"
proof -
  let ?p = "take (crsf_payload_length f) (crsf_payload f)" and ?b = "[0xC8, L] @ body @ crsf_crc8 body # rest"
  have n: "length body = crsf_payload_length f + 1" and len: "length ?p = crsf_payload_length f"
    using assms(1,2) by (simp_all add: crsf_frame_wf_def)
  have store: "(crsf_buffer d)[crsf_used d := crsf_crc8 body] = ?b"
    using assms(4,6) by (simp add: list_update_append)
  have "fold (\<lambda>i crc. crsf_crc8_update crc (?b ! i)) [2..<Suc (length body + 1)] 0 =
      foldl crsf_crc8_update 0 (take (Suc (length body + 1) - 2) (drop 2 ?b))"
    by (rule fold_nth_segment) simp_all
  then have crc: "fold (\<lambda>i crc. crsf_crc8_update crc (?b ! i)) [2..<Suc (length body + 1)] 0 = crsf_crc8 body"
    by (simp add: crsf_crc8_def numeral_2_eq_2 del: upt_Suc)
  have "?b ! (length body + 2) = crsf_crc8 body" "?b ! 2 = crsf_type f" "take (crsf_payload_length f) (drop 3 ?b) = ?p"
    using assms(2) len by (simp_all add: nth_append numeral_eq_Suc)
  moreover have "buffer_write 0 ?p (replicate 60 0) = crsf_payload f"
    using assms(1) len append_take_drop_id [of "crsf_payload_length f" "crsf_payload f"]
    by (simp add: buffer_write_def crsf_frame_wf_def)
  moreover have "length (crsf_payload f) = 60" "crsf_payload_length f \<le> 60" using assms(1) by (simp_all add: crsf_frame_wf_def)
  ultimately show ?thesis
    using store crc n assms(4,5) by (simp add: crsf_collect_def crsf_reset_def Let_def del: upt_Suc)
qed

lemma crsf_feed_image:
  assumes "crsf_frame_wf f" and "crsf_state d = WaitingForAddress" and "length (crsf_buffer d) = 64"
  shows "\<exists>d'. crsf_feed_all (crsf_image f) d = ([f], d') \<and> crsf_state d' = WaitingForAddress \<and> length (crsf_buffer d') = 64"
proof -
  define body where "body = crsf_type f # take (crsf_payload_length f) (crsf_payload f)"
  define L :: u8 where "L = of_nat (length body + 1)"
  have n: "1 \<le> length body" "length body \<le> 61" using assms(1) by (simp_all add: body_def crsf_frame_wf_def)
  have "unat (of_nat m :: u8) = m" if "m < 256" for m using that by (simp add: unat_of_nat take_bit_nat_eq_self)
  from this [of "length body + 1"] n have L: "unat L = length body + 1" unfolding L_def by linarith
  obtain x y rest where buf: "crsf_buffer d = x # y # rest" "length rest = 62"
    using assms(3) by (cases "crsf_buffer d"; cases "tl (crsf_buffer d)") auto
  let ?d2 = "d\<lparr>crsf_buffer := 0xC8 # L # rest, crsf_used := 2, crsf_expected_size := length body + 3, crsf_state := Collecting\<rparr>"
  have two: "crsf_feed_all [0xC8, L] d = ([], ?d2)"
    using assms(2) n L buf by (simp add: crsf_feed_byte_def crsf_begin_def crsf_take_length_def numeral_eq_Suc)
  let ?d3 = "?d2\<lparr>crsf_buffer := [0xC8, L] @ body @ drop (length body) rest, crsf_used := length body + 2\<rparr>"
  have three: "crsf_feed_all body ?d2 = ([], ?d3)"
    using crsf_feed_collecting [of ?d2 body] n buf(2) by (simp add: buffer_write_def numeral_2_eq_2)
  obtain z rest' where z: "drop (length body) rest = z # rest'" "length rest' = 61 - length body"
    using n buf(2) by (cases "drop (length body) rest") (auto dest: arg_cong [where f = length])
  have four: "crsf_collect (crsf_crc8 body) ?d3 = (Some f, crsf_reset (?d3\<lparr>crsf_buffer := [0xC8, L] @ body @ crsf_crc8 body # rest'\<rparr>))"
    by (rule crsf_collect_last [OF assms(1) body_def, where x = z]) (simp_all add: z)
  have "crsf_image f = [0xC8, L] @ body @ [crsf_crc8 body]" by (simp add: crsf_image_def body_def L_def Let_def)
  then show ?thesis
    using two three four n z(2) by (simp add: crsf_feed_all_append crsf_feed_byte_def crsf_reset_def del: append_Cons)
qed

lemma crsf_feed_interleaved:
  assumes "crsf_state d = WaitingForAddress" and "length (crsf_buffer d) = 64" and "list_all crsf_frame_wf fs"
    and "length gaps = length fs" and "list_all (\<lambda>gap. 0xC8 \<notin> set gap) gaps"
  shows "\<exists>d'. crsf_feed_all (crsf_interleave gaps fs) d = (fs, d') \<and> crsf_state d' = WaitingForAddress"
  using assms(4,1-3,5)
proof (induction gaps fs arbitrary: d rule: list_induct2)
  case (Cons gap gaps f fs)
  then have wf: "crsf_frame_wf f" "0xC8 \<notin> set gap" by simp_all
  from crsf_feed_image [OF wf(1) Cons.prems(1,2)] obtain d1 where
    d1: "crsf_feed_all (crsf_image f) d = ([f], d1)" "crsf_state d1 = WaitingForAddress" "length (crsf_buffer d1) = 64" by blast
  from Cons.IH [OF d1(2,3)] Cons.prems obtain d2 where
    "crsf_feed_all (crsf_interleave gaps fs) d1 = (fs, d2)" "crsf_state d2 = WaitingForAddress" by auto
  with d1(1) crsf_feed_noise [OF Cons.prems(1) wf(2)] show ?case by (simp add: crsf_feed_all_append)
qed simp

subsection \<open>The bits of a channel\<close>

text \<open>
  The accumulator holds the bits of the payload from position \<open>start\<close> on, \<open>available\<close> of them, and
  the next byte is the one after them.
\<close>

definition crsf_bit :: "u8 list \<Rightarrow> nat \<Rightarrow> bool" where
  "crsf_bit data k = bit (data ! (k div 8)) (k mod 8)"

definition crsf_acc_ok :: "u8 list \<Rightarrow> nat \<Rightarrow> u32 \<times> nat \<times> nat \<Rightarrow> bool" where
  "crsf_acc_ok data start acc = (case acc of (bits, available, index) \<Rightarrow>
     start + available = 8 * index \<and> available < 19 \<and>
     (\<forall>k. bit bits k \<longleftrightarrow> k < available \<and> crsf_bit data (start + k)))"

lemma crsf_acc_okI:
  "start + available = 8 * index \<Longrightarrow> available < 19 \<Longrightarrow> (\<And>k. bit bits k \<longleftrightarrow> k < available \<and> crsf_bit data (start + k)) \<Longrightarrow>
     crsf_acc_ok data start (bits, available, index)"
  unfolding crsf_acc_ok_def by simp

lemma crsf_acc_okD:
  assumes "crsf_acc_ok data start (bits, available, index)"
  shows "start + available = 8 * index" and "available < 19" and "bit bits k \<longleftrightarrow> k < available \<and> crsf_bit data (start + k)"
  using assms unfolding crsf_acc_ok_def prod.case by blast+

lemma crsf_fill_ok:
  "crsf_acc_ok data start acc \<Longrightarrow> crsf_acc_ok data start (crsf_fill data acc) \<and> 11 \<le> fst (snd (crsf_fill data acc))"
proof (induction data acc rule: crsf_fill.induct)
  case (1 data bits available index)
  show ?case
  proof (cases "available < 11")
    case True
    note st = crsf_acc_okD(1,3) [OF 1(2)]
    let ?w = "bits OR push_bit available (ucast (data ! index)) :: u32"
    have bits: "bit ?w k \<longleftrightarrow> k < available + 8 \<and> crsf_bit data (start + k)" for k
    proof -
      have "bit (push_bit available (ucast (data ! index)) :: u32) k \<longleftrightarrow> available \<le> k \<and> k < available + 8 \<and> bit (data ! index) (k - available)"
      proof (cases "available \<le> k \<and> k < available + 8")
        case True
        then have "k - available < 32" by linarith
        with True \<open>available < 11\<close> show ?thesis by (simp add: bit_push_bit_iff bit_ucast_iff)
      next
        case False
        with bit_imp_le_length [of "data ! index" "k - available"] show ?thesis by (auto simp: bit_push_bit_iff bit_ucast_iff)
      qed
      moreover have "crsf_bit data (start + k) \<longleftrightarrow> bit (data ! index) (k - available)" if "available \<le> k" "k < available + 8"
      proof -
        have "k - available < 8" using that by simp
        moreover have "start + k = (k - available) + 8 * index" using st(1) that by linarith
        ultimately have "(start + k) div 8 = index" "(start + k) mod 8 = k - available"
          by (simp_all only: div_mult_self2 mod_mult_self2 div_less mod_less)
        then show ?thesis by (simp only: crsf_bit_def)
      qed
      ultimately show ?thesis unfolding bit_or_iff st(2) [of k] by (cases "k < available") auto
    qed
    have "crsf_acc_ok data start (?w, available + 8, index + 1)"
      by (rule crsf_acc_okI [OF _ _ bits]) (use st(1) True in simp_all)
    note IH = 1(1) [OF True this]
    have "crsf_fill data (bits, available, index) = crsf_fill data (?w, available + 8, index + 1)"
      using True by (subst crsf_fill.simps) (rule if_P)
    with IH show ?thesis by (simp only:)
  next
    case False
    then have "crsf_fill data (bits, available, index) = (bits, available, index)"
      by (subst crsf_fill.simps) (rule if_not_P)
    with 1(2) False show ?thesis by simp
  qed
qed

lemma crsf_channel_bits: "bit (ucast (bits AND 0x07FF :: u32) :: u16) k \<longleftrightarrow> k < 11 \<and> bit bits k"
proof -
  have "(0x07FF :: u32) = mask 11" by (simp add: mask_eq_exp_minus_1)
  show ?thesis unfolding \<open>0x07FF = mask 11\<close> by (auto simp: bit_simps)
qed

lemma crsf_channel_taken:
  assumes "crsf_acc_ok data start acc" and f: "crsf_fill data acc = (bits, available, index)"
  shows "crsf_acc_ok data (start + 11) (drop_bit 11 bits, available - 11, index)" and "available - 11 < 8"
    and "bit (ucast (bits AND 0x07FF :: u32) :: u16) k \<longleftrightarrow> k < 11 \<and> crsf_bit data (start + k)"
proof -
  from crsf_fill_ok [OF assms(1)] f have ok: "crsf_acc_ok data start (bits, available, index)" "11 \<le> available" by simp_all
  note bits = crsf_acc_okD(3) [OF ok(1)]
  have "start + 11 + (available - 11) = 8 * index" "available - 11 < 19" using ok(2) crsf_acc_okD(1,2) [OF ok(1)] by simp_all
  moreover have "bit (drop_bit 11 bits) k \<longleftrightarrow> k < available - 11 \<and> crsf_bit data (start + 11 + k)" for k
    unfolding bit_drop_bit_eq comp_def bits [of "11 + k"] using ok(2) by (auto simp: add.assoc)
  ultimately show "crsf_acc_ok data (start + 11) (drop_bit 11 bits, available - 11, index)" by (rule crsf_acc_okI)
  show "available - 11 < 8" using crsf_acc_okD(2) [OF ok(1)] by simp
  show "bit (ucast (bits AND 0x07FF :: u32) :: u16) k \<longleftrightarrow> k < 11 \<and> crsf_bit data (start + k)"
    unfolding crsf_channel_bits bits using ok(2) by auto
qed

lemma crsf_unpack_bits:
  assumes "crsf_acc_ok data start acc" and "crsf_unpack data n acc = (values, acc')"
  shows "length values = n \<and>
    (\<forall>i < n. \<forall>k. bit (values ! i) k \<longleftrightarrow> k < 11 \<and> crsf_bit data (start + 11 * i + k)) \<and>
    crsf_acc_ok data (start + 11 * n) acc' \<and> (fst (snd acc) < 8 \<longrightarrow> fst (snd acc') < 8)"
  using assms
proof (induction n arbitrary: start acc "values")
  case (Suc n)
  obtain bits available index where f: "crsf_fill data acc = (bits, available, index)" by (cases "crsf_fill data acc") auto
  obtain vs where u: "crsf_unpack data n (drop_bit 11 bits, available - 11, index) = (vs, acc')"
    and vs: "values = ucast (bits AND 0x07FF) # vs" using Suc.prems(2) f by (auto split: prod.splits)
  note taken = crsf_channel_taken [OF Suc.prems(1) f]
  note IH = Suc.IH [OF taken(1) u]
  have "bit (values ! i) k \<longleftrightarrow> k < 11 \<and> crsf_bit data (start + 11 * i + k)" if "i < Suc n" for i k
  proof (cases i)
    case 0
    with vs taken(3) show ?thesis by simp
  next
    case (Suc j)
    then have "start + 11 + 11 * j + k = start + 11 * i + k" by simp
    moreover have "values ! i = vs ! j" "j < n" using Suc vs that by simp_all
    ultimately show ?thesis using IH by metis
  qed
  moreover have "start + 11 + 11 * n = start + 11 * Suc n" by simp
  ultimately show ?case using IH vs taken(2) by (metis fst_conv snd_conv length_Cons)
qed simp

text \<open>The bytes that are read: those below the index, and the result depends on no other.\<close>

lemma crsf_fill_reads:
  "snd (snd acc) \<le> snd (snd (crsf_fill data acc)) \<and>
   ((\<forall>j < snd (snd (crsf_fill data acc)). data' ! j = data ! j) \<longrightarrow> crsf_fill data' acc = crsf_fill data acc)"
proof (induction data acc rule: crsf_fill.induct)
  case (1 data bits available index)
  show ?case
  proof (cases "available < 11")
    case True
    let ?acc = "(bits OR push_bit available (ucast (data ! index)), available + 8, index + 1)"
    have eq: "crsf_fill data (bits, available, index) = crsf_fill data ?acc" using True by (subst crsf_fill.simps) (rule if_P)
    have eq': "crsf_fill data' (bits, available, index) = crsf_fill data' ?acc" if "data' ! index = data ! index"
      using True that by (subst crsf_fill.simps) simp
    from 1 [OF True] show ?thesis unfolding eq using eq' by auto
  next
    case False
    then show ?thesis by (simp add: crsf_fill.simps)
  qed
qed

lemma crsf_unpack_reads:
  assumes "crsf_unpack data n acc = (values, bits', available', index')"
  shows "snd (snd acc) \<le> index' \<and> ((\<forall>j < index'. data' ! j = data ! j) \<longrightarrow> crsf_unpack data' n acc = crsf_unpack data n acc)"
  using assms
proof (induction n arbitrary: acc "values")
  case (Suc n)
  obtain bits available index where f: "crsf_fill data acc = (bits, available, index)" by (cases "crsf_fill data acc") auto
  then obtain vs where u: "crsf_unpack data n (drop_bit 11 bits, available - 11, index) = (vs, bits', available', index')"
    using Suc.prems by (auto split: prod.splits)
  from Suc.IH [OF u] crsf_fill_reads [of acc data data'] f show ?case by auto
qed simp

text \<open>After \<open>n\<close> channels just the bytes with their bits have been read.\<close>

lemma crsf_unpack_index:
  assumes "crsf_unpack data n (0, 0, 0) = (values, bits, available, index)"
  shows "index = (11 * n + 7) div 8" and "available = 8 * index - 11 * n" and "available = 0 \<Longrightarrow> bits = 0"
proof -
  have "crsf_acc_ok data 0 (0, 0, 0)" by (rule crsf_acc_okI) simp_all
  from crsf_unpack_bits [OF this assms] have ok: "crsf_acc_ok data (11 * n) (bits, available, index)" "available < 8" by simp_all
  note st = crsf_acc_okD [OF ok(1)]
  show "index = (11 * n + 7) div 8" using st(1) ok(2) by linarith
  show "available = 8 * index - 11 * n" using st(1) by linarith
  show "bits = 0" if "available = 0" by (rule bit_eqI) (use st(3) that in simp)
qed

subsection \<open>Properties\<close>

text \<open>
  C29: The radio frames are delivered exactly. On any byte stream the delivered frames are, in
  order and without overlap, the complete wire images found in the stream, with correct
  checksums and payloads that fit their array; and a stream of wire images with bytes other
  than the address byte in front of each is delivered completely.
\<close>

theorem crsf_frames_exact:
  "(\<exists>gaps tail. let fs = fst (crsf_feed_all bs crsf_decoder_new) in
      length gaps = length fs \<and> bs = crsf_interleave gaps fs @ tail \<and> list_all crsf_frame_wf fs) \<and>
   (list_all crsf_frame_wf fs \<and> length gaps = length fs \<and> list_all (\<lambda>gap. 0xC8 \<notin> set gap) gaps \<longrightarrow>
      fst (crsf_feed_all (crsf_interleave gaps fs) crsf_decoder_new) = fs)"
proof -
  obtain gs d where "crsf_feed_all bs crsf_decoder_new = (gs, d)" by fastforce
  from crsf_feed_all_tracks [OF crsf_tracks_new this, of "[]"] this
  have "\<exists>gaps tail. let fs = fst (crsf_feed_all bs crsf_decoder_new) in
     length gaps = length fs \<and> bs = crsf_interleave gaps fs @ tail \<and> list_all crsf_frame_wf fs" by auto
  moreover have "crsf_state crsf_decoder_new = WaitingForAddress" "length (crsf_buffer crsf_decoder_new) = 64"
    by (simp_all add: crsf_decoder_new_def)
  ultimately show ?thesis using crsf_feed_interleaved [of crsf_decoder_new fs gaps] by auto
qed

definition sample_crsf :: "u8 list \<Rightarrow> CrsfFrame" where
  "sample_crsf bs = \<lparr>crsf_type = 0x16, crsf_payload = buffer_write 0 bs (replicate 60 0), crsf_payload_length = length bs\<rparr>"

lemma crsf_frames_exact_witness:
  "fst (crsf_feed_all (crsf_interleave [[7], []] [sample_crsf [1, 2, 3], sample_crsf []]) crsf_decoder_new) =
     [sample_crsf [1, 2, 3], sample_crsf []]"
  using crsf_frames_exact [of "[]" "[sample_crsf [1, 2, 3], sample_crsf []]" "[[7], []]"]
  by (simp add: crsf_frame_wf_def sample_crsf_def buffer_write_def)

text \<open>
  C30: The channel values are the bits of the payload. A frame of another type or length gives no
  channels; otherwise there are sixteen, and bit k of channel i is, for k below eleven, bit
  11 i + k of the payload read from the least significant bit of its first byte on. The loop
  reads no byte before its bits are needed: after n channels its byte index has advanced to
  (11 n + 7) div 8. So after the sixteen channels it has read the 22 bytes of the payload and used
  every bit of them, and nothing it computed, the accumulator included, depends on any other byte.
\<close>

theorem crsf_channels_are_bits:
  "(case crsf_channels_decode f of
      None \<Rightarrow> crsf_type f \<noteq> 0x16 \<or> crsf_payload_length f \<noteq> 22
    | Some values \<Rightarrow> crsf_type f = 0x16 \<and> crsf_payload_length f = 22 \<and> length values = 16 \<and>
        crsf_unpack (crsf_payload f) 16 (0, 0, 0) = (values, 0, 0, crsf_payload_length f) \<and>
        (\<forall>i < 16. \<forall>k. bit (values ! i) k \<longleftrightarrow> k < 11 \<and> bit (crsf_payload f ! ((11 * i + k) div 8)) ((11 * i + k) mod 8)) \<and>
        (\<forall>v \<in> set values. unat v < 2048)) \<and>
   (\<forall>n \<le> 16. snd (snd (snd (crsf_unpack (crsf_payload f) n (0, 0, 0)))) = (11 * n + 7) div 8) \<and>
   (\<forall>data. take 22 data = take 22 (crsf_payload f) \<longrightarrow>
      crsf_unpack data 16 (0, 0, 0) = crsf_unpack (crsf_payload f) 16 (0, 0, 0))"
proof -
  have ok: "crsf_acc_ok (crsf_payload f) 0 (0, 0, 0)" by (rule crsf_acc_okI) simp_all
  obtain vs b a ix where run: "crsf_unpack (crsf_payload f) 16 (0, 0, 0) = (vs, b, a, ix)" by (metis prod_cases4)
  note u = crsf_unpack_bits [OF ok run, unfolded crsf_bit_def add_0]
  have acc: "ix = 22" "a = 0" "b = 0" using crsf_unpack_index [OF run] by simp_all
  have small: "unat v < 2048" if v: "v \<in> set vs" for v
  proof -
    obtain i where i: "i < 16" "v = vs ! i" using v u by (metis in_set_conv_nth)
    have "v = take_bit 11 v" by (rule bit_word_eqI) (use u i in \<open>auto simp: bit_take_bit_iff\<close>)
    then have "unat v = take_bit 11 (unat v)" by (metis unsigned_take_bit_eq)
    also have "\<dots> < 2048" using take_bit_nat_less_exp [of 11 "unat v"] by simp
    finally show ?thesis .
  qed
  have "snd (snd (snd (crsf_unpack (crsf_payload f) n (0, 0, 0)))) = (11 * n + 7) div 8" for n
    using crsf_unpack_index(1) [of "crsf_payload f" n] by (metis prod.collapse)
  moreover have "crsf_unpack data 16 (0, 0, 0) = crsf_unpack (crsf_payload f) 16 (0, 0, 0)"
    if "take 22 data = take 22 (crsf_payload f)" for data
  proof -
    have "\<forall>j < ix. data ! j = crsf_payload f ! j" unfolding acc(1) using that by (metis nth_take)
    with crsf_unpack_reads [OF run] show ?thesis by blast
  qed
  moreover have "case crsf_channels_decode f of
      None \<Rightarrow> crsf_type f \<noteq> 0x16 \<or> crsf_payload_length f \<noteq> 22
    | Some values \<Rightarrow> crsf_type f = 0x16 \<and> crsf_payload_length f = 22 \<and> length values = 16 \<and>
        crsf_unpack (crsf_payload f) 16 (0, 0, 0) = (values, 0, 0, crsf_payload_length f) \<and>
        (\<forall>i < 16. \<forall>k. bit (values ! i) k \<longleftrightarrow> k < 11 \<and> bit (crsf_payload f ! ((11 * i + k) div 8)) ((11 * i + k) mod 8)) \<and>
        (\<forall>v \<in> set values. unat v < 2048)"
    using u small run acc by (simp add: crsf_channels_decode_def)
  ultimately show ?thesis by blast
qed

definition sample_sticks :: "u8 list" where
  "sample_sticks = [0xE0, 0x03, 0x1F, 0xF8, 0xC0, 0x07, 0x3E, 0xF0, 0x81, 0x0F, 0x7C, 0xE0, 0x03, 0x1F, 0xF8, 0xC0, 0x07, 0x3E, 0xF0, 0x81, 0x0F, 0x7C]"

lemma sample_sticks_centered: "crsf_channels_decode (sample_crsf sample_sticks) = Some (replicate 16 992)"
  by code_simp

lemma crsf_channels_are_bits_witness:
  "crsf_channels_decode (sample_crsf sample_sticks) = Some (replicate 16 992) \<and>
   crsf_unpack (sample_sticks @ [0xFF]) 16 (0, 0, 0) = (replicate 16 992, 0, 0, 22) \<and>
   (bit (992 :: u16) 5 \<longleftrightarrow> bit (crsf_payload (sample_crsf sample_sticks) ! ((11 * 4 + 5) div 8)) ((11 * 4 + 5) mod 8))"
proof -
  let ?f = "sample_crsf sample_sticks"
  have "crsf_payload_length ?f = 22" "take 22 (sample_sticks @ [0xFF]) = take 22 (crsf_payload ?f)"
    by (simp_all add: sample_crsf_def sample_sticks_def buffer_write_def)
  then have run: "crsf_unpack (sample_sticks @ [0xFF]) 16 (0, 0, 0) = (replicate 16 992, 0, 0, 22)"
    and "\<forall>i < 16. \<forall>k. bit (replicate 16 (992 :: u16) ! i) k \<longleftrightarrow>
      k < 11 \<and> bit (crsf_payload ?f ! ((11 * i + k) div 8)) ((11 * i + k) mod 8)"
    using crsf_channels_are_bits [of ?f] unfolding sample_sticks_centered by simp_all
  from this(2) [rule_format, of 4 5] run sample_sticks_centered show ?thesis by simp
qed

end
