(* ===== verification/Linux_Serial.thy ===== *)
theory Linux_Serial
  imports Protocol_Frame "HOL-Library.Monad_Syntax" "HOL-Library.Signed_Division"
begin

section \<open>The peer's serial port (linux\_serial\_port.cpp, protocol\_frame\_sender.cpp)\<close>

text \<open>
  The client on the Raspberry Pi reaches the serial line through system calls. What they answer,
  what the steady clock reads and what the random generator draws is arbitrary: a \<open>Host\<close> holds
  the answers to come, by the number of the interaction, next to the file descriptor of the
  port and the bytes the kernel has taken. A clock reading is a number of nanoseconds.

  The loops of the port repeat an interrupted call and the sender's loop repeats until all
  bytes are written, so each may run forever on some host: they are \<open>None\<close> there. On a host that
  lets them make progress they return, which is the last part of this theory.
\<close>

subsection \<open>The host\<close>

datatype errno = EINTR | EAGAIN | EWOULDBLOCK | EOTHER

text \<open>What \<^verbatim>\<open>poll\<close>, \<^verbatim>\<open>read\<close> and \<^verbatim>\<open>write\<close> answer: their result, or the error number.\<close>

record poll_revents =
  POLLIN :: bool
  POLLOUT :: bool
  POLLERR :: bool
  POLLHUP :: bool
  POLLNVAL :: bool

datatype poll_answer = Ready poll_revents | Poll_Timeout | Poll_Error errno
datatype read_answer = Read_Bytes "u8 list" | Read_Error errno
datatype write_answer = Write_Count nat | Write_Error errno

record Host =
  host_clock :: "nat \<Rightarrow> int"
  host_poll :: "nat \<Rightarrow> bool \<Rightarrow> int \<Rightarrow> poll_answer"
  host_read :: "nat \<Rightarrow> read_answer"
  host_write :: "nat \<Rightarrow> write_answer"
  host_open :: "nat \<Rightarrow> int"
  host_ioctl :: "nat \<Rightarrow> int"
  host_random :: "nat \<Rightarrow> u64"
  host_calls :: nat
  host_fd :: int
  host_written :: "u8 list"

definition host_next :: "Host \<Rightarrow> Host" where
  "host_next h = h\<lparr>host_calls := Suc (host_calls h)\<rparr>"

definition steady_clock_now :: "Host \<Rightarrow> int \<times> Host" where
  "steady_clock_now h = (host_clock h (host_calls h), host_next h)"

definition random_generator :: "Host \<Rightarrow> u64 \<times> Host" where
  "random_generator h = (host_random h (host_calls h), host_next h)"

text \<open>The kernel reads at most \<open>capacity\<close> bytes and takes at most the bytes it is given.\<close>

definition sys_read :: "nat \<Rightarrow> Host \<Rightarrow> read_answer \<times> Host" where
  "sys_read capacity h =
     ((case host_read h (host_calls h) of Read_Bytes bs \<Rightarrow> Read_Bytes (take capacity bs) | Read_Error e \<Rightarrow> Read_Error e),
      host_next h)"

definition sys_write :: "u8 list \<Rightarrow> Host \<Rightarrow> write_answer \<times> Host" where
  "sys_write data h =
     (case host_write h (host_calls h) of
        Write_Count n \<Rightarrow> (Write_Count (min n (length data)), (host_next h)\<lparr>host_written := host_written h @ take n data\<rparr>)
      | Write_Error e \<Rightarrow> (Write_Error e, host_next h))"

text \<open>Durations: \<^verbatim>\<open>milliseconds\<close> in nanoseconds, \<^verbatim>\<open>ceil\<close> and the truncating \<^verbatim>\<open>duration_cast\<close>.\<close>

definition milliseconds :: "int \<Rightarrow> int" where
  "milliseconds n = n * 1000000"

definition ceil_milliseconds :: "int \<Rightarrow> int" where
  "ceil_milliseconds d = - ((- d) div 1000000)"

definition cast_milliseconds :: "int \<Rightarrow> int" where
  "cast_milliseconds d = d sdiv 1000000"

subsection \<open>The serial port\<close>

record LinuxSerialPollResult =
  readable :: bool
  writable :: bool
  disconnected :: bool

definition no_poll_result :: LinuxSerialPollResult where
  "no_poll_result = \<lparr>readable = False, writable = False, disconnected = False\<rparr>"

definition serial_close :: "Host \<Rightarrow> Host" where
  "serial_close h = (if host_fd h \<ge> 0 then h\<lparr>host_fd := -1\<rparr> else h)"

definition serial_is_open :: "Host \<Rightarrow> bool" where
  "serial_is_open h \<longleftrightarrow> host_fd h \<ge> 0"

definition serial_open :: "u32 \<Rightarrow> Host \<Rightarrow> bool \<times> Host" where
  "serial_open baud_rate h =
     (let h = serial_close h
      in if baud_rate = 0 then (False, h)
         else
           let h = (host_next h)\<lparr>host_fd := host_open h (host_calls h)\<rparr>
           in if host_fd h < 0 then (False, h)
              else
                let (result, h) = (host_ioctl h (host_calls h), host_next h)
                in if result \<noteq> 0 then (False, serial_close h)
                   else
                     let (result, h) = (host_ioctl h (host_calls h), host_next h)
                     in if result \<noteq> 0 then (False, serial_close h) else (True, h))"

partial_function (option) read_loop :: "nat \<Rightarrow> Host \<Rightarrow> ((int \<times> u8 list) \<times> Host) option" where
  "read_loop capacity h =
     (case sys_read capacity h of (answer, h) \<Rightarrow>
        case answer of
          Read_Bytes bs \<Rightarrow> if bs \<noteq> [] then Some ((int (length bs), bs), h) else Some ((-1, []), h)
        | Read_Error e \<Rightarrow>
            if e = EINTR then read_loop capacity h
            else if e = EAGAIN \<or> e = EWOULDBLOCK then Some ((0, []), h)
            else Some ((-1, []), h))"

definition read_some :: "nat \<Rightarrow> Host \<Rightarrow> ((int \<times> u8 list) \<times> Host) option" where
  "read_some capacity h = (if host_fd h < 0 then Some ((-1, []), h) else read_loop capacity h)"

partial_function (option) write_loop :: "u8 list \<Rightarrow> Host \<Rightarrow> (int \<times> Host) option" where
  "write_loop data h =
     (case sys_write data h of (answer, h) \<Rightarrow>
        case answer of
          Write_Count n \<Rightarrow> Some (int n, h)
        | Write_Error e \<Rightarrow>
            if e = EINTR then write_loop data h
            else if e = EAGAIN \<or> e = EWOULDBLOCK then Some (0, h)
            else Some (-1, h))"

definition write_some :: "u8 list \<Rightarrow> Host \<Rightarrow> (int \<times> Host) option" where
  "write_some data h = (if host_fd h < 0 then Some (-1, h) else write_loop data h)"

partial_function (option) wait_loop :: "int \<Rightarrow> bool \<Rightarrow> Host \<Rightarrow> (LinuxSerialPollResult \<times> Host) option" where
  "wait_loop deadline watch_write h =
     (case steady_clock_now h of (now, h) \<Rightarrow>
        if now \<ge> deadline then Some (no_poll_result, h)
        else
          (case (host_poll h (host_calls h) watch_write (ceil_milliseconds (deadline - now)), host_next h) of (answer, h) \<Rightarrow>
             case answer of
               Ready revents \<Rightarrow>
                 Some (\<lparr>readable = POLLIN revents, writable = POLLOUT revents,
                        disconnected = POLLERR revents \<or> POLLHUP revents \<or> POLLNVAL revents\<rparr>, h)
             | Poll_Timeout \<Rightarrow> Some (no_poll_result, h)
             | Poll_Error e \<Rightarrow>
                 if e = EINTR then wait_loop deadline watch_write h
                 else Some (no_poll_result\<lparr>disconnected := True\<rparr>, h)))"

definition serial_wait :: "bool \<Rightarrow> int \<Rightarrow> Host \<Rightarrow> (LinuxSerialPollResult \<times> Host) option" where
  "serial_wait watch_write timeout_ms h =
     (if host_fd h < 0 then Some (no_poll_result\<lparr>disconnected := True\<rparr>, h)
      else
        let (now, h) = steady_clock_now h
        in wait_loop (now + milliseconds timeout_ms) watch_write h)"

subsection \<open>The sender\<close>

partial_function (option) send_loop :: "int \<Rightarrow> u8 list \<Rightarrow> nat \<Rightarrow> Host \<Rightarrow> (bool \<times> Host) option" where
  "send_loop deadline wire_data bytes_sent h =
     (if bytes_sent < length wire_data then
        (case steady_clock_now h of (now, h) \<Rightarrow>
           if now \<ge> deadline then Some (False, h)
           else do {
             (poll_result, h) \<leftarrow> serial_wait True (ceil_milliseconds (deadline - now)) h;
             if disconnected poll_result then Some (False, h)
             else if \<not> writable poll_result then Some (False, h)
             else do {
               (written, h) \<leftarrow> write_some (drop bytes_sent wire_data) h;
               if written < 0 then Some (False, h)
               else if written = 0 then send_loop deadline wire_data bytes_sent h
               else send_loop deadline wire_data (bytes_sent + nat written) h
             }
           })
      else Some (True, h))"

definition send_protocol_frame :: "ProtocolFrame \<Rightarrow> int \<Rightarrow> Host \<Rightarrow> (bool \<times> Host) option" where
  "send_protocol_frame frame timeout_ms h =
     (let wire_data = replicate PROTOCOL_FRAME_MAX_WIRE_SIZE 0;
          (wire_size, wire_data) = protocol_frame_encode frame wire_data
      in if wire_size = 0 then Some (False, h)
         else
           let (now, h) = steady_clock_now h
           in send_loop (now + milliseconds timeout_ms) (take wire_size wire_data) 0 h)"

subsection \<open>What the calls do to the host\<close>

text \<open>The answers to come stay the same, and the interactions are counted.\<close>

definition host_after :: "Host \<Rightarrow> Host \<Rightarrow> bool" where
  "host_after h h' \<longleftrightarrow> host_clock h' = host_clock h \<and> host_poll h' = host_poll h \<and> host_read h' = host_read h \<and>
     host_write h' = host_write h \<and> host_random h' = host_random h \<and>
     host_calls h \<le> host_calls h'"

definition host_quiet :: "Host \<Rightarrow> Host \<Rightarrow> bool" where
  "host_quiet h h' \<longleftrightarrow> host_after h h' \<and> host_written h' = host_written h \<and> host_fd h' = host_fd h"

lemma host_after_refl [simp]: "host_after h h" and host_after_trans [trans]: "host_after h h1 \<Longrightarrow> host_after h1 h2 \<Longrightarrow> host_after h h2"
  by (auto simp: host_after_def)

lemma host_quiet_refl [simp]: "host_quiet h h"
  and host_quiet_trans [trans]: "host_quiet h h1 \<Longrightarrow> host_quiet h1 h2 \<Longrightarrow> host_quiet h h2"
  and host_quiet_after: "host_quiet h h' \<Longrightarrow> host_after h h'"
  by (auto simp: host_quiet_def host_after_def)

lemma host_next [simp]:
  "host_clock (host_next h) = host_clock h" "host_poll (host_next h) = host_poll h" "host_read (host_next h) = host_read h"
  "host_write (host_next h) = host_write h" "host_random (host_next h) = host_random h"
  "host_calls (host_next h) = Suc (host_calls h)" "host_fd (host_next h) = host_fd h" "host_written (host_next h) = host_written h"
  "host_open (host_next h) = host_open h" "host_ioctl (host_next h) = host_ioctl h"
  by (simp_all add: host_next_def)

lemma host_next_quiet [simp]: "host_quiet h (host_next h)"
  by (simp add: host_quiet_def host_after_def)

lemma clock_now [simp]: "steady_clock_now h = (host_clock h (host_calls h), host_next h)"
  by (simp add: steady_clock_now_def)

lemma serial_close_after [simp]: "host_after h (serial_close h)" "host_written (serial_close h) = host_written h"
  by (simp_all add: serial_close_def host_after_def)

lemma serial_closed [simp]: "\<not> serial_is_open (serial_close h)"
  by (simp add: serial_close_def serial_is_open_def)

lemma serial_open_spec:
  assumes "serial_open baud h = (ok, h')"
  shows "host_after h h'" and "host_written h' = host_written h" and "ok \<longleftrightarrow> serial_is_open h'"
  using assms by (auto simp: serial_open_def serial_close_def serial_is_open_def host_after_def Let_def split: if_splits)

text \<open>What a read brings is the answer of one of the calls to come, cut to the capacity.\<close>

definition bytes_brought :: "nat \<Rightarrow> Host \<Rightarrow> u8 list \<Rightarrow> bool" where
  "bytes_brought capacity h bs \<longleftrightarrow> bs = [] \<or> (\<exists>j xs. host_calls h \<le> j \<and> host_read h j = Read_Bytes xs \<and> bs = take capacity xs)"

lemma bytes_brought_after: "host_after h h1 \<Longrightarrow> bytes_brought capacity h1 bs \<Longrightarrow> bytes_brought capacity h bs"
  unfolding bytes_brought_def host_after_def by (metis order_trans)

lemma read_loop_spec:
  assumes "read_loop capacity h = Some ((k, bs), h')"
  shows "host_quiet h h' \<and> bytes_brought capacity h bs \<and> (bs = [] \<longrightarrow> k \<le> 0) \<and> (bs \<noteq> [] \<longrightarrow> k = int (length bs))"
proof -
  have "host_quiet h (snd y) \<and> bytes_brought capacity h (snd (fst y)) \<and> (snd (fst y) = [] \<longrightarrow> fst (fst y) \<le> 0) \<and>
      (snd (fst y) \<noteq> [] \<longrightarrow> fst (fst y) = int (length (snd (fst y))))"
    if "read_loop capacity h = Some y" for y
  proof (rule read_loop.raw_induct [OF _ that], goal_cases)
    case (1 loop capacity h y)
    show ?case
    proof (cases "host_read h (host_calls h) = Read_Error EINTR")
      case True
      with 1(2) 1(1) [of capacity "host_next h" y] show ?thesis
        using host_quiet_trans [OF host_next_quiet] bytes_brought_after [OF host_quiet_after [OF host_next_quiet]]
        by (auto simp: sys_read_def)
    next
      case False
      with 1(2) show ?thesis
        by (auto simp: sys_read_def bytes_brought_def split: read_answer.splits if_splits)
    qed
  qed
  from this [OF assms] show ?thesis by simp
qed

lemma write_loop_spec:
  assumes "write_loop data h = Some (k, h')"
  shows "host_after h h' \<and> host_fd h' = host_fd h \<and> (k > 0 \<longrightarrow> nat k \<le> length data) \<and> host_written h' = host_written h @ take (nat k) data"
proof -
  have "host_after h (snd y) \<and> host_fd (snd y) = host_fd h \<and> (fst y > 0 \<longrightarrow> nat (fst y) \<le> length data) \<and>
      host_written (snd y) = host_written h @ take (nat (fst y)) data"
    if "write_loop data h = Some y" for y
  proof (rule write_loop.raw_induct [OF _ that], goal_cases)
    case (1 loop data h y)
    show ?case
    proof (cases "host_write h (host_calls h) = Write_Error EINTR")
      case True
      with 1(2) 1(1) [of data "host_next h" y] show ?thesis by (auto simp: sys_write_def host_after_def)
    next
      case False
      with 1(2) show ?thesis
        by (auto simp: sys_write_def host_after_def min_def split: write_answer.splits if_splits)
    qed
  qed
  from this [OF assms] show ?thesis by simp
qed

lemma wait_loop_spec:
  assumes "wait_loop deadline w h = Some (p, h')"
  shows "host_quiet h h'"
proof -
  have "host_quiet h (snd y)" if "wait_loop deadline w h = Some y" for y
  proof (rule wait_loop.raw_induct [OF _ that], goal_cases)
    case (1 loop deadline w h y)
    have next2: "host_quiet h (host_next (host_next h))" by (rule host_quiet_trans [OF host_next_quiet host_next_quiet])
    from 1(2) consider "loop deadline w (host_next (host_next h)) = Some y"
      | "snd y = host_next h" | "snd y = host_next (host_next h)"
      by (auto split: poll_answer.splits if_splits)
    then show ?case
    proof cases
      case 1
      with host_quiet_trans [OF next2] \<open>\<And>deadline w h y. loop deadline w h = Some y \<Longrightarrow> host_quiet h (snd y)\<close>
      show ?thesis by blast
    qed (simp_all add: next2)
  qed
  from this [OF assms] show ?thesis by simp
qed

lemma read_some_spec:
  assumes "read_some capacity h = Some ((k, bs), h')"
  shows "host_quiet h h'" and "bytes_brought capacity h bs" and "bs = [] \<Longrightarrow> k \<le> 0" and "bs \<noteq> [] \<Longrightarrow> k = int (length bs)"
  using assms read_loop_spec [of capacity h k bs h'] by (auto simp: read_some_def bytes_brought_def split: if_splits)

lemma write_some_spec:
  assumes "write_some data h = Some (k, h')"
  shows "host_after h h'" and "host_fd h' = host_fd h" and "k > 0 \<Longrightarrow> nat k \<le> length data"
    and "host_written h' = host_written h @ take (nat k) data"
  using assms write_loop_spec [of data h k h'] by (auto simp: write_some_def split: if_splits)

lemma serial_wait_spec:
  assumes "serial_wait w timeout h = Some (p, h')"
  shows "host_quiet h h'"
  using assms by (auto simp: serial_wait_def split: if_splits dest!: wait_loop_spec intro: host_quiet_trans [OF host_next_quiet])

text \<open>
  What the sender's loop writes is a part of the image from its start, and the whole image when
  it reports success.
\<close>

definition sent_part :: "u8 list \<Rightarrow> bool \<Rightarrow> Host \<Rightarrow> Host \<Rightarrow> bool" where
  "sent_part data ok h h' \<longleftrightarrow> host_after h h' \<and> host_fd h' = host_fd h \<and>
     (\<exists>n. host_written h' = host_written h @ take n data \<and> (ok \<longrightarrow> length data \<le> n))"

lemma sent_part_quiet: "host_quiet h h' \<Longrightarrow> sent_part data False h h'"
  by (auto simp: sent_part_def host_quiet_def intro: exI [of _ 0])

lemma sent_part_more:
  assumes "host_quiet h h1" and "host_after h1 h2" and "host_fd h2 = host_fd h1"
    and "host_written h2 = host_written h1 @ take k data" and "k \<le> length data" and "sent_part (drop k data) ok h2 h'"
  shows "sent_part data ok h h'"
proof -
  from assms(6) obtain n where n: "host_written h' = host_written h2 @ take n (drop k data)" "ok \<longrightarrow> length data - k \<le> n"
    unfolding sent_part_def length_drop by blast
  with assms(4,1) have "host_written h' = host_written h @ take (k + n) data" by (simp add: host_quiet_def take_add)
  moreover have "host_after h h'"
    using host_after_trans [OF host_quiet_after [OF assms(1)] host_after_trans [OF assms(2), of h']] assms(6)
    by (simp add: sent_part_def)
  ultimately show ?thesis using n(2) assms(1,3,6)
    unfolding sent_part_def host_quiet_def by (intro conjI exI [of _ "k + n"]) auto
qed

lemma send_loop_spec:
  assumes "send_loop deadline wire sent h = Some (ok, h')"
  shows "sent_part (drop sent wire) ok h h'"
proof -
  have "sent_part (drop sent wire) (fst y) h (snd y)" if "send_loop deadline wire sent h = Some y" for y
  proof (rule send_loop.raw_induct [OF _ that], goal_cases)
    case (1 loop deadline wire sent h y)
    show ?case
    proof (cases "sent < length wire \<and> \<not> deadline \<le> host_clock h (host_calls h)")
      case False
      with 1(2) sent_part_quiet [OF host_next_quiet] show ?thesis
        by (auto simp: sent_part_def split: if_splits)
    next
      case go: True
      with 1(2) obtain p h1 where w: "serial_wait True (ceil_milliseconds (deadline - host_clock h (host_calls h))) (host_next h) = Some (p, h1)"
        by (auto simp: bind_eq_Some_conv)
      have q: "host_quiet h h1" by (rule host_quiet_trans [OF host_next_quiet serial_wait_spec [OF w]])
      show ?thesis
      proof (cases "disconnected p \<or> \<not> writable p")
        case True
        with 1(2) go w have "y = (False, h1)" by (auto split: if_splits)
        with sent_part_quiet [OF q] show ?thesis by simp
      next
        case False
        with 1(2) go w obtain k h2 where k: "write_some (drop sent wire) h1 = Some (k, h2)" by (auto simp: bind_eq_Some_conv)
        note spec = write_some_spec [OF k]
        have rest: "(if k < 0 then Some (False, h2) else loop deadline wire (sent + nat k) h2) = Some y"
          using 1(2) go w False k by (auto split: if_splits)
        have "nat k \<le> length (drop sent wire)" using spec(3) by (cases "k > 0") auto
        moreover have "sent_part (drop (nat k) (drop sent wire)) (fst y) h2 (snd y)"
          using rest 1(1) [of deadline wire "sent + nat k" h2 y] sent_part_quiet [of h2 h2]
          by (auto simp: add.commute split: if_splits)
        ultimately show ?thesis by (rule sent_part_more [OF q spec(1,2,4)])
      qed
    qed
  qed
  from this [OF assms] show ?thesis by simp
qed

lemma send_protocol_frame_spec:
  assumes "send_protocol_frame f timeout h = Some (ok, h')" and "frame_sendable f"
  shows "sent_part (frame_wire f) ok h h'"
proof -
  have "length (frame_wire f) \<le> PROTOCOL_FRAME_MAX_WIRE_SIZE" "frame_wire f \<noteq> []"
    using assms(2) length_frame_wire [OF assms(2)] by (auto simp: frame_sendable_def)
  with assms(1) protocol_frame_encode_wire [OF assms(2), of "replicate PROTOCOL_FRAME_MAX_WIRE_SIZE 0"]
  have "send_loop (host_clock h (host_calls h) + milliseconds timeout) (frame_wire f) 0 (host_next h) = Some (ok, h')"
    by (simp add: send_protocol_frame_def Let_def)
  from send_loop_spec [OF this] show ?thesis
    using sent_part_more [OF host_next_quiet host_after_refl, where k = 0] by simp
qed

subsection \<open>Progress\<close>

text \<open>
  A host lets the client go on when its clock passes every time for good, no call is
  interrupted forever, and the generator does not draw multiples of two to the thirty-second only.
\<close>

definition host_live :: "Host \<Rightarrow> bool" where
  "host_live h \<longleftrightarrow> (\<forall>t. \<exists>k. \<forall>j \<ge> k. t \<le> host_clock h j) \<and> (\<forall>k. \<exists>j \<ge> k. host_read h j \<noteq> Read_Error EINTR) \<and>
     (\<forall>k. \<exists>j \<ge> k. host_write h j \<noteq> Write_Error EINTR) \<and> (\<forall>k. \<exists>j \<ge> k. ucast (host_random h j) \<noteq> (0 :: u32))"

lemma host_live_after: "host_after h h' \<Longrightarrow> host_live h' = host_live h"
  by (simp add: host_live_def host_after_def)

lemma host_liveD:
  assumes "host_live h"
  obtains k j j' j'' where "\<forall>i \<ge> k. t \<le> host_clock h i" and "host_calls h \<le> j" and "host_read h j \<noteq> Read_Error EINTR"
    and "host_calls h \<le> j'" and "host_write h j' \<noteq> Write_Error EINTR"
    and "host_calls h \<le> j''" and "ucast (host_random h j'') \<noteq> (0 :: u32)"
  using assms unfolding host_live_def by meson

lemma read_loop_returns:
  assumes "host_read h j \<noteq> Read_Error EINTR" and "host_calls h \<le> j"
  shows "\<exists>y. read_loop capacity h = Some y"
  using assms
proof (induction "j - host_calls h" arbitrary: h)
  case 0
  then show ?case by (subst read_loop.simps) (auto simp: sys_read_def split: read_answer.splits)
next
  case (Suc d)
  then have "\<exists>y. read_loop capacity (host_next h) = Some y" by simp
  then show ?case by (subst read_loop.simps) (auto simp: sys_read_def split: read_answer.splits)
qed

lemma write_loop_returns:
  assumes "host_write h j \<noteq> Write_Error EINTR" and "host_calls h \<le> j"
  shows "\<exists>y. write_loop data h = Some y"
  using assms
proof (induction "j - host_calls h" arbitrary: h)
  case 0
  then show ?case by (subst write_loop.simps) (auto simp: sys_write_def split: write_answer.splits)
next
  case (Suc d)
  then have "\<exists>y. write_loop data (host_next h) = Some y" by simp
  then show ?case by (subst write_loop.simps) (auto simp: sys_write_def split: write_answer.splits)
qed

lemma wait_loop_returns:
  assumes "\<forall>j \<ge> k. deadline \<le> host_clock h j"
  shows "\<exists>y. wait_loop deadline w h = Some y"
  using assms
proof (induction "k - host_calls h" arbitrary: h rule: less_induct)
  case less
  show ?case
  proof (cases "k \<le> host_calls h")
    case True
    with less(2) show ?thesis by (subst wait_loop.simps) simp
  next
    case False
    then have "\<exists>y. wait_loop deadline w (host_next (host_next h)) = Some y" using less by simp
    then show ?thesis by (subst wait_loop.simps) (auto split: poll_answer.splits)
  qed
qed

lemma live_returns:
  assumes "host_live h"
  shows "\<exists>y. read_some capacity h = Some y" and "\<exists>y. write_some data h = Some y" and "\<exists>y. serial_wait w timeout h = Some y"
proof -
  from assms obtain k j j' where *: "\<forall>i \<ge> k. host_clock h (host_calls h) + milliseconds timeout \<le> host_clock h i"
    "host_calls h \<le> j" "host_read h j \<noteq> Read_Error EINTR" "host_calls h \<le> j'" "host_write h j' \<noteq> Write_Error EINTR"
    by (rule host_liveD)
  from read_loop_returns [OF *(3,2)] show "\<exists>y. read_some capacity h = Some y" by (simp add: read_some_def)
  from write_loop_returns [OF *(5,4)] show "\<exists>y. write_some data h = Some y" by (simp add: write_some_def)
  from *(1) wait_loop_returns [of k _ "host_next h"] show "\<exists>y. serial_wait w timeout h = Some y" by (simp add: serial_wait_def)
qed

lemma send_loop_returns:
  assumes "\<forall>j \<ge> k. deadline \<le> host_clock h j" and "host_live h"
  shows "\<exists>y. send_loop deadline wire sent h = Some y"
  using assms
proof (induction "k - host_calls h" arbitrary: h sent rule: less_induct)
  case less
  show ?case
  proof (cases "sent < length wire \<and> \<not> deadline \<le> host_clock h (host_calls h)")
    case False
    then show ?thesis by (subst send_loop.simps) auto
  next
    case go: True
    then have early: "host_calls h < k" using less(2) by (metis not_le)
    have "host_live (host_next h)" using less(3) by (simp add: host_live_after [OF host_quiet_after [OF host_next_quiet]])
    from live_returns(3) [OF this] obtain p h1 where w: "serial_wait True (ceil_milliseconds (deadline - host_clock h (host_calls h))) (host_next h) = Some (p, h1)"
      by fastforce
    have q: "host_after (host_next h) h1" using host_quiet_after [OF serial_wait_spec [OF w]] .
    then have "host_live h1" using \<open>host_live (host_next h)\<close> by (simp add: host_live_after)
    from live_returns(2) [OF this] obtain k' h2 where k: "write_some (drop sent wire) h1 = Some (k', h2)" by fastforce
    note spec = write_some_spec [OF k]
    have "\<exists>y. send_loop deadline wire n h2 = Some y" for n
      using less(1) [of h2 n] early q spec(1) less(2) \<open>host_live h1\<close> host_live_after [OF spec(1)]
      by (auto simp: host_after_def)
    with go w k show ?thesis by (subst send_loop.simps) auto
  qed
qed

lemma send_returns:
  assumes "host_live h"
  shows "\<exists>y. send_protocol_frame f timeout h = Some y"
proof -
  from assms obtain k where "\<forall>i \<ge> k. host_clock h (host_calls h) + milliseconds timeout \<le> host_clock h i"
    by (rule host_liveD)
  moreover have "host_live (host_next h)" using assms by (simp add: host_live_after [OF host_quiet_after [OF host_next_quiet]])
  ultimately show ?thesis using send_loop_returns [of k _ "host_next h"]
    by (auto simp: send_protocol_frame_def Let_def split: prod.splits)
qed

end
