(* ===== verification/Manual_Input.thy ===== *)
theory Manual_Input
  imports Complex_Main Crsf Linux_Serial
begin

section \<open>Manual input (manual\_input\_guard.cpp, manual\_control\_input.cpp, manual\_control\_config.h)\<close>

text \<open>
  The channels of the radio are an enabling switch and two sticks. The guard lets the sticks
  through only after the switch was seen off and then on, with both sticks neutral each time,
  and only while channels keep arriving: a pause of 200 ms blocks until the switch was off
  again. The sticks are normalized, mixed into wheel demands and scaled to a wheel command.

  Numbers of type \<^verbatim>\<open>double\<close> are reals, and each operation is rounded once with the parameter \<open>rnd\<close>. The
  conversions from integers below \<open>2\<^sup>5\<^sup>3\<close> are exact. Where a result depends on the rounding, the
  lemmas assume that it is monotone and keeps such integers, as rounding to the nearest
  double does.
\<close>

subsection \<open>Configuration\<close>

abbreviation (input) steering_channel :: nat where "steering_channel \<equiv> 0"
abbreviation (input) forward_channel :: nat where "forward_channel \<equiv> 1"
abbreviation (input) enable_channel :: nat where "enable_channel \<equiv> 4"

definition stick_center :: nat where "stick_center = 992"
definition neutral_tolerance :: nat where "neutral_tolerance = 25"
definition stick_min :: nat where "stick_min = 174"
definition stick_max :: nat where "stick_max = 1811"
definition enable_low_max :: nat where "enable_low_max = 400"
definition enable_high_min :: nat where "enable_high_min = 1600"

lemmas manual_control_config =
  stick_center_def neutral_tolerance_def stick_min_def stick_max_def enable_low_max_def enable_high_min_def

definition is_neutral :: "u16 \<Rightarrow> bool" where
  "is_neutral value \<longleftrightarrow> unat value \<ge> stick_center - neutral_tolerance \<and> unat value \<le> stick_center + neutral_tolerance"

subsection \<open>The guard\<close>

datatype ManualInputState = NeedsRearm | Rearmed | ManualEnabled

record ManualInputGuard =
  guard_state :: ManualInputState
  guard_has_channels :: bool
  guard_last_channels_at :: int

definition manual_guard_timeout :: int where "manual_guard_timeout = milliseconds 200"

text \<open>The initializers of the members, which \<^verbatim>\<open>reset\<close> restores.\<close>

definition manual_guard_new :: ManualInputGuard where
  "manual_guard_new = \<lparr>guard_state = NeedsRearm, guard_has_channels = False, guard_last_channels_at = 0\<rparr>"

definition manual_guard_reset :: "ManualInputGuard \<Rightarrow> ManualInputGuard" where
  "manual_guard_reset g = g\<lparr>guard_state := NeedsRearm, guard_has_channels := False, guard_last_channels_at := 0\<rparr>"

definition manual_guard_poll :: "int \<Rightarrow> ManualInputGuard \<Rightarrow> bool \<times> ManualInputGuard" where
  "manual_guard_poll now g =
     (if \<not> guard_has_channels g then (False, g)
      else
        let g = if now - guard_last_channels_at g \<ge> manual_guard_timeout then g\<lparr>guard_state := NeedsRearm\<rparr> else g
        in (guard_state g = ManualEnabled, g))"

definition switch_enabled :: "u16 list \<Rightarrow> bool" where
  "switch_enabled channels \<longleftrightarrow> unat (channels ! enable_channel) \<ge> enable_high_min"

definition switch_disabled :: "u16 list \<Rightarrow> bool" where
  "switch_disabled channels \<longleftrightarrow> unat (channels ! enable_channel) \<le> enable_low_max"

definition axes_neutral :: "u16 list \<Rightarrow> bool" where
  "axes_neutral channels \<longleftrightarrow> is_neutral (channels ! forward_channel) \<and> is_neutral (channels ! steering_channel)"

definition on_channels :: "u16 list \<Rightarrow> int \<Rightarrow> ManualInputGuard \<Rightarrow> ManualInputGuard" where
  "on_channels channels now g =
     (let (_, g) = manual_guard_poll now g;
          g = g\<lparr>guard_last_channels_at := now, guard_has_channels := True\<rparr>;
          sa_enabled = switch_enabled channels;
          sa_disabled = switch_disabled channels;
          neutral = axes_neutral channels
      in case guard_state g of
           NeedsRearm \<Rightarrow> if sa_disabled \<and> neutral then g\<lparr>guard_state := Rearmed\<rparr> else g
         | Rearmed \<Rightarrow>
             if sa_enabled \<and> neutral then g\<lparr>guard_state := ManualEnabled\<rparr>
             else if \<not> (sa_disabled \<and> neutral) then g\<lparr>guard_state := NeedsRearm\<rparr>
             else g
         | ManualEnabled \<Rightarrow>
             if \<not> sa_enabled
             then g\<lparr>guard_state := (if sa_disabled \<and> neutral then Rearmed else NeedsRearm)\<rparr>
             else g)"

subsection \<open>The sticks\<close>

definition normalize_manual_stick :: "(real \<Rightarrow> real) \<Rightarrow> u16 \<Rightarrow> real" where
  "normalize_manual_stick rnd value =
     (let neutral_lower = int stick_center - int neutral_tolerance;
          neutral_upper = int stick_center + int neutral_tolerance;
          v = int (unat value)
      in if unat value \<le> stick_min then -1
         else if unat value \<ge> stick_max then 1
         else if is_neutral value then 0
         else if unat value > stick_center then rnd (of_int (v - neutral_upper) / of_int (int stick_max - neutral_upper))
         else rnd (of_int (- (neutral_lower - v)) / of_int (neutral_lower - int stick_min)))"

record ManualWheelDemand =
  demand_left :: real
  demand_right :: real

definition mix_manual_sticks :: "(real \<Rightarrow> real) \<Rightarrow> real \<Rightarrow> real \<Rightarrow> ManualWheelDemand" where
  "mix_manual_sticks rnd forward steering =
     (let left = rnd (forward + steering);
          right = rnd (forward - steering);
          scale = max 1 (max \<bar>left\<bar> \<bar>right\<bar>)
      in \<lparr>demand_left = rnd (left / scale), demand_right = rnd (right / scale)\<rparr>)"

text \<open>\<^verbatim>\<open>std::lround\<close>: halfway cases away from zero.\<close>

definition lround :: "real \<Rightarrow> int" where
  "lround x = (if x \<ge> 0 then \<lfloor>x + 1 / 2\<rfloor> else - \<lfloor>- x + 1 / 2\<rfloor>)"

definition manual_wheels_to_command :: "(real \<Rightarrow> real) \<Rightarrow> ManualWheelDemand \<Rightarrow> i16 \<Rightarrow> WheelVelocityCommand" where
  "manual_wheels_to_command rnd demand max_velocity_mm_s =
     \<lparr>left_velocity_mm_s = word_of_int (lround (rnd (demand_left demand * of_int (sint max_velocity_mm_s)))),
      right_velocity_mm_s = word_of_int (lround (rnd (demand_right demand * of_int (sint max_velocity_mm_s))))\<rparr>"

text \<open>The command for one set of channels, with the limit the caller passes.\<close>

definition manual_channels_command :: "(real \<Rightarrow> real) \<Rightarrow> u16 list \<Rightarrow> WheelVelocityCommand" where
  "manual_channels_command rnd channels =
     (let wheels = mix_manual_sticks rnd (normalize_manual_stick rnd (channels ! forward_channel))
                     (normalize_manual_stick rnd (channels ! steering_channel))
      in manual_wheels_to_command rnd wheels 120)"

subsection \<open>The guard over a history\<close>

text \<open>What happens to a guard: channels arrive, it is polled, it is reset.\<close>

datatype guard_event = Channels "u16 list" int | Polled int | Guard_Reset

fun guard_after :: "guard_event \<Rightarrow> ManualInputGuard \<Rightarrow> ManualInputGuard" where
  "guard_after (Channels c t) g = on_channels c t g"
| "guard_after (Polled t) g = snd (manual_guard_poll t g)"
| "guard_after Guard_Reset g = manual_guard_reset g"

definition guard_run :: "guard_event list \<Rightarrow> ManualInputGuard" where
  "guard_run es = fold guard_after es manual_guard_new"

text \<open>
  Channels with the switch off and neutral sticks release the guard. Events \<open>keep alive\<close> a guard that
  saw channels at a time: there is no reset, and none of them finds the last channels 200 ms
  old.
\<close>

definition releasing :: "u16 list \<Rightarrow> bool" where
  "releasing c \<longleftrightarrow> switch_disabled c \<and> axes_neutral c"

fun keeps_alive :: "int \<Rightarrow> guard_event list \<Rightarrow> bool" where
  "keeps_alive since [] \<longleftrightarrow> True"
| "keeps_alive since (Channels c t # es) \<longleftrightarrow> t - since < manual_guard_timeout \<and> keeps_alive t es"
| "keeps_alive since (Polled t # es) \<longleftrightarrow> t - since < manual_guard_timeout \<and> keeps_alive since es"
| "keeps_alive since (Guard_Reset # es) \<longleftrightarrow> False"

fun all_channels :: "(u16 list \<Rightarrow> bool) \<Rightarrow> guard_event list \<Rightarrow> bool" where
  "all_channels P [] \<longleftrightarrow> True"
| "all_channels P (Channels c t # es) \<longleftrightarrow> P c \<and> all_channels P es"
| "all_channels P (_ # es) \<longleftrightarrow> all_channels P es"

fun last_channels :: "int \<Rightarrow> guard_event list \<Rightarrow> int" where
  "last_channels since [] = since"
| "last_channels since (Channels c t # es) = last_channels t es"
| "last_channels since (_ # es) = last_channels since es"

lemma history_append [simp]:
  "last_channels t (es @ fs) = last_channels (last_channels t es) fs"
  "all_channels P (es @ fs) \<longleftrightarrow> all_channels P es \<and> all_channels P fs"
  "keeps_alive t (es @ fs) \<longleftrightarrow> keeps_alive t es \<and> keeps_alive (last_channels t es) fs"
  by (induction es arbitrary: t rule: last_channels.induct) auto

text \<open>The three states, as what the history must have been.\<close>

definition released_history :: "guard_event list \<Rightarrow> int \<Rightarrow> bool" where
  "released_history es since \<longleftrightarrow> (\<exists>es1 c t es2. es = es1 @ Channels c t # es2 \<and> releasing c \<and>
     all_channels releasing es2 \<and> keeps_alive t es2 \<and> since = last_channels t es2)"

definition enabled_history :: "guard_event list \<Rightarrow> int \<Rightarrow> bool" where
  "enabled_history es since \<longleftrightarrow> (\<exists>es1 c t es2 since1. es = es1 @ Channels c t # es2 \<and> released_history es1 since1 \<and>
     t - since1 < manual_guard_timeout \<and> switch_enabled c \<and> axes_neutral c \<and>
     all_channels switch_enabled es2 \<and> keeps_alive t es2 \<and> since = last_channels t es2)"

lemma switch_exclusive: "switch_enabled c \<Longrightarrow> \<not> switch_disabled c" "switch_enabled c \<Longrightarrow> \<not> releasing c"
  by (auto simp: switch_enabled_def switch_disabled_def releasing_def manual_control_config)

lemma released_first: "releasing c \<Longrightarrow> released_history (es @ [Channels c t]) t"
  unfolding released_history_def by fastforce

lemma released_next:
  assumes "released_history es since"
  shows "t - since < manual_guard_timeout \<Longrightarrow> releasing c \<Longrightarrow> released_history (es @ [Channels c t]) t"
    and "t - since < manual_guard_timeout \<Longrightarrow> released_history (es @ [Polled t]) since"
proof -
  from assms obtain es1 c0 t0 es2 where h: "es = es1 @ Channels c0 t0 # es2" "releasing c0"
    "all_channels releasing es2" "keeps_alive t0 es2" "since = last_channels t0 es2" unfolding released_history_def by blast
  show "released_history (es @ [Channels c t]) t" if "t - since < manual_guard_timeout" "releasing c"
    unfolding released_history_def
    by (intro exI [of _ es1] exI [of _ c0] exI [of _ t0] exI [of _ "es2 @ [Channels c t]"]) (use h that in simp)
  show "released_history (es @ [Polled t]) since" if "t - since < manual_guard_timeout"
    unfolding released_history_def
    by (intro exI [of _ es1] exI [of _ c0] exI [of _ t0] exI [of _ "es2 @ [Polled t]"]) (use h that in simp)
qed

lemma enabled_first:
  "released_history es since \<Longrightarrow> t - since < manual_guard_timeout \<Longrightarrow> switch_enabled c \<Longrightarrow> axes_neutral c \<Longrightarrow>
     enabled_history (es @ [Channels c t]) t"
  unfolding enabled_history_def by fastforce

lemma enabled_next:
  assumes "enabled_history es since"
  shows "t - since < manual_guard_timeout \<Longrightarrow> switch_enabled c \<Longrightarrow> enabled_history (es @ [Channels c t]) t"
    and "t - since < manual_guard_timeout \<Longrightarrow> enabled_history (es @ [Polled t]) since"
proof -
  from assms obtain es1 c0 t0 es2 since1 where h: "es = es1 @ Channels c0 t0 # es2" "released_history es1 since1"
    "t0 - since1 < manual_guard_timeout" "switch_enabled c0" "axes_neutral c0"
    "all_channels switch_enabled es2" "keeps_alive t0 es2" "since = last_channels t0 es2" unfolding enabled_history_def by blast
  show "enabled_history (es @ [Channels c t]) t" if "t - since < manual_guard_timeout" "switch_enabled c"
    unfolding enabled_history_def
    by (intro exI [of _ es1] exI [of _ c0] exI [of _ t0] exI [of _ "es2 @ [Channels c t]"] exI [of _ since1]) (use h that in simp)
  show "enabled_history (es @ [Polled t]) since" if "t - since < manual_guard_timeout"
    unfolding enabled_history_def
    by (intro exI [of _ es1] exI [of _ c0] exI [of _ t0] exI [of _ "es2 @ [Polled t]"] exI [of _ since1]) (use h that in simp)
qed

text \<open>From the state to the history.\<close>

definition guard_explained :: "guard_event list \<Rightarrow> ManualInputGuard \<Rightarrow> bool" where
  "guard_explained es g \<longleftrightarrow> (guard_state g \<noteq> NeedsRearm \<longrightarrow> guard_has_channels g) \<and>
     (guard_state g = Rearmed \<longrightarrow> released_history es (guard_last_channels_at g)) \<and>
     (guard_state g = ManualEnabled \<longrightarrow> enabled_history es (guard_last_channels_at g))"

lemma explained_polled:
  assumes "guard_explained es g"
  shows "guard_explained (es @ [Polled t]) (snd (manual_guard_poll t g))"
  using assms released_next(2) enabled_next(2) unfolding guard_explained_def manual_guard_poll_def by (auto simp: Let_def not_le)

lemma explained_channels:
  assumes "guard_explained es g"
  shows "guard_explained (es @ [Channels c t]) (on_channels c t g)"
proof -
  define g1 where "g1 = snd (manual_guard_poll t g)"
  have g1: "guard_state g1 \<noteq> NeedsRearm \<Longrightarrow> t - guard_last_channels_at g < manual_guard_timeout \<and> guard_state g1 = guard_state g"
    using assms by (auto simp: g1_def manual_guard_poll_def guard_explained_def Let_def split: if_splits)
  show ?thesis
  proof (cases "guard_state g1")
    case NeedsRearm
    then show ?thesis using released_first [of c es t]
      by (auto simp: guard_explained_def on_channels_def g1_def releasing_def case_prod_beta Let_def)
  next
    case Rearmed
    with g1 assms have h: "t - guard_last_channels_at g < manual_guard_timeout" "released_history es (guard_last_channels_at g)"
      by (auto simp: guard_explained_def)
    from Rearmed show ?thesis using released_first [of c es t] enabled_first [OF h(2,1)]
      by (auto simp: guard_explained_def on_channels_def g1_def releasing_def case_prod_beta Let_def)
  next
    case ManualEnabled
    with g1 assms have h: "t - guard_last_channels_at g < manual_guard_timeout" "enabled_history es (guard_last_channels_at g)"
      by (auto simp: guard_explained_def)
    from ManualEnabled show ?thesis using released_first [of c es t] enabled_next(1) [OF h(2,1)]
      by (auto simp: guard_explained_def on_channels_def g1_def releasing_def case_prod_beta Let_def)
  qed
qed

lemma guard_run_explained: "guard_explained es (guard_run es)"
proof (induction es rule: rev_induct)
  case Nil
  then show ?case by (simp add: guard_explained_def guard_run_def manual_guard_new_def)
next
  case (snoc e es)
  then show ?case
    using explained_polled [OF snoc] explained_channels [OF snoc]
    by (cases e) (auto simp: guard_run_def guard_explained_def manual_guard_reset_def)
qed

text \<open>From the history to the state.\<close>

lemma releasing_rearms:
  "releasing c \<Longrightarrow> on_channels c t g = g\<lparr>guard_state := Rearmed, guard_last_channels_at := t, guard_has_channels := True\<rparr>"
  using switch_exclusive(1) [of c]
  by (auto simp: on_channels_def manual_guard_poll_def releasing_def Let_def split: ManualInputState.split)

lemma alive_poll:
  "guard_has_channels g \<Longrightarrow> t - guard_last_channels_at g < manual_guard_timeout \<Longrightarrow> manual_guard_poll t g = (guard_state g = ManualEnabled, g)"
  by (simp add: manual_guard_poll_def)

lemma rearmed_stays:
  assumes "guard_state g = Rearmed" and "guard_has_channels g" and "all_channels releasing es" and "keeps_alive (guard_last_channels_at g) es"
  shows "fold guard_after es g = g\<lparr>guard_last_channels_at := last_channels (guard_last_channels_at g) es\<rparr>"
  using assms
proof (induction es arbitrary: g)
  case (Cons e es)
  then show ?case by (cases e) (simp_all add: releasing_rearms alive_poll)
qed simp

lemma enabled_stays:
  assumes "guard_state g = ManualEnabled" and "guard_has_channels g" and "all_channels switch_enabled es" and "keeps_alive (guard_last_channels_at g) es"
  shows "fold guard_after es g = g\<lparr>guard_last_channels_at := last_channels (guard_last_channels_at g) es\<rparr>"
  using assms
proof (induction es arbitrary: g)
  case (Cons e es)
  then show ?case by (cases e) (simp_all add: on_channels_def alive_poll)
qed simp

lemma released_state:
  assumes "released_history es since"
  shows "guard_run es = \<lparr>guard_state = Rearmed, guard_has_channels = True, guard_last_channels_at = since\<rparr>"
  using assms by (auto simp: released_history_def guard_run_def releasing_rearms rearmed_stays)

lemma enabled_state:
  assumes "enabled_history es since"
  shows "guard_run es = \<lparr>guard_state = ManualEnabled, guard_has_channels = True, guard_last_channels_at = since\<rparr>"
proof -
  from assms obtain es1 c t es2 since1 where h: "es = es1 @ Channels c t # es2" "released_history es1 since1"
    "t - since1 < manual_guard_timeout" "switch_enabled c" "axes_neutral c"
    "all_channels switch_enabled es2" "keeps_alive t es2" "since = last_channels t es2" unfolding enabled_history_def by blast
  have "guard_run (es1 @ [Channels c t]) = \<lparr>guard_state = ManualEnabled, guard_has_channels = True, guard_last_channels_at = t\<rparr>"
    using released_state [OF h(2)] h(3-5) by (simp add: guard_run_def on_channels_def alive_poll)
  then have "guard_run es = fold guard_after es2 \<lparr>guard_state = ManualEnabled, guard_has_channels = True, guard_last_channels_at = t\<rparr>"
    using h(1) by (simp add: guard_run_def)
  with h(6-8) show ?thesis by (simp add: enabled_stays)
qed

subsection \<open>What was received\<close>

text \<open>
  The channels in a history, each with the time it came. An enabled history stays one when only
  they are kept, so whether the guard may be enabled can be read off what was received.
\<close>

fun channel_receipts :: "guard_event list \<Rightarrow> (u16 list \<times> int) list" where
  "channel_receipts [] = []"
| "channel_receipts (Channels c t # es) = (c, t) # channel_receipts es"
| "channel_receipts (_ # es) = channel_receipts es"

definition receipt_history :: "(u16 list \<times> int) list \<Rightarrow> guard_event list" where
  "receipt_history rs = map (\<lambda>(c, t). Channels c t) rs"

lemma channel_receipts_append [simp]: "channel_receipts (es @ fs) = channel_receipts es @ channel_receipts fs"
  by (induction es rule: channel_receipts.induct) auto

lemma receipt_history_simps [simp]:
  "receipt_history [] = []" "receipt_history ((c, t) # rs) = Channels c t # receipt_history rs"
  "receipt_history (rs @ rs') = receipt_history rs @ receipt_history rs'"
  by (simp_all add: receipt_history_def)

lemma receipts_kept:
  "last_channels t (receipt_history (channel_receipts es)) = last_channels t es"
  "all_channels P (receipt_history (channel_receipts es)) \<longleftrightarrow> all_channels P es"
  "keeps_alive t es \<Longrightarrow> keeps_alive t (receipt_history (channel_receipts es))"
  by (induction es arbitrary: t rule: channel_receipts.induct) auto

lemma released_receipts:
  assumes "released_history es since"
  shows "released_history (receipt_history (channel_receipts es)) since"
proof -
  from assms obtain es1 c t es2 where h: "es = es1 @ Channels c t # es2" "releasing c" "all_channels releasing es2"
    "keeps_alive t es2" "since = last_channels t es2" unfolding released_history_def by blast
  show ?thesis unfolding released_history_def
    by (intro exI [of _ "receipt_history (channel_receipts es1)"] exI [of _ c] exI [of _ t] exI [of _ "receipt_history (channel_receipts es2)"])
       (use h receipts_kept in simp)
qed

lemma enabled_receipts:
  assumes "enabled_history es since"
  shows "enabled_history (receipt_history (channel_receipts es)) since"
proof -
  from assms obtain es1 c t es2 since1 where h: "es = es1 @ Channels c t # es2" "released_history es1 since1"
    "t - since1 < manual_guard_timeout" "switch_enabled c" "axes_neutral c"
    "all_channels switch_enabled es2" "keeps_alive t es2" "since = last_channels t es2" unfolding enabled_history_def by blast
  show ?thesis unfolding enabled_history_def
    by (intro exI [of _ "receipt_history (channel_receipts es1)"] exI [of _ c] exI [of _ t] exI [of _ "receipt_history (channel_receipts es2)"]
        exI [of _ since1])
       (use h receipts_kept released_receipts [OF h(2)] in simp)
qed

lemma on_channels_enabled: "guard_state (on_channels c t g) = ManualEnabled \<Longrightarrow> switch_enabled c"
  by (auto simp: on_channels_def Let_def split: prod.splits ManualInputState.splits if_splits)

lemma on_channels_at [simp]: "guard_last_channels_at (on_channels c t g) = t"
  by (simp add: on_channels_def Let_def split: prod.split ManualInputState.split)

lemma enabled_receipts_last:
  assumes "enabled_history (receipt_history rs) since"
  shows "rs \<noteq> []" and "since = snd (last rs)" and "switch_enabled (fst (last rs))"
proof -
  have run: "guard_run (receipt_history rs) = \<lparr>guard_state = ManualEnabled, guard_has_channels = True, guard_last_channels_at = since\<rparr>"
    by (rule enabled_state [OF assms])
  then show "rs \<noteq> []" by (auto simp: guard_run_def manual_guard_new_def)
  then obtain rs' c t where rs: "rs = rs' @ [(c, t)]" by (metis append_butlast_last_id surj_pair)
  have "on_channels c t (guard_run (receipt_history rs')) = \<lparr>guard_state = ManualEnabled, guard_has_channels = True, guard_last_channels_at = since\<rparr>"
    using run by (simp add: rs guard_run_def)
  with on_channels_at [of c t "guard_run (receipt_history rs')"] on_channels_enabled [of c t "guard_run (receipt_history rs')"]
  show "since = snd (last rs)" "switch_enabled (fst (last rs))" by (simp_all add: rs)
qed

text \<open>A guard that was told these channels, and perhaps polled and reset in between.\<close>

definition guard_told :: "(u16 list \<times> int) list \<Rightarrow> ManualInputGuard \<Rightarrow> bool" where
  "guard_told rs g \<longleftrightarrow> (\<exists>es. g = guard_run es \<and> channel_receipts es = rs)"

lemma guard_told_new: "guard_told [] manual_guard_new"
  unfolding guard_told_def by (rule exI [of _ "[]"]) (simp add: guard_run_def)

lemma guard_told_event: "guard_told rs g \<Longrightarrow> guard_told (rs @ channel_receipts [e]) (guard_after e g)"
proof -
  assume "guard_told rs g"
  then obtain es where "g = guard_run es" "channel_receipts es = rs" unfolding guard_told_def by blast
  then show ?thesis unfolding guard_told_def by (intro exI [of _ "es @ [e]"]) (simp add: guard_run_def)
qed

lemma guard_told_step:
  assumes "guard_told rs g"
  shows "guard_told (rs @ [(c, t)]) (on_channels c t g)" and "guard_told rs (snd (manual_guard_poll t g))"
    and "guard_told rs (manual_guard_reset g)"
  using guard_told_event [OF assms, of "Channels c t"] guard_told_event [OF assms, of "Polled t"] guard_told_event [OF assms, of Guard_Reset]
  by simp_all

lemma guard_told_receipts: "guard_told old g \<Longrightarrow> guard_told (old @ rs) (fold guard_after (receipt_history rs) g)"
proof (induction rs arbitrary: old g)
  case (Cons r rs)
  obtain c t where r: "r = (c, t)" by fastforce
  from Cons.IH [OF guard_told_step(1) [OF Cons.prems, of c t]] show ?case by (simp add: r)
qed simp

lemma guard_told_enabled:
  assumes "guard_told rs g" and "guard_state g = ManualEnabled"
  shows "enabled_history (receipt_history rs) (guard_last_channels_at g)"
proof -
  from assms(1) obtain es where "g = guard_run es" "channel_receipts es = rs" unfolding guard_told_def by blast
  with guard_run_explained [of es] assms(2) enabled_receipts show ?thesis by (auto simp: guard_explained_def)
qed

subsection \<open>The wheel command\<close>

text \<open>What rounding to the nearest double does: it is monotone and keeps integers up to \<open>2\<^sup>5\<^sup>3\<close>.\<close>

definition double_rounding :: "(real \<Rightarrow> real) \<Rightarrow> bool" where
  "double_rounding rnd \<longleftrightarrow> (\<forall>x y. x \<le> y \<longrightarrow> rnd x \<le> rnd y) \<and> (\<forall>n :: int. \<bar>n\<bar> \<le> 2 ^ 53 \<longrightarrow> rnd (of_int n) = of_int n)"

lemma rounding_keeps: "double_rounding rnd \<Longrightarrow> \<bar>n\<bar> \<le> 2 ^ 53 \<Longrightarrow> rnd (of_int n) = of_int n"
  by (simp add: double_rounding_def)

lemma rounding_bounded:
  assumes "double_rounding rnd" and "\<bar>x\<bar> \<le> of_int n" and "n \<le> 2 ^ 53"
  shows "\<bar>rnd x\<bar> \<le> of_int n"
proof -
  have "0 \<le> n" using assms(2) by linarith
  then have "rnd (of_int n) = of_int n" "rnd (of_int (- n)) = of_int (- n)"
    using assms(1,3) by (intro rounding_keeps; simp)+
  moreover have "rnd x \<le> rnd (of_int n)" "rnd (of_int (- n)) \<le> rnd x"
    using assms(1,2) unfolding double_rounding_def by (simp_all add: abs_le_iff)
  ultimately show ?thesis by (simp add: abs_le_iff)
qed

lemma lround_bounded: "\<bar>x\<bar> \<le> of_int n \<Longrightarrow> \<bar>lround x\<bar> \<le> n"
  unfolding lround_def by (auto simp: abs_le_iff floor_le_iff le_floor_iff) linarith+

lemma lround_of_int [simp]: "lround (of_int n) = n"
  unfolding lround_def by (auto simp: floor_eq_iff)

lemma quotient_bounded: "\<bar>x\<bar> \<le> y \<Longrightarrow> 0 < y \<Longrightarrow> \<bar>x / y\<bar> \<le> 1" for x y :: real
  by (simp add: divide_le_eq)

lemma mixed_bounded:
  assumes "double_rounding rnd"
  shows "\<bar>demand_left (mix_manual_sticks rnd f s)\<bar> \<le> 1" and "\<bar>demand_right (mix_manual_sticks rnd f s)\<bar> \<le> 1"
proof -
  let ?l = "rnd (f + s)" and ?r = "rnd (f - s)"
  let ?scale = "max 1 (max \<bar>?l\<bar> \<bar>?r\<bar>)"
  have "\<bar>?l\<bar> \<le> ?scale" "\<bar>?r\<bar> \<le> ?scale" by simp_all
  moreover have "0 < ?scale" by (rule less_le_trans [OF zero_less_one max.cobounded1])
  ultimately have "\<bar>?l / ?scale\<bar> \<le> 1" "\<bar>?r / ?scale\<bar> \<le> 1" by (blast intro: quotient_bounded)+
  then have "\<bar>rnd (?l / ?scale)\<bar> \<le> 1" "\<bar>rnd (?r / ?scale)\<bar> \<le> 1"
    using rounding_bounded [OF assms, of _ 1, unfolded of_int_1] by (auto simp only: one_le_power one_le_numeral)
  then show "\<bar>demand_left (mix_manual_sticks rnd f s)\<bar> \<le> 1" "\<bar>demand_right (mix_manual_sticks rnd f s)\<bar> \<le> 1"
    by (simp_all only: mix_manual_sticks_def Let_def ManualWheelDemand.simps)
qed

lemma scaled_bounded:
  fixes m :: i16
  assumes "double_rounding rnd" and "\<bar>x\<bar> \<le> 1" and "0 \<le> sint m"
  shows "\<bar>sint (word_of_int (lround (rnd (x * of_int (sint m)))) :: i16)\<bar> \<le> sint m"
proof -
  have m: "sint m \<le> 32767" using sint_lt [of m] by simp
  have "\<bar>x * of_int (sint m)\<bar> \<le> of_int (sint m)" 
    using mult_left_le_one_le [of "of_int (sint m)" "\<bar>x\<bar>"] assms(2,3) by (simp only: abs_mult of_int_0_le_iff abs_of_nonneg abs_ge_zero)
  then have "\<bar>rnd (x * of_int (sint m))\<bar> \<le> of_int (sint m)" by (rule rounding_bounded [OF assms(1)]) (use m in simp)
  then have b: "\<bar>lround (rnd (x * of_int (sint m)))\<bar> \<le> sint m" by (rule lround_bounded)
  then have "sint (word_of_int (lround (rnd (x * of_int (sint m)))) :: i16) = lround (rnd (x * of_int (sint m)))"
    using m by (simp add: sint_sbintrunc') (intro signed_take_bit_int_eq_self; simp)
  with b show ?thesis by simp
qed

lemma channels_command_bounded:
  assumes "double_rounding rnd"
  shows "\<bar>sint (left_velocity_mm_s (manual_channels_command rnd c))\<bar> \<le> 120"
    and "\<bar>sint (right_velocity_mm_s (manual_channels_command rnd c))\<bar> \<le> 120"
  using scaled_bounded [OF assms mixed_bounded(1) [OF assms], of 120] scaled_bounded [OF assms mixed_bounded(2) [OF assms], of 120]
  by (simp_all add: manual_channels_command_def manual_wheels_to_command_def Let_def)

lemma neutral_normalized: "is_neutral v \<Longrightarrow> normalize_manual_stick rnd v = 0"
  by (simp add: normalize_manual_stick_def is_neutral_def manual_control_config)

lemma extreme_normalized:
  "unat v \<ge> stick_max \<Longrightarrow> normalize_manual_stick rnd v = 1" "unat v \<le> stick_min \<Longrightarrow> normalize_manual_stick rnd v = -1"
  by (simp_all add: normalize_manual_stick_def manual_control_config)

text \<open>Sticks at a whole number give the exact command.\<close>

lemma whole_command:
  assumes "double_rounding rnd" and "\<bar>f + s\<bar> \<le> 1" and "\<bar>f - s\<bar> \<le> 1" and "\<bar>f\<bar> \<le> 1" and "\<bar>s\<bar> \<le> 1"
  shows "manual_wheels_to_command rnd (mix_manual_sticks rnd (of_int f) (of_int s)) 120 =
    \<lparr>left_velocity_mm_s = word_of_int (120 * (f + s)), right_velocity_mm_s = word_of_int (120 * (f - s))\<rparr>"
proof -
  have keep: "rnd (of_int n) = of_int n" if "\<bar>n\<bar> \<le> 120" for n using that by (intro rounding_keeps [OF assms(1)]) simp
  have sum: "rnd (of_int f + of_int s) = of_int (f + s)" "rnd (of_int f - of_int s) = of_int (f - s)"
    using keep [of "f + s"] keep [of "f - s"] assms(2,3) by simp_all
  have scale: "max 1 (max \<bar>of_int (f + s)\<bar> \<bar>of_int (f - s)\<bar>) = (1 :: real)"
  proof -
    have "\<bar>of_int (f + s)\<bar> \<le> (1 :: real)" "\<bar>of_int (f - s)\<bar> \<le> (1 :: real)" using assms(2,3) by linarith+
    then show ?thesis by (simp add: max_absorb1)
  qed
  have "rnd (of_int (f + s)) = of_int (f + s)" "rnd (of_int (f - s)) = of_int (f - s)"
    by (rule keep, use assms(2,3) in linarith)+
  then have mix: "mix_manual_sticks rnd (of_int f) (of_int s) = \<lparr>demand_left = of_int (f + s), demand_right = of_int (f - s)\<rparr>"
    unfolding mix_manual_sticks_def Let_def sum scale div_by_1 by (simp only:)
  have scaled: "lround (rnd (of_int n * of_int (sint (120 :: i16)))) = 120 * n" if "\<bar>n\<bar> \<le> 1" for n
  proof -
    have "of_int n * of_int (sint (120 :: i16)) = (of_int (120 * n) :: real)" by simp
    moreover have "rnd (of_int (120 * n)) = of_int (120 * n)" by (rule keep) (use that in simp)
    ultimately show ?thesis by (simp only: lround_of_int)
  qed
  show ?thesis
    unfolding mix manual_wheels_to_command_def ManualWheelDemand.simps scaled [OF assms(2)] scaled [OF assms(3)] ..
qed

subsection \<open>Properties\<close>

text \<open>
  C13: Manual control is permitted exactly after rearming. For every sequence of received channels,
  polls and resets, and every time, the guard permits manual control exactly when the switch was
  seen off with neutral sticks, afterwards on with neutral sticks and on ever since, with
  channels that were all off and neutral in between, without a reset since, and without a moment
  since then, the present one included, at which the last channels were 200 ms old or older.
\<close>

theorem manual_guard_exact:
  "fst (manual_guard_poll now (guard_run es)) \<longleftrightarrow>
     (\<exists>since. enabled_history es since \<and> now - since < manual_guard_timeout)"
proof -
  have "guard_explained es (guard_run es)" by (rule guard_run_explained)
  then have "fst (manual_guard_poll now (guard_run es)) \<Longrightarrow>
      enabled_history es (guard_last_channels_at (guard_run es)) \<and> now - guard_last_channels_at (guard_run es) < manual_guard_timeout"
    by (auto simp: manual_guard_poll_def guard_explained_def Let_def split: if_splits)
  moreover have "fst (manual_guard_poll now (guard_run es))"
    if "enabled_history es since" "now - since < manual_guard_timeout" for since
    using enabled_state [OF that(1)] that(2) by (simp add: manual_guard_poll_def)
  ultimately show ?thesis by blast
qed

text \<open>Channels with the sticks and the switch at given values.\<close>

definition sample_channels :: "u16 \<Rightarrow> u16 \<Rightarrow> u16 \<Rightarrow> u16 list" where
  "sample_channels steering forward switch = [steering, forward, 992, 992, switch] @ replicate 11 992"

lemma manual_guard_exact_witness:
  "fst (manual_guard_poll 30000000 (guard_run [Channels (sample_channels 992 992 174) 0, Polled 5000000, Channels (sample_channels 992 992 1811) 20000000])) \<and>
   \<not> fst (manual_guard_poll 220000000 (guard_run [Channels (sample_channels 992 992 174) 0, Channels (sample_channels 992 992 1811) 20000000]))"
proof -
  let ?off = "sample_channels 992 992 174" and ?on = "sample_channels 992 992 1811"
  have c: "releasing ?off" "switch_enabled ?on" "axes_neutral ?on"
    by (simp_all add: releasing_def switch_enabled_def switch_disabled_def axes_neutral_def is_neutral_def sample_channels_def manual_control_config)
  have t: "manual_guard_timeout = 200000000" by (simp add: manual_guard_timeout_def milliseconds_def)
  have "released_history [Channels ?off 0, Polled 5000000] 0"
    using released_next(2) [OF released_first [OF c(1), of "[]" 0]] t by simp
  from enabled_first [OF this _ c(2,3), of 20000000] have
    "enabled_history [Channels ?off 0, Polled 5000000, Channels ?on 20000000] 20000000" using t by simp
  then have "fst (manual_guard_poll 30000000 (guard_run [Channels ?off 0, Polled 5000000, Channels ?on 20000000]))"
    unfolding manual_guard_exact using t by auto
  moreover have only: "enabled_history [Channels ?off 0, Channels ?on 20000000] since \<Longrightarrow> since = 20000000" for since
    using enabled_state [of "[Channels ?off 0, Channels ?on 20000000]" since] enabled_state
      [OF enabled_first [OF released_first [OF c(1), of "[]" 0] _ c(2,3), of 20000000]] t by simp
  ultimately show ?thesis unfolding manual_guard_exact using t by (auto dest!: only)
qed

text \<open>
  Stick commands are bounded, and exact at the marked positions. With rounding that is monotone
  and keeps integers, no channel values ever give a wheel velocity above 120 mm/s in either
  direction; neutral sticks give zero; a stick at its end with the other one neutral gives
  full speed ahead, full speed back, or a turn on the spot.
\<close>

lemma manual_commands_bounded:
  assumes "double_rounding rnd" and "cmd = manual_channels_command rnd c"
  shows "\<bar>sint (left_velocity_mm_s cmd)\<bar> \<le> 120 \<and> \<bar>sint (right_velocity_mm_s cmd)\<bar> \<le> 120 \<and>
    (axes_neutral c \<longrightarrow> cmd = \<lparr>left_velocity_mm_s = 0, right_velocity_mm_s = 0\<rparr>) \<and>
    (is_neutral (c ! 0) \<and> unat (c ! 1) \<ge> stick_max \<longrightarrow> cmd = \<lparr>left_velocity_mm_s = 120, right_velocity_mm_s = 120\<rparr>) \<and>
    (is_neutral (c ! 0) \<and> unat (c ! 1) \<le> stick_min \<longrightarrow> cmd = \<lparr>left_velocity_mm_s = -120, right_velocity_mm_s = -120\<rparr>) \<and>
    (is_neutral (c ! 1) \<and> unat (c ! 0) \<ge> stick_max \<longrightarrow> cmd = \<lparr>left_velocity_mm_s = 120, right_velocity_mm_s = -120\<rparr>) \<and>
    (is_neutral (c ! 1) \<and> unat (c ! 0) \<le> stick_min \<longrightarrow> cmd = \<lparr>left_velocity_mm_s = -120, right_velocity_mm_s = 120\<rparr>)"
proof (intro conjI impI)
  note whole = whole_command [OF assms(1)] and def = assms(2) [unfolded manual_channels_command_def Let_def]
  show "\<bar>sint (left_velocity_mm_s cmd)\<bar> \<le> 120" "\<bar>sint (right_velocity_mm_s cmd)\<bar> \<le> 120"
    using channels_command_bounded [OF assms(1), of c] by (simp_all only: assms(2))
  show "axes_neutral c \<Longrightarrow> cmd = \<lparr>left_velocity_mm_s = 0, right_velocity_mm_s = 0\<rparr>"
    using whole [of 0 0] by (simp add: def axes_neutral_def neutral_normalized)
  show "is_neutral (c ! 0) \<and> unat (c ! 1) \<ge> stick_max \<Longrightarrow> cmd = \<lparr>left_velocity_mm_s = 120, right_velocity_mm_s = 120\<rparr>"
    using whole [of 1 0] by (simp add: def neutral_normalized extreme_normalized)
  show "is_neutral (c ! 0) \<and> unat (c ! 1) \<le> stick_min \<Longrightarrow> cmd = \<lparr>left_velocity_mm_s = -120, right_velocity_mm_s = -120\<rparr>"
    using whole [of "-1" 0] by (simp add: def neutral_normalized extreme_normalized)
  show "is_neutral (c ! 1) \<and> unat (c ! 0) \<ge> stick_max \<Longrightarrow> cmd = \<lparr>left_velocity_mm_s = 120, right_velocity_mm_s = -120\<rparr>"
    using whole [of 0 1] by (simp add: def neutral_normalized extreme_normalized)
  show "is_neutral (c ! 1) \<and> unat (c ! 0) \<le> stick_min \<Longrightarrow> cmd = \<lparr>left_velocity_mm_s = -120, right_velocity_mm_s = 120\<rparr>"
    using whole [of 0 "-1"] by (simp add: def neutral_normalized extreme_normalized)
qed

lemma double_rounding_id: "double_rounding id"
  by (simp add: double_rounding_def)

lemma manual_commands_bounded_witness:
  "manual_channels_command id (sample_channels 992 1811 1811) = \<lparr>left_velocity_mm_s = 120, right_velocity_mm_s = 120\<rparr>"
  using manual_commands_bounded [OF double_rounding_id refl, of "sample_channels 992 1811 1811"]
  by (simp add: sample_channels_def is_neutral_def manual_control_config)

end
