(* ===== verification/Peer_Runner.thy ===== *)
theory Peer_Runner
  imports Peer_Robot Linux_Serial
begin

section \<open>The client runner (software/rpi/src/stm32\_client\_runner.cpp)\<close>

text \<open>
  The client keeps the link to the robot: it opens the serial port, synchronizes, and while the
  link is up starts a motion session for a fresh wheel command, sends the command every 50 ms,
  ends the session when the command is zero or older than 200 ms, sends heartbeats and
  handles what it receives. Every failure ends the epoch; the next one begins 500 ms later.

  The members of the class are the fields of a record; \<open>rn_host\<close> stands for the port, the random
  generator and the clock. A time point is a number of nanoseconds, \<open>0\<close> the one of
  \<^verbatim>\<open>time_point{}\<close>. A part of the iteration that may leave it early returns \<open>Some\<close> of the result, or
  \<open>None\<close> to go on. Messages for the terminal are left out.
\<close>

datatype runner_state = RunnerDisconnected | RunnerSynchronizing | RunnerSynchronized

record Stm32ClientRunner =
  rn_decoder :: ProtocolFrameDecoder
  rn_epoch_start :: int
  rn_sync_deadline :: int
  rn_reconnect_deadline :: int
  rn_state :: runner_state
  rn_transport_failed :: bool
  rn_host :: Host
  rn_link :: Stm32LinkSession
  rn_motion :: Stm32MotionSession
  rn_motion_session_id :: u32
  rn_latest_wheel_command :: "WheelVelocityCommand option"
  rn_latest_wheel_command_time :: int
  rn_last_wheel_transmit_time :: int

definition wheel_tx_period :: int where "wheel_tx_period = milliseconds 50"
definition wheel_command_freshness :: int where "wheel_command_freshness = milliseconds 200"

text \<open>The initializers of the members, with a port that is not open.\<close>

definition runner_new :: "Host \<Rightarrow> Stm32ClientRunner" where
  "runner_new h =
     \<lparr>rn_decoder = protocol_frame_decoder_init\<lparr>calculated_crc := 0\<rparr>, rn_epoch_start = 0, rn_sync_deadline = 0, rn_reconnect_deadline = 0,
      rn_state = RunnerDisconnected, rn_transport_failed = False, rn_host = h\<lparr>host_fd := -1\<rparr>,
      rn_link = link_session_new, rn_motion = motion_session_new, rn_motion_session_id = 0,
      rn_latest_wheel_command = None, rn_latest_wheel_command_time = 0, rn_last_wheel_transmit_time = 0\<rparr>"

definition runner_now :: "Stm32ClientRunner \<Rightarrow> int \<times> Stm32ClientRunner" where
  "runner_now r = (let (t, h) = steady_clock_now (rn_host r) in (t, r\<lparr>rn_host := h\<rparr>))"

text \<open>The milliseconds of the epoch, as the 32 bits the sessions work with.\<close>

definition epoch_ms :: "int \<Rightarrow> Stm32ClientRunner \<Rightarrow> u32" where
  "epoch_ms t r = word_of_int (cast_milliseconds (t - rn_epoch_start r))"

definition send_frame :: "ProtocolFrame \<Rightarrow> Stm32ClientRunner \<Rightarrow> (bool \<times> Stm32ClientRunner) option" where
  "send_frame frame r = do {
     (ok, h) \<leftarrow> send_protocol_frame frame 100 (rn_host r);
     Some (ok, r\<lparr>rn_host := h\<rparr>)
   }"

definition set_wheel_command :: "WheelVelocityCommand \<Rightarrow> Stm32ClientRunner \<Rightarrow> Stm32ClientRunner" where
  "set_wheel_command command r =
     (let r = r\<lparr>rn_latest_wheel_command := Some command\<rparr>;
          (now, r) = runner_now r
      in r\<lparr>rn_latest_wheel_command_time := now\<rparr>)"

definition has_fresh_wheel_command :: "int \<Rightarrow> Stm32ClientRunner \<Rightarrow> bool" where
  "has_fresh_wheel_command now r =
     (case rn_latest_wheel_command r of
        None \<Rightarrow> False
      | Some _ \<Rightarrow> now - rn_latest_wheel_command_time r < wheel_command_freshness)"

definition is_zero_wheel_command :: "WheelVelocityCommand \<Rightarrow> bool" where
  "is_zero_wheel_command command \<longleftrightarrow> left_velocity_mm_s command = 0 \<and> right_velocity_mm_s command = 0"

definition is_synchronized :: "Stm32ClientRunner \<Rightarrow> bool" where
  "is_synchronized r \<longleftrightarrow> rn_state r = RunnerSynchronized"

definition schedule_reconnect :: "Stm32ClientRunner \<Rightarrow> Stm32ClientRunner" where
  "schedule_reconnect r =
     (let (now, r) = runner_now r in r\<lparr>rn_reconnect_deadline := now + milliseconds 500\<rparr>)"

definition disconnect_current_epoch :: "Stm32ClientRunner \<Rightarrow> Stm32ClientRunner" where
  "disconnect_current_epoch r =
     r\<lparr>rn_state := RunnerDisconnected, rn_link := link_disconnect (rn_link r),
       rn_motion := motion_session_reset (rn_motion r), rn_motion_session_id := 0,
       rn_latest_wheel_command := None, rn_latest_wheel_command_time := 0,
       rn_last_wheel_transmit_time := 0, rn_host := serial_close (rn_host r)\<rparr>"

subsection \<open>Connecting\<close>

definition begin_connection_epoch :: "Stm32ClientRunner \<Rightarrow> (bool \<times> Stm32ClientRunner) option" where
  "begin_connection_epoch r =
     (let (ok, h) = serial_open 115200 (rn_host r);
          r = r\<lparr>rn_host := h\<rparr>
      in if \<not> ok then Some (False, schedule_reconnect r)
         else
           let r = r\<lparr>rn_link := link_disconnect (rn_link r), rn_motion := motion_session_reset (rn_motion r),
                     rn_motion_session_id := 0, rn_latest_wheel_command := None,
                     rn_latest_wheel_command_time := 0, rn_last_wheel_transmit_time := 0\<rparr>;
               r = r\<lparr>rn_state := RunnerDisconnected\<rparr>;
               r = r\<lparr>rn_decoder := protocol_frame_decoder_init\<rparr>;
               (now, r) = runner_now r;
               r = r\<lparr>rn_epoch_start := now\<rparr>;
               (sync_token, h) = random_generator (rn_host r);
               r = r\<lparr>rn_host := h\<rparr>;
               (sync_frame, l) = begin_synchronization sync_token (rn_link r);
               r = r\<lparr>rn_link := l\<rparr>
           in do {
             (ok, r) \<leftarrow> send_frame sync_frame r;
             if \<not> ok then
               Some (False, schedule_reconnect
                 (r\<lparr>rn_transport_failed := True, rn_state := RunnerDisconnected,
                    rn_motion := motion_session_reset (rn_motion r), rn_link := link_disconnect (rn_link r),
                    rn_host := serial_close (rn_host r)\<rparr>))
             else
               let r = r\<lparr>rn_state := RunnerSynchronizing\<rparr>;
                   (now, r) = runner_now r
               in Some (True, r\<lparr>rn_sync_deadline := now + milliseconds 1000\<rparr>)
           })"

text \<open>The bytes of one read, while the answer to the request is awaited.\<close>

fun feed_synchronizing :: "u8 list \<Rightarrow> Stm32ClientRunner \<Rightarrow> bool \<times> Stm32ClientRunner" where
  "feed_synchronizing [] r = (True, r)"
| "feed_synchronizing (b # bs) r =
     (case decoder_feed b (rn_decoder r) of (frame, d) \<Rightarrow>
        let r = r\<lparr>rn_decoder := d\<rparr>
        in case frame of
             None \<Rightarrow> feed_synchronizing bs r
           | Some f \<Rightarrow>
               let (current_time, r) = runner_now r;
                   (ok, l) = handle_link_sync_ok f (epoch_ms current_time r) (rn_link r);
                   r = r\<lparr>rn_link := l\<rparr>
               in if ok then (False, r\<lparr>rn_state := RunnerSynchronized\<rparr>) else feed_synchronizing bs r)"

text \<open>What both iterations do at the end: wait, read what there is, and feed it to the decoder.\<close>

definition receive_bytes ::
  "(u8 list \<Rightarrow> Stm32ClientRunner \<Rightarrow> bool \<times> Stm32ClientRunner) \<Rightarrow> Stm32ClientRunner \<Rightarrow> (bool \<times> Stm32ClientRunner) option" where
  "receive_bytes feed r = do {
     (poll_result, h) \<leftarrow> serial_wait False 1 (rn_host r);
     let r = r\<lparr>rn_host := h\<rparr>;
     if disconnected poll_result then Some (False, r\<lparr>rn_transport_failed := True\<rparr>)
     else if \<not> readable poll_result then Some (True, r)
     else do {
       ((bytes_read, read_buffer), h) \<leftarrow> read_some 128 (rn_host r);
       let r = r\<lparr>rn_host := h\<rparr>;
       if bytes_read < 0 then Some (False, r\<lparr>rn_transport_failed := True\<rparr>)
       else Some (feed (take (nat bytes_read) read_buffer) r)
     }
   }"

definition run_synchronizing_iteration :: "Stm32ClientRunner \<Rightarrow> (bool \<times> Stm32ClientRunner) option" where
  "run_synchronizing_iteration r =
     (let (now, r) = runner_now r
      in if now \<ge> rn_sync_deadline r then Some (False, r) else receive_bytes feed_synchronizing r)"

subsection \<open>The synchronized iteration\<close>

definition handle_synchronized_frame :: "ProtocolFrame \<Rightarrow> u32 \<Rightarrow> Stm32ClientRunner \<Rightarrow> bool \<times> Stm32ClientRunner" where
  "handle_synchronized_frame frame response_now_ms r =
     (let (ok, l) = handle_heartbeat_response frame response_now_ms (rn_link r);
          r = r\<lparr>rn_link := l\<rparr>
      in if ok then (True, r)
         else if lks_state (rn_link r) = Disconnected then (False, r)
         else
           let (ok, m) = handle_ack frame response_now_ms (rn_motion r);
               r = r\<lparr>rn_motion := m\<rparr>
           in if ok then (True, r)
              else
                let previous_motion_state = ms_state (rn_motion r);
                    (motion_result, m) = handle_response frame (rn_motion r);
                    r = r\<lparr>rn_motion := m\<rparr>
                in if motion_result \<noteq> None then
                     if previous_motion_state = StartPending then
                       if ms_state (rn_motion r) \<noteq> ActiveSession
                       then (True, r\<lparr>rn_motion_session_id := 0, rn_last_wheel_transmit_time := 0\<rparr>)
                       else (True, r)
                     else if previous_motion_state = EndPending
                     then (True, r\<lparr>rn_motion_session_id := 0, rn_last_wheel_transmit_time := 0\<rparr>)
                     else (True, r)
                   else (True, r))"

fun feed_synchronized :: "u8 list \<Rightarrow> Stm32ClientRunner \<Rightarrow> bool \<times> Stm32ClientRunner" where
  "feed_synchronized [] r = (True, r)"
| "feed_synchronized (b # bs) r =
     (case decoder_feed b (rn_decoder r) of (frame, d) \<Rightarrow>
        let r = r\<lparr>rn_decoder := d\<rparr>
        in case frame of
             None \<Rightarrow> feed_synchronized bs r
           | Some f \<Rightarrow>
               let (response_time, r) = runner_now r;
                   (stay, r) = handle_synchronized_frame f (epoch_ms response_time r) r
               in if \<not> stay then (False, r) else feed_synchronized bs r)"

text \<open>A message of a transaction: it is sent and, if that succeeds, its retry timer starts.\<close>

definition send_transaction ::
  "ProtocolFrame \<Rightarrow> Stm32ClientRunner \<Rightarrow> (bool option \<times> Stm32ClientRunner) option" where
  "send_transaction frame r = do {
     (ok, r) \<leftarrow> send_frame frame r;
     if \<not> ok then Some (Some False, r\<lparr>rn_transport_failed := True\<rparr>)
     else
       let (transmit_time, r) = runner_now r
       in Some (None, r\<lparr>rn_motion := mark_pending_transmitted (epoch_ms transmit_time r) (rn_motion r)\<rparr>)
   }"

definition send_motion_retry :: "u32 \<Rightarrow> Stm32ClientRunner \<Rightarrow> (bool option \<times> Stm32ClientRunner) option" where
  "send_motion_retry now_ms r =
     (let (motion_retry, m) = retry_if_due now_ms (rn_motion r);
          r = r\<lparr>rn_motion := m\<rparr>
      in case motion_retry of None \<Rightarrow> Some (None, r) | Some frame \<Rightarrow> send_transaction frame r)"

partial_function (option) draw_session_id :: "Stm32ClientRunner \<Rightarrow> Stm32ClientRunner option" where
  "draw_session_id r =
     (case random_generator (rn_host r) of (x, h) \<Rightarrow>
        if ucast x = (0 :: u32) then draw_session_id (r\<lparr>rn_host := h, rn_motion_session_id := ucast x\<rparr>)
        else Some (r\<lparr>rn_host := h, rn_motion_session_id := ucast x\<rparr>))"

definition start_motion :: "Stm32ClientRunner \<Rightarrow> (bool option \<times> Stm32ClientRunner) option" where
  "start_motion r =
     (let (start_decision_time, r) = runner_now r
      in if ms_state (rn_motion r) = Inactive \<and> has_fresh_wheel_command start_decision_time r \<and>
            \<not> is_zero_wheel_command (the (rn_latest_wheel_command r))
         then do {
           r \<leftarrow> draw_session_id r;
           let (motion_start, m) = begin_start_session (rn_motion_session_id r) (rn_motion r);
           let r = r\<lparr>rn_motion := m\<rparr>;
           case motion_start of
             None \<Rightarrow> Some (Some True, r\<lparr>rn_latest_wheel_command := None, rn_latest_wheel_command_time := 0,
                                       rn_motion_session_id := 0\<rparr>)
           | Some frame \<Rightarrow> send_transaction frame r
         }
         else Some (None, r))"

definition send_wheel_velocity :: "int \<Rightarrow> Stm32ClientRunner \<Rightarrow> (bool option \<times> Stm32ClientRunner) option" where
  "send_wheel_velocity wheel_decision_time r =
     (if ms_state (rn_motion r) = ActiveSession \<and> has_fresh_wheel_command wheel_decision_time r \<and>
         \<not> is_zero_wheel_command (the (rn_latest_wheel_command r)) \<and>
         (rn_last_wheel_transmit_time r = 0 \<or>
            wheel_decision_time - rn_last_wheel_transmit_time r \<ge> wheel_tx_period)
      then
        let command = the (rn_latest_wheel_command r);
            (wheel_frame, m) = build_wheel_velocity (left_velocity_mm_s command) (right_velocity_mm_s command) (rn_motion r);
            r = r\<lparr>rn_motion := m\<rparr>
        in case wheel_frame of
             None \<Rightarrow> Some (Some True, r)
           | Some frame \<Rightarrow> do {
               (ok, r) \<leftarrow> send_frame frame r;
               if \<not> ok then Some (Some False, r\<lparr>rn_transport_failed := True\<rparr>)
               else let (now, r) = runner_now r in Some (None, r\<lparr>rn_last_wheel_transmit_time := now\<rparr>)
             }
      else Some (None, r))"

definition end_motion :: "int \<Rightarrow> Stm32ClientRunner \<Rightarrow> (bool option \<times> Stm32ClientRunner) option" where
  "end_motion wheel_decision_time r =
     (if ms_state (rn_motion r) = ActiveSession \<and>
         (\<not> has_fresh_wheel_command wheel_decision_time r \<or> is_zero_wheel_command (the (rn_latest_wheel_command r)))
      then
        let (motion_end, m) = begin_end_session (rn_motion_session_id r) (rn_motion r);
            r = r\<lparr>rn_motion := m\<rparr>
        in case motion_end of
             None \<Rightarrow> Some (Some True, r)
           | Some frame \<Rightarrow> do {
               (out, r) \<leftarrow> send_transaction frame r;
               if out = None then Some (None, r\<lparr>rn_last_wheel_transmit_time := 0\<rparr>) else Some (out, r)
             }
      else Some (None, r))"

definition send_heartbeat :: "u32 \<Rightarrow> Stm32ClientRunner \<Rightarrow> (bool option \<times> Stm32ClientRunner) option" where
  "send_heartbeat now_ms r =
     (let (heartbeat_frame, l) = heartbeat_if_due now_ms (rn_link r);
          r = r\<lparr>rn_link := l\<rparr>
      in case heartbeat_frame of
           None \<Rightarrow> Some (None, r)
         | Some frame \<Rightarrow> do {
             (ok, r) \<leftarrow> send_frame frame r;
             if \<not> ok then Some (Some False, r\<lparr>rn_transport_failed := True\<rparr>) else Some (None, r)
           })"

text \<open>The rest of an iteration, unless a part of it has returned.\<close>

definition go_on ::
  "(Stm32ClientRunner \<Rightarrow> (bool \<times> Stm32ClientRunner) option) \<Rightarrow> bool option \<times> Stm32ClientRunner \<Rightarrow>
   (bool \<times> Stm32ClientRunner) option" where
  "go_on rest x = (case x of (Some b, r) \<Rightarrow> Some (b, r) | (None, r) \<Rightarrow> rest r)"

text \<open>The end of the iteration, and its middle with the decision about the wheels, which two parts share.\<close>

definition finish_iteration :: "u32 \<Rightarrow> Stm32ClientRunner \<Rightarrow> (bool \<times> Stm32ClientRunner) option" where
  "finish_iteration now_ms r = send_heartbeat now_ms r \<bind> go_on (receive_bytes feed_synchronized)"

definition command_wheels :: "u32 \<Rightarrow> Stm32ClientRunner \<Rightarrow> (bool \<times> Stm32ClientRunner) option" where
  "command_wheels now_ms r =
     (let (wheel_decision_time, r) = runner_now r
      in send_wheel_velocity wheel_decision_time r \<bind> go_on (\<lambda>r.
         end_motion wheel_decision_time r \<bind> go_on (finish_iteration now_ms)))"

definition run_synchronized_iteration :: "Stm32ClientRunner \<Rightarrow> (bool \<times> Stm32ClientRunner) option" where
  "run_synchronized_iteration r =
     (let (current_time, r) = runner_now r;
          now_ms = epoch_ms current_time r;
          r = r\<lparr>rn_link := check_link_timeout now_ms (rn_link r)\<rparr>
      in if lks_state (rn_link r) \<noteq> Synchronized then Some (False, r)
         else if retry_exhausted now_ms (rn_motion r) then Some (False, r)
         else send_motion_retry now_ms r \<bind> go_on (\<lambda>r. start_motion r \<bind> go_on (command_wheels now_ms)))"

definition poll :: "Stm32ClientRunner \<Rightarrow> Stm32ClientRunner option" where
  "poll r =
     (if rn_state r = RunnerSynchronized then do {
        (stay, r) \<leftarrow> run_synchronized_iteration r;
        if stay then Some r
        else
          let r = disconnect_current_epoch r
          in Some (schedule_reconnect r)
      }
      else if rn_state r = RunnerSynchronizing then do {
        (stay, r) \<leftarrow> run_synchronizing_iteration r;
        if stay then Some r
        else if rn_state r = RunnerSynchronized then Some r
        else
          let r = disconnect_current_epoch r
          in Some (schedule_reconnect r)
      }
      else if rn_state r \<noteq> RunnerDisconnected then Some r
      else
        let (now, r) = runner_now r
        in if rn_reconnect_deadline r \<noteq> 0 \<and> now < rn_reconnect_deadline r then Some r
           else
             let r = r\<lparr>rn_reconnect_deadline := 0, rn_transport_failed := False\<rparr>
             in do {
               (ok, r) \<leftarrow> begin_connection_epoch r;
               Some r
             })"

end
