(* ===== verification/Runner_Correctness.thy ===== *)
theory Runner_Correctness
  imports Peer_Runner
begin

section \<open>Correctness of the client runner\<close>

text \<open>
  The runner keeps its own state, its two sessions and the port consistent; each poll is a
  sequence of steps of the peer, whose messages are what it writes and whose received messages
  are what its decoder delivers; a velocity goes out only for a fresh command; and each poll
  returns on a host that lets it.
\<close>

subsection \<open>The invariant\<close>

text \<open>The session the runner has in hand is the one its motion session works on.\<close>

definition session_id_of :: "Stm32MotionSession \<Rightarrow> u32" where
  "session_id_of m = (case ms_state m of Inactive \<Rightarrow> 0 | ActiveSession \<Rightarrow> ms_active_session_id m | _ \<Rightarrow> ms_pending_session_id m)"

definition session_tracked :: "Stm32ClientRunner \<Rightarrow> bool" where
  "session_tracked r \<longleftrightarrow> motion_session_wf (rn_motion r) \<and> rn_motion_session_id r = session_id_of (rn_motion r) \<and>
     (ms_state (rn_motion r) \<noteq> Inactive \<longrightarrow> session_id_of (rn_motion r) \<noteq> 0) \<and>
     (rn_last_wheel_transmit_time r \<noteq> 0 \<longrightarrow> ms_state (rn_motion r) = ActiveSession)"

fun link_state_of :: "runner_state \<Rightarrow> Stm32LinkState" where
  "link_state_of RunnerDisconnected = Disconnected"
| "link_state_of RunnerSynchronizing = SyncPending"
| "link_state_of RunnerSynchronized = Synchronized"

definition runner_inv :: "Stm32ClientRunner \<Rightarrow> bool" where
  "runner_inv r \<longleftrightarrow> session_tracked r \<and> lks_state (rn_link r) = link_state_of (rn_state r) \<and>
     (serial_is_open (rn_host r) \<longleftrightarrow> rn_state r \<noteq> RunnerDisconnected) \<and>
     (rn_state r \<noteq> RunnerSynchronized \<longrightarrow> ms_state (rn_motion r) = Inactive)"

subsection \<open>Steps of the peer with what is written and heard\<close>

abbreviation peer_of :: "Stm32ClientRunner \<Rightarrow> peer" where
  "peer_of r \<equiv> (rn_link r, rn_motion r)"

definition advance :: "(ProtocolFrame \<Rightarrow> bool) \<Rightarrow> bool \<Rightarrow> ProtocolFrame list \<Rightarrow> Stm32ClientRunner \<Rightarrow> Stm32ClientRunner \<Rightarrow> bool" where
  "advance P ok gs r r' \<longleftrightarrow> (\<exists>es. peer_steps es (peer_of r) (peer_of r') \<and>
     sent_part (event_bytes es) ok (rn_host r) (rn_host r') \<and> heard_frames es = gs \<and> list_all P (sent_frames es))"

lemma sent_part_append:
  assumes "sent_part xs True h h1" and "sent_part ys ok h1 h2"
  shows "sent_part (xs @ ys) ok h h2"
proof -
  from assms(1) have x: "host_written h1 = host_written h @ xs" by (auto simp: sent_part_def)
  from assms(2) obtain k where k: "host_written h2 = host_written h1 @ take k ys" "ok \<longrightarrow> length ys \<le> k"
    unfolding sent_part_def by blast
  from x k(1) have "host_written h2 = host_written h @ take (length xs + k) (xs @ ys)" by simp
  with k(2) assms show ?thesis
    unfolding sent_part_def by (intro conjI exI [of _ "length xs + k"]) (auto intro: host_after_trans)
qed

lemma sent_part_silent: "host_quiet h h' \<Longrightarrow> sent_part [] ok h h'"
  by (simp add: sent_part_def host_quiet_def)

lemma advance_trans:
  assumes "advance P True gs r r1" and "advance P ok hs r1 r2"
  shows "advance P ok (gs @ hs) r r2"
proof -
  from assms(1) obtain es where es: "peer_steps es (peer_of r) (peer_of r1)" "heard_frames es = gs" "list_all P (sent_frames es)"
    "sent_part (event_bytes es) True (rn_host r) (rn_host r1)" unfolding advance_def by blast
  from assms(2) obtain es' where es': "peer_steps es' (peer_of r1) (peer_of r2)" "heard_frames es' = hs" "list_all P (sent_frames es')"
    "sent_part (event_bytes es') ok (rn_host r1) (rn_host r2)" unfolding advance_def by blast
  show ?thesis
    unfolding advance_def using peer_steps_append [OF es(1) es'(1)] sent_part_append [OF es(4) es'(4)] es(2,3) es'(2,3)
    by (intro exI [of _ "es @ es'"]) simp
qed

lemma advance_idle: "peer_of r' = peer_of r \<Longrightarrow> host_quiet (rn_host r) (rn_host r') \<Longrightarrow> advance P ok [] r r'"
  unfolding advance_def by (intro exI [of _ "[]"]) (simp add: sent_part_silent)

lemma advance_silent:
  "peer_step Silent (peer_of r) (peer_of r') \<Longrightarrow> host_quiet (rn_host r) (rn_host r') \<Longrightarrow> advance P ok [] r r'"
  unfolding advance_def by (intro exI [of _ "[Silent]"]) (simp add: sent_part_silent peer_steps_single del: peer_steps_simps)

lemma advance_hears:
  "peer_step (Hears g) (peer_of r) (peer_of r') \<Longrightarrow> host_quiet (rn_host r) (rn_host r') \<Longrightarrow> advance P ok [g] r r'"
  unfolding advance_def by (intro exI [of _ "[Hears g]"]) (simp add: sent_part_silent peer_steps_single del: peer_steps_simps)

lemma advance_idle_left:
  assumes "peer_of r1 = peer_of r" and "host_quiet (rn_host r) (rn_host r1)" and "advance P ok gs r1 r2"
  shows "advance P ok gs r r2"
  using advance_trans [OF advance_idle [OF assms(1,2)] assms(3)] by simp

lemma advance_after: "advance P ok gs r r' \<Longrightarrow> host_after (rn_host r) (rn_host r')"
  and advance_open: "advance P ok gs r r' \<Longrightarrow> serial_is_open (rn_host r') = serial_is_open (rn_host r)"
  by (auto simp: advance_def sent_part_def serial_is_open_def)

lemma send_frame_spec:
  assumes "send_frame f r = Some (ok, r')" and "frame_sendable f"
  obtains h where "r' = r\<lparr>rn_host := h\<rparr>" and "sent_part (frame_wire f) ok (rn_host r) h"
  using assms send_protocol_frame_spec [OF _ assms(2)] by (auto simp: send_frame_def bind_eq_Some_conv)

lemma advance_sends:
  assumes "peer_step (Sends f) (peer_of r) (peer_of r1)" and "rn_host r1 = rn_host r" and "frame_sendable f" and "P f"
    and "send_frame f r1 = Some (ok, r2)"
  shows "advance P ok [] r r2"
proof -
  from assms(5,3) obtain h where h: "r2 = r1\<lparr>rn_host := h\<rparr>" "sent_part (frame_wire f) ok (rn_host r1) h" by (rule send_frame_spec)
  with assms(1,2,4) peer_steps_single [OF assms(1)] show ?thesis
    unfolding advance_def by (intro exI [of _ "[Sends f]"]) (simp del: peer_steps_simps)
qed

lemma now_spec [simp]: "runner_now r = (host_clock (rn_host r) (host_calls (rn_host r)), r\<lparr>rn_host := host_next (rn_host r)\<rparr>)"
  by (simp add: runner_now_def)

lemma send_transaction_spec:
  assumes "peer_step (Sends f) (peer_of r) (peer_of r1)" and "rn_host r1 = rn_host r" and "frame_sendable f" and "P f"
    and "send_transaction f r1 = Some (out, r2)"
  shows "advance P (out \<noteq> Some False) [] r r2"
    and "out = Some False \<or> out = None \<and> (\<exists>h now. r2 = r1\<lparr>rn_host := h, rn_motion := mark_pending_transmitted now (rn_motion r1)\<rparr>)"
    and "rn_state r2 = rn_state r1" and "rn_decoder r2 = rn_decoder r1"
proof -
  from assms(5) obtain ok r' where s: "send_frame f r1 = Some (ok, r')" by (auto simp: send_transaction_def bind_eq_Some_conv)
  from s assms(3) obtain h where h: "r' = r1\<lparr>rn_host := h\<rparr>" by (rule send_frame_spec)
  note adv = advance_sends [where P = P, OF assms(1-4) s]
  show "out = Some False \<or> out = None \<and> (\<exists>h now. r2 = r1\<lparr>rn_host := h, rn_motion := mark_pending_transmitted now (rn_motion r1)\<rparr>)"
    "rn_state r2 = rn_state r1" "rn_decoder r2 = rn_decoder r1"
    using assms(5) s h by (auto simp: send_transaction_def split: if_splits)
  show "advance P (out \<noteq> Some False) [] r r2"
  proof (cases ok)
    case True
    let ?t = "epoch_ms (host_clock h (host_calls h)) (r1\<lparr>rn_host := host_next h\<rparr>)"
    have out: "out = None" "r2 = r1\<lparr>rn_host := host_next h, rn_motion := mark_pending_transmitted ?t (rn_motion r1)\<rparr>"
      using assms(5) s h True by (auto simp: send_transaction_def)
    have "advance P True [] r' r2" by (rule advance_silent) (use out h peer_mark in auto)
    with advance_trans [of P "[]" r r'] adv True out(1) show ?thesis by auto
  next
    case False
    with assms(5) s h have "out = Some False" "r2 = r'\<lparr>rn_transport_failed := True\<rparr>" by (auto simp: send_transaction_def)
    with adv False show ?thesis by (simp add: advance_def)
  qed
qed

subsection \<open>The parts of the synchronized iteration\<close>

text \<open>
  When a velocity may be sent: for a command that is there and not zero, at a reading of the clock
  less than 200 ms after the command and at least 50 ms after the last velocity, as a message
  that carries exactly that command.
\<close>

definition wheel_permitted :: "Stm32ClientRunner \<Rightarrow> ProtocolFrame \<Rightarrow> bool" where
  "wheel_permitted r f \<longleftrightarrow> (\<forall>i. view f = Velocity i \<longrightarrow> (\<exists>c k sq. rn_latest_wheel_command r = Some c \<and>
     \<not> is_zero_wheel_command c \<and> host_calls (rn_host r) \<le> k \<and>
     host_clock (rn_host r) k - rn_latest_wheel_command_time r < wheel_command_freshness \<and>
     (rn_last_wheel_transmit_time r = 0 \<or> host_clock (rn_host r) k - rn_last_wheel_transmit_time r \<ge> wheel_tx_period) \<and>
     f = message PROTOCOL_MESSAGE_TYPE_WHEEL_VELOCITY sq
       (wheel_velocity_payload_encode \<lparr>wv_motion_session_id = i, wv_command = c\<rparr>)))"

lemma permitted_other: "\<forall>i. view f \<noteq> Velocity i \<Longrightarrow> wheel_permitted r f"
  by (simp add: wheel_permitted_def)

definition wheel_kept :: "Stm32ClientRunner \<Rightarrow> Stm32ClientRunner \<Rightarrow> bool" where
  "wheel_kept r r' \<longleftrightarrow> rn_latest_wheel_command r' = rn_latest_wheel_command r \<and>
     rn_latest_wheel_command_time r' = rn_latest_wheel_command_time r \<and>
     rn_last_wheel_transmit_time r' = rn_last_wheel_transmit_time r \<and> host_after (rn_host r) (rn_host r')"

lemma wheel_kept_trans: "wheel_kept r r1 \<Longrightarrow> wheel_kept r1 r2 \<Longrightarrow> wheel_kept r r2"
  unfolding wheel_kept_def using host_after_trans by metis

definition synced :: "Stm32ClientRunner \<Rightarrow> bool" where
  "synced r \<longleftrightarrow> session_tracked r \<and> lks_state (rn_link r) = Synchronized"

definition section_ok :: "(ProtocolFrame \<Rightarrow> bool) \<Rightarrow> Stm32ClientRunner \<Rightarrow> bool option \<Rightarrow> Stm32ClientRunner \<Rightarrow> bool" where
  "section_ok P r out r' \<longleftrightarrow> advance P (out \<noteq> Some False) [] r r' \<and> rn_state r' = rn_state r \<and>
     rn_decoder r' = rn_decoder r \<and> (out \<noteq> Some False \<longrightarrow> synced r')"

lemma section_idle: "synced r \<Longrightarrow> section_ok P r out r"
  by (simp add: section_ok_def advance_idle)

lemma synced_cong:
  assumes "synced r" and "motion_session_wf (rn_motion r')" and "ms_state (rn_motion r') = ms_state (rn_motion r)"
    and "ms_active_session_id (rn_motion r') = ms_active_session_id (rn_motion r)"
    and "ms_pending_session_id (rn_motion r') = ms_pending_session_id (rn_motion r)"
    and "rn_motion_session_id r' = rn_motion_session_id r"
    and "rn_last_wheel_transmit_time r' = rn_last_wheel_transmit_time r \<or> ms_state (rn_motion r) = ActiveSession"
    and "lks_state (rn_link r') = Synchronized"
  shows "synced r'"
  using assms by (auto simp: synced_def session_tracked_def session_id_of_def split: motion_session_state.splits)

lemma marked_session [simp]:
  "ms_state (mark_pending_transmitted now m) = ms_state m"
  "ms_active_session_id (mark_pending_transmitted now m) = ms_active_session_id m"
  "ms_pending_session_id (mark_pending_transmitted now m) = ms_pending_session_id m"
  by (simp_all add: mark_pending_transmitted_def)

lemma retry_section:
  assumes "synced r" and "send_motion_retry now r = Some (out, r')" and other: "\<And>f. \<forall>i. view f \<noteq> Velocity i \<Longrightarrow> P f"
  shows "section_ok P r out r'" and "out = None \<Longrightarrow> wheel_kept r r'"
proof -
  have wf: "motion_session_wf (rn_motion r)" "lks_state (rn_link r) = Synchronized"
    using assms(1) by (simp_all add: synced_def session_tracked_def)
  have "section_ok P r out r' \<and> (out = None \<longrightarrow> wheel_kept r r')"
  proof (cases "retry_if_due now (rn_motion r)")
    case (Pair f m)
    show ?thesis
    proof (cases f)
      case None
      with Pair refused_calls(4) assms(2) have "r' = r" "out = None" by (auto simp: send_motion_retry_def)
      with section_idle [OF assms(1)] show ?thesis by (simp add: wheel_kept_def)
    next
      case (Some f)
      with Pair have due: "retry_if_due now (rn_motion r) = (Some f, m)" by simp
      note spec = retry_spec [OF wf(1) due]
      let ?r = "r\<lparr>rn_motion := m\<rparr>"
      have step: "peer_step (Sends f) (peer_of r) (peer_of ?r)" using peer_retry [OF wf(2) due] by simp
      have p: "P f" by (rule other) (use spec(2) in auto)
      have "send_transaction f ?r = Some (out, r')" using assms(2) due by (simp add: send_motion_retry_def)
      note tr = send_transaction_spec [where P = P and r = r and ?r1.0 = ?r, OF step _ spec(1) p this, simplified]
      have "ms_state m = ms_state (rn_motion r)" "ms_active_session_id m = ms_active_session_id (rn_motion r)"
        "ms_pending_session_id m = ms_pending_session_id (rn_motion r)"
        using due by (auto simp: retry_if_due_def Let_def split: if_splits)
      then have "out \<noteq> Some False \<longrightarrow> synced r'"
        using tr(2) spec(5) wf(2) by (auto intro!: synced_cong [OF assms(1)])
      with tr advance_after [OF tr(1)] show ?thesis by (auto simp: section_ok_def wheel_kept_def)
    qed
  qed
  then show "section_ok P r out r'" "out = None \<Longrightarrow> wheel_kept r r'" by blast+
qed

lemma draw_session_id_spec:
  assumes "draw_session_id r = Some r'"
  shows "\<exists>h x. r' = r\<lparr>rn_host := h, rn_motion_session_id := x\<rparr> \<and> host_quiet (rn_host r) h \<and> x \<noteq> 0"
proof (rule draw_session_id.raw_induct [OF _ assms], goal_cases)
  case (1 loop r r')
  let ?x = "ucast (host_random (rn_host r) (host_calls (rn_host r))) :: u32"
  show ?case
  proof (cases "?x = 0")
    case True
    with 1(2) have "loop (r\<lparr>rn_host := host_next (rn_host r), rn_motion_session_id := ?x\<rparr>) = Some r'"
      by (simp add: random_generator_def)
    from 1(1) [OF this] obtain h x where r': "r' = r\<lparr>rn_host := h, rn_motion_session_id := x\<rparr>"
      "host_quiet (host_next (rn_host r)) h" "x \<noteq> 0" by auto
    with host_quiet_trans [OF host_next_quiet r'(2)] show ?thesis by auto
  next
    case False
    with 1(2) have "r' = r\<lparr>rn_host := host_next (rn_host r), rn_motion_session_id := ?x\<rparr>" by (simp add: random_generator_def)
    with False host_next_quiet show ?thesis by blast
  qed
qed

lemma start_section:
  assumes "synced r" and "start_motion r = Some (out, r')" and other: "\<And>f. \<forall>i. view f \<noteq> Velocity i \<Longrightarrow> P f"
  shows "section_ok P r out r'" and "out = None \<Longrightarrow> wheel_kept r r'"
proof -
  have wf: "motion_session_wf (rn_motion r)" "lks_state (rn_link r) = Synchronized"
    using assms(1) by (simp_all add: synced_def session_tracked_def)
  let ?t = "host_clock (rn_host r) (host_calls (rn_host r))" and ?r = "r\<lparr>rn_host := host_next (rn_host r)\<rparr>"
  let ?go = "ms_state (rn_motion r) = Inactive \<and> has_fresh_wheel_command ?t ?r \<and>
    \<not> is_zero_wheel_command (the (rn_latest_wheel_command r))"
  have "section_ok P r out r' \<and> (out = None \<longrightarrow> wheel_kept r r')"
  proof (cases ?go)
    case False
    with assms(2) have r': "r' = ?r" "out = None" by (simp_all add: start_motion_def)
    then have "synced r'" using synced_cong [OF assms(1), of r'] wf by simp
    with r' host_quiet_after [OF host_next_quiet] show ?thesis by (auto simp: section_ok_def wheel_kept_def intro: advance_idle)
  next
    case go: True
    with assms(2) obtain r1 where d: "draw_session_id ?r = Some r1" by (auto simp: start_motion_def bind_eq_Some_conv)
    from draw_session_id_spec [OF d] obtain h x where r1: "r1 = r\<lparr>rn_host := h, rn_motion_session_id := x\<rparr>" "x \<noteq> 0"
      and q: "host_quiet (rn_host r) h" using host_quiet_trans [OF host_next_quiet] by auto
    obtain f m where begun: "begin_start_session x (rn_motion r) = (Some f, m)"
      using wf(1) go by (auto simp: begin_start_session_def motion_session_wf_def Let_def split: if_splits)
    note spec = start_session_spec [OF wf(1) begun]
    let ?r1 = "r1\<lparr>rn_motion := m\<rparr>"
    have step: "peer_step (Sends f) (peer_of r1) (peer_of ?r1)" using peer_start [OF wf(2) begun] r1 by simp
    have f: "frame_sendable f" using spec by simp
    have p: "P f" by (rule other) (use spec in simp)
    have "send_transaction f ?r1 = Some (out, r')" using assms(2) go d begun r1(1) by (simp add: start_motion_def)
    note tr = send_transaction_spec [where P = P and r = r1 and ?r1.0 = ?r1, OF step _ f p this, simplified]
    have adv: "advance P (out \<noteq> Some False) [] r r'" by (rule advance_idle_left [OF _ _ tr(1)]) (use r1 q in simp_all)
    have "ms_state m = StartPending" "ms_pending_session_id m = x" using begun by (auto simp: begin_start_session_def Let_def split: if_splits)
    moreover have "rn_last_wheel_transmit_time r = 0" using assms(1) go by (auto simp: synced_def session_tracked_def)
    ultimately have "out \<noteq> Some False \<longrightarrow> synced r'"
      using tr(2) spec r1 wf(2) by (auto simp: synced_def session_tracked_def session_id_of_def)
    with tr adv r1(1) advance_after [OF adv] show ?thesis by (auto simp: section_ok_def wheel_kept_def)
  qed
  then show "section_ok P r out r'" "out = None \<Longrightarrow> wheel_kept r r'" by blast+
qed

lemma wheel_section:
  assumes "synced r" and "send_wheel_velocity t r = Some (out, r')"
    and "t = host_clock (rn_host r) k" and "host_calls (rn_host r0) \<le> k" and "wheel_kept r0 r"
  shows "section_ok (wheel_permitted r0) r out r'"
proof -
  have wf: "motion_session_wf (rn_motion r)" "lks_state (rn_link r) = Synchronized"
    using assms(1) by (simp_all add: synced_def session_tracked_def)
  show ?thesis
  proof (cases "ms_state (rn_motion r) = ActiveSession \<and> has_fresh_wheel_command t r \<and>
         \<not> is_zero_wheel_command (the (rn_latest_wheel_command r)) \<and>
         (rn_last_wheel_transmit_time r = 0 \<or> t - rn_last_wheel_transmit_time r \<ge> wheel_tx_period)")
    case False
    with assms(2) have "r' = r" "out = None" by (auto simp: send_wheel_velocity_def split: if_splits)
    with section_idle [OF assms(1)] show ?thesis by simp
  next
    case go: True
    then obtain c where c: "rn_latest_wheel_command r = Some c" by (auto simp: has_fresh_wheel_command_def split: option.splits)
    from go obtain f m where b: "build_wheel_velocity (left_velocity_mm_s c) (right_velocity_mm_s c) (rn_motion r) = (Some f, m)"
      by (auto simp: build_wheel_velocity_def Let_def)
    note spec = velocity_spec [OF wf(1) b] and msg = velocity_message [OF b]
    let ?r1 = "r\<lparr>rn_motion := m\<rparr>"
    obtain ok r2 where s: "send_frame f ?r1 = Some (ok, r2)"
      and out: "if ok then out = None \<and> r' = r2\<lparr>rn_host := host_next (rn_host r2), rn_last_wheel_transmit_time := host_clock (rn_host r2) (host_calls (rn_host r2))\<rparr>
        else out = Some False \<and> r' = r2\<lparr>rn_transport_failed := True\<rparr>"
      using assms(2) go b c by (auto simp: send_wheel_velocity_def bind_eq_Some_conv split: if_splits)
    from s spec(1) obtain h where h: "r2 = ?r1\<lparr>rn_host := h\<rparr>" by (rule send_frame_spec)
    have step: "peer_step (Sends f) (peer_of r) (peer_of ?r1)" using peer_velocity [OF wf(2) b] by simp
    have p: "wheel_permitted r0 f"
      unfolding wheel_permitted_def
    proof (intro allI impI exI conjI)
      show "rn_latest_wheel_command r0 = Some c" using c assms(5) by (simp add: wheel_kept_def)
      show "\<not> is_zero_wheel_command c" using go c by simp
      show "host_calls (rn_host r0) \<le> k" by (rule assms(4))
      show "host_clock (rn_host r0) k - rn_latest_wheel_command_time r0 < wheel_command_freshness"
        using go c assms(3,5) by (simp add: has_fresh_wheel_command_def wheel_kept_def host_after_def)
      show "rn_last_wheel_transmit_time r0 = 0 \<or> wheel_tx_period \<le> host_clock (rn_host r0) k - rn_last_wheel_transmit_time r0"
        using go assms(3,5) by (simp add: wheel_kept_def host_after_def)
      show "f = message PROTOCOL_MESSAGE_TYPE_WHEEL_VELOCITY (ms_next_wheel_sequence (rn_motion r))
          (wheel_velocity_payload_encode \<lparr>wv_motion_session_id = i, wv_command = c\<rparr>)" if "view f = Velocity i" for i
        using msg(1) spec(2) that by (cases c) simp
    qed
    have adv: "advance (wheel_permitted r0) ok [] r r2"
      by (rule advance_sends [where P = "wheel_permitted r0" and r = r and f = f and ?r1.0 = ?r1, OF step _ spec(1) p s]) simp
    moreover have "advance (wheel_permitted r0) ok [] r2 r'"
      by (rule advance_idle) (use out in \<open>auto split: if_splits\<close>)
    ultimately have adv': "advance (wheel_permitted r0) (out \<noteq> Some False) [] r r'"
      using advance_trans [of "wheel_permitted r0" "[]" r r2 True "[]" r'] out
      by (cases ok) (auto simp: advance_def)
    have "out \<noteq> Some False \<longrightarrow> synced r'"
      using out h msg spec(6) wf(2) by (auto intro!: synced_cong [OF assms(1)] split: if_splits)
    with adv' out h show ?thesis by (auto simp: section_ok_def split: if_splits)
  qed
qed

lemma end_section:
  assumes "synced r" and "end_motion t r = Some (out, r')" and other: "\<And>f. \<forall>i. view f \<noteq> Velocity i \<Longrightarrow> P f"
  shows "section_ok P r out r'"
proof -
  have wf: "motion_session_wf (rn_motion r)" "lks_state (rn_link r) = Synchronized"
    and id: "rn_motion_session_id r = session_id_of (rn_motion r)" "ms_state (rn_motion r) \<noteq> Inactive \<longrightarrow> rn_motion_session_id r \<noteq> 0"
    using assms(1) by (auto simp: synced_def session_tracked_def)
  show ?thesis
  proof (cases "ms_state (rn_motion r) = ActiveSession \<and>
         (\<not> has_fresh_wheel_command t r \<or> is_zero_wheel_command (the (rn_latest_wheel_command r)))")
    case False
    with assms(2) have "r' = r" "out = None" by (auto simp: end_motion_def split: if_splits)
    with section_idle [OF assms(1)] show ?thesis by simp
  next
    case go: True
    let ?sid = "rn_motion_session_id r"
    obtain f m where begun: "begin_end_session ?sid (rn_motion r) = (Some f, m)"
      using wf(1) id(1) go by (auto simp: begin_end_session_def motion_session_wf_def session_id_of_def Let_def split: if_splits)
    note spec = end_session_spec [OF wf(1) begun]
    let ?r1 = "r\<lparr>rn_motion := m\<rparr>"
    have step: "peer_step (Sends f) (peer_of r) (peer_of ?r1)" using peer_end [OF wf(2) begun] by simp
    have f: "frame_sendable f" using spec by simp
    have p: "P f" by (rule other) (use spec in simp)
    obtain r2 where s: "send_transaction f ?r1 = Some (out, r2)"
      and out: "r' = (if out = None then r2\<lparr>rn_last_wheel_transmit_time := 0\<rparr> else r2)"
      using assms(2) go begun by (auto simp: end_motion_def bind_eq_Some_conv split: if_splits)
    note tr = send_transaction_spec [where P = P and r = r and ?r1.0 = ?r1, OF step _ f p s, simplified]
    have adv: "advance P (out \<noteq> Some False) [] r r'" using tr(1) out by (auto simp: advance_def)
    have "ms_state m = EndPending" "ms_pending_session_id m = ?sid" using begun by (auto simp: begin_end_session_def Let_def split: if_splits)
    then have "out \<noteq> Some False \<longrightarrow> synced r'"
      using tr(2) out spec wf(2) go id(2) by (auto simp: synced_def session_tracked_def session_id_of_def)
    with tr adv out show ?thesis by (auto simp: section_ok_def)
  qed
qed

lemma heartbeat_section:
  assumes "synced r" and "send_heartbeat now r = Some (out, r')" and other: "\<And>f. \<forall>i. view f \<noteq> Velocity i \<Longrightarrow> P f"
  shows "section_ok P r out r'"
proof (cases "heartbeat_if_due now (rn_link r)")
  case (Pair x l)
  show ?thesis
  proof (cases x)
    case None
    with Pair assms(2) have "out = None" "r' = r"
      by (auto simp: send_heartbeat_def heartbeat_if_due_def Let_def split: if_splits)
    with section_idle [OF assms(1)] show ?thesis by simp
  next
    case (Some f)
    with Pair have due: "heartbeat_if_due now (rn_link r) = (Some f, l)" by simp
    note spec = beat_spec [OF due]
    let ?r1 = "r\<lparr>rn_link := l\<rparr>"
    obtain ok r2 where s: "send_frame f ?r1 = Some (ok, r2)"
      and out: "if ok then out = None \<and> r' = r2 else out = Some False \<and> r' = r2\<lparr>rn_transport_failed := True\<rparr>"
      using assms(2) due by (auto simp: send_heartbeat_def bind_eq_Some_conv split: if_splits)
    from s spec(1) obtain h where h: "r2 = ?r1\<lparr>rn_host := h\<rparr>" by (rule send_frame_spec)
    have step: "peer_step (Sends f) (peer_of r) (peer_of ?r1)" using peer_beat [OF due] by simp
    have p: "P f" by (rule other) (use spec(2) in simp)
    have "advance P ok [] r r2" by (rule advance_sends [where P = P and r = r and f = f and ?r1.0 = ?r1, OF step _ spec(1) p s]) simp
    then have "advance P (out \<noteq> Some False) [] r r'" using out by (auto simp: advance_def split: if_splits)
    moreover have "out \<noteq> Some False \<longrightarrow> synced r'"
      using out h spec(4) assms(1) by (auto simp: synced_def session_tracked_def split: if_splits)
    ultimately show ?thesis using out h by (auto simp: section_ok_def split: if_splits)
  qed
qed

subsection \<open>What is received\<close>

lemma response_outcome:
  assumes "motion_session_wf s" and "handle_response f s = (Some x, s')"
  shows "ms_state s = StartPending \<and>
      (ms_state s' = ActiveSession \<and> ms_active_session_id s' = ms_pending_session_id s \<or> ms_state s' = Inactive) \<or>
    ms_state s = EndPending \<and> ms_state s' = Inactive"
  using assms by (auto simp: handle_response_def motion_session_wf_def Let_def split: if_splits)

text \<open>The four ways a frame is handled: as an answer to a heartbeat, good or bad, as an acknowledgement, or as a response.\<close>

lemma frame_handled:
  assumes "handle_synchronized_frame f now r = (stay, r')" and "lks_state (rn_link r) = Synchronized"
  obtains (beat) l where "handle_heartbeat_response f now (rn_link r) = (True, l)" and "stay" and "r' = r\<lparr>rn_link := l\<rparr>"
  | (lost) l where "handle_heartbeat_response f now (rn_link r) = (False, l)" and "lks_state l = Disconnected"
      and "\<not> stay" and "r' = r\<lparr>rn_link := l\<rparr>"
  | (ack) m where "handle_heartbeat_response f now (rn_link r) = (False, rn_link r)"
      and "handle_ack f now (rn_motion r) = (True, m)" and "stay" and "r' = r\<lparr>rn_motion := m\<rparr>"
  | (response) res m ended where "handle_heartbeat_response f now (rn_link r) = (False, rn_link r)"
      and "handle_ack f now (rn_motion r) = (False, rn_motion r)" and "handle_response f (rn_motion r) = (res, m)" and "stay"
      and "r' = (if ended then r\<lparr>rn_motion := m, rn_motion_session_id := 0, rn_last_wheel_transmit_time := 0\<rparr> else r\<lparr>rn_motion := m\<rparr>)"
      and "ended \<longleftrightarrow> res \<noteq> None \<and> (ms_state (rn_motion r) = StartPending \<and> ms_state m \<noteq> ActiveSession \<or>
        ms_state (rn_motion r) = EndPending)"
proof -
  obtain ok1 l where h1: "handle_heartbeat_response f now (rn_link r) = (ok1, l)" by fastforce
  obtain ok2 m2 where h2: "handle_ack f now (rn_motion r) = (ok2, m2)" by fastforce
  obtain res m3 where h3: "handle_response f (rn_motion r) = (res, m3)" by fastforce
  consider "ok1" | "\<not> ok1" "lks_state l = Disconnected" | "\<not> ok1" "l = rn_link r" using heartbeat_response_spec(3) [OF h1] by blast
  then show thesis
  proof cases
    case 1
    with h1 assms(1) show thesis by (intro beat [of l]) (simp_all add: handle_synchronized_frame_def)
  next
    case 2
    with h1 assms(1) show thesis by (intro lost [of l]) (simp_all add: handle_synchronized_frame_def)
  next
    case 3
    have keep: "r\<lparr>rn_link := rn_link r\<rparr> = r" by simp
    show thesis
    proof (cases ok2)
      case True
      with h1 h2 3 assms keep show thesis by (intro ack [of m2]) (simp_all add: handle_synchronized_frame_def)
    next
      case False
      then have "m2 = rn_motion r" by (rule ack_spec(5) [OF h2])
      with h1 h2 h3 3 assms False show thesis
        by (intro response [of res m3 "res \<noteq> None \<and> (ms_state (rn_motion r) = StartPending \<and> ms_state m3 \<noteq> ActiveSession \<or>
            ms_state (rn_motion r) = EndPending)"]) (auto simp: handle_synchronized_frame_def Let_def split: if_splits)
    qed
  qed
qed

lemma synchronized_frame:
  assumes "synced r" and "handle_synchronized_frame f now r = (stay, r')"
  shows "peer_step (Hears f) (peer_of r) (peer_of r')" and "rn_host r' = rn_host r" and "rn_decoder r' = rn_decoder r"
    and "rn_state r' = rn_state r" and "stay \<Longrightarrow> synced r'"
proof -
  have wf: "motion_session_wf (rn_motion r)" and up: "lks_state (rn_link r) = Synchronized"
    and tr: "session_tracked r" using assms(1) unfolding synced_def session_tracked_def by blast+
  have "peer_receive f now (rn_link r) (rn_motion r) = peer_of r' \<and> rn_host r' = rn_host r \<and> rn_decoder r' = rn_decoder r \<and>
      rn_state r' = rn_state r \<and> (stay \<longrightarrow> synced r')"
    using assms(2) up
  proof (cases rule: frame_handled)
    case (beat l)
    with tr up heartbeat_response_spec(2) [OF beat(1)] show ?thesis
      by (auto simp: peer_receive_def synced_def session_tracked_def)
  next
    case (lost l)
    with up show ?thesis by (simp add: peer_receive_def)
  next
    case (ack m)
    have "synced r'"
      by (rule synced_cong [OF assms(1)])
         (use ack(2,4) up ack_spec(3) [OF ack(2) wf] in \<open>auto simp: handle_ack_def Let_def split: if_splits\<close>)
    with ack up show ?thesis by (simp add: peer_receive_def)
  next
    case (response res m ended)
    have "synced r'"
    proof (cases res)
      case None
      with response response_spec(3) [OF wf response(3)] assms(1) show ?thesis by simp
    next
      case (Some x)
      with response(3) have "handle_response f (rn_motion r) = (Some x, m)" by simp
      from response_outcome [OF wf this] Some response(5,6) tr up response_spec(2) [OF wf response(3)] show ?thesis
        by (auto simp: synced_def session_tracked_def session_id_of_def)
    qed
    with response up show ?thesis by (simp add: peer_receive_def)
  qed
  then show "peer_step (Hears f) (peer_of r) (peer_of r')" "rn_host r' = rn_host r" "rn_decoder r' = rn_decoder r"
    "rn_state r' = rn_state r" "stay \<Longrightarrow> synced r'"
    using peer_hears [of f now "rn_link r" "rn_motion r" "rn_link r'" "rn_motion r'"] by blast+
qed

lemma feed_synchronized_spec:
  assumes "synced r" and "feed_synchronized bs r = (stay, r')"
  shows "\<exists>gs hs. advance P ok gs r r' \<and> fst (decoder_feed_all bs (rn_decoder r)) = gs @ hs \<and> rn_state r' = rn_state r \<and>
    (stay \<longrightarrow> synced r')"
  using assms
proof (induction bs arbitrary: r)
  case Nil
  then show ?case using advance_idle [of r r P ok] by auto
next
  case (Cons b bs)
  obtain x d where d: "decoder_feed b (rn_decoder r) = (x, d)" by fastforce
  show ?case
  proof (cases x)
    case None
    let ?r = "r\<lparr>rn_decoder := d\<rparr>"
    have "synced ?r" using Cons.prems(1) by (simp add: synced_def session_tracked_def)
    with Cons.IH [of ?r] Cons.prems(2) d None obtain gs hs where
      "advance P ok gs ?r r'" "fst (decoder_feed_all bs d) = gs @ hs" "rn_state r' = rn_state r" "stay \<longrightarrow> synced r'" by auto
    with d None show ?thesis by (auto simp: advance_def split: prod.splits)
  next
    case (Some f)
    let ?r = "r\<lparr>rn_decoder := d, rn_host := host_next (rn_host r)\<rparr>"
    obtain stay1 r1 where h: "handle_synchronized_frame f (epoch_ms (host_clock (rn_host r) (host_calls (rn_host r))) ?r) ?r = (stay1, r1)"
      by fastforce
    have "synced ?r" using Cons.prems(1) by (simp add: synced_def session_tracked_def)
    note fr = synchronized_frame [OF this h]
    have adv: "advance P ok [f] r r1" for ok by (rule advance_hears) (use fr in auto)
    show ?thesis
    proof (cases stay1)
      case True
      with Cons.IH [of r1] fr Cons.prems(2) d Some h obtain gs hs where
        "advance P ok gs r1 r'" "fst (decoder_feed_all bs d) = gs @ hs" "rn_state r' = rn_state r" "stay \<longrightarrow> synced r'" by auto
      with advance_trans [OF adv, of ok gs r'] d Some show ?thesis by (auto split: prod.splits)
    next
      case False
      with Cons.prems(2) d Some h have "r' = r1" "\<not> stay" by auto
      with adv fr(4) d Some show ?thesis
        by (intro exI [of _ "[f]"] exI [of _ "fst (decoder_feed_all bs d)"]) (auto split: prod.splits)
    qed
  qed
qed

lemma receive_bytes_spec:
  assumes "receive_bytes feed r = Some (stay, r')"
  obtains (idle) h where "stay" and "r' = r\<lparr>rn_host := h\<rparr>" and "host_quiet (rn_host r) h"
  | (failed) h where "\<not> stay" and "r' = r\<lparr>rn_host := h, rn_transport_failed := True\<rparr>" and "host_quiet (rn_host r) h"
  | (fed) h bs where "host_quiet (rn_host r) h" and "bytes_brought 128 (rn_host r) bs" and "feed bs (r\<lparr>rn_host := h\<rparr>) = (stay, r')"
proof -
  from assms obtain p h where w: "serial_wait False 1 (rn_host r) = Some (p, h)" by (auto simp: receive_bytes_def bind_eq_Some_conv)
  note q = serial_wait_spec [OF w]
  show thesis
  proof (cases "\<not> disconnected p \<and> readable p")
    case False
    with assms w q show thesis by (cases "disconnected p") (auto simp: receive_bytes_def intro: idle failed)
  next
    case True
    with assms w obtain k bs h1 where rd: "read_some 128 h = Some ((k, bs), h1)" by (auto simp: receive_bytes_def bind_eq_Some_conv)
    note spec = read_some_spec [OF rd]
    have q1: "host_quiet (rn_host r) h1" by (rule host_quiet_trans [OF q spec(1)])
    show thesis
    proof (cases "k < 0")
      case neg: True
      with assms w rd True q1 show thesis by (auto simp: receive_bytes_def intro: failed)
    next
      case False
      then have "take (nat k) bs = bs" using spec(4) by (cases "bs = []") auto
      with assms w rd True False have "feed bs (r\<lparr>rn_host := h1\<rparr>) = (stay, r')" by (simp add: receive_bytes_def)
      with fed [OF q1 bytes_brought_after [OF host_quiet_after [OF q] spec(2)]] show thesis .
    qed
  qed
qed

subsection \<open>The iterations\<close>

definition iteration_ok :: "(ProtocolFrame \<Rightarrow> bool) \<Rightarrow> Stm32ClientRunner \<Rightarrow> bool \<Rightarrow> Stm32ClientRunner \<Rightarrow> bool" where
  "iteration_ok P r stay r' \<longleftrightarrow> rn_state r' = rn_state r \<and> (stay \<longrightarrow> synced r') \<and>
     (\<exists>gs hs bs. advance P stay gs r r' \<and> bytes_brought 128 (rn_host r) bs \<and> fst (decoder_feed_all bs (rn_decoder r)) = gs @ hs)"

lemma iteration_left:
  assumes "advance P True [] r r1" and "rn_state r1 = rn_state r" and "rn_decoder r1 = rn_decoder r" and "iteration_ok P r1 stay r'"
  shows "iteration_ok P r stay r'"
proof -
  from assms(4) obtain gs hs bs where "advance P stay gs r1 r'" "bytes_brought 128 (rn_host r1) bs"
    "fst (decoder_feed_all bs (rn_decoder r1)) = gs @ hs" unfolding iteration_ok_def by blast
  moreover from this(1) have "advance P stay gs r r'" using advance_trans [OF assms(1)] by fastforce
  ultimately show ?thesis
    using assms(2-4) bytes_brought_after [OF advance_after [OF assms(1)]] unfolding iteration_ok_def by metis
qed

lemma iteration_ends: "advance P stay [] r r' \<Longrightarrow> rn_state r' = rn_state r \<Longrightarrow> stay \<longrightarrow> synced r' \<Longrightarrow> iteration_ok P r stay r'"
  unfolding iteration_ok_def by (intro conjI exI [of _ "[]"]) (auto simp: bytes_brought_def)

lemma section_goes_on:
  assumes "x \<bind> go_on rest = Some (stay, r')"
    and "\<And>out r1. x = Some (out, r1) \<Longrightarrow> section_ok P r out r1"
    and "\<And>r1. x = Some (None, r1) \<Longrightarrow> synced r1 \<Longrightarrow> rest r1 = Some (stay, r') \<Longrightarrow> iteration_ok P r1 stay r'"
  shows "iteration_ok P r stay r'"
proof -
  from assms(1) obtain out r1 where x: "x = Some (out, r1)" "go_on rest (out, r1) = Some (stay, r')"
    by (auto simp: bind_eq_Some_conv)
  note ok = assms(2) [OF x(1)]
  show ?thesis
  proof (cases out)
    case None
    with ok have "advance P True [] r r1" "rn_state r1 = rn_state r" "rn_decoder r1 = rn_decoder r" "synced r1"
      by (simp_all add: section_ok_def)
    with assms(3) x None iteration_left show ?thesis by (auto simp: go_on_def)
  next
    case (Some b)
    with x ok show ?thesis by (auto simp: go_on_def section_ok_def intro: iteration_ends)
  qed
qed

lemma receive_ok:
  assumes "synced r" and "receive_bytes feed_synchronized r = Some (stay, r')"
  shows "iteration_ok P r stay r'"
  using assms(2)
proof (cases rule: receive_bytes_spec)
  case (idle h)
  moreover have "synced r'" using assms(1) idle by (simp add: synced_def session_tracked_def)
  ultimately show ?thesis by (auto intro!: iteration_ends advance_idle)
next
  case (failed h)
  then show ?thesis by (auto intro!: iteration_ends advance_idle)
next
  case (fed h bs)
  have "synced (r\<lparr>rn_host := h\<rparr>)" using assms(1) by (simp add: synced_def session_tracked_def)
  from feed_synchronized_spec [OF this fed(3), of P stay] obtain gs hs where
    "advance P stay gs (r\<lparr>rn_host := h\<rparr>) r'" "fst (decoder_feed_all bs (rn_decoder r)) = gs @ hs" "rn_state r' = rn_state r"
    "stay \<longrightarrow> synced r'" by auto
  moreover from this(1) have "advance P stay gs r r'" by (rule advance_idle_left [rotated 2]) (use fed in simp_all)
  ultimately show ?thesis using fed(2) unfolding iteration_ok_def by blast
qed

lemma finish_ok:
  assumes "synced r" and "finish_iteration now r = Some (stay, r')" and other: "\<And>f. \<forall>i. view f \<noteq> Velocity i \<Longrightarrow> P f"
  shows "iteration_ok P r stay r'"
  using assms(2) unfolding finish_iteration_def
  by (rule section_goes_on) (auto intro: heartbeat_section [OF assms(1) _ other] receive_ok)

lemma command_ok:
  assumes "synced r" and "command_wheels now r = Some (stay, r')" and kept: "wheel_kept r0 r"
  shows "iteration_ok (wheel_permitted r0) r stay r'"
proof -
  let ?P = "wheel_permitted r0" and ?k = "host_calls (rn_host r)" and ?r = "r\<lparr>rn_host := host_next (rn_host r)\<rparr>"
  let ?t = "host_clock (rn_host r) ?k"
  have other: "\<And>f. \<forall>i. view f \<noteq> Velocity i \<Longrightarrow> ?P f" by (rule permitted_other)
  have s: "synced ?r" using assms(1) by (simp add: synced_def session_tracked_def)
  have k: "wheel_kept r0 ?r" using kept host_after_trans [OF _ host_quiet_after [OF host_next_quiet]] by (simp add: wheel_kept_def)
  have "send_wheel_velocity ?t ?r \<bind> go_on (\<lambda>r. end_motion ?t r \<bind> go_on (finish_iteration now)) = Some (stay, r')"
    using assms(2) by (simp add: command_wheels_def)
  then have "iteration_ok ?P ?r stay r'"
  proof (rule section_goes_on)
    show "section_ok ?P ?r out r1" if "send_wheel_velocity ?t ?r = Some (out, r1)" for out r1
      by (rule wheel_section [OF s that _ _ k, of ?k]) (use kept in \<open>simp_all add: wheel_kept_def host_after_def\<close>)
    show "iteration_ok ?P r1 stay r'" if r1: "synced r1" and "end_motion ?t r1 \<bind> go_on (finish_iteration now) = Some (stay, r')" for r1
      using that(2) by (rule section_goes_on) (auto intro: end_section [OF r1 _ other] finish_ok [OF _ _ other])
  qed
  then show ?thesis by (rule iteration_left [rotated 3]) (auto intro: advance_idle)
qed

lemma synchronized_iteration:
  assumes "synced r" and "run_synchronized_iteration r = Some (stay, r')"
  shows "iteration_ok (wheel_permitted r) r stay r'"
proof -
  let ?P = "wheel_permitted r" and ?now = "epoch_ms (host_clock (rn_host r) (host_calls (rn_host r))) (r\<lparr>rn_host := host_next (rn_host r)\<rparr>)"
  let ?r0 = "r\<lparr>rn_host := host_next (rn_host r), rn_link := check_link_timeout ?now (rn_link r)\<rparr>"
  have other: "\<And>f. \<forall>i. view f \<noteq> Velocity i \<Longrightarrow> ?P f" by (rule permitted_other)
  have adv0: "advance ?P ok [] r ?r0" for ok by (rule advance_silent) (simp_all add: peer_timeout)
  show ?thesis
  proof (cases "lks_state (rn_link ?r0) = Synchronized \<and> \<not> retry_exhausted ?now (rn_motion ?r0)")
    case False
    with assms(2) have "\<not> stay" "r' = ?r0" by (auto simp: run_synchronized_iteration_def Let_def split: if_splits)
    with adv0 show ?thesis by (auto intro: iteration_ends)
  next
    case True
    have s0: "synced ?r0" using assms(1) True by (simp add: synced_def session_tracked_def)
    have k0: "wheel_kept r ?r0" using host_quiet_after [OF host_next_quiet] by (simp add: wheel_kept_def)
    have "send_motion_retry ?now ?r0 \<bind> go_on (\<lambda>r. start_motion r \<bind> go_on (command_wheels ?now)) = Some (stay, r')"
      using assms(2) True by (simp add: run_synchronized_iteration_def Let_def)
    then have "iteration_ok ?P ?r0 stay r'"
    proof (rule section_goes_on)
      show "section_ok ?P ?r0 out r1" if "send_motion_retry ?now ?r0 = Some (out, r1)" for out r1
        by (rule retry_section(1) [OF s0 that other])
      fix r1 assume r1: "send_motion_retry ?now ?r0 = Some (None, r1)" "synced r1"
        and rest: "start_motion r1 \<bind> go_on (command_wheels ?now) = Some (stay, r')"
      have k1: "wheel_kept r r1" by (rule wheel_kept_trans [OF k0 retry_section(2) [where P = ?P, OF s0 r1(1) other refl]])
      from rest show "iteration_ok ?P r1 stay r'"
      proof (rule section_goes_on)
        show "section_ok ?P r1 out r2" if "start_motion r1 = Some (out, r2)" for out r2
          by (rule start_section(1) [OF r1(2) that other])
        fix r2 assume r2: "start_motion r1 = Some (None, r2)" "synced r2" and last: "command_wheels ?now r2 = Some (stay, r')"
        have "wheel_kept r r2" by (rule wheel_kept_trans [OF k1 start_section(2) [where P = ?P, OF r1(2) r2(1) other refl]])
        with r2(2) last show "iteration_ok ?P r2 stay r'" by (rule command_ok)
      qed
    qed
    then show ?thesis by (rule iteration_left [OF adv0, rotated 2]) simp_all
  qed
qed

lemma feed_synchronizing_spec:
  assumes "session_tracked r" and "ms_state (rn_motion r) = Inactive" and "lks_state (rn_link r) = SyncPending"
    and "rn_state r = RunnerSynchronizing" and "feed_synchronizing bs r = (stay, r')"
  shows "\<exists>gs hs. advance P ok gs r r' \<and> fst (decoder_feed_all bs (rn_decoder r)) = gs @ hs \<and>
    session_tracked r' \<and> ms_state (rn_motion r') = Inactive \<and>
    (if stay then lks_state (rn_link r') = SyncPending \<and> rn_state r' = RunnerSynchronizing
     else lks_state (rn_link r') = Synchronized \<and> rn_state r' = RunnerSynchronized)"
  using assms
proof (induction bs arbitrary: r)
  case Nil
  then show ?case using advance_idle [of r r P ok] by auto
next
  case (Cons b bs)
  obtain x d where d: "decoder_feed b (rn_decoder r) = (x, d)" by fastforce
  show ?case
  proof (cases x)
    case None
    let ?r = "r\<lparr>rn_decoder := d\<rparr>"
    have "session_tracked ?r" using Cons.prems(1) by (simp add: session_tracked_def)
    with Cons.IH [of ?r] Cons.prems(2-) d None obtain gs hs where
      "advance P ok gs ?r r'" "fst (decoder_feed_all bs d) = gs @ hs" "session_tracked r'" "ms_state (rn_motion r') = Inactive"
      "if stay then lks_state (rn_link r') = SyncPending \<and> rn_state r' = RunnerSynchronizing
       else lks_state (rn_link r') = Synchronized \<and> rn_state r' = RunnerSynchronized" by auto
    with d None show ?thesis by (auto simp: advance_def split: prod.splits)
  next
    case (Some f)
    let ?now = "epoch_ms (host_clock (rn_host r) (host_calls (rn_host r))) (r\<lparr>rn_decoder := d, rn_host := host_next (rn_host r)\<rparr>)"
    obtain ok1 l where h: "handle_link_sync_ok f ?now (rn_link r) = (ok1, l)" by fastforce
    note spec = sync_ok_spec [OF h]
    let ?r = "r\<lparr>rn_decoder := d, rn_host := host_next (rn_host r), rn_link := l\<rparr>"
    have "peer_receive f ?now (rn_link r) (rn_motion r) = (l, rn_motion r)" using Cons.prems(3) h by (simp add: peer_receive_def)
    then have adv: "advance P ok [f] r ?r" for ok by (intro advance_hears) (simp_all add: peer_hears)
    have tr: "session_tracked ?r" using Cons.prems(1) by (simp add: session_tracked_def)
    show ?thesis
    proof (cases ok1)
      case True
      with Cons.prems(5) d Some h have r': "r' = ?r\<lparr>rn_state := RunnerSynchronized\<rparr>" "\<not> stay" by auto
      moreover have "advance P ok [f] r r'" using adv [of ok] r' by (simp add: advance_def)
      ultimately show ?thesis using True spec(2) tr Cons.prems(2) d Some
        by (intro exI [of _ "[f]"] exI [of _ "fst (decoder_feed_all bs d)"]) (auto simp: session_tracked_def split: prod.splits)
    next
      case False
      with Cons.IH [of ?r] Cons.prems spec(4) tr d Some h obtain gs hs where
        "advance P ok gs ?r r'" "fst (decoder_feed_all bs d) = gs @ hs" "session_tracked r'" "ms_state (rn_motion r') = Inactive"
        "if stay then lks_state (rn_link r') = SyncPending \<and> rn_state r' = RunnerSynchronizing
         else lks_state (rn_link r') = Synchronized \<and> rn_state r' = RunnerSynchronized" by auto
      with advance_trans [OF adv, of ok gs r'] d Some show ?thesis
        by (intro exI [of _ "f # gs"] exI [of _ hs]) (auto split: prod.splits)
    qed
  qed
qed

end
