(* ===== verification/Runner_Properties.thy ===== *)
theory Runner_Properties
  imports Runner_Correctness
begin

section \<open>What a poll of the client does\<close>

text \<open>
  The three states of the runner put together: a poll keeps the invariant, is a sequence of steps
  of the peer, writes the images of what the steps send and hears what the decoder delivers.
\<close>

definition poll_path :: "Stm32ClientRunner \<Rightarrow> peer_event list \<Rightarrow> Stm32ClientRunner \<Rightarrow> bool" where
  "poll_path r es r' \<longleftrightarrow> peer_steps es (peer_of r) (peer_of r') \<and> host_after (rn_host r) (rn_host r') \<and>
     (\<exists>n. host_written (rn_host r') = host_written (rn_host r) @ take n (event_bytes es) \<and>
        (rn_state r' \<noteq> RunnerDisconnected \<longrightarrow> length (event_bytes es) \<le> n)) \<and>
     (\<exists>bs hs. bytes_brought 128 (rn_host r) bs \<and> fst (decoder_feed_all bs (rn_decoder r)) = heard_frames es @ hs)"

lemma advance_path:
  assumes "advance P ok gs r r'" and "rn_state r' \<noteq> RunnerDisconnected \<longrightarrow> ok"
    and "bytes_brought 128 (rn_host r) bs" and "fst (decoder_feed_all bs (rn_decoder r)) = gs @ hs"
  shows "\<exists>es. poll_path r es r' \<and> list_all P (sent_frames es)"
proof -
  from assms(1) obtain es n where es: "peer_steps es (peer_of r) (peer_of r')" "heard_frames es = gs" "list_all P (sent_frames es)"
    "host_after (rn_host r) (rn_host r')" "host_written (rn_host r') = host_written (rn_host r) @ take n (event_bytes es)"
    "ok \<longrightarrow> length (event_bytes es) \<le> n" unfolding advance_def sent_part_def by blast
  with assms(2-4) show ?thesis unfolding poll_path_def by blast
qed

text \<open>The end of an epoch: everything is closed, and the next one is scheduled.\<close>

lemma epoch_ends:
  assumes "advance P ok gs r r1" and "r' = schedule_reconnect (disconnect_current_epoch r1)"
    and "bytes_brought 128 (rn_host r) bs" and "fst (decoder_feed_all bs (rn_decoder r)) = gs @ hs"
  shows "runner_inv r' \<and> (\<exists>es. poll_path r es r' \<and> list_all P (sent_frames es))"
proof -
  have r': "rn_state r' = RunnerDisconnected" "peer_of r' = (link_disconnect (rn_link r1), motion_session_reset (rn_motion r1))"
    "rn_host r' = host_next (serial_close (rn_host r1))" "rn_motion_session_id r' = 0" "rn_last_wheel_transmit_time r' = 0"
    by (simp_all add: assms(2) schedule_reconnect_def disconnect_current_epoch_def)
  have inv: "runner_inv r'"
    using r' serial_closed [of "rn_host r1"]
    by (auto simp: runner_inv_def session_tracked_def session_id_of_def serial_is_open_def motion_session_reset_def motion_session_wf_def)
  from assms(1) obtain es n where es: "peer_steps es (peer_of r) (peer_of r1)" "heard_frames es = gs" "list_all P (sent_frames es)"
    "host_after (rn_host r) (rn_host r1)" "host_written (rn_host r1) = host_written (rn_host r) @ take n (event_bytes es)"
    unfolding advance_def sent_part_def by blast
  have "peer_steps (es @ [Silent]) (peer_of r) (peer_of r')"
    unfolding r'(2) by (rule peer_steps_append [OF es(1) peer_steps_single [OF peer_disconnect]])
  moreover have "host_after (rn_host r) (rn_host r')"
    unfolding r'(3) by (rule host_after_trans [OF host_after_trans [OF es(4) serial_close_after(1)] host_quiet_after [OF host_next_quiet]])
  ultimately have "poll_path r (es @ [Silent]) r'"
    unfolding poll_path_def using es(2,5) r'(1,3) assms(3,4) by auto
  with inv es(3) show ?thesis by (intro conjI exI [of _ "es @ [Silent]"]) simp_all
qed

lemma poll_synchronized:
  assumes "runner_inv r" and "rn_state r = RunnerSynchronized" and "poll r = Some r'"
  shows "runner_inv r' \<and> (\<exists>es. poll_path r es r' \<and> list_all (wheel_permitted r) (sent_frames es))"
proof -
  have "synced r" using assms(1,2) by (simp add: runner_inv_def synced_def)
  from assms(2,3) obtain stay r1 where it: "run_synchronized_iteration r = Some (stay, r1)"
    by (auto simp: poll_def bind_eq_Some_conv)
  have r': "r' = (if stay then r1 else schedule_reconnect (disconnect_current_epoch r1))"
    using assms(2,3) it by (auto simp: poll_def)
  from synchronized_iteration [OF \<open>synced r\<close> it] obtain gs hs bs where
    adv: "advance (wheel_permitted r) stay gs r r1" "bytes_brought 128 (rn_host r) bs" "fst (decoder_feed_all bs (rn_decoder r)) = gs @ hs"
    and st: "rn_state r1 = rn_state r" "stay \<longrightarrow> synced r1" by (auto simp: iteration_ok_def)
  show ?thesis
  proof (cases stay)
    case True
    with st assms(1,2) advance_open [OF adv(1)] have "runner_inv r1" by (simp add: runner_inv_def synced_def)
    with advance_path [OF adv(1) _ adv(2,3)] True r' show ?thesis by simp
  next
    case False
    with epoch_ends [OF adv(1) _ adv(2,3)] r' show ?thesis by simp
  qed
qed

lemma synchronizing_iteration:
  assumes "runner_inv r" and "rn_state r = RunnerSynchronizing" and "run_synchronizing_iteration r = Some (stay, r')"
  shows "\<exists>gs hs bs. advance P True gs r r' \<and> bytes_brought 128 (rn_host r) bs \<and> fst (decoder_feed_all bs (rn_decoder r)) = gs @ hs \<and>
    (stay \<or> rn_state r' = RunnerSynchronized \<longrightarrow> runner_inv r')"
proof -
  have tr: "session_tracked r" "ms_state (rn_motion r) = Inactive" "lks_state (rn_link r) = SyncPending" "serial_is_open (rn_host r)"
    using assms(1,2) by (simp_all add: runner_inv_def)
  have unchanged: ?thesis if "host_quiet (rn_host r) h" "r' = r\<lparr>rn_host := h\<rparr> \<or> r' = r\<lparr>rn_host := h, rn_transport_failed := True\<rparr>" for h
  proof (intro exI conjI)
    show "advance P True [] r r'" by (rule advance_idle) (use that in auto)
    show "fst (decoder_feed_all [] (rn_decoder r)) = [] @ []" "bytes_brought 128 (rn_host r) []" by (simp_all add: bytes_brought_def)
    show "stay \<or> rn_state r' = RunnerSynchronized \<longrightarrow> runner_inv r'"
      using that tr assms(2) by (auto simp: runner_inv_def session_tracked_def serial_is_open_def host_quiet_def)
  qed
  let ?r = "r\<lparr>rn_host := host_next (rn_host r)\<rparr>"
  show ?thesis
  proof (cases "host_clock (rn_host r) (host_calls (rn_host r)) \<ge> rn_sync_deadline r")
    case True
    with assms(3) have "r' = ?r" by (simp add: run_synchronizing_iteration_def)
    with unchanged [OF host_next_quiet] show ?thesis by blast
  next
    case False
    with assms(3) have "receive_bytes feed_synchronizing ?r = Some (stay, r')" by (simp add: run_synchronizing_iteration_def)
    then show ?thesis
    proof (cases rule: receive_bytes_spec)
      case (idle h)
      with unchanged [of h] host_quiet_trans [OF host_next_quiet, of "rn_host r" h] show ?thesis by simp
    next
      case (failed h)
      with unchanged [of h] host_quiet_trans [OF host_next_quiet, of "rn_host r" h] show ?thesis by simp
    next
      case (fed h bs)
      have q: "host_quiet (rn_host r) h" using host_quiet_trans [OF host_next_quiet] fed(1) by simp
      have "feed_synchronizing bs (r\<lparr>rn_host := h\<rparr>) = (stay, r')" using fed(3) by simp
      from feed_synchronizing_spec [OF _ _ _ _ this, of P True] tr assms(2) obtain gs hs where
        adv: "advance P True gs (r\<lparr>rn_host := h\<rparr>) r'" and hs: "fst (decoder_feed_all bs (rn_decoder r)) = gs @ hs"
        and out: "session_tracked r'" "ms_state (rn_motion r') = Inactive"
          "if stay then lks_state (rn_link r') = SyncPending \<and> rn_state r' = RunnerSynchronizing
           else lks_state (rn_link r') = Synchronized \<and> rn_state r' = RunnerSynchronized"
        by (auto simp: session_tracked_def)
      have adv': "advance P True gs r r'" by (rule advance_idle_left [OF _ _ adv]) (use q in simp_all)
      moreover have "bytes_brought 128 (rn_host r) bs"
        using fed(2) bytes_brought_after [OF host_quiet_after [OF host_next_quiet [of "rn_host r"]]] by simp
      moreover have "runner_inv r'" using out advance_open [OF adv'] tr(4) by (auto simp: runner_inv_def split: if_splits)
      ultimately show ?thesis using hs by blast
    qed
  qed
qed

lemma poll_synchronizing:
  assumes "runner_inv r" and "rn_state r = RunnerSynchronizing" and "poll r = Some r'"
  shows "runner_inv r' \<and> (\<exists>es. poll_path r es r' \<and> list_all P (sent_frames es))"
proof -
  from assms(2,3) obtain stay r1 where it: "run_synchronizing_iteration r = Some (stay, r1)"
    by (auto simp: poll_def bind_eq_Some_conv)
  have r': "r' = (if stay \<or> rn_state r1 = RunnerSynchronized then r1 else schedule_reconnect (disconnect_current_epoch r1))"
    using assms(2,3) it by (auto simp: poll_def split: if_splits)
  from synchronizing_iteration [OF assms(1,2) it] obtain gs hs bs where
    adv: "advance P True gs r r1" "bytes_brought 128 (rn_host r) bs" "fst (decoder_feed_all bs (rn_decoder r)) = gs @ hs"
    and inv: "stay \<or> rn_state r1 = RunnerSynchronized \<longrightarrow> runner_inv r1" by blast
  show ?thesis
  proof (cases "stay \<or> rn_state r1 = RunnerSynchronized")
    case True
    with advance_path [OF adv(1) _ adv(2,3)] inv r' show ?thesis by auto
  next
    case False
    with epoch_ends [OF adv(1) _ adv(2,3)] r' show ?thesis by simp
  qed
qed

lemma path_written:
  assumes "peer_steps es (peer_of r) (peer_of r')" and "host_after (rn_host r) (rn_host r')" and "heard_frames es = []"
    and "host_written (rn_host r') = host_written (rn_host r) @ take n (event_bytes es)"
    and "rn_state r' \<noteq> RunnerDisconnected \<longrightarrow> length (event_bytes es) \<le> n"
  shows "poll_path r es r'"
proof -
  have "bytes_brought 128 (rn_host r) [] \<and> fst (decoder_feed_all [] (rn_decoder r)) = heard_frames es @ []"
    using assms(3) by (simp add: bytes_brought_def)
  with assms(1,2,4,5) show ?thesis unfolding poll_path_def by blast
qed

text \<open>An epoch that begins: what is left to do once the port is open is to send the request.\<close>

definition epoch_begun :: "Host \<Rightarrow> Stm32LinkSession \<Rightarrow> Stm32ClientRunner \<Rightarrow> Stm32ClientRunner" where
  "epoch_begun h l r = r\<lparr>rn_host := host_next (host_next h), rn_link := l, rn_motion := motion_session_reset (rn_motion r),
     rn_motion_session_id := 0, rn_latest_wheel_command := None, rn_latest_wheel_command_time := 0,
     rn_last_wheel_transmit_time := 0, rn_state := RunnerDisconnected, rn_decoder := protocol_frame_decoder_init,
     rn_epoch_start := host_clock h (host_calls h)\<rparr>"

lemma connection_eq:
  assumes "serial_open 115200 (rn_host r) = (True, h)"
    and "begin_synchronization (host_random h (Suc (host_calls h))) (link_disconnect (rn_link r)) = (f, l)"
  shows "begin_connection_epoch r = send_frame f (epoch_begun h l r) \<bind> (\<lambda>(ok, r2).
      if \<not> ok then Some (False, schedule_reconnect (r2\<lparr>rn_transport_failed := True, rn_state := RunnerDisconnected,
           rn_motion := motion_session_reset (rn_motion r2), rn_link := link_disconnect (rn_link r2),
           rn_host := serial_close (rn_host r2)\<rparr>))
      else let r2 = r2\<lparr>rn_state := RunnerSynchronizing\<rparr>; (now, r2) = runner_now r2
           in Some (True, r2\<lparr>rn_sync_deadline := now + milliseconds 1000\<rparr>))"
  using assms by (cases r) (simp add: begin_connection_epoch_def epoch_begun_def random_generator_def)

lemma connection_opened:
  assumes "serial_open 115200 (rn_host r) = (True, h)" and "begin_connection_epoch r = Some (ok, r')"
    and "begin_synchronization (host_random h (Suc (host_calls h))) (link_disconnect (rn_link r)) = (f, l)"
  obtains sent r2 where "send_frame f (epoch_begun h l r) = Some (sent, r2)"
    and "r' = (if sent then r2\<lparr>rn_state := RunnerSynchronizing, rn_host := host_next (rn_host r2),
           rn_sync_deadline := host_clock (rn_host r2) (host_calls (rn_host r2)) + milliseconds 1000\<rparr>
       else schedule_reconnect (r2\<lparr>rn_transport_failed := True, rn_state := RunnerDisconnected,
           rn_motion := motion_session_reset (rn_motion r2), rn_link := link_disconnect (rn_link r2),
           rn_host := serial_close (rn_host r2)\<rparr>))"
proof -
  note eq = assms(2) [unfolded connection_eq [OF assms(1,3)]]
  then obtain sent r2 where s: "send_frame f (epoch_begun h l r) = Some (sent, r2)" by (auto simp: bind_eq_Some_conv)
  with eq show thesis by (intro that [OF s]) (cases r2, auto split: if_splits)
qed

lemma connection_epoch:
  assumes "runner_inv r" and "rn_state r = RunnerDisconnected" and "begin_connection_epoch r = Some (ok, r')"
  shows "runner_inv r' \<and> (\<exists>es. poll_path r es r' \<and> list_all (wheel_permitted r0) (sent_frames es))"
proof -
  obtain opened h where op: "serial_open 115200 (rn_host r) = (opened, h)" by fastforce
  note spec = serial_open_spec [OF op]
  have inv: "session_tracked r" "lks_state (rn_link r) = Disconnected" "ms_state (rn_motion r) = Inactive"
    using assms(1,2) by (simp_all add: runner_inv_def)
  show ?thesis
  proof (cases opened)
    case False
    with assms(3) op have r': "r' = schedule_reconnect (r\<lparr>rn_host := h\<rparr>)" by (simp add: begin_connection_epoch_def)
    have "runner_inv r'" using inv assms(2) spec(3) False r'
      by (auto simp: runner_inv_def schedule_reconnect_def session_tracked_def serial_is_open_def)
    moreover have "poll_path r [] r'"
      by (rule path_written [of _ _ _ 0])
         (use r' spec(1,2) host_after_trans [OF spec(1) host_quiet_after [OF host_next_quiet]] in \<open>auto simp: schedule_reconnect_def\<close>)
    ultimately show ?thesis by (intro conjI exI [of _ "[]"]) simp_all
  next
    case True
    let ?tok = "host_random h (Suc (host_calls h))"
    obtain f l where begun: "begin_synchronization ?tok (link_disconnect (rn_link r)) = (f, l)" by fastforce
    note sync = synchronization_spec [OF begun]
    have f: "frame_sendable f" "view f = Sync (lks_next_sequence (link_disconnect (rn_link r))) ?tok" by (simp_all add: sync(1) view_message)
    from connection_opened [OF op [unfolded True [THEN eqTrueI]] assms(3) begun] obtain sent r2 where
      s: "send_frame f (epoch_begun h l r) = Some (sent, r2)"
      and r': "r' = (if sent then r2\<lparr>rn_state := RunnerSynchronizing, rn_host := host_next (rn_host r2),
             rn_sync_deadline := host_clock (rn_host r2) (host_calls (rn_host r2)) + milliseconds 1000\<rparr>
         else schedule_reconnect (r2\<lparr>rn_transport_failed := True, rn_state := RunnerDisconnected,
             rn_motion := motion_session_reset (rn_motion r2), rn_link := link_disconnect (rn_link r2),
             rn_host := serial_close (rn_host r2)\<rparr>))" by blast
    from s f(1) obtain h2 where r2: "r2 = (epoch_begun h l r)\<lparr>rn_host := h2\<rparr>" "sent_part (frame_wire f) sent (host_next (host_next h)) h2"
      by (rule send_frame_spec) (simp add: epoch_begun_def)
    have step: "peer_step (Connects ?tok f) (peer_of r) (peer_of r2)" using peer_connect [OF begun] by (simp add: r2 epoch_begun_def)
    from r2(2) obtain n where n: "host_written h2 = host_written (rn_host r) @ take n (frame_wire f)" "sent \<longrightarrow> length (frame_wire f) \<le> n"
      using spec(2) by (auto simp: sent_part_def)
    have after: "host_after (rn_host r) h2" "serial_is_open h2"
      using spec True r2(2) by (auto simp: sent_part_def host_after_def serial_is_open_def)
    let ?es = "if sent then [Connects ?tok f] else [Connects ?tok f, Silent]"
    have "poll_path r ?es r'"
    proof (rule path_written [of _ _ _ n])
      show "peer_steps ?es (peer_of r) (peer_of r')"
        using step r' peer_disconnect [of "rn_link r2" "rn_motion r2"]
        by (cases sent) (auto simp: schedule_reconnect_def intro!: peer_steps_cons peer_steps_nil simp del: peer_steps_simps)
    qed (use n r' r2 after in \<open>auto simp: schedule_reconnect_def host_after_def serial_close_def\<close>)
    moreover have "runner_inv r'"
      using r' r2 after(2) sync(2) serial_closed [of h2]
      by (auto simp: runner_inv_def session_tracked_def session_id_of_def motion_session_wf_def motion_session_reset_def
          schedule_reconnect_def serial_is_open_def epoch_begun_def)
    moreover have "list_all (wheel_permitted r0) (sent_frames ?es)" using f(2) by (auto intro: permitted_other)
    ultimately show ?thesis by blast
  qed
qed

lemma path_left:
  assumes "poll_path r1 es r'" and "peer_of r1 = peer_of r" and "host_quiet (rn_host r) (rn_host r1)" and "rn_decoder r1 = rn_decoder r"
  shows "poll_path r es r'"
  using assms host_after_trans [OF host_quiet_after [OF assms(3)]] bytes_brought_after [OF host_quiet_after [OF assms(3)]]
  unfolding poll_path_def by (auto simp: host_quiet_def)

lemma poll_ok:
  assumes "runner_inv r" and "poll r = Some r'"
  shows "runner_inv r'" and "\<exists>es. poll_path r es r' \<and> list_all (wheel_permitted r) (sent_frames es)"
proof -
  have "runner_inv r' \<and> (\<exists>es. poll_path r es r' \<and> list_all (wheel_permitted r) (sent_frames es))"
  proof (cases "rn_state r")
    case RunnerDisconnected
    let ?r = "r\<lparr>rn_host := host_next (rn_host r)\<rparr>"
    let ?r1 = "?r\<lparr>rn_reconnect_deadline := 0, rn_transport_failed := False\<rparr>"
    have inv: "runner_inv ?r" "runner_inv ?r1" using assms(1) by (auto simp: runner_inv_def session_tracked_def serial_is_open_def)
    show ?thesis
    proof (cases "r' = ?r")
      case True
      with advance_path [OF advance_idle [of ?r r "wheel_permitted r" True], of "[]" "[]"] inv(1) show ?thesis
        by (simp add: bytes_brought_def)
    next
      case False
      with assms(2) RunnerDisconnected obtain ok where b: "begin_connection_epoch ?r1 = Some (ok, r')"
        by (auto simp: poll_def bind_eq_Some_conv split: if_splits)
      from connection_epoch [OF inv(2) _ b, of r] RunnerDisconnected path_left [of ?r1 _ r' r] show ?thesis by auto
    qed
  next
    case RunnerSynchronizing
    from poll_synchronizing [OF assms(1) this assms(2)] show ?thesis .
  next
    case RunnerSynchronized
    from poll_synchronized [OF assms(1) this assms(2)] show ?thesis .
  qed
  then show "runner_inv r'" "\<exists>es. poll_path r es r' \<and> list_all (wheel_permitted r) (sent_frames es)" by blast+
qed

subsection \<open>A poll returns\<close>

abbreviation live :: "Stm32ClientRunner \<Rightarrow> bool" where
  "live r \<equiv> host_live (rn_host r)"

lemma live_next [simp]: "host_live (host_next h) = host_live h"
  by (rule host_live_after [OF host_quiet_after [OF host_next_quiet]])

lemma send_frame_returns: "live r \<Longrightarrow> \<exists>y. send_frame f r = Some y"
  using send_returns [of "rn_host r" f 100] by (auto simp: send_frame_def)

lemma send_transaction_returns: "live r \<Longrightarrow> \<exists>y. send_transaction f r = Some y"
  using send_frame_returns [of r f] by (auto simp: send_transaction_def)

lemma draw_returns:
  assumes "ucast (host_random (rn_host r) j) \<noteq> (0 :: u32)" and "host_calls (rn_host r) \<le> j"
  shows "\<exists>y. draw_session_id r = Some y"
  using assms
proof (induction "j - host_calls (rn_host r)" arbitrary: r)
  case 0
  then show ?case by (subst draw_session_id.simps) (simp add: random_generator_def)
next
  case (Suc d)
  then have "\<exists>y. draw_session_id (r\<lparr>rn_host := host_next (rn_host r), rn_motion_session_id := x\<rparr>) = Some y" for x by simp
  then show ?case by (subst draw_session_id.simps) (simp add: random_generator_def)
qed

lemma retry_returns: "live r \<Longrightarrow> \<exists>y. send_motion_retry now r = Some y"
  using send_transaction_returns by (auto simp: send_motion_retry_def Let_def split: prod.splits option.splits)

lemma start_returns:
  assumes "live r"
  shows "\<exists>y. start_motion r = Some y"
proof -
  let ?r = "r\<lparr>rn_host := host_next (rn_host r)\<rparr>"
  have "live ?r" using assms by simp
  then obtain j where "host_calls (rn_host ?r) \<le> j" "ucast (host_random (rn_host ?r) j) \<noteq> (0 :: u32)" by (rule host_liveD)
  from draw_returns [OF this(2,1)] obtain r1 where d: "draw_session_id ?r = Some r1" by blast
  from draw_session_id_spec [OF d] have "live r1" using \<open>live ?r\<close> host_live_after [OF host_quiet_after] by auto
  then show ?thesis using d send_transaction_returns
    by (auto simp: start_motion_def Let_def split: prod.splits option.splits)
qed

text \<open>A computation that returns whatever its first part returns.\<close>

lemma bind_returns: "\<exists>x. m = Some x \<Longrightarrow> (\<And>x. \<exists>y. k x = Some y) \<Longrightarrow> \<exists>y. m \<bind> k = Some y"
  by auto

lemma wheel_returns:
  assumes "live r"
  shows "\<exists>y. send_wheel_velocity t r = Some y"
proof -
  have "\<exists>y. (send_frame f (r\<lparr>rn_motion := m\<rparr>) \<bind> (\<lambda>(ok, r). if \<not> ok then Some (Some False, r\<lparr>rn_transport_failed := True\<rparr>)
      else let (now, r) = runner_now r in Some (None, r\<lparr>rn_last_wheel_transmit_time := now\<rparr>))) = Some y" for f m
    by (rule bind_returns [OF send_frame_returns]) (use assms in \<open>simp_all split: prod.split\<close>)
  then show ?thesis unfolding send_wheel_velocity_def Let_def by (simp split: prod.split option.split)
qed

lemma end_returns:
  assumes "live r"
  shows "\<exists>y. end_motion t r = Some y"
proof -
  have "\<exists>y. (send_transaction f (r\<lparr>rn_motion := m\<rparr>) \<bind> (\<lambda>(out, r).
      if out = None then Some (None, r\<lparr>rn_last_wheel_transmit_time := 0\<rparr>) else Some (out, r))) = Some y" for f m
    by (rule bind_returns [OF send_transaction_returns]) (use assms in \<open>simp_all split: prod.split\<close>)
  then show ?thesis unfolding end_motion_def Let_def by (simp split: prod.split option.split)
qed

lemma beat_returns:
  assumes "live r"
  shows "\<exists>y. send_heartbeat now r = Some y"
proof -
  have "\<exists>y. (send_frame f (r\<lparr>rn_link := l\<rparr>) \<bind> (\<lambda>(ok, r).
      if \<not> ok then Some (Some False, r\<lparr>rn_transport_failed := True\<rparr>) else Some (None, r))) = Some y" for f l
    by (rule bind_returns [OF send_frame_returns]) (use assms in \<open>simp_all split: prod.split\<close>)
  then show ?thesis unfolding send_heartbeat_def Let_def by (simp split: prod.split option.split)
qed

lemma receive_returns:
  assumes "live r"
  shows "\<exists>y. receive_bytes feed r = Some y"
proof -
  from live_returns(3) [OF assms] obtain p h where w: "serial_wait False 1 (rn_host r) = Some (p, h)" by fastforce
  have "host_live h" using assms host_live_after [OF host_quiet_after [OF serial_wait_spec [OF w]]] by simp
  from live_returns(1) [OF this] obtain k bs h1 where "read_some 128 h = Some ((k, bs), h1)" by fastforce
  with w show ?thesis by (auto simp: receive_bytes_def Let_def)
qed

lemma go_on_returns:
  assumes "live r" and "\<exists>y. x = Some y" and "\<And>out r1. x = Some (out, r1) \<Longrightarrow> section_ok P r out r1"
    and "\<And>r1. x = Some (None, r1) \<Longrightarrow> synced r1 \<Longrightarrow> live r1 \<Longrightarrow> \<exists>y. rest r1 = Some y"
  shows "\<exists>y. x \<bind> go_on rest = Some y"
proof -
  from assms(2) obtain out r1 where x: "x = Some (out, r1)" by fastforce
  from assms(3) [OF x] have "live r1" "out \<noteq> Some False \<longrightarrow> synced r1"
    using assms(1) host_live_after [OF advance_after] by (auto simp: section_ok_def)
  with assms(4) x show ?thesis by (cases out) (auto simp: go_on_def)
qed

lemma finish_returns:
  assumes "synced r" and "live r"
  shows "\<exists>y. finish_iteration now r = Some y"
  unfolding finish_iteration_def
  by (rule go_on_returns [where P = "wheel_permitted r", OF assms(2) beat_returns [OF assms(2)]])
     (blast intro: heartbeat_section [OF assms(1)] permitted_other receive_returns)+

lemma command_returns:
  assumes "synced r" and "live r"
  shows "\<exists>y. command_wheels now r = Some y"
proof -
  let ?t = "host_clock (rn_host r) (host_calls (rn_host r))" and ?r = "r\<lparr>rn_host := host_next (rn_host r)\<rparr>"
  have s: "synced ?r" "live ?r" using assms by (simp_all add: synced_def session_tracked_def)
  have k: "wheel_kept r ?r" using host_quiet_after [OF host_next_quiet] by (simp add: wheel_kept_def)
  have "\<exists>y. send_wheel_velocity ?t ?r \<bind> go_on (\<lambda>r. end_motion ?t r \<bind> go_on (finish_iteration now)) = Some y"
  proof (rule go_on_returns [where P = "wheel_permitted r", OF s(2) wheel_returns [OF s(2)]])
    show "section_ok (wheel_permitted r) ?r out r1" if "send_wheel_velocity ?t ?r = Some (out, r1)" for out r1
      by (rule wheel_section [OF s(1) that _ _ k, of "host_calls (rn_host r)"]) simp_all
    show "\<exists>y. end_motion ?t r1 \<bind> go_on (finish_iteration now) = Some y" if r1: "synced r1" "live r1" for r1
      by (rule go_on_returns [where P = "wheel_permitted r", OF r1(2) end_returns [OF r1(2)]])
         (blast intro: end_section [OF r1(1)] permitted_other finish_returns)+
  qed
  then show ?thesis by (simp add: command_wheels_def)
qed

lemma synchronized_returns:
  assumes "synced r" and "live r"
  shows "\<exists>y. run_synchronized_iteration r = Some y"
proof -
  let ?now = "epoch_ms (host_clock (rn_host r) (host_calls (rn_host r))) (r\<lparr>rn_host := host_next (rn_host r)\<rparr>)"
  let ?r0 = "r\<lparr>rn_host := host_next (rn_host r), rn_link := check_link_timeout ?now (rn_link r)\<rparr>"
  have live: "live ?r0" using assms(2) by simp
  have "\<exists>y. send_motion_retry ?now ?r0 \<bind> go_on (\<lambda>r. start_motion r \<bind> go_on (command_wheels ?now)) = Some y"
    if "lks_state (rn_link ?r0) = Synchronized"
  proof -
    have s0: "synced ?r0" using assms(1) that by (simp add: synced_def session_tracked_def)
    show ?thesis
    proof (rule go_on_returns [where P = "wheel_permitted r", OF live retry_returns [OF live]])
      show "section_ok (wheel_permitted r) ?r0 out r1" if "send_motion_retry ?now ?r0 = Some (out, r1)" for out r1
        by (rule retry_section(1) [OF s0 that permitted_other])
      show "\<exists>y. start_motion r1 \<bind> go_on (command_wheels ?now) = Some y" if r1: "synced r1" "live r1" for r1
        by (rule go_on_returns [where P = "wheel_permitted r", OF r1(2) start_returns [OF r1(2)]])
           (blast intro: start_section(1) [OF r1(1)] permitted_other command_returns)+
    qed
  qed
  then show ?thesis by (auto simp: run_synchronized_iteration_def Let_def)
qed

lemma connection_returns:
  assumes "live r"
  shows "\<exists>y. begin_connection_epoch r = Some y"
proof -
  obtain opened h where op: "serial_open 115200 (rn_host r) = (opened, h)" by fastforce
  obtain f l where begun: "begin_synchronization (host_random h (Suc (host_calls h))) (link_disconnect (rn_link r)) = (f, l)" by fastforce
  have "host_live h" using assms host_live_after [OF serial_open_spec(1) [OF op]] by simp
  then have live: "live (epoch_begun h l r)" by (simp add: epoch_begun_def)
  show ?thesis
  proof (cases opened)
    case True
    with op have op: "serial_open 115200 (rn_host r) = (True, h)" by simp
    show ?thesis
      unfolding connection_eq [OF op begun] by (rule bind_returns [OF send_frame_returns [OF live]]) (auto split: prod.split)
  next
    case False
    with op show ?thesis by (auto simp: begin_connection_epoch_def)
  qed
qed

lemma poll_terminates:
  assumes "runner_inv r" and "live r"
  shows "\<exists>r'. poll r = Some r'"
proof (cases "rn_state r")
  case RunnerDisconnected
  have "\<exists>y. begin_connection_epoch (r\<lparr>rn_host := host_next (rn_host r), rn_reconnect_deadline := 0, rn_transport_failed := False\<rparr>) = Some y"
    by (rule connection_returns) (use assms(2) in simp)
  with RunnerDisconnected show ?thesis by (auto simp: poll_def)
next
  case RunnerSynchronizing
  have "\<exists>y. receive_bytes feed_synchronizing (r\<lparr>rn_host := host_next (rn_host r)\<rparr>) = Some y"
    by (rule receive_returns) (use assms(2) in simp)
  then have "\<exists>y. run_synchronizing_iteration r = Some y" by (auto simp: run_synchronizing_iteration_def)
  with RunnerSynchronizing show ?thesis by (auto simp: poll_def Let_def)
next
  case RunnerSynchronized
  with assms(1) have "synced r" by (simp add: runner_inv_def synced_def)
  from synchronized_returns [OF this assms(2)] RunnerSynchronized show ?thesis by (auto simp: poll_def Let_def)
qed

subsection \<open>The end of a session\<close>

text \<open>A command that is zero, or that is not fresh at any reading of the clock to come.\<close>

definition motion_unwanted :: "Stm32ClientRunner \<Rightarrow> bool" where
  "motion_unwanted r \<longleftrightarrow> (\<exists>c. rn_latest_wheel_command r = Some c \<and> is_zero_wheel_command c) \<or>
     (\<forall>k \<ge> host_calls (rn_host r). \<not> has_fresh_wheel_command (host_clock (rn_host r) k) r)"

abbreviation ended :: "Stm32ClientRunner \<Rightarrow> bool" where
  "ended r \<equiv> ms_state (rn_motion r) = EndPending \<or> ms_state (rn_motion r) = Inactive"

lemma frame_keeps_ended:
  assumes "handle_synchronized_frame f now r = (stay, r')" and "synced r" and "ended r"
  shows "ended r'"
proof -
  have up: "lks_state (rn_link r) = Synchronized" and wf: "motion_session_wf (rn_motion r)"
    using assms(2) by (simp_all add: synced_def session_tracked_def)
  show ?thesis using assms(1) up
  proof (cases rule: frame_handled)
    case (ack m)
    with assms(3) show ?thesis by (auto simp: handle_ack_def Let_def split: if_splits)
  next
    case (response res m e)
    then have motion: "rn_motion r' = m" by simp
    show ?thesis
    proof (cases res)
      case None
      with response_spec(3) [OF wf response(3)] motion assms(3) show ?thesis by simp
    next
      case (Some x)
      with response(3) have "handle_response f (rn_motion r) = (Some x, m)" by simp
      from response_outcome [OF wf this] motion assms(3) show ?thesis by auto
    qed
  qed (use assms(3) in simp_all)
qed

lemma feed_keeps_ended: "feed_synchronized bs r = (stay, r') \<Longrightarrow> synced r \<Longrightarrow> ended r \<Longrightarrow> ended r'"
proof (induction bs arbitrary: r)
  case (Cons b bs)
  obtain x d where d: "decoder_feed b (rn_decoder r) = (x, d)" by fastforce
  show ?case
  proof (cases x)
    case None
    with Cons d show ?thesis by (simp add: synced_def session_tracked_def)
  next
    case (Some f)
    let ?r = "r\<lparr>rn_decoder := d, rn_host := host_next (rn_host r)\<rparr>"
    obtain stay1 r1 where h: "handle_synchronized_frame f (epoch_ms (host_clock (rn_host r) (host_calls (rn_host r))) ?r) ?r = (stay1, r1)"
      by fastforce
    have s: "synced ?r" using Cons.prems(2) by (simp add: synced_def session_tracked_def)
    have "ended r1" by (rule frame_keeps_ended [OF h s]) (use Cons.prems(3) in simp)
    with Cons.IH [of r1] Cons.prems(1) synchronized_frame(5) [OF s h] d Some h show ?thesis by (auto split: if_splits)
  qed
qed simp

lemma finish_keeps_ended:
  assumes "synced r" and "ended r" and "finish_iteration now r = Some (True, r')"
  shows "ended r'"
proof -
  obtain out r1 where b: "send_heartbeat now r = Some (out, r1)" and on: "go_on (receive_bytes feed_synchronized) (out, r1) = Some (True, r')"
    using assms(3) by (auto simp: finish_iteration_def bind_eq_Some_conv)
  have "section_ok (wheel_permitted r) r out r1" by (rule heartbeat_section [OF assms(1) b permitted_other])
  moreover have "rn_motion r1 = rn_motion r" "out = None \<or> out = Some False"
    using b by (auto simp: send_heartbeat_def send_frame_def bind_eq_Some_conv Let_def split: prod.splits option.splits if_splits)
  ultimately have r1: "synced r1" "ended r1" "receive_bytes feed_synchronized r1 = Some (True, r')"
    using on assms(2) by (auto simp: go_on_def section_ok_def)
  from r1(3) show ?thesis
  proof (cases rule: receive_bytes_spec)
    case (fed h bs)
    with feed_keeps_ended [OF fed(3)] r1(1,2) show ?thesis by (simp add: synced_def session_tracked_def)
  qed (use r1(2) in simp_all)
qed

lemma end_motion_outcome:
  assumes "synced r" and "ms_state (rn_motion r) = ActiveSession"
    and "\<not> has_fresh_wheel_command t r \<or> is_zero_wheel_command (the (rn_latest_wheel_command r))"
    and "end_motion t r = Some (out, r')"
  shows "out = Some False \<or> out = None \<and> ms_state (rn_motion r') = EndPending"
proof -
  have "motion_session_wf (rn_motion r)" "rn_motion_session_id r = ms_active_session_id (rn_motion r)"
    using assms(1,2) by (auto simp: synced_def session_tracked_def session_id_of_def)
  then obtain f m where begun: "begin_end_session (rn_motion_session_id r) (rn_motion r) = (Some f, m)" "ms_state m = EndPending"
    using assms(2) by (auto simp: begin_end_session_def motion_session_wf_def Let_def split: if_splits)
  obtain out1 r1 where s: "send_transaction f (r\<lparr>rn_motion := m\<rparr>) = Some (out1, r1)"
    using assms(2-4) begun(1) by (auto simp: end_motion_def bind_eq_Some_conv)
  then have "out1 = Some False \<or> out1 = None \<and> ms_state (rn_motion r1) = EndPending"
    using begun(2) by (auto simp: send_transaction_def send_frame_def bind_eq_Some_conv split: if_splits)
  with s assms(2-4) begun(1) show ?thesis by (auto simp: end_motion_def split: if_splits)
qed

lemma start_active:
  "ms_state (rn_motion r) = ActiveSession \<Longrightarrow> start_motion r = Some (None, r\<lparr>rn_host := host_next (rn_host r)\<rparr>)"
  by (simp add: start_motion_def)

lemma unwanted_wheels:
  assumes "synced r" and "ms_state (rn_motion r) = ActiveSession"
    and t: "t = host_clock (rn_host r) (host_calls (rn_host r))"
    and unw: "\<not> has_fresh_wheel_command t r \<or> is_zero_wheel_command (the (rn_latest_wheel_command r))"
    and "command_wheels now r = Some (True, r')"
  shows "ended r'"
proof -
  let ?r = "r\<lparr>rn_host := host_next (rn_host r)\<rparr>"
  have s: "synced ?r" using assms(1) by (simp add: synced_def session_tracked_def)
  have unw': "\<not> has_fresh_wheel_command t ?r \<or> is_zero_wheel_command (the (rn_latest_wheel_command ?r))"
    using unw by (auto simp: has_fresh_wheel_command_def split: option.splits)
  then have "send_wheel_velocity t ?r = Some (None, ?r)" by (auto simp: send_wheel_velocity_def)
  with assms(5) t have "end_motion t ?r \<bind> go_on (finish_iteration now) = Some (True, r')"
    by (simp add: command_wheels_def go_on_def)
  then obtain out r1 where e: "end_motion t ?r = Some (out, r1)" and on: "go_on (finish_iteration now) (out, r1) = Some (True, r')"
    by (auto simp: bind_eq_Some_conv)
  have sec: "section_ok (wheel_permitted r) ?r out r1" by (rule end_section [OF s e permitted_other])
  have "out = Some False \<or> out = None \<and> ms_state (rn_motion r1) = EndPending"
    by (rule end_motion_outcome [OF s _ unw' e]) (use assms(2) in simp)
  with on sec have "synced r1" "ended r1" "finish_iteration now r1 = Some (True, r')" by (auto simp: go_on_def section_ok_def)
  then show ?thesis by (rule finish_keeps_ended)
qed

lemma unwanted_iteration:
  assumes "synced r" and "ms_state (rn_motion r) = ActiveSession" and "motion_unwanted r"
    and "run_synchronized_iteration r = Some (True, r')"
  shows "ended r'"
proof -
  let ?now = "epoch_ms (host_clock (rn_host r) (host_calls (rn_host r))) (r\<lparr>rn_host := host_next (rn_host r)\<rparr>)"
  define r0 where "r0 = r\<lparr>rn_host := host_next (rn_host r), rn_link := check_link_timeout ?now (rn_link r)\<rparr>"
  define r1 where "r1 = r0\<lparr>rn_host := host_next (rn_host r0)\<rparr>"
  have "motion_session_wf (rn_motion r)" using assms(1) by (simp add: synced_def session_tracked_def)
  then have none: "\<not> ms_transaction_pending (rn_motion r)" using assms(2) by (auto simp: motion_session_wf_def split: if_splits)
  have go: "lks_state (rn_link r0) = Synchronized"
    "send_motion_retry ?now r0 \<bind> go_on (\<lambda>r. start_motion r \<bind> go_on (command_wheels ?now)) = Some (True, r')"
    using assms(4) none by (auto simp: run_synchronized_iteration_def retry_exhausted_def r0_def Let_def split: if_splits)
  have "send_motion_retry ?now r0 = Some (None, r0)" using none by (simp add: send_motion_retry_def retry_if_due_def r0_def)
  moreover have "start_motion r0 = Some (None, r1)" unfolding r1_def by (rule start_active) (simp add: r0_def assms(2))
  ultimately have last: "command_wheels ?now r1 = Some (True, r')" using go(2) by (simp add: go_on_def)
  show ?thesis
  proof (rule unwanted_wheels [OF _ _ refl _ last])
    show "synced r1" using assms(1) go(1) by (simp add: synced_def session_tracked_def r0_def r1_def)
    show "ms_state (rn_motion r1) = ActiveSession" using assms(2) by (simp add: r0_def r1_def)
    show "\<not> has_fresh_wheel_command (host_clock (rn_host r1) (host_calls (rn_host r1))) r1 \<or>
        is_zero_wheel_command (the (rn_latest_wheel_command r1))"
      using assms(3) by (auto simp: motion_unwanted_def r0_def r1_def has_fresh_wheel_command_def split: option.splits)
  qed
qed

subsection \<open>The client as a transition system\<close>

text \<open>The main program polls the runner, and gives it wheel commands in between.\<close>

inductive runner_step :: "Stm32ClientRunner \<Rightarrow> Stm32ClientRunner \<Rightarrow> bool" where
  polled: "poll r = Some r' \<Longrightarrow> runner_step r r'"
| commanded: "runner_step r (set_wheel_command c r)"

definition runner_started :: "Stm32ClientRunner \<Rightarrow> bool" where
  "runner_started r \<longleftrightarrow> (\<exists>h. r = runner_new h)"

lemma runner_inv_new: "runner_inv (runner_new h)"
  by (simp add: runner_new_def runner_inv_def session_tracked_def session_id_of_def serial_is_open_def
      link_session_new_def motion_session_new_def motion_session_wf_def)

lemma runner_inv_command: "runner_inv r \<Longrightarrow> runner_inv (set_wheel_command c r)"
  by (auto simp: set_wheel_command_def runner_inv_def session_tracked_def serial_is_open_def Let_def)

interpretation client: inductive_invariant runner_started runner_step runner_inv
proof
  show "runner_inv r" if "runner_started r" for r using that runner_inv_new by (auto simp: runner_started_def)
  show "runner_inv r'" if "runner_inv r" "runner_step r r'" for r r'
    using that(2,1) by cases (auto intro: poll_ok(1) runner_inv_command)
qed

subsection \<open>A host and a client to try it on\<close>

text \<open>A host on which nothing fails: every call counts as a nanosecond and nothing is to be read.\<close>

definition sample_host :: Host where
  "sample_host = \<lparr>host_clock = int, host_poll = (\<lambda>_ _ _. Ready \<lparr>POLLIN = False, POLLOUT = True, POLLERR = False,
       POLLHUP = False, POLLNVAL = False\<rparr>),
     host_read = (\<lambda>_. Read_Error EAGAIN), host_write = (\<lambda>_. Write_Count 100), host_open = (\<lambda>_. 3), host_ioctl = (\<lambda>_. 0),
     host_random = (\<lambda>_. 7), host_calls = 1, host_fd = 3, host_written = []\<rparr>"

definition sample_runner :: "WheelVelocityCommand \<Rightarrow> Stm32ClientRunner" where
  "sample_runner c = (runner_new sample_host)\<lparr>rn_host := sample_host, rn_state := RunnerSynchronized,
     rn_link := link_session_new\<lparr>lks_state := Synchronized\<rparr>,
     rn_motion := motion_session_new\<lparr>ms_state := ActiveSession, ms_active_session_id := 9\<rparr>,
     rn_motion_session_id := 9, rn_latest_wheel_command := Some c\<rparr>"

lemma sample_host_live: "host_live sample_host"
proof -
  have "\<exists>k. \<forall>j \<ge> k. t \<le> int j" for t by (intro exI [of _ "nat t"]) auto
  then show ?thesis by (auto simp: host_live_def sample_host_def)
qed

lemma sample_runner_inv: "runner_inv (sample_runner c)" "live (sample_runner c)"
  using sample_host_live
  by (simp_all add: sample_runner_def runner_new_def runner_inv_def session_tracked_def session_id_of_def serial_is_open_def
      link_session_new_def motion_session_new_def motion_session_wf_def sample_host_def)

lemma sample_send:
  assumes "frame_sendable f" and "host_fd h = 3" and "host_clock h = int" and "host_poll h = host_poll sample_host"
    and "host_write h = host_write sample_host"
  shows "send_protocol_frame f 100 h = Some (True, h\<lparr>host_calls := host_calls h + 6, host_written := host_written h @ frame_wire f\<rparr>)"
proof -
  have len: "length (frame_wire f) \<le> 74" "frame_wire f \<noteq> []"
    using assms(1) length_frame_wire [OF assms(1)] by (auto simp: frame_sendable_def)
  then show ?thesis
    using protocol_frame_encode_wire [OF assms(1), of "replicate 74 0"] assms(2-)
    by (simp add: send_protocol_frame_def)
      (subst send_loop.simps, simp add: serial_wait_def wait_loop.simps write_some_def write_loop.simps sys_write_def
        sample_host_def milliseconds_def ceil_milliseconds_def host_next_def, subst send_loop.simps, simp)
qed

lemma sample_durations: "milliseconds 1 = 1000000" "milliseconds 200 = 200000000" "milliseconds 50 = 50000000"
  by (simp_all add: milliseconds_def)

abbreviation sample_command :: WheelVelocityCommand where
  "sample_command \<equiv> \<lparr>left_velocity_mm_s = 100, right_velocity_mm_s = 50\<rparr>"

lemma sample_poll:
  obtains r' where "poll (sample_runner sample_command) = Some r'" and "rn_state r' = RunnerSynchronized"
    and "host_written (rn_host r') \<noteq> []"
proof -
  let ?m = "motion_session_new\<lparr>ms_state := ActiveSession, ms_active_session_id := 9\<rparr>"
  obtain f where f: "build_wheel_velocity 100 50 ?m = (Some f, ?m\<lparr>ms_next_wheel_sequence := 2\<rparr>)"
    by (simp add: build_wheel_velocity_def motion_session_new_def Let_def)
  have sf: "frame_sendable f" using velocity_message(1) [OF f] by simp
  have wire: "frame_wire f \<noteq> []" using length_frame_wire [OF sf] by auto
  have "\<exists>r'. poll (sample_runner sample_command) = Some r' \<and> rn_state r' = RunnerSynchronized \<and> host_written (rn_host r') \<noteq> []"
    using f wire
    by (simp add: poll_def sample_runner_def runner_new_def run_synchronized_iteration_def sample_host_def epoch_ms_def
        link_session_new_def check_link_timeout_def retry_exhausted_def motion_session_new_def send_motion_retry_def retry_if_due_def
        go_on_def start_motion_def command_wheels_def send_wheel_velocity_def has_fresh_wheel_command_def is_zero_wheel_command_def
        wheel_command_freshness_def wheel_tx_period_def send_frame_def sample_send [OF sf]
        end_motion_def finish_iteration_def send_heartbeat_def heartbeat_if_due_def receive_bytes_def serial_wait_def wait_loop.simps
        cast_milliseconds_def signed_divide_int_def host_next_def sample_durations Let_def)
  with that show thesis by blast
qed

subsection \<open>Properties\<close>

text \<open>
  C8: The client program follows the protocol. From every consistent state a poll of the runner is a
  sequence of steps of the peer's sessions; what it writes to the port is the wire images of
  the messages these steps send, in order and without a gap, and cut short only when the
  poll ends with the epoch given up; the messages it hears are the first ones the decoder delivers from
  bytes the port has read. On any net whose peer is in that state, with those messages arriving
  and the drawn token unused, the poll therefore is a path of the net.
\<close>

theorem poll_refines_peer:
  assumes "runner_inv r" and "poll r = Some r'"
  shows "\<exists>es k bs hs. peer_steps es (rn_link r, rn_motion r) (rn_link r', rn_motion r') \<and>
    host_written (rn_host r') = host_written (rn_host r) @ take k (event_bytes es) \<and>
    (rn_state r' \<noteq> RunnerDisconnected \<longrightarrow> length (event_bytes es) \<le> k) \<and>
    bytes_brought 128 (rn_host r) bs \<and> fst (decoder_feed_all bs (rn_decoder r)) = heard_frames es @ hs \<and>
    (\<forall>n ws rest. net_link n = rn_link r \<and> net_motion n = rn_motion r \<and> net_to_peer n = ws @ rest \<and>
       list_all2 arrives ws (heard_frames es) \<and> tokens_unused es (net_to_robot n) (net_to_peer n) \<longrightarrow>
       (net_step sent receives runs)\<^sup>*\<^sup>* n (n\<lparr>net_link := rn_link r', net_motion := rn_motion r',
         net_to_robot := net_to_robot n @ map frame_wire (sent_frames es), net_to_peer := rest\<rparr>))"
proof -
  from poll_ok(2) [OF assms] obtain es k bs hs where es: "peer_steps es (peer_of r) (peer_of r')"
    "host_written (rn_host r') = host_written (rn_host r) @ take k (event_bytes es)"
    "rn_state r' \<noteq> RunnerDisconnected \<longrightarrow> length (event_bytes es) \<le> k"
    "bytes_brought 128 (rn_host r) bs" "fst (decoder_feed_all bs (rn_decoder r)) = heard_frames es @ hs"
    unfolding poll_path_def by blast
  moreover have "(net_step sent receives runs)\<^sup>*\<^sup>* n (n\<lparr>net_link := rn_link r', net_motion := rn_motion r',
         net_to_robot := net_to_robot n @ map frame_wire (sent_frames es), net_to_peer := rest\<rparr>)"
    if "net_link n = rn_link r \<and> net_motion n = rn_motion r \<and> net_to_peer n = ws @ rest \<and>
       list_all2 arrives ws (heard_frames es) \<and> tokens_unused es (net_to_robot n) (net_to_peer n)" for n ws rest
    by (rule peer_steps_net) (use es(1) that in auto)
  ultimately show ?thesis by blast
qed

lemma poll_refines_peer_witness:
  "\<exists>r' es. poll (sample_runner sample_command) = Some r' \<and> event_bytes es \<noteq> [] \<and>
     host_written (rn_host r') = event_bytes es \<and>
     peer_steps es (rn_link (sample_runner sample_command), rn_motion (sample_runner sample_command)) (rn_link r', rn_motion r')"
proof -
  obtain r' where p: "poll (sample_runner sample_command) = Some r'" "rn_state r' = RunnerSynchronized"
    "host_written (rn_host r') \<noteq> []" by (rule sample_poll)
  from poll_refines_peer [OF sample_runner_inv(1) p(1)] obtain es k where es:
    "peer_steps es (rn_link (sample_runner sample_command), rn_motion (sample_runner sample_command)) (rn_link r', rn_motion r')"
    "host_written (rn_host r') = host_written (rn_host (sample_runner sample_command)) @ take k (event_bytes es)"
    "rn_state r' \<noteq> RunnerDisconnected \<longrightarrow> length (event_bytes es) \<le> k" by blast
  then have "host_written (rn_host r') = event_bytes es" using p(2) by (simp add: sample_runner_def sample_host_def)
  with p es(1) show ?thesis by metis
qed

text \<open>
  C9: Velocities are sent for fresh commands only. The messages a poll of the runner sends can be
  read off what it writes; each of them that is a velocity carries the last wheel command the runner was
  given, which is not zero, at a clock reading less than 200 ms after that command and, when
  a velocity was sent before in the session, at least 50 ms after it.
\<close>

theorem velocity_only_fresh:
  assumes "runner_inv r" and "poll r = Some r'"
  shows "\<exists>es k. peer_steps es (rn_link r, rn_motion r) (rn_link r', rn_motion r') \<and>
    host_written (rn_host r') = host_written (rn_host r) @ take k (event_bytes es) \<and>
    (\<forall>f \<in> set (sent_frames es). \<forall>i. view f = Velocity i \<longrightarrow> (\<exists>c j sq. rn_latest_wheel_command r = Some c \<and>
       \<not> is_zero_wheel_command c \<and> host_calls (rn_host r) \<le> j \<and>
       host_clock (rn_host r) j - rn_latest_wheel_command_time r < milliseconds 200 \<and>
       (rn_last_wheel_transmit_time r = 0 \<or> milliseconds 50 \<le> host_clock (rn_host r) j - rn_last_wheel_transmit_time r) \<and>
       f = message PROTOCOL_MESSAGE_TYPE_WHEEL_VELOCITY sq
         (wheel_velocity_payload_encode \<lparr>wv_motion_session_id = i, wv_command = c\<rparr>)))"
proof -
  from poll_ok(2) [OF assms] obtain es k where es: "peer_steps es (peer_of r) (peer_of r')"
    "host_written (rn_host r') = host_written (rn_host r) @ take k (event_bytes es)"
    "list_all (wheel_permitted r) (sent_frames es)" unfolding poll_path_def by blast
  then show ?thesis
    by (intro exI conjI) (auto simp: list_all_iff wheel_permitted_def wheel_command_freshness_def wheel_tx_period_def)
qed

lemma velocity_only_fresh_witness:
  "\<exists>r' es. poll (sample_runner sample_command) = Some r' \<and> sent_frames es \<noteq> [] \<and>
     (\<forall>f \<in> set (sent_frames es). \<forall>i. view f = Velocity i \<longrightarrow>
        (\<exists>sq. f = message PROTOCOL_MESSAGE_TYPE_WHEEL_VELOCITY sq
          (wheel_velocity_payload_encode \<lparr>wv_motion_session_id = i, wv_command = sample_command\<rparr>)))"
proof -
  obtain r' where p: "poll (sample_runner sample_command) = Some r'" "host_written (rn_host r') \<noteq> []" by (rule sample_poll)
  have c: "rn_latest_wheel_command (sample_runner sample_command) = Some sample_command"
    "host_written (rn_host (sample_runner sample_command)) = []" by (simp_all add: sample_runner_def sample_host_def)
  from velocity_only_fresh [OF sample_runner_inv(1) p(1), unfolded c] obtain es k where es:
    "host_written (rn_host r') = take k (event_bytes es)"
    "\<forall>f \<in> set (sent_frames es). \<forall>i. view f = Velocity i \<longrightarrow> (\<exists>c j sq. Some sample_command = Some c \<and>
       f = message PROTOCOL_MESSAGE_TYPE_WHEEL_VELOCITY sq
         (wheel_velocity_payload_encode \<lparr>wv_motion_session_id = i, wv_command = c\<rparr>))" by fastforce
  with p(2) have "sent_frames es \<noteq> []" by auto
  with p(1) es(2) show ?thesis by auto
qed

text \<open>
  C10: An unwanted motion session ends at once. When the session is active and the wheel command is
  zero, or older than 200 ms at every clock reading to come, a poll leaves the peer waiting
  for the answer to its end command, or already without a session, never with the session
  still active.
\<close>

theorem unwanted_motion_ends:
  assumes "runner_inv r" and "ms_state (rn_motion r) = ActiveSession" and "motion_unwanted r" and "poll r = Some r'"
  shows "ms_state (rn_motion r') = EndPending \<or> ms_state (rn_motion r') = Inactive"
proof -
  have st: "rn_state r = RunnerSynchronized" using assms(1,2) by (auto simp: runner_inv_def)
  with assms(1) have "synced r" by (simp add: runner_inv_def synced_def)
  from st assms(4) obtain stay r1 where it: "run_synchronized_iteration r = Some (stay, r1)" by (auto simp: poll_def bind_eq_Some_conv)
  show ?thesis
  proof (cases stay)
    case True
    with unwanted_iteration [OF \<open>synced r\<close> assms(2,3)] it st assms(4) show ?thesis by (simp add: poll_def)
  next
    case False
    with it st assms(4) show ?thesis
      by (auto simp: poll_def schedule_reconnect_def disconnect_current_epoch_def motion_session_reset_def)
  qed
qed

lemma unwanted_motion_ends_witness:
  "\<exists>r'. poll (sample_runner \<lparr>left_velocity_mm_s = 0, right_velocity_mm_s = 0\<rparr>) = Some r' \<and>
     (ms_state (rn_motion r') = EndPending \<or> ms_state (rn_motion r') = Inactive)"
proof -
  let ?r = "sample_runner \<lparr>left_velocity_mm_s = 0, right_velocity_mm_s = 0\<rparr>"
  obtain r' where "poll ?r = Some r'" using poll_terminates [OF sample_runner_inv] by blast
  moreover have "ms_state (rn_motion ?r) = ActiveSession" "motion_unwanted ?r"
    by (simp_all add: sample_runner_def motion_unwanted_def is_zero_wheel_command_def)
  ultimately show ?thesis using unwanted_motion_ends [OF sample_runner_inv(1)] by blast
qed

text \<open>
  A poll returns. From every consistent state, on a host whose clock passes every time, whose
  calls are not interrupted forever and whose generator draws a usable number again and
  again, the poll comes to an end: every repeated read, write and wait, the sender with its
  deadline and the drawing of a session number.
\<close>

lemma poll_returns:
  assumes "runner_inv r" and "host_live (rn_host r)"
  shows "\<exists>r'. poll r = Some r' \<and> runner_inv r' \<and> host_live (rn_host r')"
proof -
  from poll_terminates [OF assms] obtain r' where p: "poll r = Some r'" by blast
  from poll_ok [OF assms(1) p] have "runner_inv r'" "host_after (rn_host r) (rn_host r')" by (auto simp: poll_path_def)
  with p assms(2) host_live_after show ?thesis by blast
qed

lemma poll_returns_witness: "\<exists>r'. poll (sample_runner sample_command) = Some r' \<and> runner_inv r'"
  using poll_returns [OF sample_runner_inv] by blast

text \<open>
  C22: The client's parts agree. In every state the client reaches by polls and wheel commands on any
  host, the state of the runner is that of its link session; the port is open exactly outside
  the disconnected state; a motion session exists only on a synchronized link; the session
  identifier the runner keeps is the one its active session has, and not zero; and a
  velocity was sent only in the session that is active.
\<close>

theorem runner_consistent:
  assumes "reachable runner_started runner_step r"
  shows "(rn_state r = RunnerSynchronized \<longleftrightarrow> lks_state (rn_link r) = Synchronized) \<and>
    (rn_state r = RunnerSynchronizing \<longleftrightarrow> lks_state (rn_link r) = SyncPending) \<and>
    (serial_is_open (rn_host r) \<longleftrightarrow> rn_state r \<noteq> RunnerDisconnected) \<and>
    (ms_state (rn_motion r) \<noteq> Inactive \<longrightarrow> is_synchronized r \<and> rn_motion_session_id r \<noteq> 0) \<and>
    (ms_state (rn_motion r) = ActiveSession \<longrightarrow> rn_motion_session_id r = ms_active_session_id (rn_motion r)) \<and>
    (rn_last_wheel_transmit_time r \<noteq> 0 \<longrightarrow> ms_state (rn_motion r) = ActiveSession)"
proof -
  have "runner_inv r" using assms by (rule client.inv_reachable)
  then show ?thesis
    by (cases "rn_state r") (auto simp: runner_inv_def session_tracked_def session_id_of_def is_synchronized_def)
qed

lemma runner_consistent_witness:
  "\<exists>r. poll (runner_new sample_host) = Some r \<and> (serial_is_open (rn_host r) \<longleftrightarrow> rn_state r \<noteq> RunnerDisconnected)"
proof -
  have "live (runner_new sample_host)" using sample_host_live by (simp add: runner_new_def host_live_def)
  from poll_terminates [OF runner_inv_new this] obtain r where p: "poll (runner_new sample_host) = Some r" by blast
  have "reachable runner_started runner_step r"
    by (rule reachable_step [where s = "runner_new sample_host" and step = runner_step, OF reachable_init polled [OF p]])
       (auto simp: runner_started_def)
  from runner_consistent [OF this] p show ?thesis by blast
qed

end
