(* ===== verification/Manual_Control.thy ===== *)
theory Manual_Control
  imports Manual_Input Runner_Properties
begin

section \<open>The manual control program (software/rpi/src/manual\_control\_probe\_main.cpp)\<close>

text \<open>
  The program reads the radio receiver, lets the guard decide about the sticks, and drives the
  robot through the client runner. Its loop gives the runner a zero command whenever manual
  control is not permitted, the link is not synchronized, the receiver cannot be drained or the
  loop was late by 200 ms.

  The two serial ports are two hosts: \<open>mc_receiver\<close> answers the reads of the receiver's port, and
  the host of the runner answers everything else, in particular every reading of the clock. The
  pair of \<^verbatim>\<open>received_channels\<close> and \<^verbatim>\<open>candidate_command\<close> is an option. Messages for the terminal, and the
  flag that avoids repeating them, are left out; sleeping changes nothing but the time.
\<close>

record ManualControl =
  mc_receiver :: Host
  mc_runner :: Stm32ClientRunner
  mc_decoder :: CrsfFrameDecoder
  mc_guard :: ManualInputGuard
  mc_last_receiver_service_at :: int

definition mc_now :: "ManualControl \<Rightarrow> int \<times> ManualControl" where
  "mc_now m = (let (t, r) = runner_now (mc_runner m) in (t, m\<lparr>mc_runner := r\<rparr>))"

definition mc_command :: "WheelVelocityCommand \<Rightarrow> ManualControl \<Rightarrow> ManualControl" where
  "mc_command c m = m\<lparr>mc_runner := set_wheel_command c (mc_runner m)\<rparr>"

definition mc_stop :: "ManualControl \<Rightarrow> ManualControl" where
  "mc_stop = mc_command \<lparr>left_velocity_mm_s = 0, right_velocity_mm_s = 0\<rparr>"

definition mc_guard_reset :: "ManualControl \<Rightarrow> ManualControl" where
  "mc_guard_reset m = m\<lparr>mc_guard := manual_guard_reset (mc_guard m)\<rparr>"

definition mc_decoder_reset :: "ManualControl \<Rightarrow> ManualControl" where
  "mc_decoder_reset m = m\<lparr>mc_decoder := crsf_reset (mc_decoder m)\<rparr>"

subsection \<open>Receiving\<close>

text \<open>The bytes of one read.\<close>

fun feed_receiver ::
  "(real \<Rightarrow> real) \<Rightarrow> u8 list \<Rightarrow> WheelVelocityCommand option \<Rightarrow> ManualControl \<Rightarrow> WheelVelocityCommand option \<times> ManualControl" where
  "feed_receiver rnd [] candidate m = (candidate, m)"
| "feed_receiver rnd (b # bs) candidate m =
     (case crsf_feed_byte b (mc_decoder m) of (frame, d) \<Rightarrow>
        let m = m\<lparr>mc_decoder := d\<rparr>
        in case frame \<bind> crsf_channels_decode of
             None \<Rightarrow> feed_receiver rnd bs candidate m
           | Some channels \<Rightarrow>
               let (now, m) = mc_now m;
                   m = m\<lparr>mc_guard := on_channels channels now (mc_guard m)\<rparr>
               in feed_receiver rnd bs (Some (manual_channels_command rnd channels)) m)"

text \<open>Up to \<open>n\<close> reads, until one finds nothing; whether that happened is the first result.\<close>

fun drain_receiver ::
  "(real \<Rightarrow> real) \<Rightarrow> bool \<Rightarrow> nat \<Rightarrow> WheelVelocityCommand option \<Rightarrow> ManualControl \<Rightarrow>
   (bool \<times> WheelVelocityCommand option \<times> ManualControl) option" where
  "drain_receiver rnd recovering 0 candidate m = Some (False, candidate, m)"
| "drain_receiver rnd recovering (Suc n) candidate m = do {
     ((bytes_read, buffer), h) \<leftarrow> read_some 256 (mc_receiver m);
     let m = m\<lparr>mc_receiver := h\<rparr>;
     if bytes_read < 0 then Some (False, candidate, m)
     else if bytes_read = 0 then Some (True, candidate, m)
     else if recovering then drain_receiver rnd recovering n candidate m
     else
       let (candidate, m) = feed_receiver rnd (take (nat bytes_read) buffer) candidate m
       in drain_receiver rnd recovering n candidate m
   }"

subsection \<open>The loop\<close>

text \<open>What was received is discarded when receiving took 200 ms.\<close>

definition discard_late ::
  "int \<Rightarrow> WheelVelocityCommand option \<Rightarrow> ManualControl \<Rightarrow> WheelVelocityCommand option \<times> ManualControl" where
  "discard_late service_at candidate m =
     (let (now, m) = mc_now m
      in if now - service_at \<ge> milliseconds 200
         then (None, mc_stop (mc_decoder_reset (mc_guard_reset m)))
         else (candidate, m))"

text \<open>The decision about the command.\<close>

definition decide_command :: "WheelVelocityCommand option \<Rightarrow> ManualControl \<Rightarrow> ManualControl" where
  "decide_command candidate m =
     (let synchronized_before = is_synchronized (mc_runner m);
          m = (if \<not> synchronized_before then mc_guard_reset m else m);
          (now, m) = mc_now m;
          (permitted, g) = manual_guard_poll now (mc_guard m);
          m = m\<lparr>mc_guard := g\<rparr>
      in if \<not> synchronized_before \<or> \<not> permitted then mc_stop m
         else case candidate of Some command \<Rightarrow> mc_command command m | None \<Rightarrow> m)"

text \<open>The start of an iteration: after a pause of 200 ms everything starts anew.\<close>

definition begin_service :: "ManualControl \<Rightarrow> int \<times> bool \<times> ManualControl" where
  "begin_service m =
     (let (service_at, m) = mc_now m;
          recovering_receiver = service_at - mc_last_receiver_service_at m \<ge> milliseconds 200;
          m = m\<lparr>mc_last_receiver_service_at := service_at\<rparr>
      in (service_at, recovering_receiver,
          if recovering_receiver then mc_decoder_reset (mc_guard_reset (mc_stop m)) else m))"

text \<open>The loop body up to the call of the runner. \<open>False\<close> leaves the loop.\<close>

definition manual_prepare :: "(real \<Rightarrow> real) \<Rightarrow> ManualControl \<Rightarrow> (bool \<times> ManualControl) option" where
  "manual_prepare rnd m =
     (case begin_service m of (service_at, recovering_receiver, m) \<Rightarrow> do {
        (receiver_drained, candidate, m) \<leftarrow> drain_receiver rnd recovering_receiver 32 None m;
        if \<not> receiver_drained then Some (False, mc_stop (mc_guard_reset m))
        else
          let (candidate, m) = discard_late service_at candidate m
          in Some (True, decide_command candidate m)
      })"

definition manual_finish :: "ManualControl \<Rightarrow> ManualControl option" where
  "manual_finish m = do {
     r \<leftarrow> poll (mc_runner m);
     let m = m\<lparr>mc_runner := r\<rparr>;
     Some (if \<not> is_synchronized (mc_runner m) then mc_stop (mc_guard_reset m) else m)
   }"

definition manual_iteration :: "(real \<Rightarrow> real) \<Rightarrow> ManualControl \<Rightarrow> (bool \<times> ManualControl) option" where
  "manual_iteration rnd m = do {
     (go, m) \<leftarrow> manual_prepare rnd m;
     if \<not> go then Some (False, m)
     else do { m \<leftarrow> manual_finish m; Some (True, m) }
   }"

partial_function (option) manual_loop :: "(real \<Rightarrow> real) \<Rightarrow> int \<Rightarrow> ManualControl \<Rightarrow> ManualControl option" where
  "manual_loop rnd deadline m =
     (case mc_now m of (now, m) \<Rightarrow>
        if now < deadline then
          manual_iteration rnd m \<bind> (\<lambda>(go, m). if go then manual_loop rnd deadline m else Some m)
        else Some m)"

partial_function (option) shutdown_loop :: "int \<Rightarrow> ManualControl \<Rightarrow> ManualControl option" where
  "shutdown_loop deadline m =
     (case mc_now m of (now, m) \<Rightarrow>
        if now < deadline then poll (mc_runner m) \<bind> (\<lambda>r. shutdown_loop deadline (m\<lparr>mc_runner := r\<rparr>))
        else Some m)"

text \<open>
  The program after the check of its arguments, on the hosts of the two ports. The first result is
  the exit code; when the receiver's port cannot be opened the runner is not used.
\<close>

definition manual_new :: "Host \<Rightarrow> Host \<Rightarrow> ManualControl" where
  "manual_new receiver h =
     \<lparr>mc_receiver = receiver, mc_runner = runner_new h, mc_decoder = crsf_decoder_new, mc_guard = manual_guard_new,
      mc_last_receiver_service_at = 0\<rparr>"

definition manual_control_main :: "(real \<Rightarrow> real) \<Rightarrow> Host \<Rightarrow> Host \<Rightarrow> (int \<times> ManualControl) option" where
  "manual_control_main rnd receiver h =
     (let (ok, receiver) = serial_open 420000 (receiver\<lparr>host_fd := -1\<rparr>);
          m = manual_new receiver h
      in if \<not> ok then Some (1, m)
         else
           let (now, m) = mc_now m;
               deadline = now + milliseconds 300000;
               (now, m) = mc_now m;
               m = m\<lparr>mc_last_receiver_service_at := now\<rparr>
           in do {
             m \<leftarrow> manual_loop rnd deadline m;
             let m = mc_stop (mc_guard_reset m);
             let (now, m) = mc_now m;
             m \<leftarrow> shutdown_loop (now + milliseconds 2000) m;
             Some (0, m)
           })"

subsection \<open>What a poll of the runner does to the command\<close>

text \<open>A poll never invents a wheel command: it keeps the one there is, or drops it.\<close>

abbreviation latest :: "Stm32ClientRunner \<Rightarrow> WheelVelocityCommand option" where
  "latest \<equiv> rn_latest_wheel_command"

lemma send_frame_latest: "send_frame f r = Some (ok, r') \<Longrightarrow> latest r' = latest r"
  by (auto simp: send_frame_def bind_eq_Some_conv)

lemma send_transaction_latest: "send_transaction f r = Some (out, r') \<Longrightarrow> latest r' = latest r"
  by (auto simp: send_transaction_def bind_eq_Some_conv split: if_splits dest!: send_frame_latest)

lemma retry_latest: "send_motion_retry now r = Some (out, r') \<Longrightarrow> latest r' = latest r"
  by (auto simp: send_motion_retry_def Let_def split: prod.splits option.splits dest!: send_transaction_latest)

lemma start_latest:
  assumes "start_motion r = Some (out, r')"
  shows "latest r' = latest r \<or> latest r' = None"
proof -
  let ?r = "r\<lparr>rn_host := host_next (rn_host r)\<rparr>"
  have "latest r' = latest r \<or> latest r' = None"
    if d: "draw_session_id ?r = Some r1" and b: "begin_start_session (rn_motion_session_id r1) (rn_motion r1) = (f, m)" and
      o: "(case f of None \<Rightarrow> Some (Some True, r1\<lparr>rn_motion := m, rn_latest_wheel_command := None, rn_latest_wheel_command_time := 0,
            rn_motion_session_id := 0\<rparr>) | Some frame \<Rightarrow> send_transaction frame (r1\<lparr>rn_motion := m\<rparr>)) = Some (out, r')" for r1 f m
    using draw_session_id_spec [OF d] o by (auto split: option.splits dest!: send_transaction_latest)
  with assms show ?thesis
    by (auto simp: start_motion_def bind_eq_Some_conv Let_def case_prod_beta split: if_splits)
       (metis option.distinct(1) prod.collapse)+
qed

lemma wheel_latest:
  assumes "send_wheel_velocity t r = Some (out, r')"
  shows "latest r' = latest r"
proof -
  let ?c = "the (latest r)"
  obtain f m where b: "build_wheel_velocity (left_velocity_mm_s ?c) (right_velocity_mm_s ?c) (rn_motion r) = (f, m)" by fastforce
  have "latest r' = latest r"
    if "(send_frame g (r\<lparr>rn_motion := m\<rparr>) \<bind> (\<lambda>(ok, r). if \<not> ok then Some (Some False, r\<lparr>rn_transport_failed := True\<rparr>)
        else let (now, r) = runner_now r in Some (None, r\<lparr>rn_last_wheel_transmit_time := now\<rparr>))) = Some (out, r')" for g
    using that by (auto simp: bind_eq_Some_conv split: if_splits dest!: send_frame_latest)
  with assms b show ?thesis by (cases f) (auto simp: send_wheel_velocity_def split: if_splits)
qed

lemma end_latest:
  assumes "end_motion t r = Some (out, r')"
  shows "latest r' = latest r"
proof -
  obtain f m where b: "begin_end_session (rn_motion_session_id r) (rn_motion r) = (f, m)" by fastforce
  have "latest r' = latest r"
    if ended: "(send_transaction g (r\<lparr>rn_motion := m\<rparr>) \<bind> (\<lambda>(out, r). if out = None then Some (None, r\<lparr>rn_last_wheel_transmit_time := 0\<rparr>)
        else Some (out, r))) = Some (out, r')" for g
  proof -
    from ended obtain o1 r1 where s: "send_transaction g (r\<lparr>rn_motion := m\<rparr>) = Some (o1, r1)" by (auto simp: bind_eq_Some_conv)
    with ended have "r' = r1\<lparr>rn_last_wheel_transmit_time := 0\<rparr> \<or> r' = r1" by (cases o1) simp_all
    with send_transaction_latest [OF s] show ?thesis by auto
  qed
  with assms b show ?thesis by (cases f) (auto simp: end_motion_def split: if_splits)
qed

lemma heartbeat_latest: "send_heartbeat now r = Some (out, r') \<Longrightarrow> latest r' = latest r"
  by (auto simp: send_heartbeat_def bind_eq_Some_conv Let_def split: prod.splits option.splits if_splits dest!: send_frame_latest)

lemma frame_latest: "handle_synchronized_frame f now r = (stay, r') \<Longrightarrow> latest r' = latest r"
  by (auto simp: handle_synchronized_frame_def Let_def split: prod.splits if_splits)

lemma feed_synchronized_latest: "feed_synchronized bs r = (stay, r') \<Longrightarrow> latest r' = latest r"
proof (induction bs arbitrary: r)
  case (Cons b bs)
  obtain x d where d: "decoder_feed b (rn_decoder r) = (x, d)" by fastforce
  show ?case
  proof (cases x)
    case (Some f)
    let ?r = "r\<lparr>rn_decoder := d, rn_host := host_next (rn_host r)\<rparr>"
    obtain stay1 r1 where h: "handle_synchronized_frame f (epoch_ms (host_clock (rn_host r) (host_calls (rn_host r))) ?r) ?r = (stay1, r1)"
      by fastforce
    from frame_latest [OF h] Cons.IH [of r1] Cons.prems d Some h show ?thesis by (simp split: if_splits)
  qed (use Cons.IH [of "r\<lparr>rn_decoder := d\<rparr>"] Cons.prems d in simp)
qed simp

lemma feed_synchronizing_latest: "feed_synchronizing bs r = (stay, r') \<Longrightarrow> latest r' = latest r"
proof (induction bs arbitrary: r)
  case (Cons b bs)
  obtain x d where d: "decoder_feed b (rn_decoder r) = (x, d)" by fastforce
  show ?case
  proof (cases x)
    case (Some f)
    let ?r = "r\<lparr>rn_decoder := d, rn_host := host_next (rn_host r)\<rparr>"
    obtain ok l where h: "handle_link_sync_ok f (epoch_ms (host_clock (rn_host r) (host_calls (rn_host r))) ?r) (rn_link r) = (ok, l)"
      by fastforce
    from Cons.IH [of "?r\<lparr>rn_link := l\<rparr>"] Cons.prems d Some h show ?thesis by (auto simp: Let_def split: if_splits)
  qed (use Cons.IH [of "r\<lparr>rn_decoder := d\<rparr>"] Cons.prems d in simp)
qed simp

lemma receive_latest:
  assumes "receive_bytes feed r = Some (stay, r')" and "\<And>bs r stay r'. feed bs r = (stay, r') \<Longrightarrow> latest r' = latest r"
  shows "latest r' = latest r"
  using assms by (auto simp: receive_bytes_def bind_eq_Some_conv Let_def split: if_splits)

lemma go_on_latest:
  assumes "x \<bind> go_on rest = Some (stay, r')" and "\<And>out r1. x = Some (out, r1) \<Longrightarrow> latest r1 = latest r \<or> latest r1 = None"
    and "\<And>r1. rest r1 = Some (stay, r') \<Longrightarrow> latest r' = latest r1 \<or> latest r' = None"
  shows "latest r' = latest r \<or> latest r' = None"
proof -
  from assms(1) obtain out r1 where "x = Some (out, r1)" "go_on rest (out, r1) = Some (stay, r')" by (auto simp: bind_eq_Some_conv)
  with assms(2) assms(3) [of r1] show ?thesis by (auto simp: go_on_def split: option.splits)
qed

lemma synchronized_latest:
  assumes "run_synchronized_iteration r = Some (stay, r')"
  shows "latest r' = latest r \<or> latest r' = None"
proof -
  have finish: "latest r' = latest r1 \<or> latest r' = None" if "finish_iteration now r1 = Some (stay, r')" for now r1
    using that unfolding finish_iteration_def
    by (rule go_on_latest) (auto dest: heartbeat_latest receive_latest [OF _ feed_synchronized_latest])
  have command: "latest r' = latest r1 \<or> latest r' = None" if "command_wheels now r1 = Some (stay, r')" for now r1
  proof -
    let ?r = "r1\<lparr>rn_host := host_next (rn_host r1)\<rparr>" and ?t = "host_clock (rn_host r1) (host_calls (rn_host r1))"
    from that have "send_wheel_velocity ?t ?r \<bind> go_on (\<lambda>r. end_motion ?t r \<bind> go_on (finish_iteration now)) = Some (stay, r')"
      by (simp add: command_wheels_def)
    then have "latest r' = latest ?r \<or> latest r' = None"
    proof (rule go_on_latest)
      show "latest r2 = latest ?r \<or> latest r2 = None" if "send_wheel_velocity ?t ?r = Some (out, r2)" for out r2
        using wheel_latest [OF that] by simp
      show "latest r' = latest r2 \<or> latest r' = None" if "end_motion ?t r2 \<bind> go_on (finish_iteration now) = Some (stay, r')" for r2
        using that by (rule go_on_latest) (auto dest: end_latest finish)
    qed
    then show ?thesis by simp
  qed
  let ?now = "epoch_ms (host_clock (rn_host r) (host_calls (rn_host r))) (r\<lparr>rn_host := host_next (rn_host r)\<rparr>)"
  let ?r0 = "r\<lparr>rn_host := host_next (rn_host r), rn_link := check_link_timeout ?now (rn_link r)\<rparr>"
  have "latest r' = latest ?r0 \<or> latest r' = None"
    if "send_motion_retry ?now ?r0 \<bind> go_on (\<lambda>r. start_motion r \<bind> go_on (command_wheels ?now)) = Some (stay, r')"
    using that
  proof (rule go_on_latest)
    show "latest r2 = latest ?r0 \<or> latest r2 = None" if "send_motion_retry ?now ?r0 = Some (out, r2)" for out r2
      using retry_latest [OF that] by simp
    show "latest r' = latest r2 \<or> latest r' = None" if "start_motion r2 \<bind> go_on (command_wheels ?now) = Some (stay, r')" for r2
      using that by (rule go_on_latest) (auto dest: start_latest command)
  qed
  with assms show ?thesis by (auto simp: run_synchronized_iteration_def Let_def split: if_splits)
qed

lemma connection_latest:
  assumes "begin_connection_epoch r = Some (ok, r')"
  shows "latest r' = latest r \<or> latest r' = None"
proof -
  obtain opened h where op: "serial_open 115200 (rn_host r) = (opened, h)" by fastforce
  obtain f l where begun: "begin_synchronization (host_random h (Suc (host_calls h))) (link_disconnect (rn_link r)) = (f, l)" by fastforce
  show ?thesis
  proof (cases opened)
    case True
    with op have op: "serial_open 115200 (rn_host r) = (True, h)" by simp
    have "latest (epoch_begun h l r) = None" by (simp add: epoch_begun_def)
    with assms [unfolded connection_eq [OF op begun]] show ?thesis
      by (auto simp: bind_eq_Some_conv schedule_reconnect_def split: if_splits dest!: send_frame_latest)
  next
    case False
    with op assms show ?thesis by (auto simp: begin_connection_epoch_def schedule_reconnect_def)
  qed
qed

lemma poll_latest:
  assumes "poll r = Some r'"
  shows "latest r' = latest r \<or> latest r' = None"
proof (cases "rn_state r")
  case RunnerDisconnected
  with assms show ?thesis
    by (auto simp: poll_def bind_eq_Some_conv split: if_splits dest!: connection_latest)
next
  case RunnerSynchronizing
  have "latest r1 = latest r" if "run_synchronizing_iteration r = Some (stay, r1)" for stay r1
    using that by (auto simp: run_synchronizing_iteration_def split: if_splits dest: receive_latest [OF _ feed_synchronizing_latest])
  with RunnerSynchronizing assms show ?thesis
    by (auto simp: poll_def bind_eq_Some_conv disconnect_current_epoch_def schedule_reconnect_def split: if_splits)
next
  case RunnerSynchronized
  with assms show ?thesis
    by (auto simp: poll_def bind_eq_Some_conv disconnect_current_epoch_def schedule_reconnect_def split: if_splits dest: synchronized_latest)
qed

subsection \<open>What the loop does to the command\<close>

lemma mc_now_eq [simp]:
  "mc_now m = (host_clock (rn_host (mc_runner m)) (host_calls (rn_host (mc_runner m))),
     m\<lparr>mc_runner := (mc_runner m)\<lparr>rn_host := host_next (rn_host (mc_runner m))\<rparr>\<rparr>)"
  by (simp add: mc_now_def)

text \<open>
  What an iteration receives, apart from the program: the bytes of up to \<open>n\<close> reads, the channels
  decoded from them, and the readings of the clock that stamp them, one for each.
\<close>

fun receiver_bytes :: "nat \<Rightarrow> Host \<Rightarrow> u8 list" where
  "receiver_bytes 0 h = []"
| "receiver_bytes (Suc n) h =
     (case read_some 256 h of
        None \<Rightarrow> []
      | Some ((k, buffer), h) \<Rightarrow> if k \<le> 0 then [] else take (nat k) buffer @ receiver_bytes n h)"

definition decoded_channels :: "u8 list \<Rightarrow> CrsfFrameDecoder \<Rightarrow> u16 list list" where
  "decoded_channels bs d = List.map_filter crsf_channels_decode (fst (crsf_feed_all bs d))"

fun stamped :: "u16 list list \<Rightarrow> Host \<Rightarrow> (u16 list \<times> int) list" where
  "stamped [] h = []"
| "stamped (c # cs) h = (c, host_clock h (host_calls h)) # stamped cs (host_next h)"

text \<open>Bytes that come with a pause of 200 ms are not looked at.\<close>

definition iteration_receipts :: "ManualControl \<Rightarrow> (u16 list \<times> int) list" where
  "iteration_receipts m =
     (let h = rn_host (mc_runner m)
      in if host_clock h (host_calls h) - mc_last_receiver_service_at m \<ge> milliseconds 200 then []
         else stamped (decoded_channels (receiver_bytes 32 (mc_receiver m)) (mc_decoder m)) (host_next h))"

lemma decoded_channels_Nil [simp]: "decoded_channels [] d = []"
  by (simp add: decoded_channels_def List.map_filter_def)

lemma decoded_channels_append:
  "decoded_channels (xs @ ys) d = decoded_channels xs d @ decoded_channels ys (snd (crsf_feed_all xs d))"
  by (simp add: decoded_channels_def crsf_feed_all_append List.map_filter_def split: prod.split)

lemma decoded_channels_Cons:
  assumes "crsf_feed_byte b d = (frame, d')"
  shows "decoded_channels (b # bs) d = (case frame \<bind> crsf_channels_decode of None \<Rightarrow> [] | Some c \<Rightarrow> [c]) @ decoded_channels bs d'"
  using assms by (cases frame) (auto simp: decoded_channels_def List.map_filter_def split: prod.split)

lemma length_stamped [simp]: "length (stamped cs h) = length cs"
  by (induction cs arbitrary: h) simp_all

lemma stamped_append: "stamped (cs @ ds) h = stamped cs h @ stamped ds ((host_next ^^ length cs) h)"
  by (induction cs arbitrary: h) (simp_all add: funpow_swap1)

lemma host_nexts_quiet: "host_quiet h ((host_next ^^ n) h)"
  by (induction n) (auto intro: host_quiet_trans)

text \<open>
  Receiving channels \<open>rs\<close> reads the clock for each, tells them to the guard, and leaves the command of
  the last of them as the candidate.
\<close>

definition received :: "(real \<Rightarrow> real) \<Rightarrow> (u16 list \<times> int) list \<Rightarrow> WheelVelocityCommand option \<Rightarrow> ManualControl \<Rightarrow> WheelVelocityCommand option \<Rightarrow> ManualControl \<Rightarrow> bool" where
  "received rnd rs candidate m candidate' m' \<longleftrightarrow>
     mc_runner m' = (mc_runner m)\<lparr>rn_host := (host_next ^^ length rs) (rn_host (mc_runner m))\<rparr> \<and>
     host_after (mc_receiver m) (mc_receiver m') \<and>
     candidate' = (if rs = [] then candidate else Some (manual_channels_command rnd (fst (last rs)))) \<and>
     mc_guard m' = fold guard_after (receipt_history rs) (mc_guard m)"

lemma received_refl: "received rnd [] candidate m candidate m"
  by (simp add: received_def)

lemma received_trans:
  assumes "received rnd rs c m c1 m1" and "received rnd rs' c1 m1 c2 m2"
  shows "received rnd (rs @ rs') c m c2 m2"
proof -
  have "mc_runner m2 = (mc_runner m)\<lparr>rn_host := (host_next ^^ length (rs @ rs')) (rn_host (mc_runner m))\<rparr>"
    using assms unfolding received_def by (simp add: funpow_add add.commute [of "length rs"])
  moreover have "host_after (mc_receiver m) (mc_receiver m2)" using assms host_after_trans unfolding received_def by blast
  ultimately show ?thesis using assms unfolding received_def by simp
qed

lemma feed_receiver_spec:
  "feed_receiver rnd bs candidate m = (candidate', m') \<Longrightarrow>
     received rnd (stamped (decoded_channels bs (mc_decoder m)) (rn_host (mc_runner m))) candidate m candidate' m' \<and>
     mc_decoder m' = snd (crsf_feed_all bs (mc_decoder m)) \<and> mc_receiver m' = mc_receiver m"
proof (induction bs arbitrary: candidate m)
  case Nil
  then show ?case by (simp add: received_refl)
next
  case (Cons b bs)
  obtain frame d where f: "crsf_feed_byte b (mc_decoder m) = (frame, d)" by fastforce
  have dec: "snd (crsf_feed_all (b # bs) (mc_decoder m)) = snd (crsf_feed_all bs d)" using f by (simp split: prod.split)
  show ?case
  proof (cases "frame \<bind> crsf_channels_decode")
    case None
    from Cons.IH [of candidate "m\<lparr>mc_decoder := d\<rparr>"] Cons.prems f None dec decoded_channels_Cons [OF f, of bs]
    show ?thesis by (simp add: received_def)
  next
    case (Some channels)
    let ?t = "host_clock (rn_host (mc_runner m)) (host_calls (rn_host (mc_runner m)))"
    let ?m = "m\<lparr>mc_decoder := d, mc_runner := (mc_runner m)\<lparr>rn_host := host_next (rn_host (mc_runner m))\<rparr>,
        mc_guard := on_channels channels ?t (mc_guard m)\<rparr>"
    have first: "received rnd [(channels, ?t)] candidate m (Some (manual_channels_command rnd channels)) ?m"
      by (simp add: received_def)
    have "feed_receiver rnd bs (Some (manual_channels_command rnd channels)) ?m = (candidate', m')" using Cons.prems Some f by simp
    from Cons.IH [OF this] received_trans [OF first] dec decoded_channels_Cons [OF f, of bs] Some show ?thesis by simp
  qed
qed

lemma drain_receiver_spec:
  "drain_receiver rnd recovering n candidate m = Some (drained, candidate', m') \<Longrightarrow>
     received rnd (if recovering then [] else stamped (decoded_channels (receiver_bytes n (mc_receiver m)) (mc_decoder m)) (rn_host (mc_runner m)))
       candidate m candidate' m'"
proof (induction n arbitrary: candidate m)
  case 0
  then show ?case by (simp add: received_refl)
next
  case (Suc n)
  then obtain k buf h where r: "read_some 256 (mc_receiver m) = Some ((k, buf), h)" by (auto simp: bind_eq_Some_conv)
  let ?m = "m\<lparr>mc_receiver := h\<rparr>"
  have first: "received rnd [] candidate m candidate ?m"
    using host_quiet_after [OF read_some_spec(1) [OF r]] by (simp add: received_def)
  consider "k \<le> 0" | "0 < k" recovering | "0 < k" "\<not> recovering" by linarith
  then show ?case
  proof cases
    case 1
    with Suc.prems r first show ?thesis by (auto simp: Let_def split: if_splits)
  next
    case 2
    with Suc.prems r Suc.IH [of candidate ?m] received_trans [OF first] show ?thesis by fastforce
  next
    case 3
    obtain c1 m1 where f: "feed_receiver rnd (take (nat k) buf) candidate ?m = (c1, m1)" by fastforce
    note fed = feed_receiver_spec [OF f]
    let ?cs = "decoded_channels (take (nat k) buf) (mc_decoder m)"
    have "drain_receiver rnd recovering n c1 m1 = Some (drained, candidate', m')" using Suc.prems r 3 f by simp
    from Suc.IH [OF this] 3 fed
    have rest: "received rnd (stamped (decoded_channels (receiver_bytes n h) (snd (crsf_feed_all (take (nat k) buf) (mc_decoder m))))
        ((host_next ^^ length ?cs) (rn_host (mc_runner m)))) c1 m1 candidate' m'"
      by (simp add: received_def)
    have "received rnd (stamped ?cs (rn_host (mc_runner m))) candidate ?m c1 m1" using fed by simp
    from received_trans [OF received_trans [OF first this] rest] r 3 show ?thesis
      by (simp add: decoded_channels_append stamped_append)
  qed
qed

text \<open>Where a non-zero command comes from, and when it may be there.\<close>

abbreviation commanded_nonzero :: "ManualControl \<Rightarrow> WheelVelocityCommand \<Rightarrow> bool" where
  "commanded_nonzero m c \<equiv> latest (mc_runner m) = Some c \<and> \<not> is_zero_wheel_command c"

text \<open>The command of the last channels received.\<close>

abbreviation sticks_command :: "(real \<Rightarrow> real) \<Rightarrow> (u16 list \<times> int) list \<Rightarrow> WheelVelocityCommand" where
  "sticks_command rnd rs \<equiv> manual_channels_command rnd (fst (last rs))"

definition command_known :: "(real \<Rightarrow> real) \<Rightarrow> (u16 list \<times> int) list \<Rightarrow> ManualControl \<Rightarrow> bool" where
  "command_known rnd rs m \<longleftrightarrow> (\<forall>c. commanded_nonzero m c \<longrightarrow>
     is_synchronized (mc_runner m) \<and> rs \<noteq> [] \<and> c = sticks_command rnd rs)"

text \<open>The state of the program after the channels \<open>rs\<close> were received.\<close>

definition manual_inv :: "(real \<Rightarrow> real) \<Rightarrow> (u16 list \<times> int) list \<Rightarrow> ManualControl \<Rightarrow> bool" where
  "manual_inv rnd rs m \<longleftrightarrow> runner_inv (mc_runner m) \<and> guard_told rs (mc_guard m) \<and> command_known rnd rs m \<and>
     (\<forall>c. commanded_nonzero m c \<longrightarrow> guard_state (mc_guard m) = ManualEnabled)"

text \<open>A candidate is the command of the last channels; without one the command there is must be.\<close>

definition candidate_ok :: "(real \<Rightarrow> real) \<Rightarrow> (u16 list \<times> int) list \<Rightarrow> WheelVelocityCommand option \<Rightarrow> ManualControl \<Rightarrow> bool" where
  "candidate_ok rnd rs candidate m \<longleftrightarrow>
     (case candidate of None \<Rightarrow> command_known rnd rs m | Some c \<Rightarrow> rs \<noteq> [] \<and> c = sticks_command rnd rs)"

lemma received_candidate_ok:
  assumes "received rnd rs None m candidate m'" and "command_known rnd old m"
  shows "candidate_ok rnd (old @ rs) candidate m'"
  using assms by (auto simp: received_def candidate_ok_def command_known_def is_synchronized_def)

lemma runner_inv_host: "runner_inv r \<Longrightarrow> host_quiet (rn_host r) h \<Longrightarrow> runner_inv (r\<lparr>rn_host := h\<rparr>)"
  by (auto simp: runner_inv_def session_tracked_def serial_is_open_def host_quiet_def)

lemma stopped [simp]:
  "latest (mc_runner (mc_stop m)) = Some \<lparr>left_velocity_mm_s = 0, right_velocity_mm_s = 0\<rparr>"
  "is_synchronized (mc_runner (mc_stop m)) = is_synchronized (mc_runner m)"
  "mc_guard (mc_stop m) = mc_guard m" "mc_receiver (mc_stop m) = mc_receiver m"
  "rn_host (mc_runner (mc_stop m)) = host_next (rn_host (mc_runner m))"
  "runner_inv (mc_runner m) \<Longrightarrow> runner_inv (mc_runner (mc_stop m))"
  by (simp_all add: mc_stop_def mc_command_def runner_inv_command)
     (simp_all add: set_wheel_command_def is_synchronized_def)

lemma stopped_zero [simp]: "is_zero_wheel_command \<lparr>left_velocity_mm_s = 0, right_velocity_mm_s = 0\<rparr>"
  by (simp add: is_zero_wheel_command_def)

lemma stopped_inv: "runner_inv (mc_runner m) \<Longrightarrow> guard_told rs (mc_guard m) \<Longrightarrow> manual_inv rnd rs (mc_stop m)"
  by (simp add: manual_inv_def command_known_def)

lemma resets [simp]:
  "mc_runner (mc_guard_reset m) = mc_runner m" "mc_runner (mc_decoder_reset m) = mc_runner m"
  "mc_guard (mc_decoder_reset m) = mc_guard m" "guard_state (mc_guard (mc_guard_reset m)) = NeedsRearm"
  "\<not> guard_has_channels (mc_guard (mc_guard_reset m))"
  "mc_receiver (mc_guard_reset m) = mc_receiver m" "mc_receiver (mc_decoder_reset m) = mc_receiver m"
  by (simp_all add: mc_guard_reset_def mc_decoder_reset_def manual_guard_reset_def)

lemma guard_told_reset: "guard_told rs (mc_guard m) \<Longrightarrow> guard_told rs (mc_guard (mc_guard_reset m))"
  by (simp add: mc_guard_reset_def guard_told_step)

lemma discard_spec:
  assumes "runner_inv (mc_runner m)" and "guard_told rs (mc_guard m)" and "candidate_ok rnd rs candidate m"
    and "discard_late service_at candidate m = (candidate', m')"
  shows "runner_inv (mc_runner m')" and "guard_told rs (mc_guard m')" and "candidate_ok rnd rs candidate' m'"
    and "host_quiet (rn_host (mc_runner m)) (rn_host (mc_runner m'))" and "mc_receiver m' = mc_receiver m"
proof -
  let ?m = "m\<lparr>mc_runner := (mc_runner m)\<lparr>rn_host := host_next (rn_host (mc_runner m))\<rparr>\<rparr>"
  have inv: "runner_inv (mc_runner ?m)" using runner_inv_host [OF assms(1) host_next_quiet] by simp
  from assms(4) consider "m' = ?m" "candidate' = candidate" | "m' = mc_stop (mc_decoder_reset (mc_guard_reset ?m))" "candidate' = None"
    by (auto simp: discard_late_def Let_def split: if_splits)
  then have "runner_inv (mc_runner m') \<and> guard_told rs (mc_guard m') \<and> candidate_ok rnd rs candidate' m' \<and>
      host_quiet (rn_host (mc_runner m)) (rn_host (mc_runner m')) \<and> mc_receiver m' = mc_receiver m"
  proof cases
    case 1
    with inv assms(2,3) show ?thesis
      by (auto simp: candidate_ok_def command_known_def is_synchronized_def split: option.splits)
  next
    case 2
    with inv host_quiet_trans [OF host_next_quiet host_next_quiet] guard_told_reset [of rs ?m] assms(2) show ?thesis
      by (simp add: command_known_def candidate_ok_def)
  qed
  then show "runner_inv (mc_runner m')" "guard_told rs (mc_guard m')" "candidate_ok rnd rs candidate' m'"
    "host_quiet (rn_host (mc_runner m)) (rn_host (mc_runner m'))" "mc_receiver m' = mc_receiver m" by blast+
qed

text \<open>The outcomes of the decision: a stop, or a permitted command that is new or stays.\<close>

lemma decide_cases:
  assumes "m' = decide_command candidate m"
  obtains (stop) m1 where "m' = mc_stop m1" and "mc_runner m1 = (mc_runner m)\<lparr>rn_host := host_next (rn_host (mc_runner m))\<rparr>"
      and "mc_receiver m1 = mc_receiver m" and "\<And>rs. guard_told rs (mc_guard m) \<Longrightarrow> guard_told rs (mc_guard m1)"
    | (permitted) m1 where "m1 = m\<lparr>mc_runner := (mc_runner m)\<lparr>rn_host := host_next (rn_host (mc_runner m))\<rparr>\<rparr>"
      and "m' = (case candidate of Some command \<Rightarrow> mc_command command m1 | None \<Rightarrow> m1)" and "is_synchronized (mc_runner m)"
      and "guard_state (mc_guard m) = ManualEnabled"
      and "host_clock (rn_host (mc_runner m)) (host_calls (rn_host (mc_runner m))) - guard_last_channels_at (mc_guard m) < manual_guard_timeout"
proof (cases "is_synchronized (mc_runner m)")
  case False
  let ?t = "host_clock (rn_host (mc_runner m)) (host_calls (rn_host (mc_runner m)))"
  have "m' = mc_stop ((mc_guard_reset m)\<lparr>mc_runner := (mc_runner m)\<lparr>rn_host := host_next (rn_host (mc_runner m))\<rparr>,
      mc_guard := snd (manual_guard_poll ?t (mc_guard (mc_guard_reset m)))\<rparr>)"
    using assms False by (simp add: decide_command_def Let_def split: prod.split)
  from stop [OF this] guard_told_reset show ?thesis by (simp add: guard_told_step)
next
  case True
  let ?t = "host_clock (rn_host (mc_runner m)) (host_calls (rn_host (mc_runner m)))"
  let ?m = "m\<lparr>mc_runner := (mc_runner m)\<lparr>rn_host := host_next (rn_host (mc_runner m))\<rparr>\<rparr>"
  obtain ok g where p: "manual_guard_poll ?t (mc_guard m) = (ok, g)" by fastforce
  have m': "m' = (if \<not> ok then mc_stop (?m\<lparr>mc_guard := g\<rparr>)
      else case candidate of Some command \<Rightarrow> mc_command command (?m\<lparr>mc_guard := g\<rparr>) | None \<Rightarrow> ?m\<lparr>mc_guard := g\<rparr>)"
    using assms True p by (simp add: decide_command_def Let_def)
  show ?thesis
  proof (cases ok)
    case False
    with m' p guard_told_step(2) [of _ "mc_guard m" ?t] show ?thesis by (intro stop [of "?m\<lparr>mc_guard := g\<rparr>"]) simp_all
  next
    case ok: True
    with p have g: "g = mc_guard m" "guard_state (mc_guard m) = ManualEnabled" "?t - guard_last_channels_at (mc_guard m) < manual_guard_timeout"
      by (auto simp: manual_guard_poll_def Let_def split: if_splits)
    have "?m\<lparr>mc_guard := g\<rparr> = ?m" using g(1) by simp
    then have "m' = (case candidate of Some command \<Rightarrow> mc_command command ?m | None \<Rightarrow> ?m)"
      using ok m' by (simp only: not_True_eq_False if_False)
    with True g(2,3) show ?thesis by (intro permitted [of ?m]) simp_all
  qed
qed

lemma decide_spec:
  assumes "runner_inv (mc_runner m)" and "guard_told rs (mc_guard m)" and "candidate_ok rnd rs candidate m"
    and "m' = decide_command candidate m"
  shows "manual_inv rnd rs m'" and "host_quiet (rn_host (mc_runner m)) (rn_host (mc_runner m'))" and "mc_receiver m' = mc_receiver m"
    and "commanded_nonzero m' c \<Longrightarrow> host_calls (rn_host (mc_runner m)) < host_calls (rn_host (mc_runner m')) \<and>
      host_clock (rn_host (mc_runner m)) (host_calls (rn_host (mc_runner m))) - guard_last_channels_at (mc_guard m') < manual_guard_timeout"
proof -
  have "manual_inv rnd rs m' \<and> host_quiet (rn_host (mc_runner m)) (rn_host (mc_runner m')) \<and> mc_receiver m' = mc_receiver m \<and>
      (commanded_nonzero m' c \<longrightarrow> host_calls (rn_host (mc_runner m)) < host_calls (rn_host (mc_runner m')) \<and>
        host_clock (rn_host (mc_runner m)) (host_calls (rn_host (mc_runner m))) - guard_last_channels_at (mc_guard m') < manual_guard_timeout)"
    using assms(4)
  proof (cases rule: decide_cases)
    case (stop m1)
    have "runner_inv (mc_runner m1)" using runner_inv_host [OF assms(1) host_next_quiet] stop(2) by simp
    with stop stopped_inv [of m1 rs rnd] assms(2) host_quiet_trans [OF host_next_quiet host_next_quiet] show ?thesis by auto
  next
    case (permitted m1)
    have inv: "runner_inv (mc_runner m1)" using runner_inv_host [OF assms(1) host_next_quiet] permitted(1) by simp
    show ?thesis
    proof (cases candidate)
      case None
      with inv assms(2,3) permitted show ?thesis by (auto simp: manual_inv_def candidate_ok_def command_known_def is_synchronized_def)
    next
      case (Some c1)
      with assms(3) have c1: "rs \<noteq> []" "c1 = sticks_command rnd rs" by (simp_all add: candidate_ok_def)
      have m': "m' = mc_command c1 m1" using Some permitted(2) by simp
      have "manual_inv rnd rs m'"
        unfolding m' using runner_inv_command [OF inv, of c1] permitted(1,3,4) c1 assms(2)
        by (auto simp: manual_inv_def command_known_def mc_command_def set_wheel_command_def is_synchronized_def)
      with m' permitted(1,5) host_quiet_trans [OF host_next_quiet host_next_quiet] show ?thesis
        by (simp add: mc_command_def set_wheel_command_def)
    qed
  qed
  then show "manual_inv rnd rs m'" "host_quiet (rn_host (mc_runner m)) (rn_host (mc_runner m'))" "mc_receiver m' = mc_receiver m"
    "commanded_nonzero m' c \<Longrightarrow> host_calls (rn_host (mc_runner m)) < host_calls (rn_host (mc_runner m')) \<and>
      host_clock (rn_host (mc_runner m)) (host_calls (rn_host (mc_runner m))) - guard_last_channels_at (mc_guard m') < manual_guard_timeout"
    by blast+
qed

text \<open>The loop body up to the poll of the runner.\<close>

lemma service_spec:
  assumes "manual_inv rnd rs m" and "begin_service m = (service_at, recovering, m')"
  shows "runner_inv (mc_runner m')" and "guard_told rs (mc_guard m')" and "command_known rnd rs m'"
    and "host_quiet (rn_host (mc_runner m)) (rn_host (mc_runner m'))"
    and "mc_receiver m' = mc_receiver m" and "host_calls (rn_host (mc_runner m)) < host_calls (rn_host (mc_runner m'))"
    and "iteration_receipts m = (if recovering then [] else
      stamped (decoded_channels (receiver_bytes 32 (mc_receiver m')) (mc_decoder m')) (rn_host (mc_runner m')))"
proof -
  let ?m = "m\<lparr>mc_runner := (mc_runner m)\<lparr>rn_host := host_next (rn_host (mc_runner m))\<rparr>, mc_last_receiver_service_at := service_at\<rparr>"
  have inv: "runner_inv (mc_runner ?m)" "command_known rnd rs ?m" "guard_told rs (mc_guard ?m)"
    using assms(1) runner_inv_host [OF _ host_next_quiet] by (auto simp: manual_inv_def command_known_def is_synchronized_def)
  have m': "m' = (if recovering then mc_decoder_reset (mc_guard_reset (mc_stop ?m)) else ?m)"
    and rec: "recovering \<longleftrightarrow> host_clock (rn_host (mc_runner m)) (host_calls (rn_host (mc_runner m))) - mc_last_receiver_service_at m \<ge> milliseconds 200"
    using assms(2) by (auto simp: begin_service_def Let_def)
  show "runner_inv (mc_runner m')" "command_known rnd rs m'" "host_quiet (rn_host (mc_runner m)) (rn_host (mc_runner m'))"
    "mc_receiver m' = mc_receiver m" "host_calls (rn_host (mc_runner m)) < host_calls (rn_host (mc_runner m'))"
    using inv host_quiet_trans [OF host_next_quiet host_next_quiet] unfolding m' by (auto simp: command_known_def)
  show "guard_told rs (mc_guard m')" using inv(3) guard_told_reset [of rs "mc_stop ?m"] unfolding m' by simp
  show "iteration_receipts m = (if recovering then [] else
      stamped (decoded_channels (receiver_bytes 32 (mc_receiver m')) (mc_decoder m')) (rn_host (mc_runner m')))"
    using rec unfolding m' iteration_receipts_def by (simp add: Let_def)
qed

lemma prepare_spec:
  assumes "manual_inv rnd rs m" and "manual_prepare rnd m = Some (go, m')"
  shows "manual_inv rnd (rs @ iteration_receipts m) m'" and "host_after (rn_host (mc_runner m)) (rn_host (mc_runner m'))"
    and "host_after (mc_receiver m) (mc_receiver m')"
    and "host_calls (rn_host (mc_runner m)) < host_calls (rn_host (mc_runner m'))"
    and "commanded_nonzero m' c \<Longrightarrow> go \<Longrightarrow> \<exists>j. host_calls (rn_host (mc_runner m)) \<le> j \<and> j < host_calls (rn_host (mc_runner m')) \<and>
      host_clock (rn_host (mc_runner m)) j - guard_last_channels_at (mc_guard m') < manual_guard_timeout"
proof -
  let ?h = "rn_host (mc_runner m)" and ?rs = "rs @ iteration_receipts m"
  obtain service_at recovering m2 where b: "begin_service m = (service_at, recovering, m2)" by (cases "begin_service m") auto
  note inv2 = service_spec [OF assms(1) b]
  obtain drained cand m3 where d: "drain_receiver rnd recovering 32 None m2 = Some (drained, cand, m3)"
    and out: "(if \<not> drained then Some (False, mc_stop (mc_guard_reset m3))
      else let (candidate, m) = discard_late service_at cand m3 in Some (True, decide_command candidate m)) = Some (go, m')"
    using assms(2) b by (auto simp: manual_prepare_def bind_eq_Some_conv)
  have rcv: "received rnd (iteration_receipts m) None m2 cand m3" unfolding inv2(7) by (rule drain_receiver_spec [OF d])
  then obtain h where h: "mc_runner m3 = (mc_runner m2)\<lparr>rn_host := h\<rparr>" "host_quiet (rn_host (mc_runner m2)) h" "host_after (mc_receiver m2) (mc_receiver m3)"
    and told: "guard_told ?rs (mc_guard m3)" using guard_told_receipts [OF inv2(2)] host_nexts_quiet unfolding received_def by metis
  have cand: "candidate_ok rnd ?rs cand m3" by (rule received_candidate_ok [OF rcv inv2(3)])
  have inv3: "runner_inv (mc_runner m3)" "host_quiet ?h (rn_host (mc_runner m3))"
    using runner_inv_host [OF inv2(1) h(2)] host_quiet_trans [OF inv2(4) h(2)] by (simp_all add: h(1))
  have later: "host_calls ?h < host_calls (rn_host (mc_runner m3))"
    using h(1,2) inv2(6) by (simp add: host_quiet_def host_after_def)
  have spec: "manual_inv rnd ?rs m' \<and> host_quiet (rn_host (mc_runner m3)) (rn_host (mc_runner m')) \<and> mc_receiver m' = mc_receiver m3 \<and>
      (commanded_nonzero m' c \<and> go \<longrightarrow> (\<exists>j. host_calls ?h \<le> j \<and> j < host_calls (rn_host (mc_runner m')) \<and>
        host_clock ?h j - guard_last_channels_at (mc_guard m') < manual_guard_timeout))"
  proof (cases drained)
    case False
    with out stopped_inv [of "mc_guard_reset m3" ?rs rnd] guard_told_reset [OF told] inv3(1) show ?thesis by auto
  next
    case True
    obtain cand1 m4 where dl: "discard_late service_at cand m3 = (cand1, m4)" by fastforce
    note d4 = discard_spec [OF inv3(1) told cand dl]
    from out True dl have m': "m' = decide_command cand1 m4" "go" by simp_all
    note d5 = decide_spec [OF d4(1,2,3) m'(1)]
    have "host_quiet ?h (rn_host (mc_runner m4))" using host_quiet_trans [OF inv3(2) d4(4)] .
    with d5(4) [of c] m'(2) d4(5) d5(1,3) host_quiet_trans [OF d4(4) d5(2)] show ?thesis
      by (auto simp: host_quiet_def host_after_def)
  qed
  then have after: "host_quiet ?h (rn_host (mc_runner m'))" using host_quiet_trans [OF inv3(2)] by blast
  from spec show "manual_inv rnd ?rs m'" by blast
  from after show "host_after ?h (rn_host (mc_runner m'))" by (rule host_quiet_after)
  show "host_after (mc_receiver m) (mc_receiver m')" using h(3) inv2(5) spec by simp
  show "host_calls ?h < host_calls (rn_host (mc_runner m'))" using later spec by (auto simp: host_quiet_def host_after_def)
  show "commanded_nonzero m' c \<Longrightarrow> go \<Longrightarrow> \<exists>j. host_calls ?h \<le> j \<and> j < host_calls (rn_host (mc_runner m')) \<and>
      host_clock ?h j - guard_last_channels_at (mc_guard m') < manual_guard_timeout" using spec by blast
qed

lemma manual_finish_spec:
  assumes "manual_inv rnd rs m" and "manual_finish m = Some m'"
  shows "manual_inv rnd rs m'" and "host_after (rn_host (mc_runner m)) (rn_host (mc_runner m'))" and "mc_receiver m' = mc_receiver m"
proof -
  from assms(2) obtain r where p: "poll (mc_runner m) = Some r"
    and m': "m' = (if \<not> is_synchronized r then mc_stop (mc_guard_reset (m\<lparr>mc_runner := r\<rparr>)) else m\<lparr>mc_runner := r\<rparr>)"
    by (auto simp: manual_finish_def bind_eq_Some_conv Let_def)
  have inv: "runner_inv r" and path: "host_after (rn_host (mc_runner m)) (rn_host r)"
    using poll_ok [OF _ p] assms(1) by (auto simp: manual_inv_def poll_path_def)
  show "manual_inv rnd rs m'"
  proof (cases "is_synchronized r")
    case True
    with m' inv assms(1) poll_latest [OF p] show ?thesis by (auto simp: manual_inv_def command_known_def)
  next
    case False
    with m' stopped_inv [of "mc_guard_reset (m\<lparr>mc_runner := r\<rparr>)" rs rnd] guard_told_reset [of rs "m\<lparr>mc_runner := r\<rparr>"] inv assms(1)
    show ?thesis by (simp add: manual_inv_def)
  qed
  show "host_after (rn_host (mc_runner m)) (rn_host (mc_runner m'))" "mc_receiver m' = mc_receiver m"
    using m' path host_after_trans [OF path host_quiet_after [OF host_next_quiet]] by simp_all
qed

lemma iteration_spec:
  assumes "manual_inv rnd rs m" and "manual_iteration rnd m = Some (go, m')"
  shows "manual_inv rnd (rs @ iteration_receipts m) m'" and "host_after (rn_host (mc_runner m)) (rn_host (mc_runner m'))"
    and "host_after (mc_receiver m) (mc_receiver m')"
    and "host_calls (rn_host (mc_runner m)) < host_calls (rn_host (mc_runner m'))"
proof -
  from assms(2) obtain go1 m1 where p: "manual_prepare rnd m = Some (go1, m1)"
    and rest: "\<not> go1 \<and> m' = m1 \<or> go1 \<and> manual_finish m1 = Some m'"
    by (auto simp: manual_iteration_def bind_eq_Some_conv split: if_splits)
  note prep = prepare_spec(1-4) [OF assms(1) p]
  from rest have "manual_inv rnd (rs @ iteration_receipts m) m' \<and> host_after (rn_host (mc_runner m1)) (rn_host (mc_runner m')) \<and>
      mc_receiver m' = mc_receiver m1"
    using prep(1) manual_finish_spec [OF prep(1), of m'] by fastforce
  then have "manual_inv rnd (rs @ iteration_receipts m) m'" "host_after (rn_host (mc_runner m1)) (rn_host (mc_runner m'))"
    "mc_receiver m' = mc_receiver m1" by blast+
  with prep show "manual_inv rnd (rs @ iteration_receipts m) m'" "host_after (mc_receiver m) (mc_receiver m')"
    and "host_after (rn_host (mc_runner m)) (rn_host (mc_runner m'))"
    by (simp_all add: host_after_trans)
  show "host_calls (rn_host (mc_runner m)) < host_calls (rn_host (mc_runner m'))"
    using prep(4) \<open>host_after (rn_host (mc_runner m1)) (rn_host (mc_runner m'))\<close> unfolding host_after_def by linarith
qed

end
