(* ===== verification/Manual_Program.thy ===== *)
theory Manual_Program
  imports Manual_Control
begin

section \<open>What the manual control program guarantees\<close>

text \<open>
  The program as a transition system: its loop body, repeated on any hosts, together with the
  channels received so far and the clock readings at which they came. In every reachable state a
  non-zero wheel command is that of the last channels received, manual control is permitted and
  the link is synchronized; the messages the runner sends follow from that. On live hosts the
  program ends and leaves the runner without a command to drive.
\<close>

type_synonym receipts = "(u16 list \<times> int) list"

definition manual_started :: "receipts \<times> ManualControl \<Rightarrow> bool" where
  "manual_started s \<longleftrightarrow> (\<exists>receiver h t. s = ([], (manual_new receiver h)\<lparr>mc_last_receiver_service_at := t\<rparr>))"

inductive manual_step :: "(real \<Rightarrow> real) \<Rightarrow> receipts \<times> ManualControl \<Rightarrow> receipts \<times> ManualControl \<Rightarrow> bool" for rnd where
  clock_read: "mc_now m = (t, m') \<Longrightarrow> manual_step rnd (rs, m) (rs, m')"
| iterated: "manual_iteration rnd m = Some (go, m') \<Longrightarrow> manual_step rnd (rs, m) (rs @ iteration_receipts m, m')"

lemma manual_inv_now: "manual_inv rnd rs m \<Longrightarrow> mc_now m = (t, m') \<Longrightarrow> manual_inv rnd rs m'"
  using runner_inv_host [OF _ host_next_quiet]
  by (auto simp: manual_inv_def command_known_def is_synchronized_def)

lemma manual_inv_new: "manual_started (rs, m) \<Longrightarrow> manual_inv rnd rs m"
  by (auto simp: manual_started_def manual_new_def manual_inv_def command_known_def runner_inv_new guard_told_new)
     (simp_all add: runner_new_def)

interpretation manual: inductive_invariant manual_started "manual_step rnd" "\<lambda>(rs, m). manual_inv rnd rs m" for rnd
proof unfold_locales
  show "manual_started s \<Longrightarrow> case s of (rs, m) \<Rightarrow> manual_inv rnd rs m" for s using manual_inv_new by (cases s) simp
  show "(case s of (rs, m) \<Rightarrow> manual_inv rnd rs m) \<Longrightarrow> manual_step rnd s s' \<Longrightarrow> (case s' of (rs, m) \<Rightarrow> manual_inv rnd rs m)" for s s'
    by (erule manual_step.cases) (auto dest: iteration_spec(1) manual_inv_now)
qed

abbreviation manual_reachable :: "(real \<Rightarrow> real) \<Rightarrow> receipts \<Rightarrow> ManualControl \<Rightarrow> bool" where
  "manual_reachable rnd rs m \<equiv> reachable manual_started (manual_step rnd) (rs, m)"

subsection \<open>The program returns\<close>

abbreviation hosts_live :: "ManualControl \<Rightarrow> bool" where
  "hosts_live m \<equiv> live (mc_runner m) \<and> host_live (mc_receiver m)"

lemma drain_returns:
  "host_live (mc_receiver m) \<Longrightarrow> \<exists>drained candidate' m'. drain_receiver rnd recovering n candidate m = Some (drained, candidate', m')"
proof (induction n arbitrary: candidate m)
  case (Suc n)
  from live_returns(1) [OF Suc.prems] obtain k buf h where r: "read_some 256 (mc_receiver m) = Some ((k, buf), h)" by fastforce
  have live: "host_live h" using Suc.prems host_live_after [OF host_quiet_after [OF read_some_spec(1) [OF r]]] by simp
  obtain c1 m1 where f: "feed_receiver rnd (take (nat k) buf) candidate (m\<lparr>mc_receiver := h\<rparr>) = (c1, m1)" by fastforce
  have "host_live (mc_receiver m1)"
    using feed_receiver_spec [OF f] live by simp
  from Suc.IH [OF this, of c1] Suc.IH [of "m\<lparr>mc_receiver := h\<rparr>" candidate] live r f show ?case by (auto simp: Let_def)
qed auto

lemma prepare_returns:
  assumes "manual_inv rnd rs m" and "hosts_live m"
  shows "\<exists>y. manual_prepare rnd m = Some y"
proof -
  obtain service_at recovering m1 where b: "begin_service m = (service_at, recovering, m1)" by (cases "begin_service m") auto
  have "host_live (mc_receiver m1)" using service_spec(5) [OF assms(1) b] assms(2) by simp
  from drain_returns [OF this, of rnd recovering 32 None] b show ?thesis by (auto simp: manual_prepare_def split: prod.split)
qed

lemma iteration_returns:
  assumes "manual_inv rnd rs m" and "hosts_live m"
  obtains go m' where "manual_iteration rnd m = Some (go, m')"
proof -
  from prepare_returns [OF assms] obtain go m1 where p: "manual_prepare rnd m = Some (go, m1)" by fastforce
  note prep = prepare_spec [OF assms(1) p]
  have "live (mc_runner m1)" using assms(2) host_live_after [OF prep(2)] by simp
  moreover have "runner_inv (mc_runner m1)" using prep(1) by (simp add: manual_inv_def)
  ultimately obtain r where "poll (mc_runner m1) = Some r" using poll_terminates by blast
  with p that show ?thesis by (cases go) (auto simp: manual_iteration_def manual_finish_def Let_def)
qed

text \<open>
  The loops end because every round reads the clock, and from some reading on the clock is past
  the deadline.
\<close>

lemma manual_loop_returns:
  assumes "\<forall>j \<ge> k. deadline \<le> host_clock (rn_host (mc_runner m)) j" and "manual_inv rnd rs m" and "hosts_live m"
  shows "\<exists>m' rs'. manual_loop rnd deadline m = Some m' \<and> manual_inv rnd rs' m' \<and> hosts_live m'"
  using assms
proof (induction "k - host_calls (rn_host (mc_runner m))" arbitrary: m rs rule: less_induct)
  case less
  let ?h = "rn_host (mc_runner m)" and ?m = "m\<lparr>mc_runner := (mc_runner m)\<lparr>rn_host := host_next (rn_host (mc_runner m))\<rparr>\<rparr>"
  have m: "manual_inv rnd rs ?m" "hosts_live ?m" using manual_inv_now [OF less(3)] less(4) by simp_all
  show ?case
  proof (cases "host_clock ?h (host_calls ?h) < deadline")
    case False
    then have "manual_loop rnd deadline m = Some ?m" by (subst manual_loop.simps) simp
    with m show ?thesis by blast
  next
    case True
    then have early: "host_calls ?h < k" using less(2) by (metis not_le)
    from iteration_returns [OF m] obtain go m1 where it: "manual_iteration rnd ?m = Some (go, m1)" .
    note spec = iteration_spec [OF m(1) it]
    have live: "hosts_live m1" using m(2) host_live_after [OF spec(2)] host_live_after [OF spec(3)] by simp
    have eq: "manual_loop rnd deadline m = (if go then manual_loop rnd deadline m1 else Some m1)"
      using True it by (subst manual_loop.simps) simp
    have "k - host_calls (rn_host (mc_runner m1)) < k - host_calls ?h" using early spec(4) by simp
    moreover have "\<forall>j \<ge> k. deadline \<le> host_clock (rn_host (mc_runner m1)) j" using less(2) spec(2) by (simp add: host_after_def)
    ultimately have "\<exists>m' rs'. manual_loop rnd deadline m1 = Some m' \<and> manual_inv rnd rs' m' \<and> hosts_live m'"
      using less(1) spec(1) live by blast
    with eq spec(1) live show ?thesis by (cases go) auto
  qed
qed

definition command_ended :: "ManualControl \<Rightarrow> bool" where
  "command_ended m \<longleftrightarrow> (\<forall>c. latest (mc_runner m) = Some c \<longrightarrow> is_zero_wheel_command c)"

lemma shutdown_returns:
  assumes "\<forall>j \<ge> k. deadline \<le> host_clock (rn_host (mc_runner m)) j" and "runner_inv (mc_runner m)" and "live (mc_runner m)"
    and "command_ended m"
  shows "\<exists>m'. shutdown_loop deadline m = Some m' \<and> runner_inv (mc_runner m') \<and> command_ended m'"
  using assms
proof (induction "k - host_calls (rn_host (mc_runner m))" arbitrary: m rule: less_induct)
  case less
  let ?h = "rn_host (mc_runner m)" and ?m = "m\<lparr>mc_runner := (mc_runner m)\<lparr>rn_host := host_next (rn_host (mc_runner m))\<rparr>\<rparr>"
  have m: "runner_inv (mc_runner ?m)" "live (mc_runner ?m)" "command_ended ?m"
    using runner_inv_host [OF less(3) host_next_quiet] less(4,5) by (simp_all add: command_ended_def)
  show ?case
  proof (cases "host_clock ?h (host_calls ?h) < deadline")
    case False
    then have "shutdown_loop deadline m = Some ?m" by (subst shutdown_loop.simps) simp
    with m show ?thesis by blast
  next
    case True
    then have early: "host_calls ?h < k" using less(2) by (metis not_le)
    from poll_terminates [OF m(1,2)] obtain r where p: "poll (mc_runner ?m) = Some r" by blast
    have inv: "runner_inv r" and after: "host_after (rn_host (mc_runner ?m)) (rn_host r)"
      using poll_ok [OF m(1) p] by (auto simp: poll_path_def)
    let ?m1 = "?m\<lparr>mc_runner := r\<rparr>"
    have "command_ended ?m1" using poll_latest [OF p] m(3) by (auto simp: command_ended_def)
    moreover have "live r" using m(2) host_live_after [OF after] by simp
    moreover have "k - host_calls (rn_host (mc_runner ?m1)) < k - host_calls ?h" "\<forall>j \<ge> k. deadline \<le> host_clock (rn_host r) j"
      using early after less(2) by (auto simp: host_after_def intro: diff_less_mono2)
    ultimately obtain m' where "shutdown_loop deadline ?m1 = Some m'" "runner_inv (mc_runner m')" "command_ended m'"
      using less(1) [of ?m1] inv by auto
    moreover have "shutdown_loop deadline m = shutdown_loop deadline ?m1" using True p by (subst shutdown_loop.simps) simp
    ultimately show ?thesis by simp
  qed
qed

lemma live_deadline: "host_live h \<Longrightarrow> \<exists>k. \<forall>j \<ge> k. t \<le> host_clock h j"
  unfolding host_live_def by blast

text \<open>Everything the program does after opening the receiver's port.\<close>

lemma loops_return:
  assumes "manual_inv rnd rs m" and "hosts_live m"
  shows "\<exists>m'. (manual_loop rnd deadline m \<bind> (\<lambda>m. let m = mc_stop (mc_guard_reset m); (now, m) = mc_now m in
      shutdown_loop (now + milliseconds 2000) m \<bind> (\<lambda>m. Some (0, m)))) = Some (0 :: int, m') \<and>
    runner_inv (mc_runner m') \<and> command_ended m'"
proof -
  obtain k where "\<forall>j \<ge> k. deadline \<le> host_clock (rn_host (mc_runner m)) j" using live_deadline assms(2) by blast
  from manual_loop_returns [OF this assms] obtain m2 rs2 where
    m2: "manual_loop rnd deadline m = Some m2" "manual_inv rnd rs2 m2" "hosts_live m2" by blast
  define m3 where "m3 = mc_stop (mc_guard_reset m2)"
  define m4 where "m4 = m3\<lparr>mc_runner := (mc_runner m3)\<lparr>rn_host := host_next (rn_host (mc_runner m3))\<rparr>\<rparr>"
  define stop_at where "stop_at = host_clock (rn_host (mc_runner m3)) (host_calls (rn_host (mc_runner m3))) + milliseconds 2000"
  have m3: "runner_inv (mc_runner m3)" "command_ended m3" "live (mc_runner m3)"
    using m2(2,3) by (simp_all add: m3_def manual_inv_def command_ended_def)
  then have m4: "runner_inv (mc_runner m4)" "command_ended m4" "live (mc_runner m4)"
    using runner_inv_host [OF m3(1) host_next_quiet] by (simp_all add: m4_def command_ended_def)
  obtain k' where "\<forall>j \<ge> k'. stop_at \<le> host_clock (rn_host (mc_runner m4)) j" using live_deadline m4(3) by blast
  from shutdown_returns [OF this m4(1,3,2)] obtain m5 where
    m5: "shutdown_loop stop_at m4 = Some m5" "runner_inv (mc_runner m5)" "command_ended m5" by blast
  with m2(1) show ?thesis by (auto simp: m3_def m4_def stop_at_def)
qed

subsection \<open>A program to try it on\<close>

text \<open>
  The program with a running client and a guard that was just enabled. Its receiver delivers two
  frames in one read, the first with neutral sticks and the second with the stick forward.
\<close>

abbreviation sample_off :: "u16 list" where "sample_off \<equiv> sample_channels 992 992 174"
abbreviation sample_neutral :: "u16 list" where "sample_neutral \<equiv> sample_channels 992 992 1811"
abbreviation sample_forward :: "u16 list" where "sample_forward \<equiv> sample_channels 992 1811 1811"

abbreviation sample_permitted :: WheelVelocityCommand where
  "sample_permitted \<equiv> \<lparr>left_velocity_mm_s = 120, right_velocity_mm_s = 120\<rparr>"

abbreviation sample_zero :: WheelVelocityCommand where
  "sample_zero \<equiv> \<lparr>left_velocity_mm_s = 0, right_velocity_mm_s = 0\<rparr>"

definition neutral_payload :: "u8 list" where
  "neutral_payload = [0xE0, 0x03, 0x1F, 0xF8, 0xC0, 0x37, 0x71, 0xF0, 0x81, 0x0F, 0x7C, 0xE0, 0x03, 0x1F, 0xF8, 0xC0, 0x07, 0x3E, 0xF0, 0x81, 0x0F, 0x7C]"

definition forward_payload :: "u8 list" where
  "forward_payload = [0xE0, 0x9B, 0x38, 0xF8, 0xC0, 0x37, 0x71, 0xF0, 0x81, 0x0F, 0x7C, 0xE0, 0x03, 0x1F, 0xF8, 0xC0, 0x07, 0x3E, 0xF0, 0x81, 0x0F, 0x7C]"

definition sample_radio_bytes :: "u8 list" where
  "sample_radio_bytes = crsf_image (sample_crsf neutral_payload) @ crsf_image (sample_crsf forward_payload)"

definition sample_radio :: Host where
  "sample_radio = sample_host\<lparr>host_read := (\<lambda>n. if n = 1 then Read_Bytes sample_radio_bytes else Read_Error EAGAIN)\<rparr>"

definition sample_receipts :: receipts where
  "sample_receipts = [(sample_off, 0), (sample_neutral, 0)]"

definition sample_manual :: ManualControl where
  "sample_manual =
     \<lparr>mc_receiver = sample_radio, mc_runner = sample_runner sample_zero,
      mc_decoder = crsf_decoder_new, mc_guard = guard_run (receipt_history sample_receipts),
      mc_last_receiver_service_at = 0\<rparr>"

lemmas sample_guard_defs = on_channels_def manual_guard_poll_def manual_guard_new_def manual_guard_timeout_def milliseconds_def
  switch_enabled_def switch_disabled_def axes_neutral_def is_neutral_def sample_channels_def manual_control_config

lemma sample_manual_guard:
  "mc_guard sample_manual = \<lparr>guard_state = ManualEnabled, guard_has_channels = True, guard_last_channels_at = 0\<rparr>"
  by (simp add: sample_manual_def sample_receipts_def guard_run_def sample_guard_defs)

lemma sample_manual_inv: "manual_inv id sample_receipts sample_manual"
proof -
  have "guard_told sample_receipts (mc_guard sample_manual)"
    unfolding guard_told_def
    by (intro exI [of _ "receipt_history sample_receipts"]) (simp add: sample_manual_def sample_receipts_def)
  moreover have "latest (mc_runner sample_manual) = Some sample_zero" by (simp add: sample_manual_def sample_runner_def)
  ultimately show ?thesis using sample_runner_inv(1) by (simp add: manual_inv_def command_known_def) (simp add: sample_manual_def)
qed

text \<open>What the receiver delivers.\<close>

lemma sample_payloads:
  "crsf_channels_decode (sample_crsf neutral_payload) = Some sample_neutral"
  "crsf_channels_decode (sample_crsf forward_payload) = Some sample_forward"
  by code_simp+

lemma sample_decoded: "decoded_channels sample_radio_bytes crsf_decoder_new = [sample_neutral, sample_forward]"
proof -
  let ?fs = "[sample_crsf neutral_payload, sample_crsf forward_payload]"
  have "crsf_state crsf_decoder_new = WaitingForAddress" "length (crsf_buffer crsf_decoder_new) = 64"
    "list_all crsf_frame_wf ?fs" "length [[], []] = length ?fs" "list_all (\<lambda>gap. (0xC8 :: u8) \<notin> set gap) [[], []]"
    by (simp_all add: crsf_decoder_new_def crsf_frame_wf_def sample_crsf_def neutral_payload_def forward_payload_def buffer_write_def)
  from crsf_feed_interleaved [OF this] obtain d where "crsf_feed_all sample_radio_bytes crsf_decoder_new = (?fs, d)"
    by (auto simp: sample_radio_bytes_def)
  then show ?thesis by (simp add: decoded_channels_def sample_payloads List.map_filter_def)
qed

lemma sample_radio_length: "length sample_radio_bytes = 52"
  by (simp add: sample_radio_bytes_def crsf_image_def sample_crsf_def neutral_payload_def forward_payload_def buffer_write_def Let_def)

lemma sample_radio_reads:
  "read_some 256 sample_radio = Some ((52, sample_radio_bytes), host_next sample_radio)"
  "read_some 256 (host_next sample_radio) = Some ((0, []), host_next (host_next sample_radio))"
proof -
  have "sample_radio_bytes \<noteq> []" using sample_radio_length by auto
  then show "read_some 256 sample_radio = Some ((52, sample_radio_bytes), host_next sample_radio)"
    using sample_radio_length by (simp add: read_some_def read_loop.simps sys_read_def sample_radio_def sample_host_def)
  show "read_some 256 (host_next sample_radio) = Some ((0, []), host_next (host_next sample_radio))"
    by (simp add: read_some_def read_loop.simps sys_read_def) (simp add: sample_radio_def sample_host_def)
qed

lemma sample_forward_command: "manual_channels_command id sample_forward = sample_permitted"
proof -
  have "normalize_manual_stick id (sample_forward ! 0) = 0" "normalize_manual_stick id (sample_forward ! 1) = 1"
    by (simp_all add: sample_channels_def neutral_normalized extreme_normalized is_neutral_def manual_control_config)
  then have "manual_channels_command id sample_forward = manual_wheels_to_command id (mix_manual_sticks id (of_int 1) (of_int 0)) 120"
    by (simp only: manual_channels_command_def Let_def of_int_0 of_int_1)
  also have "\<dots> = sample_permitted" by (subst whole_command [OF double_rounding_id]) simp_all
  finally show ?thesis .
qed

abbreviation sample_runner_at :: "WheelVelocityCommand \<Rightarrow> nat \<Rightarrow> Stm32ClientRunner" where
  "sample_runner_at c n \<equiv> (sample_runner c)\<lparr>rn_host := sample_host\<lparr>host_calls := n\<rparr>\<rparr>"

lemma sample_drain:
  assumes "mc_receiver m = sample_radio" and "mc_decoder m = crsf_decoder_new" and "mc_runner m = sample_runner_at c 2"
    and "mc_guard m = mc_guard sample_manual"
  obtains m' where "drain_receiver id False 32 None m = Some (True, Some sample_permitted, m')" and "mc_runner m' = sample_runner_at c 4"
    and "mc_guard m' = \<lparr>guard_state = ManualEnabled, guard_has_channels = True, guard_last_channels_at = 3\<rparr>"
proof -
  obtain cand m1 where f: "feed_receiver id sample_radio_bytes None (m\<lparr>mc_receiver := host_next sample_radio\<rparr>) = (cand, m1)" by fastforce
  have rs: "stamped [sample_neutral, sample_forward] (sample_host\<lparr>host_calls := 2\<rparr>) = [(sample_neutral, 2), (sample_forward, 3)]"
    by (simp add: sample_host_def)
  note fed = feed_receiver_spec [OF f, simplified, unfolded assms(2) sample_decoded assms(3)]
  have "cand = Some sample_permitted" "mc_runner m1 = sample_runner_at c 4" "mc_receiver m1 = host_next sample_radio"
    "mc_guard m1 = \<lparr>guard_state = ManualEnabled, guard_has_channels = True, guard_last_channels_at = 3\<rparr>"
    using fed assms(3,4) rs sample_forward_command sample_manual_guard
    by (simp_all add: received_def sample_guard_defs host_next_def)
  moreover have "drain_receiver id False 32 None m = drain_receiver id False 31 cand m1"
    using assms(1) f sample_radio_reads(1) sample_radio_length drain_receiver.simps(2) [of id False 31]
    by (simp add: Let_def)
  moreover have "drain_receiver id False 31 cand m1 = Some (True, cand, m1\<lparr>mc_receiver := host_next (host_next sample_radio)\<rparr>)"
    using sample_radio_reads(2) calculation(3) drain_receiver.simps(2) [of id False 30] by (simp add: Let_def)
  ultimately show thesis using that [of "m1\<lparr>mc_receiver := host_next (host_next sample_radio)\<rparr>"] by simp
qed

lemma sample_prepare:
  obtains m1 where "manual_prepare id sample_manual = Some (True, m1)"
    and "mc_runner m1 = (sample_runner_at sample_permitted 7)\<lparr>rn_latest_wheel_command_time := 6\<rparr>"
proof -
  let ?m = "sample_manual\<lparr>mc_runner := sample_runner_at sample_zero 2, mc_last_receiver_service_at := 1\<rparr>"
  have b: "begin_service sample_manual = (1, False, ?m)"
    by (simp add: begin_service_def sample_manual_def sample_durations) (simp add: sample_runner_def sample_host_def host_next_def sample_durations)
  obtain m3 where d: "drain_receiver id False 32 None ?m = Some (True, Some sample_permitted, m3)" and m3: "mc_runner m3 = sample_runner_at sample_zero 4"
    "mc_guard m3 = \<lparr>guard_state = ManualEnabled, guard_has_channels = True, guard_last_channels_at = 3\<rparr>"
    by (rule sample_drain [of ?m sample_zero]) (simp_all add: sample_manual_def)
  have dl: "discard_late 1 (Some sample_permitted) m3 = (Some sample_permitted, m3\<lparr>mc_runner := sample_runner_at sample_zero 5\<rparr>)"
    using m3 by (simp add: discard_late_def sample_durations sample_host_def host_next_def)
  have "mc_runner (decide_command (Some sample_permitted) (m3\<lparr>mc_runner := sample_runner_at sample_zero 5\<rparr>)) =
      (sample_runner_at sample_permitted 7)\<lparr>rn_latest_wheel_command_time := 6\<rparr>"
    using m3(2) by (simp add: decide_command_def is_synchronized_def sample_runner_def manual_guard_poll_def manual_guard_timeout_def
        sample_durations mc_command_def set_wheel_command_def sample_host_def host_next_def)
  moreover have "manual_prepare id sample_manual =
      Some (True, decide_command (Some sample_permitted) (m3\<lparr>mc_runner := sample_runner_at sample_zero 5\<rparr>))"
    using b d dl by (simp add: manual_prepare_def)
  ultimately show thesis using that by blast
qed

lemma sample_iteration_receipts: "iteration_receipts sample_manual = [(sample_neutral, 2), (sample_forward, 3)]"
proof -
  have "receiver_bytes 32 sample_radio = sample_radio_bytes"
    using sample_radio_reads sample_radio_length receiver_bytes.simps(2) [of 31] receiver_bytes.simps(2) [of 30] by simp
  then show ?thesis
    by (simp add: iteration_receipts_def sample_manual_def) (simp add: sample_runner_def sample_host_def sample_durations sample_decoded)
qed

lemma sample_permitted_poll:
  obtains r' where "poll ((sample_runner_at sample_permitted 7)\<lparr>rn_latest_wheel_command_time := 6\<rparr>) = Some r'"
    and "host_written (rn_host r') \<noteq> []"
proof -
  let ?m = "motion_session_new\<lparr>ms_state := ActiveSession, ms_active_session_id := 9\<rparr>"
  obtain f where f: "build_wheel_velocity 120 120 ?m = (Some f, ?m\<lparr>ms_next_wheel_sequence := 2\<rparr>)"
    by (simp add: build_wheel_velocity_def motion_session_new_def Let_def)
  have sf: "frame_sendable f" using velocity_message(1) [OF f] by simp
  have wire: "frame_wire f \<noteq> []" using length_frame_wire [OF sf] by auto
  have "\<exists>r'. poll ((sample_runner_at sample_permitted 7)\<lparr>rn_latest_wheel_command_time := 6\<rparr>) = Some r' \<and> host_written (rn_host r') \<noteq> []"
    using f wire
    by (simp add: poll_def sample_runner_def runner_new_def run_synchronized_iteration_def sample_host_def epoch_ms_def
        link_session_new_def check_link_timeout_def retry_exhausted_def motion_session_new_def send_motion_retry_def retry_if_due_def
        go_on_def start_motion_def command_wheels_def send_wheel_velocity_def has_fresh_wheel_command_def is_zero_wheel_command_def
        wheel_command_freshness_def wheel_tx_period_def send_frame_def sample_send [OF sf]
        end_motion_def finish_iteration_def send_heartbeat_def heartbeat_if_due_def receive_bytes_def serial_wait_def wait_loop.simps
        cast_milliseconds_def signed_divide_int_def host_next_def sample_durations Let_def)
  with that show thesis by blast
qed

subsection \<open>Properties\<close>

text \<open>
  C11: The sticks drive only with permission. In every reachable state of the manual control
  program the guard was told the channels received so far and a non-zero command is that of the last of them.
  Take any such state, a pass of the loop that polls the client, and the channels received up to
  this poll: those of the earlier passes and those decoded in this one from the bytes
  the receiver delivers, each with the clock reading at which it came. Then every velocity the client
  sends is the command of the sticks in the last of these channels and at most 120 mm/s on either
  wheel; in the channels received the switch was off with neutral sticks, then on with neutral
  sticks and on ever since, the last ones included, never 200 ms apart; the last channels are
  less than 200 ms old at a clock reading of this pass; and the link is synchronized and the guard enabled.
\<close>

theorem manual_velocity_permitted:
  assumes "double_rounding rnd" and "manual_inv rnd old m" and "manual_prepare rnd m = Some (True, m1)" and "poll (mc_runner m1) = Some r'"
    and "rs = old @ iteration_receipts m"
  shows "(manual_reachable rnd rs0 m0 \<longrightarrow> manual_inv rnd rs0 m0) \<and>
   (\<exists>es k. peer_steps es (rn_link (mc_runner m1), rn_motion (mc_runner m1)) (rn_link r', rn_motion r') \<and>
    host_written (rn_host r') = host_written (rn_host (mc_runner m1)) @ take k (event_bytes es) \<and>
    (\<forall>f \<in> set (sent_frames es). \<forall>i. view f = Velocity i \<longrightarrow>
       is_synchronized (mc_runner m1) \<and> guard_state (mc_guard m1) = ManualEnabled \<and>
       rs \<noteq> [] \<and> enabled_history (receipt_history rs) (snd (last rs)) \<and> switch_enabled (fst (last rs)) \<and>
       (\<exists>j. host_calls (rn_host (mc_runner m)) \<le> j \<and> j < host_calls (rn_host (mc_runner m1)) \<and>
          host_clock (rn_host (mc_runner m)) j - snd (last rs) < milliseconds 200) \<and>
       (\<exists>c sq. c = manual_channels_command rnd (fst (last rs)) \<and>
          \<bar>sint (left_velocity_mm_s c)\<bar> \<le> 120 \<and> \<bar>sint (right_velocity_mm_s c)\<bar> \<le> 120 \<and>
          f = message PROTOCOL_MESSAGE_TYPE_WHEEL_VELOCITY sq
            (wheel_velocity_payload_encode \<lparr>wv_motion_session_id = i, wv_command = c\<rparr>))))"
proof -
  note prep = prepare_spec [OF assms(2,3), folded assms(5)]
  have inv: "runner_inv (mc_runner m1)" "guard_told rs (mc_guard m1)" using prep(1) by (simp_all add: manual_inv_def)
  from poll_ok(2) [OF inv(1) assms(4)] obtain es k where es: "peer_steps es (peer_of (mc_runner m1)) (peer_of r')"
    "host_written (rn_host r') = host_written (rn_host (mc_runner m1)) @ take k (event_bytes es)"
    and sent: "list_all (wheel_permitted (mc_runner m1)) (sent_frames es)" unfolding poll_path_def by blast
  have "is_synchronized (mc_runner m1) \<and> guard_state (mc_guard m1) = ManualEnabled \<and>
       rs \<noteq> [] \<and> enabled_history (receipt_history rs) (snd (last rs)) \<and> switch_enabled (fst (last rs)) \<and>
       (\<exists>j. host_calls (rn_host (mc_runner m)) \<le> j \<and> j < host_calls (rn_host (mc_runner m1)) \<and>
          host_clock (rn_host (mc_runner m)) j - snd (last rs) < milliseconds 200) \<and>
       (\<exists>c sq. c = manual_channels_command rnd (fst (last rs)) \<and>
          \<bar>sint (left_velocity_mm_s c)\<bar> \<le> 120 \<and> \<bar>sint (right_velocity_mm_s c)\<bar> \<le> 120 \<and>
          f = message PROTOCOL_MESSAGE_TYPE_WHEEL_VELOCITY sq
            (wheel_velocity_payload_encode \<lparr>wv_motion_session_id = i, wv_command = c\<rparr>))"
    if "f \<in> set (sent_frames es)" "view f = Velocity i" for f i
  proof -
    from sent that obtain c sq where c: "commanded_nonzero m1 c"
      "f = message PROTOCOL_MESSAGE_TYPE_WHEEL_VELOCITY sq (wheel_velocity_payload_encode \<lparr>wv_motion_session_id = i, wv_command = c\<rparr>)"
      unfolding list_all_iff wheel_permitted_def by blast
    from prep(1) c(1) have st: "c = manual_channels_command rnd (fst (last rs))" "is_synchronized (mc_runner m1)"
      "guard_state (mc_guard m1) = ManualEnabled" unfolding manual_inv_def command_known_def by blast+
    note enabled = guard_told_enabled [OF inv(2) st(3)]
    note last = enabled_receipts_last [OF enabled]
    from prep(5) [OF c(1)] st c(2) last enabled [unfolded last(2)] channels_command_bounded [OF assms(1)] show ?thesis
      unfolding manual_guard_timeout_def last(2) by blast
  qed
  moreover have "manual_reachable rnd rs0 m0 \<longrightarrow> manual_inv rnd rs0 m0" using manual.inv_reachable [of rnd "(rs0, m0)"] by simp
  ultimately show ?thesis using es by blast
qed

lemma manual_velocity_permitted_witness:
  "\<exists>m1 r' es. manual_prepare id sample_manual = Some (True, m1) \<and> poll (mc_runner m1) = Some r' \<and>
     latest (mc_runner m1) = Some sample_permitted \<and> sent_frames es \<noteq> [] \<and>
     last (sample_receipts @ iteration_receipts sample_manual) = (sample_forward, 3) \<and>
     (\<forall>f \<in> set (sent_frames es). \<forall>i. view f = Velocity i \<longrightarrow>
        enabled_history (receipt_history (sample_receipts @ iteration_receipts sample_manual)) 3 \<and>
        (\<exists>sq. f = message PROTOCOL_MESSAGE_TYPE_WHEEL_VELOCITY sq
           (wheel_velocity_payload_encode \<lparr>wv_motion_session_id = i, wv_command = sample_permitted\<rparr>)))"
proof -
  obtain m1 where p: "manual_prepare id sample_manual = Some (True, m1)"
    and m1: "mc_runner m1 = (sample_runner_at sample_permitted 7)\<lparr>rn_latest_wheel_command_time := 6\<rparr>"
    by (rule sample_prepare)
  obtain r' where r': "poll (mc_runner m1) = Some r'" "host_written (rn_host r') \<noteq> []" using sample_permitted_poll m1 by metis
  have last: "last (sample_receipts @ iteration_receipts sample_manual) = (sample_forward, 3)" by (simp add: sample_iteration_receipts)
  from manual_velocity_permitted [OF double_rounding_id sample_manual_inv p r'(1) refl] obtain es k where
    es: "host_written (rn_host r') = host_written (rn_host (mc_runner m1)) @ take k (event_bytes es)"
      "\<forall>f \<in> set (sent_frames es). \<forall>i. view f = Velocity i \<longrightarrow>
        enabled_history (receipt_history (sample_receipts @ iteration_receipts sample_manual)) 3 \<and>
        (\<exists>sq. f = message PROTOCOL_MESSAGE_TYPE_WHEEL_VELOCITY sq
           (wheel_velocity_payload_encode \<lparr>wv_motion_session_id = i, wv_command = sample_permitted\<rparr>))"
    unfolding last fst_conv snd_conv sample_forward_command by blast
  have "host_written (rn_host (mc_runner m1)) = []" "latest (mc_runner m1) = Some sample_permitted"
    by (simp_all add: m1 sample_host_def sample_runner_def)
  moreover from this es(1) r'(2) have "sent_frames es \<noteq> []" by auto
  ultimately show ?thesis using p r'(1) es(2) last by blast
qed

text \<open>
  C21: The program ends and leaves nothing driving. On hosts whose clock advances, whose calls are not
  interrupted forever and whose generator draws usable numbers, the manual control program
  returns, with exit code 1 exactly when the receiver's port cannot be opened; when it has run,
  the client is consistent and its last command is zero or dropped.
\<close>

theorem manual_program_ends:
  assumes "host_live receiver" and "host_live h"
  shows "\<exists>code m. manual_control_main rnd receiver h = Some (code, m) \<and>
    code = (if fst (serial_open 420000 (receiver\<lparr>host_fd := -1\<rparr>)) then 0 else 1) \<and>
    runner_inv (mc_runner m) \<and> (\<forall>c. latest (mc_runner m) = Some c \<longrightarrow> is_zero_wheel_command c)"
proof -
  obtain ok rc where op: "serial_open 420000 (receiver\<lparr>host_fd := -1\<rparr>) = (ok, rc)" by fastforce
  let ?m0 = "manual_new rc h"
  have new: "latest (mc_runner ?m0) = None" "runner_inv (mc_runner ?m0)" "rn_host (mc_runner ?m0) = h\<lparr>host_fd := -1\<rparr>"
    by (simp_all add: manual_new_def runner_inv_new) (simp_all add: runner_new_def)
  show ?thesis
  proof (cases ok)
    case False
    with op new show ?thesis by (auto simp: manual_control_main_def)
  next
    case True
    define hh where "hh = h\<lparr>host_fd := -1\<rparr>"
    define m1 where "m1 = ?m0\<lparr>mc_runner := (mc_runner ?m0)\<lparr>rn_host := host_next (host_next hh)\<rparr>,
      mc_last_receiver_service_at := host_clock hh (Suc (host_calls hh))\<rparr>"
    define deadline where "deadline = host_clock hh (host_calls hh) + milliseconds 300000"
    have main: "manual_control_main rnd receiver h = manual_loop rnd deadline m1 \<bind> (\<lambda>m. let m = mc_stop (mc_guard_reset m); (now, m) = mc_now m in
        shutdown_loop (now + milliseconds 2000) m \<bind> (\<lambda>m. Some (0, m)))"
      using True op new(3) by (simp add: manual_control_main_def m1_def deadline_def hh_def Let_def)
    have r1: "runner_inv (mc_runner m1)" "latest (mc_runner m1) = None"
      using runner_inv_host [OF new(2) host_quiet_trans [OF host_next_quiet host_next_quiet]] new(1,3) by (simp_all add: m1_def hh_def)
    moreover have "guard_told [] (mc_guard m1)" by (simp add: m1_def manual_new_def guard_told_new)
    ultimately have inv1: "manual_inv rnd [] m1" by (simp add: manual_inv_def command_known_def)
    have live1: "hosts_live m1"
      using assms host_live_after [OF serial_open_spec(1) [OF op]]
      by (simp add: m1_def hh_def manual_new_def host_live_def)
    from loops_return [OF inv1 live1, of deadline] main True op show ?thesis by (auto simp: command_ended_def)
  qed
qed

lemma manual_program_ends_witness:
  "\<exists>m. manual_control_main id sample_host sample_host = Some (0, m) \<and>
     (\<forall>c. latest (mc_runner m) = Some c \<longrightarrow> is_zero_wheel_command c)"
proof -
  have "fst (serial_open 420000 (sample_host\<lparr>host_fd := -1\<rparr>))"
    by (simp add: serial_open_def serial_close_def sample_host_def host_next_def)
  with manual_program_ends [OF sample_host_live sample_host_live, of id] show ?thesis by auto
qed

end
