(* ===== verification/Motion_Coordination.thy ===== *)
theory Motion_Coordination
  imports Manual_Input
begin

section \<open>Motion coordination on the Raspberry Pi (motion\_coordinator.cpp and what it uses)\<close>

text \<open>
  The coordinator decides which of two authorities may move the robot, stops it for an emergency
  stop, a hardware fault or a silent requester, and passes admitted velocities to a motor
  controller. It works on a control state (control\_state.cpp), a safety state
  (safety\_state.cpp), a watchdog (motion\_watchdog.cpp), the kinematics
  (differential\_drive\_kinematics.cpp) and an interface for the motors, of which the sources
  have no implementation: the answers of the motor controller are arbitrary, and the calls are
  logged with their answers. The conversion of wheel velocities to the integers of the protocol
  (wheel\_velocity\_command\_converter.cpp) is modelled beside it.

  A \<^verbatim>\<open>double\<close> is a real, an infinity or not a number; the sign of zero has no effect here. The
  parameter \<open>rnd\<close> rounds an exact result to a double, possibly an infinity.
\<close>

subsection \<open>Doubles\<close>

datatype double = Finite real | Infinite bool | NaN

fun isfinite :: "double \<Rightarrow> bool" where
  "isfinite (Finite _) \<longleftrightarrow> True"
| "isfinite _ \<longleftrightarrow> False"

text \<open>\<open>Infinite True\<close> is negative.\<close>

fun double_add :: "(real \<Rightarrow> double) \<Rightarrow> double \<Rightarrow> double \<Rightarrow> double" where
  "double_add rnd (Finite x) (Finite y) = rnd (x + y)"
| "double_add rnd (Finite x) (Infinite s) = Infinite s"
| "double_add rnd (Infinite s) (Finite y) = Infinite s"
| "double_add rnd (Infinite s) (Infinite t) = (if s = t then Infinite s else NaN)"
| "double_add rnd _ _ = NaN"

fun double_minus :: "double \<Rightarrow> double" where
  "double_minus (Finite x) = Finite (- x)"
| "double_minus (Infinite s) = Infinite (\<not> s)"
| "double_minus NaN = NaN"

fun double_mult :: "(real \<Rightarrow> double) \<Rightarrow> double \<Rightarrow> double \<Rightarrow> double" where
  "double_mult rnd (Finite x) (Finite y) = rnd (x * y)"
| "double_mult rnd (Finite x) (Infinite s) = (if x = 0 then NaN else Infinite (s \<noteq> (x < 0)))"
| "double_mult rnd (Infinite s) (Finite y) = (if y = 0 then NaN else Infinite (s \<noteq> (y < 0)))"
| "double_mult rnd (Infinite s) (Infinite t) = Infinite (s \<noteq> t)"
| "double_mult rnd _ _ = NaN"

text \<open>Division by a positive constant.\<close>

fun double_divide :: "(real \<Rightarrow> double) \<Rightarrow> double \<Rightarrow> real \<Rightarrow> double" where
  "double_divide rnd (Finite x) c = rnd (x / c)"
| "double_divide rnd (Infinite s) c = Infinite s"
| "double_divide rnd NaN c = NaN"

text \<open>\<^verbatim>\<open>std::abs(x) < e\<close>.\<close>

fun double_below :: "double \<Rightarrow> real \<Rightarrow> bool" where
  "double_below (Finite x) e \<longleftrightarrow> \<bar>x\<bar> < e"
| "double_below _ e \<longleftrightarrow> False"

subsection \<open>Control state and safety state\<close>

datatype ControlAuthority = AuthorityNone | Autonomous | Manual

datatype ControlRequestResult = RequestAccepted | RequestAlreadyActive | RequestAlreadyReleased | RejectedManualActive

definition request_manual :: "ControlAuthority \<Rightarrow> ControlRequestResult \<times> ControlAuthority" where
  "request_manual authority =
     (if authority = Manual then (RequestAlreadyActive, authority) else (RequestAccepted, Manual))"

definition request_autonomous :: "ControlAuthority \<Rightarrow> ControlRequestResult \<times> ControlAuthority" where
  "request_autonomous authority =
     (if authority = Autonomous then (RequestAlreadyActive, authority)
      else if authority = Manual then (RejectedManualActive, authority)
      else (RequestAccepted, Autonomous))"

definition request_release :: "ControlAuthority \<Rightarrow> ControlRequestResult \<times> ControlAuthority" where
  "request_release authority =
     (if authority = AuthorityNone then (RequestAlreadyReleased, authority) else (RequestAccepted, AuthorityNone))"

datatype SafetyStateResult = SafetyUpdated | SafetyAlreadyActive | SafetyAlreadyClear

record SafetyState =
  estop_active :: bool
  hardware_fault_active :: bool

definition safe :: "SafetyState \<Rightarrow> bool" where
  "safe s \<longleftrightarrow> \<not> (estop_active s \<or> hardware_fault_active s)"

definition safety_report_estop :: "SafetyState \<Rightarrow> SafetyStateResult \<times> SafetyState" where
  "safety_report_estop s =
     (if estop_active s then (SafetyAlreadyActive, s) else (SafetyUpdated, s\<lparr>estop_active := True\<rparr>))"

definition safety_report_hardware_fault :: "SafetyState \<Rightarrow> SafetyStateResult \<times> SafetyState" where
  "safety_report_hardware_fault s =
     (if hardware_fault_active s then (SafetyAlreadyActive, s) else (SafetyUpdated, s\<lparr>hardware_fault_active := True\<rparr>))"

definition safety_clear_estop :: "SafetyState \<Rightarrow> SafetyStateResult \<times> SafetyState" where
  "safety_clear_estop s =
     (if \<not> estop_active s then (SafetyAlreadyClear, s) else (SafetyUpdated, s\<lparr>estop_active := False\<rparr>))"

definition safety_clear_hardware_fault :: "SafetyState \<Rightarrow> SafetyStateResult \<times> SafetyState" where
  "safety_clear_hardware_fault s =
     (if \<not> hardware_fault_active s then (SafetyAlreadyClear, s) else (SafetyUpdated, s\<lparr>hardware_fault_active := False\<rparr>))"

subsection \<open>The watchdog\<close>

record MotionWatchdogPi =
  pi_timeout :: int
  pi_last_refresh :: int
  pi_armed :: bool

definition pi_watchdog_new :: "int \<Rightarrow> MotionWatchdogPi" where
  "pi_watchdog_new timeout = \<lparr>pi_timeout = timeout, pi_last_refresh = 0, pi_armed = False\<rparr>"

definition pi_watchdog_refresh :: "int \<Rightarrow> MotionWatchdogPi \<Rightarrow> MotionWatchdogPi" where
  "pi_watchdog_refresh now w = w\<lparr>pi_last_refresh := now, pi_armed := True\<rparr>"

definition pi_watchdog_disarm :: "MotionWatchdogPi \<Rightarrow> MotionWatchdogPi" where
  "pi_watchdog_disarm w = w\<lparr>pi_armed := False\<rparr>"

definition pi_watchdog_expired :: "int \<Rightarrow> MotionWatchdogPi \<Rightarrow> bool" where
  "pi_watchdog_expired now w \<longleftrightarrow> (if \<not> pi_armed w then False else now - pi_last_refresh w \<ge> pi_timeout w)"

subsection \<open>Kinematics\<close>

record MotionCommand =
  linear_velocity_mps :: double
  angular_velocity_radps :: double

record WheelVelocities =
  left_mps :: double
  right_mps :: double

text \<open>The constructor throws for a track of zero.\<close>

definition kinematics_new :: "(real \<Rightarrow> double) \<Rightarrow> u16 \<Rightarrow> double option" where
  "kinematics_new rnd track_width_mm =
     (let track_width_m = double_divide rnd (Finite (real (unat track_width_mm))) 1000
      in if track_width_mm = 0 then None else Some track_width_m)"

definition to_wheel_velocities :: "(real \<Rightarrow> double) \<Rightarrow> double \<Rightarrow> MotionCommand \<Rightarrow> WheelVelocities" where
  "to_wheel_velocities rnd track_width_m command =
     (let half_track = double_divide rnd track_width_m 2
      in \<lparr>left_mps = double_add rnd (linear_velocity_mps command)
            (double_minus (double_mult rnd (angular_velocity_radps command) half_track)),
          right_mps = double_add rnd (linear_velocity_mps command)
            (double_mult rnd (angular_velocity_radps command) half_track)\<rparr>)"

subsection \<open>The motor controller\<close>

datatype MotorCommandResult = MotorSuccess | MotorFailed

datatype motor_call = MotorStop | MotorSet WheelVelocities

record MotorController =
  motor_answers :: "nat \<Rightarrow> MotorCommandResult"
  motor_log :: "(motor_call \<times> MotorCommandResult) list"

definition motor_command :: "motor_call \<Rightarrow> MotorController \<Rightarrow> MotorCommandResult \<times> MotorController" where
  "motor_command call m =
     (let result = motor_answers m (length (motor_log m))
      in (result, m\<lparr>motor_log := motor_log m @ [(call, result)]\<rparr>))"

subsection \<open>The coordinator\<close>

datatype ControlTransitionResult =
  TransitionAccepted | TransitionAlreadyActive | TransitionAlreadyReleased | TransitionMotorStopFailed | InternalStateError
datatype MotionTickResult = NoAction | TimeoutStopped | TickMotorStopFailed
datatype SafetyActionResult = ActionUpdated | ActionAlreadyActive | ActionAlreadyClear | ActionMotorStopFailed
datatype MotionCommandResult = MotionAccepted | RejectedWrongAuthority | RejectedUnsafe | InvalidCommand | MotorCommandFailed

record MotionCoordinator =
  co_authority :: ControlAuthority
  co_safety :: SafetyState
  co_motor :: MotorController
  co_watchdog :: MotionWatchdogPi
  co_track_width_m :: double

text \<open>Calls that several operations make.\<close>

definition co_stop :: "MotionCoordinator \<Rightarrow> MotorCommandResult \<times> MotionCoordinator" where
  "co_stop c = (let (result, m) = motor_command MotorStop (co_motor c) in (result, c\<lparr>co_motor := m\<rparr>))"

definition co_fault :: "MotionCoordinator \<Rightarrow> MotionCoordinator" where
  "co_fault c = c\<lparr>co_safety := snd (safety_report_hardware_fault (co_safety c))\<rparr>"

definition co_disarm :: "MotionCoordinator \<Rightarrow> MotionCoordinator" where
  "co_disarm c = c\<lparr>co_watchdog := pi_watchdog_disarm (co_watchdog c)\<rparr>"

definition request_manual_control :: "MotionCoordinator \<Rightarrow> ControlTransitionResult \<times> MotionCoordinator" where
  "request_manual_control c =
     (let (result, a) = request_manual (co_authority c);
          c = c\<lparr>co_authority := a\<rparr>
      in case result of
           RequestAccepted \<Rightarrow> (TransitionAccepted, c)
         | RequestAlreadyActive \<Rightarrow> (TransitionAlreadyActive, c)
         | _ \<Rightarrow> (InternalStateError, c))"

definition stop_and_release_control :: "MotionCoordinator \<Rightarrow> ControlTransitionResult \<times> MotionCoordinator" where
  "stop_and_release_control c =
     (let (stopped, c) = co_stop c
      in if stopped \<noteq> MotorSuccess then (TransitionMotorStopFailed, co_fault c)
         else
           let c = co_disarm c;
               (result, a) = request_release (co_authority c);
               c = c\<lparr>co_authority := a\<rparr>
           in case result of
                RequestAccepted \<Rightarrow> (TransitionAccepted, c)
              | RequestAlreadyReleased \<Rightarrow> (TransitionAlreadyReleased, c)
              | _ \<Rightarrow> (InternalStateError, c))"

text \<open>The last part of \<^verbatim>\<open>request_autonomous_control\<close>.\<close>

definition take_autonomous :: "MotionCoordinator \<Rightarrow> ControlTransitionResult \<times> MotionCoordinator" where
  "take_autonomous c =
     (let (result, a) = request_autonomous (co_authority c);
          c = c\<lparr>co_authority := a\<rparr>
      in case result of
           RequestAccepted \<Rightarrow> (TransitionAccepted, c)
         | RequestAlreadyActive \<Rightarrow> (TransitionAlreadyActive, c)
         | _ \<Rightarrow> (InternalStateError, c))"

definition request_autonomous_control :: "MotionCoordinator \<Rightarrow> ControlTransitionResult \<times> MotionCoordinator" where
  "request_autonomous_control c =
     (if co_authority c = Manual then
        let (stopped, c) = co_stop c
        in if stopped \<noteq> MotorSuccess then (TransitionMotorStopFailed, co_fault c)
           else
             let c = co_disarm c;
                 (result, a) = request_release (co_authority c);
                 c = c\<lparr>co_authority := a\<rparr>
             in if result \<noteq> RequestAccepted then (InternalStateError, c) else take_autonomous c
      else take_autonomous c)"

definition LINEAR_STOP_EPSILON_MPS :: real where "LINEAR_STOP_EPSILON_MPS = 1 / 100000"
definition ANGULAR_STOP_EPSILON_RADPS :: real where "ANGULAR_STOP_EPSILON_RADPS = 1 / 100000"

definition request_motion ::
  "(real \<Rightarrow> double) \<Rightarrow> ControlAuthority \<Rightarrow> MotionCommand \<Rightarrow> int \<Rightarrow> MotionCoordinator \<Rightarrow> MotionCommandResult \<times> MotionCoordinator" where
  "request_motion rnd requester command now c =
     (if requester = AuthorityNone \<or> requester \<noteq> co_authority c then (RejectedWrongAuthority, c)
      else if \<not> isfinite (angular_velocity_radps command) \<or> \<not> isfinite (linear_velocity_mps command) then (InvalidCommand, c)
      else if double_below (linear_velocity_mps command) LINEAR_STOP_EPSILON_MPS \<and>
              double_below (angular_velocity_radps command) ANGULAR_STOP_EPSILON_RADPS then
        let (stopped, c) = co_stop c
        in if stopped = MotorSuccess then (MotionAccepted, co_disarm c) else (MotorCommandFailed, co_fault c)
      else if \<not> safe (co_safety c) then (RejectedUnsafe, c)
      else
        let wheel_velocities = to_wheel_velocities rnd (co_track_width_m c) command
        in if \<not> isfinite (left_mps wheel_velocities) \<or> \<not> isfinite (right_mps wheel_velocities) then (InvalidCommand, c)
           else
             let (result, m) = motor_command (MotorSet wheel_velocities) (co_motor c);
                 c = c\<lparr>co_motor := m\<rparr>
             in if result = MotorSuccess
                then (MotionAccepted, c\<lparr>co_watchdog := pi_watchdog_refresh now (co_watchdog c)\<rparr>)
                else (MotorCommandFailed, snd (co_stop (co_fault c))))"

definition coordinator_tick :: "int \<Rightarrow> MotionCoordinator \<Rightarrow> MotionTickResult \<times> MotionCoordinator" where
  "coordinator_tick now c =
     (if \<not> pi_watchdog_expired now (co_watchdog c) then (NoAction, c)
      else
        let (stopped, c) = co_stop (co_disarm c)
        in if stopped = MotorSuccess then (TimeoutStopped, c) else (TickMotorStopFailed, co_fault c))"

definition report_estop :: "MotionCoordinator \<Rightarrow> SafetyActionResult \<times> MotionCoordinator" where
  "report_estop c =
     (let (state_result, s) = safety_report_estop (co_safety c);
          (stopped, c) = co_stop (co_disarm (c\<lparr>co_safety := s\<rparr>))
      in if stopped \<noteq> MotorSuccess then (ActionMotorStopFailed, co_fault c)
         else if state_result = SafetyUpdated then (ActionUpdated, c) else (ActionAlreadyActive, c))"

definition report_hardware_fault :: "MotionCoordinator \<Rightarrow> SafetyActionResult \<times> MotionCoordinator" where
  "report_hardware_fault c =
     (let (state_result, s) = safety_report_hardware_fault (co_safety c);
          (stopped, c) = co_stop (co_disarm (c\<lparr>co_safety := s\<rparr>))
      in if stopped \<noteq> MotorSuccess then (ActionMotorStopFailed, c)
         else if state_result = SafetyUpdated then (ActionUpdated, c) else (ActionAlreadyActive, c))"

definition clear_estop :: "MotionCoordinator \<Rightarrow> SafetyActionResult \<times> MotionCoordinator" where
  "clear_estop c =
     (if \<not> estop_active (co_safety c) then (ActionAlreadyClear, c)
      else
        let (stopped, c) = co_stop (co_disarm c)
        in if stopped \<noteq> MotorSuccess then (ActionMotorStopFailed, co_fault c)
           else (ActionUpdated, c\<lparr>co_safety := snd (safety_clear_estop (co_safety c))\<rparr>))"

definition clear_hardware_fault :: "MotionCoordinator \<Rightarrow> SafetyActionResult \<times> MotionCoordinator" where
  "clear_hardware_fault c =
     (if \<not> hardware_fault_active (co_safety c) then (ActionAlreadyClear, c)
      else
        let (stopped, c) = co_stop (co_disarm c)
        in if stopped \<noteq> MotorSuccess then (ActionMotorStopFailed, c)
           else (ActionUpdated, c\<lparr>co_safety := snd (safety_clear_hardware_fault (co_safety c))\<rparr>))"

subsection \<open>The conversion to protocol velocities\<close>

datatype conversion_error = InvalidVelocity | OutOfRange

text \<open>\<open>Inl\<close> is a failure, which leaves the output unchanged.\<close>

definition convert_velocity :: "(real \<Rightarrow> double) \<Rightarrow> double \<Rightarrow> conversion_error + i16" where
  "convert_velocity rnd velocity_mps =
     (if \<not> isfinite velocity_mps then Inl InvalidVelocity
      else case double_mult rnd velocity_mps (Finite 1000) of
             Finite scaled \<Rightarrow>
               let rounded = lround scaled
               in if rounded < -32768 \<or> rounded > 32767 then Inl OutOfRange else Inr (word_of_int rounded)
           | _ \<Rightarrow> Inl OutOfRange)"

definition to_wheel_velocity_command :: "(real \<Rightarrow> double) \<Rightarrow> WheelVelocities \<Rightarrow> conversion_error + WheelVelocityCommand" where
  "to_wheel_velocity_command rnd velocities =
     (case convert_velocity rnd (left_mps velocities) of
        Inl e \<Rightarrow> Inl e
      | Inr left_mm_s \<Rightarrow>
          (case convert_velocity rnd (right_mps velocities) of
             Inl e \<Rightarrow> Inl e
           | Inr right_mm_s \<Rightarrow> Inr \<lparr>left_velocity_mm_s = left_mm_s, right_velocity_mm_s = right_mm_s\<rparr>))"

subsection \<open>Supervised motion\<close>

text \<open>
  What the log of the motor controller says: the wheels may move from a velocity command on,
  whatever its answer, until a stop succeeds.
\<close>

fun moves_after :: "motor_call \<times> MotorCommandResult \<Rightarrow> bool \<Rightarrow> bool" where
  "moves_after (MotorSet _, _) moving \<longleftrightarrow> True"
| "moves_after (MotorStop, MotorSuccess) moving \<longleftrightarrow> False"
| "moves_after (MotorStop, MotorFailed) moving \<longleftrightarrow> moving"

definition may_move :: "MotionCoordinator \<Rightarrow> bool" where
  "may_move c \<longleftrightarrow> fold moves_after (motor_log (co_motor c)) False"

abbreviation co_faulty :: "MotionCoordinator \<Rightarrow> bool" where
  "co_faulty c \<equiv> hardware_fault_active (co_safety c)"

definition co_inv :: "MotionCoordinator \<Rightarrow> bool" where
  "co_inv c \<longleftrightarrow> (may_move c \<and> \<not> co_faulty c \<longrightarrow>
     pi_armed (co_watchdog c) \<and> co_authority c \<noteq> AuthorityNone \<and> \<not> estop_active (co_safety c))"

text \<open>A stop that fails, among the calls made since a state, leaves the fault.\<close>

definition calls_since :: "MotionCoordinator \<Rightarrow> MotionCoordinator \<Rightarrow> (motor_call \<times> MotorCommandResult) list" where
  "calls_since c c' = drop (length (motor_log (co_motor c))) (motor_log (co_motor c'))"

text \<open>The constructor's state, and the operations as steps.\<close>

definition co_started :: "(real \<Rightarrow> double) \<Rightarrow> MotionCoordinator \<Rightarrow> bool" where
  "co_started rnd c \<longleftrightarrow> (\<exists>answers timeout track mm. kinematics_new rnd mm = Some track \<and>
     c = \<lparr>co_authority = AuthorityNone, co_safety = \<lparr>estop_active = False, hardware_fault_active = False\<rparr>,
          co_motor = \<lparr>motor_answers = answers, motor_log = []\<rparr>, co_watchdog = pi_watchdog_new timeout, co_track_width_m = track\<rparr>)"

inductive co_step :: "(real \<Rightarrow> double) \<Rightarrow> MotionCoordinator \<Rightarrow> MotionCoordinator \<Rightarrow> bool" for rnd where
  manual_requested: "co_step rnd c (snd (request_manual_control c))"
| autonomous_requested: "co_step rnd c (snd (request_autonomous_control c))"
| released: "co_step rnd c (snd (stop_and_release_control c))"
| motion_requested: "co_step rnd c (snd (request_motion rnd requester command now c))"
| ticked: "co_step rnd c (snd (coordinator_tick now c))"
| estop_reported: "co_step rnd c (snd (report_estop c))"
| fault_reported: "co_step rnd c (snd (report_hardware_fault c))"
| estop_cleared: "co_step rnd c (snd (clear_estop c))"
| fault_cleared: "co_step rnd c (snd (clear_hardware_fault c))"

text \<open>A motor call is one entry of the log.\<close>

lemma co_stop_cases:
  obtains "co_stop c = (MotorSuccess, c\<lparr>co_motor := (co_motor c)\<lparr>motor_log := motor_log (co_motor c) @ [(MotorStop, MotorSuccess)]\<rparr>\<rparr>)"
    | "co_stop c = (MotorFailed, c\<lparr>co_motor := (co_motor c)\<lparr>motor_log := motor_log (co_motor c) @ [(MotorStop, MotorFailed)]\<rparr>\<rparr>)"
  by (cases "motor_answers (co_motor c) (length (motor_log (co_motor c)))") (simp_all add: co_stop_def motor_command_def)

lemma co_faulty_fault [simp]:
  "co_faulty (co_fault c)" "may_move (co_fault c) = may_move c" "motor_log (co_motor (co_fault c)) = motor_log (co_motor c)"
  "co_watchdog (co_fault c) = co_watchdog c" "co_authority (co_fault c) = co_authority c"
  by (simp_all add: co_fault_def safety_report_hardware_fault_def may_move_def)

lemma co_disarmed [simp]:
  "may_move (co_disarm c) = may_move c" "co_motor (co_disarm c) = co_motor c" "co_safety (co_disarm c) = co_safety c"
  "co_authority (co_disarm c) = co_authority c"
  by (simp_all add: co_disarm_def may_move_def)

text \<open>What every operation does.\<close>

definition co_ok :: "MotionCoordinator \<Rightarrow> MotionCoordinator \<Rightarrow> bool" where
  "co_ok c c' \<longleftrightarrow> co_inv c' \<and> (\<exists>calls. motor_log (co_motor c') = motor_log (co_motor c) @ calls \<and>
     ((MotorStop, MotorFailed) \<in> set calls \<longrightarrow> co_faulty c'))"

lemma co_ok_idle: "co_inv c \<Longrightarrow> co_ok c c"
  by (simp add: co_ok_def)

lemma co_ok_manual: "co_inv c \<Longrightarrow> co_ok c (snd (request_manual_control c))"
  by (auto simp: co_ok_def co_inv_def may_move_def request_manual_control_def request_manual_def)

lemma co_ok_take: "\<not> may_move c \<or> co_inv c \<Longrightarrow> co_ok c (snd (take_autonomous c))"
  by (auto simp: co_ok_def co_inv_def may_move_def take_autonomous_def request_autonomous_def)

lemma co_ok_release: "co_inv c \<Longrightarrow> co_ok c (snd (stop_and_release_control c))"
  by (cases rule: co_stop_cases [of c])
     (auto simp: stop_and_release_control_def co_ok_def co_inv_def request_release_def may_move_def co_disarm_def Let_def)

lemma co_ok_autonomous:
  assumes "co_inv c"
  shows "co_ok c (snd (request_autonomous_control c))"
proof (cases "co_authority c = Manual")
  case True
  then show ?thesis
    by (cases rule: co_stop_cases [of c])
       (auto simp: request_autonomous_control_def take_autonomous_def request_autonomous_def co_ok_def co_inv_def request_release_def
          may_move_def co_disarm_def Let_def)
qed (use assms co_ok_take in \<open>simp add: request_autonomous_control_def\<close>)

lemma co_ok_tick: "co_inv c \<Longrightarrow> co_ok c (snd (coordinator_tick now c))"
  by (cases rule: co_stop_cases [of "co_disarm c"])
     (auto simp: coordinator_tick_def co_ok_idle, auto simp: co_ok_def co_inv_def may_move_def)

lemma co_ok_estop: "co_inv c \<Longrightarrow> co_ok c (snd (report_estop c))"
  by (cases rule: co_stop_cases [of "co_disarm (c\<lparr>co_safety := snd (safety_report_estop (co_safety c))\<rparr>)"])
     (auto simp: report_estop_def co_ok_def co_inv_def may_move_def case_prod_beta Let_def)

lemma co_ok_fault: "co_inv c \<Longrightarrow> co_ok c (snd (report_hardware_fault c))"
  by (cases rule: co_stop_cases [of "co_disarm (c\<lparr>co_safety := snd (safety_report_hardware_fault (co_safety c))\<rparr>)"])
     (auto simp: report_hardware_fault_def safety_report_hardware_fault_def co_ok_def co_inv_def may_move_def case_prod_beta Let_def)

lemma co_ok_clear_estop: "co_inv c \<Longrightarrow> co_ok c (snd (clear_estop c))"
  by (cases rule: co_stop_cases [of "co_disarm c"])
     (auto simp: clear_estop_def co_ok_idle, auto simp: co_ok_def co_inv_def may_move_def)

lemma co_ok_clear_fault: "co_inv c \<Longrightarrow> co_ok c (snd (clear_hardware_fault c))"
  by (cases rule: co_stop_cases [of "co_disarm c"])
     (auto simp: clear_hardware_fault_def co_ok_idle, auto simp: co_ok_def co_inv_def may_move_def)

text \<open>A motion request sets velocities in one case only.\<close>

definition motion_admitted :: "(real \<Rightarrow> double) \<Rightarrow> ControlAuthority \<Rightarrow> MotionCommand \<Rightarrow> MotionCoordinator \<Rightarrow> bool" where
  "motion_admitted rnd requester command c \<longleftrightarrow> requester \<noteq> AuthorityNone \<and> requester = co_authority c \<and>
     isfinite (angular_velocity_radps command) \<and> isfinite (linear_velocity_mps command) \<and>
     \<not> (double_below (linear_velocity_mps command) LINEAR_STOP_EPSILON_MPS \<and>
        double_below (angular_velocity_radps command) ANGULAR_STOP_EPSILON_RADPS) \<and>
     safe (co_safety c) \<and>
     isfinite (left_mps (to_wheel_velocities rnd (co_track_width_m c) command)) \<and>
     isfinite (right_mps (to_wheel_velocities rnd (co_track_width_m c) command))"

lemma request_motion_cases:
  obtains (rejected) "snd (request_motion rnd requester command now c) = c"
    | (stopped) "snd (request_motion rnd requester command now c) = co_disarm (snd (co_stop c))" "fst (co_stop c) = MotorSuccess"
      "co_authority c \<noteq> AuthorityNone"
    | (not_stopped) "snd (request_motion rnd requester command now c) = co_fault (snd (co_stop c))"
    | (moved) m where "motion_admitted rnd requester command c"
      "motor_command (MotorSet (to_wheel_velocities rnd (co_track_width_m c) command)) (co_motor c) = (MotorSuccess, m)"
      "snd (request_motion rnd requester command now c) =
         c\<lparr>co_motor := m, co_watchdog := pi_watchdog_refresh now (co_watchdog c)\<rparr>"
    | (not_moved) m where "motion_admitted rnd requester command c"
      "motor_command (MotorSet (to_wheel_velocities rnd (co_track_width_m c) command)) (co_motor c) = (MotorFailed, m)"
      "snd (request_motion rnd requester command now c) = snd (co_stop (co_fault (c\<lparr>co_motor := m\<rparr>)))"
proof (cases "motion_admitted rnd requester command c")
  case True
  obtain r m where m: "motor_command (MotorSet (to_wheel_velocities rnd (co_track_width_m c) command)) (co_motor c) = (r, m)" by fastforce
  have "snd (request_motion rnd requester command now c) =
      (if r = MotorSuccess then c\<lparr>co_motor := m, co_watchdog := pi_watchdog_refresh now (co_watchdog c)\<rparr>
       else snd (co_stop (co_fault (c\<lparr>co_motor := m\<rparr>))))"
    using True m by (auto simp: request_motion_def motion_admitted_def Let_def)
  with True m moved not_moved show thesis by (cases r) simp_all
next
  case False
  then have "snd (request_motion rnd requester command now c) = c \<or>
      snd (request_motion rnd requester command now c) = co_disarm (snd (co_stop c)) \<and> fst (co_stop c) = MotorSuccess \<and> co_authority c \<noteq> AuthorityNone \<or>
      snd (request_motion rnd requester command now c) = co_fault (snd (co_stop c))"
    by (auto simp: request_motion_def motion_admitted_def Let_def split: prod.split)
  with rejected stopped not_stopped show thesis by blast
qed

lemma motor_command_log:
  "motor_command call m = (r, m') \<Longrightarrow> m' = m\<lparr>motor_log := motor_log m @ [(call, r)]\<rparr>"
  by (auto simp: motor_command_def Let_def)

lemma co_ok_motion:
  assumes "co_inv c"
  shows "co_ok c (snd (request_motion rnd requester command now c))"
proof (cases rule: request_motion_cases [of rnd requester command now c])
  case rejected
  with assms show ?thesis by (simp add: co_ok_idle)
next
  case stopped
  then show ?thesis by (cases rule: co_stop_cases [of c]) (simp_all add: co_ok_def co_inv_def may_move_def)
next
  case not_stopped
  then show ?thesis by (cases rule: co_stop_cases [of c]) (simp_all add: co_ok_def co_inv_def may_move_def)
next
  case (moved m)
  then show ?thesis using motor_command_log [OF moved(2)]
    by (auto simp: co_ok_def co_inv_def motion_admitted_def safe_def pi_watchdog_refresh_def)
next
  case (not_moved m)
  let ?c = "co_fault (c\<lparr>co_motor := m\<rparr>)"
  from motor_command_log [OF not_moved(2)] have log: "motor_log (co_motor ?c) =
      motor_log (co_motor c) @ [(MotorSet (to_wheel_velocities rnd (co_track_width_m c) command), MotorFailed)]" by simp
  have "co_faulty ?c" by simp
  then show ?thesis unfolding not_moved(3) using log
    by (cases rule: co_stop_cases [of ?c]) (auto simp: co_ok_def co_inv_def)
qed

lemma co_step_ok: "co_step rnd c c' \<Longrightarrow> co_inv c \<Longrightarrow> co_ok c c'"
  by (induction rule: co_step.induct)
     (auto intro: co_ok_manual co_ok_autonomous co_ok_release co_ok_motion co_ok_tick co_ok_estop co_ok_fault co_ok_clear_estop co_ok_clear_fault)

interpretation coordination: inductive_invariant "co_started rnd" "co_step rnd" co_inv for rnd
proof unfold_locales
  show "co_started rnd c \<Longrightarrow> co_inv c" for c by (auto simp: co_started_def co_inv_def may_move_def)
  show "co_inv c \<Longrightarrow> co_step rnd c c' \<Longrightarrow> co_inv c'" for c c' using co_step_ok by (auto simp: co_ok_def)
qed

lemma tick_fresh:
  assumes "co_inv c" and "c' = snd (coordinator_tick now c)" and "may_move c'" and "\<not> co_faulty c'"
  shows "now - pi_last_refresh (co_watchdog c') < pi_timeout (co_watchdog c')"
proof (cases "pi_watchdog_expired now (co_watchdog c)")
  case True
  with assms(2-4) show ?thesis by (cases rule: co_stop_cases [of "co_disarm c"]) (auto simp: coordinator_tick_def may_move_def)
next
  case False
  with assms have "c' = c" "pi_armed (co_watchdog c)" by (auto simp: coordinator_tick_def co_inv_def)
  with False show ?thesis by (simp add: pi_watchdog_expired_def)
qed

lemma motion_calls:
  assumes "(MotorSet w, r) \<in> set (calls_since c (snd (request_motion rnd requester command now c)))"
  shows "motion_admitted rnd requester command c" and "w = to_wheel_velocities rnd (co_track_width_m c) command"
proof -
  have "motion_admitted rnd requester command c \<and> w = to_wheel_velocities rnd (co_track_width_m c) command"
  proof (cases rule: request_motion_cases [of rnd requester command now c])
    case stopped
    with assms show ?thesis by (cases rule: co_stop_cases [of c]) (auto simp: calls_since_def)
  next
    case not_stopped
    with assms show ?thesis by (cases rule: co_stop_cases [of c]) (auto simp: calls_since_def)
  next
    case (moved m)
    with assms motor_command_log [OF moved(2)] show ?thesis by (auto simp: calls_since_def)
  next
    case (not_moved m)
    with assms motor_command_log [OF not_moved(2)] show ?thesis
      by (cases rule: co_stop_cases [of "co_fault (c\<lparr>co_motor := m\<rparr>)"]) (auto simp: calls_since_def)
  qed (use assms in \<open>simp add: calls_since_def\<close>)
  then show "motion_admitted rnd requester command c" "w = to_wheel_velocities rnd (co_track_width_m c) command" by blast+
qed

subsection \<open>Conversion and kinematics\<close>

lemma lround_near: "\<bar>of_int (lround x) - x\<bar> \<le> 1 / 2"
proof -
  have floor: "\<bar>of_int \<lfloor>y + 1 / 2\<rfloor> - y\<bar> \<le> 1 / 2" for y :: real
    using of_int_floor_le [of "y + 1 / 2"] real_of_int_floor_add_one_gt [of "y + 1 / 2"] by (simp only: abs_le_iff) linarith
  show ?thesis using floor [of x] floor [of "- x"] unfolding lround_def by (simp add: abs_minus_commute add.commute split: if_splits)
qed

lemma convert_velocity_exact:
  "case convert_velocity rnd v of
     Inl InvalidVelocity \<Rightarrow> \<not> isfinite v
   | Inl OutOfRange \<Rightarrow> isfinite v \<and> (\<forall>x. double_mult rnd v (Finite 1000) = Finite x \<longrightarrow> lround x < -32768 \<or> 32767 < lround x)
   | Inr w \<Rightarrow> \<exists>x. double_mult rnd v (Finite 1000) = Finite x \<and> sint w = lround x \<and> \<bar>of_int (sint w) - x\<bar> \<le> 1 / 2"
proof (cases v)
  case (Finite y)
  have "sint (word_of_int k :: i16) = k" if "-32768 \<le> k" "k \<le> 32767" for k
    using that by (simp add: sint_sbintrunc') (intro signed_take_bit_int_eq_self; simp)
  with Finite show ?thesis
    using lround_near by (auto simp: convert_velocity_def Let_def not_less split: double.splits)
qed (simp_all add: convert_velocity_def)

text \<open>A command is given exactly when both wheels convert; the left one is checked first.\<close>

lemma wheel_command_exact:
  "to_wheel_velocity_command rnd v = Inr c \<longleftrightarrow>
     convert_velocity rnd (left_mps v) = Inr (left_velocity_mm_s c) \<and> convert_velocity rnd (right_mps v) = Inr (right_velocity_mm_s c)"
  "to_wheel_velocity_command rnd v = Inl e \<longleftrightarrow>
     convert_velocity rnd (left_mps v) = Inl e \<or>
     (\<exists>w. convert_velocity rnd (left_mps v) = Inr w) \<and> convert_velocity rnd (right_mps v) = Inl e"
  by (cases c; auto simp: to_wheel_velocity_command_def split: sum.splits)+

text \<open>Without rounding, the wheels' mean is the linear velocity and their difference the angular one times the track.\<close>

lemma kinematics_exact:
  assumes "kinematics_new Finite mm = Some track" and "command = \<lparr>linear_velocity_mps = Finite v, angular_velocity_radps = Finite a\<rparr>"
    and "to_wheel_velocities Finite track command = \<lparr>left_mps = Finite l, right_mps = Finite r\<rparr>"
  shows "(l + r) / 2 = v" and "r - l = a * (real (unat mm) / 1000)" and "mm \<noteq> 0"
  using assms by (auto simp: kinematics_new_def to_wheel_velocities_def Let_def split: if_splits)

subsection \<open>Properties\<close>

definition sample_coordinator :: MotionCoordinator where
  "sample_coordinator =
     \<lparr>co_authority = AuthorityNone, co_safety = \<lparr>estop_active = False, hardware_fault_active = False\<rparr>,
      co_motor = \<lparr>motor_answers = (\<lambda>n. if n = 1 then MotorFailed else MotorSuccess), motor_log = []\<rparr>,
      co_watchdog = pi_watchdog_new (milliseconds 1500), co_track_width_m = Finite (120 / 1000)\<rparr>"

definition sample_moving :: MotionCoordinator where
  "sample_moving = snd (request_motion Finite Manual \<lparr>linear_velocity_mps = Finite 1, angular_velocity_radps = Finite 0\<rparr> 0
     (snd (request_manual_control sample_coordinator)))"

lemma sample_coordinator_reachable: "reachable (co_started Finite) (co_step Finite) sample_moving"
proof -
  have "kinematics_new Finite 120 = Some (Finite (120 / 1000))" by (simp add: kinematics_new_def)
  then have "co_started Finite sample_coordinator" by (auto simp: co_started_def sample_coordinator_def)
  then have "reachable (co_started Finite) (co_step Finite) sample_coordinator" by (rule reachable_init)
  then have "reachable (co_started Finite) (co_step Finite) (snd (request_manual_control sample_coordinator))"
    by (rule reachable_step) (rule co_step.manual_requested)
  then show ?thesis unfolding sample_moving_def by (rule reachable_step) (rule co_step.motion_requested)
qed

text \<open>
  C12: Commanded motion is supervised. Whatever requests, reports, ticks and answers of the motor
  controller came before, and whatever the clock read: as long as no hardware fault is
  recorded, wheels that may be moving (a velocity command since the last successful stop) imply an
  armed watchdog, a control authority and no emergency stop; after a tick, that the command is
  younger than the watchdog's limit. A stop that fails always records a hardware fault. A
  request sets velocities only for the present authority, in a safe state, with finite numbers,
  and exactly those the kinematics gives.
\<close>

theorem coordinator_supervised:
  assumes "reachable (co_started rnd) (co_step rnd) c"
  shows "(may_move c \<and> \<not> hardware_fault_active (co_safety c) \<longrightarrow>
      pi_armed (co_watchdog c) \<and> co_authority c \<noteq> AuthorityNone \<and> \<not> estop_active (co_safety c)) \<and>
    (let c' = snd (coordinator_tick now c) in may_move c' \<and> \<not> hardware_fault_active (co_safety c') \<longrightarrow>
      now - pi_last_refresh (co_watchdog c') < pi_timeout (co_watchdog c')) \<and>
    (co_step rnd c d \<and> (MotorStop, MotorFailed) \<in> set (calls_since c d) \<longrightarrow> hardware_fault_active (co_safety d)) \<and>
    ((MotorSet w, r) \<in> set (calls_since c (snd (request_motion rnd requester command now c))) \<longrightarrow>
      requester \<noteq> AuthorityNone \<and> requester = co_authority c \<and> safe (co_safety c) \<and>
      isfinite (left_mps w) \<and> isfinite (right_mps w) \<and> w = to_wheel_velocities rnd (co_track_width_m c) command)"
proof (intro conjI)
  have inv: "co_inv c" by (rule coordination.inv_reachable [OF assms])
  then show "may_move c \<and> \<not> hardware_fault_active (co_safety c) \<longrightarrow>
      pi_armed (co_watchdog c) \<and> co_authority c \<noteq> AuthorityNone \<and> \<not> estop_active (co_safety c)" by (simp add: co_inv_def)
  show "let c' = snd (coordinator_tick now c) in may_move c' \<and> \<not> hardware_fault_active (co_safety c') \<longrightarrow>
      now - pi_last_refresh (co_watchdog c') < pi_timeout (co_watchdog c')"
    using tick_fresh [OF inv refl] by (simp add: Let_def)
  show "co_step rnd c d \<and> (MotorStop, MotorFailed) \<in> set (calls_since c d) \<longrightarrow> hardware_fault_active (co_safety d)"
    using co_step_ok [OF _ inv] by (fastforce simp: co_ok_def calls_since_def)
  show "(MotorSet w, r) \<in> set (calls_since c (snd (request_motion rnd requester command now c))) \<longrightarrow>
      requester \<noteq> AuthorityNone \<and> requester = co_authority c \<and> safe (co_safety c) \<and>
      isfinite (left_mps w) \<and> isfinite (right_mps w) \<and> w = to_wheel_velocities rnd (co_track_width_m c) command"
    using motion_calls unfolding motion_admitted_def by blast
qed

lemma coordinator_supervised_witness:
  "may_move sample_moving \<and> pi_armed (co_watchdog sample_moving) \<and> co_authority sample_moving \<noteq> AuthorityNone \<and>
   (MotorStop, MotorFailed) \<in> set (calls_since sample_moving (snd (report_estop sample_moving))) \<and>
   hardware_fault_active (co_safety (snd (report_estop sample_moving)))"
proof -
  have moving: "sample_moving =
     \<lparr>co_authority = Manual, co_safety = \<lparr>estop_active = False, hardware_fault_active = False\<rparr>,
      co_motor = \<lparr>motor_answers = (\<lambda>n. if n = 1 then MotorFailed else MotorSuccess),
        motor_log = [(MotorSet \<lparr>left_mps = Finite 1, right_mps = Finite 1\<rparr>, MotorSuccess)]\<rparr>,
      co_watchdog = \<lparr>pi_timeout = milliseconds 1500, pi_last_refresh = 0, pi_armed = True\<rparr>, co_track_width_m = Finite (120 / 1000)\<rparr>"
    by (simp add: sample_moving_def sample_coordinator_def request_manual_control_def request_manual_def request_motion_def
        to_wheel_velocities_def motor_command_def safe_def pi_watchdog_refresh_def pi_watchdog_new_def
        LINEAR_STOP_EPSILON_MPS_def ANGULAR_STOP_EPSILON_RADPS_def Let_def)
  have "may_move sample_moving" "\<not> hardware_fault_active (co_safety sample_moving)" by (simp_all add: moving may_move_def)
  moreover have "(MotorStop, MotorFailed) \<in> set (calls_since sample_moving (snd (report_estop sample_moving)))"
    by (simp add: moving report_estop_def safety_report_estop_def co_stop_def motor_command_def calls_since_def Let_def)
  ultimately show ?thesis
    using coordinator_supervised [OF sample_coordinator_reachable, where d = "snd (report_estop sample_moving)"] co_step.estop_reported by blast
qed

end
