(* ===== verification/Spec2Isabelle.thy ===== *)
theory Spec2Isabelle
  imports Crc16_Reference Stream_Delivery Lifecycle_Properties Motion_Frames Motion_Guard Feedforward Motion_Stop
    Speed_Estimator Hal_Uart_Line Uart_Receiver Uart_Transmitter Link_Manager Manager_Correctness
    Firmware_Progress Session_Progress Manual_Program Motion_Coordination
begin

text \<open>
  \<^bold>\<open>A verification library for the firmware of the indoor service robot and its client.\<close>

  \<^bold>\<open>The program.\<close> A Raspberry Pi commands a differential drive through a serial line. The C
  code is the firmware of the STM32 on the other end and the protocol library both sides
  share; the client on the Raspberry Pi is C++. In the firmware bytes come in by DMA; the receive interrupt copies them into a ring buffer; the
  main loop polls the buffer, decodes frames, and gives each frame to the link manager
  (synchronization, heartbeats) or to the motion manager (session commands, wheel
  velocities). The motion manager lets a coordinator decide about commands with reliable
  delivery, stops the wheels and waits for the encoders to stand before a session starts or
  ends, and passes the velocities of the active session through a feed-forward calibration
  to a guard with a watchdog, which calls the motor driver. The driver writes PWM compare
  registers and direction pins through its port. The client opens the serial port,
  synchronizes with a random token, sends heartbeats, starts a session for a fresh wheel
  command, repeats the command while it stays fresh, ends the session when it does not, and
  begins again half a second after any failure. A manual control program on the Raspberry Pi
  reads a radio receiver and gives the client the commands of its sticks while a guard permits
  it; a motion coordinator, not yet joined to the client, arbitrates between manual and
  autonomous motion.

  \<^bold>\<open>Theories and sources\<close> (protocol/, firmware/stm32/App/Src, Platform/NucleoF446RE/Port and
  Core/Src/main.c, all under src/), in the order of import:
  \<^item> Prelude: word types, named collections, list, word and clock lemmas, and the locale
    \<open>inductive_invariant\<close> of transition systems with their reachable states.
  \<^item> Byte_Codec (byte_codec.c), Payload_Codecs (the seven payload codecs; locale
    \<open>payload_codec\<close>, interpreted for each), Crc16 (crc16_ccitt_false.c) and Crc16_Reference
    (the checksum as a polynomial remainder).
  \<^item> Protocol_Frame (frame format, encoder, ingress router), Frame_Decoder
    (protocol_frame_decoder.c, one definition per state of the switch), Decoder_Correctness
    (what the decoder's state says about the bytes seen) and Stream_Delivery (soundness,
    completeness, rejection of corrupted frames, resynchronization; locale \<open>framed_codec\<close>).
  \<^item> Motion_Reliable (motion_sequence.c, motion_transaction.c, motion_reliable_receiver.c),
    Motion_Lifecycle (motion_lifecycle_coordinator.c with all its handlers),
    Lifecycle_Correctness (the abstract session table and the refinement), Lifecycle_Runs
    and Lifecycle_Properties (runs of the coordinator); Motion_Frames
    (motion_command_handler.c, motion_command_frames.c).
  \<^item> Motor_Driver (motor_driver.h as the locale \<open>motor_driver_contract\<close>), Dri0041 and
    Dri0041_Properties, Drv8833 (drivers with their ports, both interpretations of the
    contract), Motion_Guard (motion_watchdog.c, motion_command_guard.c, proved once over the
    contract), Feedforward (wheel_velocity_feedforward.c), Motion_Stop (wheel_encoder.c,
    motion_stop.c), Speed_Estimator (wheel_speed_estimator.c).
  \<^item> Uart_Queue (uart_rx_queue.c; locale \<open>byte_queue\<close>, and the queue as a transition system in
    which interrupts fall between any two accesses), Uart_Rx_Port (uart_rx_port_stm32.c with
    the receive callback), Hal_Uart (the part of the vendor's stm32f4xx_hal_uart.c and
    stm32f4xx_hal_dma.c that receives until the line is idle) and Hal_Uart_Line (the system
    of line, DMA controller, interrupts and main program around it), Uart_Receiver (uart_protocol_receiver.c), Uart_Transmitter
    (uart_protocol_transmitter.c, uart_tx_port_stm32.c).
  \<^item> Link_Manager (uart_link_manager.c), Motion_Manager and Manager_Correctness
    (stm32_motion_protocol_manager.c), Firmware (main.c: static state, initialization, loop
    body and interrupts as the step relation \<open>firmware_step\<close>), Firmware_Safety (the invariant
    of the whole program, over any driver that fulfils the contract), Firmware_Progress (a
    session start followed from the bytes to the pins).
  \<^item> The client (software/rpi): Message_Views (what the protocol sees in a frame, and wire images
    in flight), Peer_Link (stm32_link_session.cpp), Peer_Motion (stm32_motion_session.cpp),
    Linux_Serial (linux_serial_port.cpp, protocol_frame_sender.cpp), Peer_Runner
    (stm32_client_runner.cpp) with Runner_Correctness and Runner_Properties.
  \<^item> Manual control (software/rpi): Crsf (crsf_crc8.cpp, crsf_frame_decoder.cpp,
    crsf_channels.cpp), Manual_Input (manual_input_guard.cpp, manual_control_input.cpp,
    manual_control_config.h), Manual_Control (manual_control_probe_main.cpp, around the client
    runner) with Manual_Program; Motion_Coordination (motion_coordinator.cpp, control_state.cpp,
    safety_state.cpp, motion_watchdog.cpp, differential_drive_kinematics.cpp,
    wheel_velocity_command_converter.cpp).
  \<^item> Both ends: Session_Protocol (the protocol as an abstract transition system and its invariant),
    Peer_Robot (the client's sessions and a robot joined by the images in flight, over the
    locale \<open>session_robot\<close>), Firmware_Session (the firmware as an interpretation of it),
    Session_Progress (the exchange that drives the wheels), and this theory.

  \<^bold>\<open>Conventions.\<close> A struct is a record, an enumeration a datatype or, where its numbers go over
  the wire, constants of the width; machine integers are words, so that additions and
  differences wrap as in C. A function that changes its argument returns the changed record
  after its result. A pointer that may be null is an option; a buffer with a length is a
  byte list. The static variables of a file are a record of their own; \<open>Board\<close> and \<open>Firmware\<close>
  collect them. What the vendor's library answers is part of the port records and arbitrary:
  the status of a start or of each transmission, the values the encoder counters will show.
  What the tick counter reads is an argument of every step (\<open>now\<close> in the loop, \<open>tick\<close> inside
  the motor driver), with no assumption that it advances; it is a word and wraps. Interrupts
  are lists of bytes given to a poll, and steps of their own between iterations.
  Floating-point results of the speed estimator and of the sticks are reals with a rounding
  function \<open>rnd\<close> as a parameter; where infinities matter, in the motion coordinator, they and the
  value that is no number are values of their own. \<^verbatim>\<open>Error_Handler\<close>, which does not return, is \<open>None\<close>. The client's \<open>Host\<close> holds what system
  calls answer, what the steady clock reads and what the generator draws, all arbitrary; loops
  that repeat an interrupted call are \<open>None\<close> where they never end. On the line between client and firmware
  a wire image arrives whole and in order or is lost, a random token differs from those in
  flight, and the firmware's loop body is split into its parts as single steps, which
  allows more interleavings than the loop has.

  \<^bold>\<open>What is shown.\<close> This theory: in every reachable state, whatever arrives and however
  interrupts fall, driven wheels imply a synchronized link, an active session, an armed
  watchdog and no pending stop; after each iteration their command is younger than 250 ms and
  the heartbeat younger than 1000 ms; without a link nothing moves; a running stop detection
  is younger than its limit; the start-up fails exactly when hardware cannot start; and a peer
  can bring the robot from a link that is down to wheels that follow its command. For client and
  firmware together: both agree on the session whenever both are synchronized, whatever is
  lost or delayed; a synchronization starts from a clean state; the client can drive the robot.
  The client alone: each poll follows the protocol, returns on a live host and keeps the client
  consistent; velocities go out for fresh commands only; a stale or zero command ends the
  session; retries are bounded. Manual control: a velocity that goes out is the bounded command
  of the sticks in the last channels received, with the permission of the guard, which is given
  exactly after rearming; the program ends and leaves
  nothing driving; the radio frames and channels are exact; the coordinator's motion is
  supervised and a failed stop is never forgotten. Below it:
  the receiver is the decoder applied to the byte stream; the decoder delivers exactly the
  well-formed frames; the bytes of the line reach the queue in order, until a line error ends
  the reception for good; the queue is a queue also under interrupts; the coordinator implements
  the session table, answers each accepted command once and ignores late completions; the
  drivers keep their outputs safe and the reversal interlock over all calls (with its exact
  exception: a stop or a zero command in between); conversion, stop detection and speed estimate are
  exact; every codec and every answer is a round trip.

  \<^bold>\<open>Bounds.\<close> No definition uses fuel. All loops are structural recursions over byte lists except
  the receiver's, which ends because each round takes an interrupt off the finite list or a
  byte off the queue, and the client's loops around system calls and its random generator,
  which are partial functions and are proved to return on a live host. The loops of the manual
  control program end because every round reads the clock and the clock passes their deadline. Array sizes (64 bytes of payload, 74 of frame, 256 of queue, 128 of DMA
  ring) are those of the source.

  \<^bold>\<open>Not modelled.\<close> The rest of the vendor's HAL, CMSIS and the files CubeMX generates (clock, timer,
  UART, DMA and pin set-up, vectors, startup): they are called at the boundary only, and
  their answers are arbitrary in the model. Timing of the bus and electrical behaviour. On the
  Raspberry Pi the small programs that only print or that send fixed commands in a timed loop, and
  the line settings of the serial ports; the motor controller of the motion coordinator has no
  implementation in the sources, so its answers are arbitrary.
  Memory layout and undefined behaviour of C beyond the array bounds and the integer ranges
  stated.
\<close>

section \<open>Guarantees of the whole firmware\<close>

abbreviation stm32_reachable :: "(real \<Rightarrow> real) \<Rightarrow> Dri0041 Firmware \<Rightarrow> bool" where
  "stm32_reachable rnd \<equiv> reachable (firmware_started dri0041 rnd) (firmware_step dri0041 rnd)"

subsection \<open>A state the firmware starts in\<close>

definition sample_rx_port :: UartRxPort where
  "sample_rx_port = \<lparr>rx_bound = False, dma_buffer = replicate 128 0, previous_position = 0,
     rx_is_USART2 = True, rx_dma_start_ok = True\<rparr>"

text \<open>An encoder whose wheels stand.\<close>

definition standing_encoder :: WheelEncoderPort where
  "standing_encoder = \<lparr>enc_samples = (\<lambda>_. zero_counts), enc_reads = 0, enc_tim3_start_ok = True,
     enc_tim4_start_ok = True, enc_tim3_running = False, enc_tim4_running = False\<rparr>"

definition sample_power_on :: "Dri0041 Firmware" where
  "sample_power_on = power_on sample_dri0041 sample_tx standing_encoder sample_rx_port"

definition sample_firmware :: "Dri0041 Firmware" where
  "sample_firmware = the (firmware_init dri0041 id 5 sample_power_on)"

lemma sample_firmware_init: "firmware_init dri0041 id 5 sample_power_on = Some sample_firmware"
proof -
  have "fst (motion_command_guard_init dri0041 250 (board_guard (fw_board sample_power_on)))"
    using sample_guard_init by (simp add: sample_power_on_def power_on_def sample_guard_def)
  moreover have "fst (wheel_encoder_init (board_encoder (fw_board sample_power_on)))"
    by (simp add: sample_power_on_def power_on_def wheel_encoder_init_def wheel_encoder_port_init_def standing_encoder_def)
  ultimately have "firmware_init dri0041 id 5 sample_power_on \<noteq> None"
    by (simp add: firmware_init_def firmware_first_sample_def stm32_motion_protocol_manager_init_def
        uart_link_manager_init_def uart_protocol_receiver_init_def uart_rx_port_init_def feedforward_config_def
        case_prod_beta Let_def, simp add: sample_power_on_def power_on_def sample_rx_port_def)
  then show ?thesis by (auto simp: sample_firmware_def)
qed

lemma sample_firmware_reachable: "stm32_reachable id sample_firmware"
proof (rule reachable_init)
  show "firmware_started dri0041 id sample_firmware"
    using sample_firmware_init unfolding firmware_started_def sample_power_on_def by blast
qed

lemma sample_firmware_quiet:
  "line_idle sample_firmware" "works zero_counts (fw_board sample_firmware)" "\<not> link_synchronized (fw_link sample_firmware)"
proof -
  let ?g = "\<lparr>guard_initialized = False, guard_stop_pending = False, guard_watchdog = zero_watchdog, guard_driver = sample_dri0041\<rparr>"
  have period: "tim_period (d41_tim8 (d41_port (guard_driver (snd (motion_command_guard_init dri0041 250 ?g))))) = TIM8_PERIOD"
    by (simp add: motion_command_guard_init_def dri0041_def driver_defs sample_dri0041_def sample_tim8_def
        case_prod_beta Let_def)
  have "fw_queue x = zero_queue \<and> rcv_decoder (fw_receiver x) = protocol_frame_decoder_init \<and>
      board_guard (fw_board x) = snd (motion_command_guard_init dri0041 250 ?g) \<and>
      board_tx (fw_board x) = sample_tx \<and>
      enc_samples (board_encoder (fw_board x)) = (\<lambda>_. zero_counts) \<and>
      \<not> link_synchronized (fw_link x)"
    if "firmware_init dri0041 id 5 sample_power_on = Some x" for x
    using that
    by (auto simp: firmware_init_def firmware_first_sample_def stm32_motion_protocol_manager_init_def
        uart_link_manager_init_def uart_protocol_receiver_init_def uart_rx_port_init_def uart_rx_queue_init_def
        wheel_encoder_init_def wheel_encoder_port_init_def wheel_encoder_read_def wheel_encoder_port_read_def
        feedforward_config_def sample_power_on_def power_on_def standing_encoder_def zero_link_def
        case_prod_beta Let_def split: if_splits)
  from this [OF sample_firmware_init] show "line_idle sample_firmware" "works zero_counts (fw_board sample_firmware)"
    "\<not> link_synchronized (fw_link sample_firmware)"
    using period
    by (simp_all add: line_idle_def works_def sample_tx_def) (simp add: zero_queue_def contents_empty)
qed

text \<open>The firmware after the five iterations in which a peer starts a session and drives.\<close>

definition sample_script :: "(u8 list \<times> u32) list" where
  "sample_script = session_script \<lparr>ls_sync_token = 3\<rparr> 7 9
     \<lparr>left_velocity_mm_s = 200, right_velocity_mm_s = 100\<rparr> (10, 20, 30, 240, 250)"

definition sample_driven :: "Dri0041 Firmware" where
  "sample_driven = fold (exchange id) sample_script sample_firmware"

lemma sample_driven_reachable: "stm32_reachable id sample_driven"
  unfolding sample_driven_def by (rule exchanges_reachable [OF sample_firmware_reachable])

lemma sample_driven_turns: "\<not> wheels_still (fw_board sample_driven)"
proof -
  have inv: "firmware_inv dri0041_inv dri0041_still dri0041_ready sample_firmware"
    by (rule stm32.inv_reachable [OF sample_firmware_reachable])
  have "calibration sample_firmware = feedforward_config"
    by (rule calibrated.inv_reachable [OF sample_firmware_reachable])
  with session_script_drives [OF inv sample_firmware_quiet _ sample_driven_def [unfolded sample_script_def]]
  obtain cmd where
    "wheel_velocity_feedforward_convert (Some feedforward_config)
       (Some \<lparr>left_velocity_mm_s = 200, right_velocity_mm_s = 100\<rparr>) = Some cmd"
    "wheels_follow cmd (d41_port (guard_driver (board_guard (fw_board sample_driven))))" by auto
  from wheels_follow_driven [OF this(2,1)] show ?thesis by simp
qed

subsection \<open>Safety\<close>

text \<open>
  C1: The wheels are driven only under supervision. In every reachable state of the firmware,
  whatever was received, however interrupts fell and whatever the clock read, a driven
  wheel implies that the link is synchronized, that a motion session is active, that the
  command watchdog is armed and that no stop operation is pending.
\<close>

theorem wheels_driven_only_in_session:
  assumes "stm32_reachable rnd s"
  shows "\<not> wheels_still (fw_board s) \<longrightarrow>
    uart_link_manager_is_synchronized (fw_link s) \<and>
    lifecycle_state (mgr_coordinator (fw_manager s)) = MOTION_LIFECYCLE_STATE_ACTIVE \<and>
    board_armed (fw_board s) \<and> pending_stop_operation_id (fw_manager s) = 0"
proof -
  have inv: "firmware_inv dri0041_inv dri0041_still dri0041_ready s" using assms by (rule stm32.inv_reachable)
  then have m: "stm32_manager_inv (fw_manager s) (fw_board s)" by (simp add: firmware_inv_def)
  then have rdy: "stm32_ready (fw_board s)" and wf: "coordinator_wf (mgr_coordinator (fw_manager s))"
    by (simp_all add: manager_inv_def)
  from inv m dri0041_driver.board_driven_armed [OF rdy] active_no_operation [OF wf] show ?thesis
    by (auto simp: firmware_inv_def manager_inv_def uart_link_manager_is_synchronized_def)
qed

lemma wheels_driven_only_in_session_witness:
  "\<not> wheels_still (fw_board sample_driven) \<and> uart_link_manager_is_synchronized (fw_link sample_driven) \<and>
   lifecycle_state (mgr_coordinator (fw_manager sample_driven)) = MOTION_LIFECYCLE_STATE_ACTIVE \<and>
   board_armed (fw_board sample_driven)"
  using wheels_driven_only_in_session [OF sample_driven_reachable] sample_driven_turns by blast

text \<open>
  C2: Commands and heartbeats are fresh. After every iteration of the loop, at whatever time, a
  driven wheel implies that the last non-zero velocity command was applied less than
  250 ms and the last heartbeat or synchronization accepted less than 1000 ms before the
  time of that iteration: when the peer falls silent, the first iteration that finds
  either limit reached stops the wheels.
\<close>

theorem driven_commands_fresh:
  assumes "stm32_reachable rnd s" and "t = firmware_iteration dri0041 rnd irqs tick now s"
  shows "\<not> wheels_still (fw_board t) \<longrightarrow>
    now - wd_last_refresh_ms (guard_watchdog (board_guard (fw_board t))) < MOTION_COMMAND_TIMEOUT_MS \<and>
    now - last_heartbeat_ms (fw_link t) < LINK_HEARTBEAT_TIMEOUT_MS"
proof -
  have inv: "firmware_inv dri0041_inv dri0041_still dri0041_ready s" using assms(1) by (rule stm32.inv_reachable)
  note it = dri0041_driver.iteration_inv [OF inv, where rnd = rnd and irqs = irqs and tick = tick and now = now, folded assms(2)]
  have "link_synchronized (fw_link t)" if "\<not> wheels_still (fw_board t)"
    using dri0041_driver.inv_down [OF it(1)] that by (auto simp: firmware_down_def)
  moreover have "wd_timeout_ms (guard_watchdog (board_guard (fw_board t))) = MOTION_COMMAND_TIMEOUT_MS"
    using it(1) by (simp add: firmware_inv_def)
  ultimately show ?thesis using it(2,3) by (auto simp: board_fresh_def)
qed

lemma driven_commands_fresh_witness:
  "\<not> wheels_still (fw_board sample_driven) \<and>
   250 - wd_last_refresh_ms (guard_watchdog (board_guard (fw_board sample_driven))) < MOTION_COMMAND_TIMEOUT_MS \<and>
   250 - last_heartbeat_ms (fw_link sample_driven) < LINK_HEARTBEAT_TIMEOUT_MS"
proof -
  define s where "s = firmware_interrupt (fst (last sample_script)) (fold (exchange id) (butlast sample_script) sample_firmware)"
  have "stm32_reachable id s"
    unfolding s_def by (rule reachable_step [OF exchanges_reachable [OF sample_firmware_reachable] interrupted])
  moreover have "sample_driven = firmware_iteration dri0041 id [] 250 250 s"
    by (simp add: sample_driven_def s_def sample_script_def exchange_def [of _ "(_, 250)"])
  ultimately show ?thesis using driven_commands_fresh [of id s sample_driven] sample_driven_turns by blast
qed

lemma motion_update_receiver:
  "fw_receiver (firmware_sample_speed rnd now (firmware_motion_update drv now s)) = fw_receiver s"
  "fw_queue (firmware_sample_speed rnd now (firmware_motion_update drv now s)) = fw_queue s"
  by (auto simp: firmware_sample_speed_def firmware_motion_update_def reset_link_and_stop_motion_def Let_def
      split: prod.splits)

text \<open>
  C3: Without a link there is no motion. In every reachable state in which the link is not
  synchronized there is no session, no pending stop operation and no driven wheel; and an
  iteration in which the receiver reports an overflow of the queue ends in such a state.
\<close>

theorem no_motion_without_link:
  assumes "stm32_reachable rnd s"
  shows "(\<not> uart_link_manager_is_synchronized (fw_link s) \<longrightarrow>
      lifecycle_state (mgr_coordinator (fw_manager s)) = MOTION_LIFECYCLE_STATE_NO_SESSION \<and>
      pending_stop_operation_id (fw_manager s) = 0 \<and> wheels_still (fw_board s)) \<and>
    (fst (fst (uart_protocol_receiver_poll True irqs (Some (fw_receiver s)) (fw_queue s))) =
        UART_PROTOCOL_RECEIVER_RESULT_OVERFLOW \<longrightarrow>
      firmware_down dri0041_still (firmware_iteration dri0041 rnd irqs tick now s))"
proof -
  have inv: "firmware_inv dri0041_inv dri0041_still dri0041_ready s" using assms by (rule stm32.inv_reachable)
  let ?s2 = "firmware_sample_speed rnd now (firmware_motion_update dri0041 now s)"
  have inv2: "firmware_inv dri0041_inv dri0041_still dri0041_ready ?s2"
    using dri0041_driver.motion_update_part(1) [OF inv, of now]
      dri0041_driver.sample_speed_part [of "firmware_motion_update dri0041 now s" now rnd] by (simp add: part_ok_def)
  have "firmware_down dri0041_still (firmware_iteration dri0041 rnd irqs tick now s)"
    if over: "fst (fst (uart_protocol_receiver_poll True irqs (Some (fw_receiver s)) (fw_queue s))) =
        UART_PROTOCOL_RECEIVER_RESULT_OVERFLOW"
  proof -
    obtain out r1 q1 where p: "uart_protocol_receiver_poll True irqs (Some (fw_receiver s)) (fw_queue s) = (out, r1, q1)"
      using prod_cases3 by blast
    have "queue_wf (fw_queue s)" "rcv_bound (fw_receiver s)" using inv by (simp_all add: firmware_inv_def)
    from poll_spec [OF this p] obtain r where r: "r1 = Some r" "rcv_bound r" "queue_wf q1" by blast
    let ?t = "reset_link_and_stop_motion dri0041 (?s2\<lparr>fw_receiver := r, fw_queue := q1\<rparr>)"
    have "firmware_receive dri0041 irqs tick now ?s2 = ?t"
      using p r over by (simp add: firmware_receive_def motion_update_receiver case_prod_beta Let_def)
    moreover have "firmware_inv dri0041_inv dri0041_still dri0041_ready ?t" "firmware_down dri0041_still ?t"
      using dri0041_driver.reset_link_down(1,2) [of "?s2\<lparr>fw_receiver := r, fw_queue := q1\<rparr>"] inv2 r
      by (simp_all add: firmware_inv_def)
    moreover from this(2) have "firmware_link_update dri0041 now ?t = ?t"
      by (simp add: firmware_link_update_def uart_link_manager_update_def firmware_down_def)
    ultimately show ?thesis by (simp add: firmware_iteration_def Let_def)
  qed
  with dri0041_driver.inv_down [OF inv] show ?thesis
    by (simp add: firmware_down_def uart_link_manager_is_synchronized_def)
qed

lemma no_motion_without_link_witness:
  "lifecycle_state (mgr_coordinator (fw_manager sample_firmware)) = MOTION_LIFECYCLE_STATE_NO_SESSION \<and>
   pending_stop_operation_id (fw_manager sample_firmware) = 0 \<and> wheels_still (fw_board sample_firmware)"
  using no_motion_without_link [OF sample_firmware_reachable] sample_firmware_quiet(3)
  by (simp add: uart_link_manager_is_synchronized_def)

subsection \<open>Progress and start-up\<close>

text \<open>
  C7: A peer can drive the robot. From every reachable state in which the link is down and the
  line is quiet, on hardware that works and with wheels that stand, the bytes of a
  synchronization request, of a command that starts session \<open>sid\<close> and of a velocity command,
  in five iterations that leave the stop detection its settling time and stay within the
  heartbeat timeout, make that session active and set the PWM compare registers and the
  direction pins to exactly the converted command; a velocity other than zero turns the
  wheels.
\<close>

theorem session_can_be_driven:
  assumes "stm32_reachable rnd s" and "line_idle s" and "works c (fw_board s)"
    and "\<not> uart_link_manager_is_synchronized (fw_link s)" and "session_times ts"
    and "t = fold (exchange rnd) (session_script p sq sid v ts) s"
  shows "lifecycle_state (mgr_coordinator (fw_manager t)) = MOTION_LIFECYCLE_STATE_ACTIVE \<and>
    motion_session_id (mgr_coordinator (fw_manager t)) = sid \<and>
    (\<exists>cmd. wheel_velocity_feedforward_convert (Some feedforward_config) (Some v) = Some cmd \<and>
       wheels_follow cmd (d41_port (guard_driver (board_guard (fw_board t))))) \<and>
    (left_velocity_mm_s v \<noteq> 0 \<or> right_velocity_mm_s v \<noteq> 0 \<longrightarrow> \<not> wheels_still (fw_board t))"
proof -
  have inv: "firmware_inv dri0041_inv dri0041_still dri0041_ready s" using assms(1) by (rule stm32.inv_reachable)
  have "calibration s = feedforward_config" using assms(1) by (rule calibrated.inv_reachable)
  with session_script_drives [OF inv assms(2,3) _ assms(5,6)] assms(4) obtain cmd where
    cmd: "wheel_velocity_feedforward_convert (Some feedforward_config) (Some v) = Some cmd"
      "wheels_follow cmd (d41_port (guard_driver (board_guard (fw_board t))))"
      "session_of (mgr_coordinator (fw_manager t)) = Active sid"
    by (auto simp: uart_link_manager_is_synchronized_def)
  with wheels_follow_driven [OF cmd(2,1)] show ?thesis by (auto simp: session_active)
qed

lemma session_can_be_driven_witness:
  "motion_session_id (mgr_coordinator (fw_manager sample_driven)) = 9 \<and> \<not> wheels_still (fw_board sample_driven)"
  using session_can_be_driven [OF sample_firmware_reachable sample_firmware_quiet(1,2) _ _
      sample_driven_def [unfolded sample_script_def]] sample_firmware_quiet(3)
  by (simp add: uart_link_manager_is_synchronized_def)

text \<open>
  C14: Stop operations are bounded. In every reachable state the operation the manager waits for
  is the coordinator's active one; the update at the start of the next iteration has begun
  its stop detection or finished it; and after every iteration a stop detection that still
  runs was begun less than 1000 ms before the time of that iteration, so the command that
  asked for the stop is answered by the first iteration that finds the limit reached.
\<close>

theorem stop_operations_bounded:
  assumes "stm32_reachable rnd s" and "t = firmware_iteration dri0041 rnd irqs tick now s"
    and "u = firmware_motion_update dri0041 now s"
  shows "pending_stop_operation_id (fw_manager s) = active_operation_id (mgr_coordinator (fw_manager s)) \<and>
    (pending_stop_operation_id (fw_manager u) \<noteq> 0 \<longrightarrow> stop_confirmation_started (fw_manager u)) \<and>
    (stop_confirmation_started (fw_manager t) \<longrightarrow>
       stop_active (board_stop (fw_board t)) \<and>
       stop_op_id (board_stop (fw_board t)) = active_operation_id (mgr_coordinator (fw_manager t)) \<and>
       now - stop_started_at_ms (board_stop (fw_board t)) < MOTION_STOP_TIMEOUT_MS)"
proof -
  have inv: "firmware_inv dri0041_inv dri0041_still dri0041_ready s" using assms(1) by (rule stm32.inv_reachable)
  note it = dri0041_driver.iteration_inv [OF inv, where rnd = rnd and irqs = irqs and tick = tick and now = now,
      folded assms(2)]
  have m: "stm32_manager_inv (fw_manager s) (fw_board s)" "stm32_manager_inv (fw_manager t) (fw_board t)"
    using inv it(1) by (simp_all add: firmware_inv_def)
  have "pending_stop_operation_id (fw_manager u) \<noteq> 0 \<longrightarrow> stop_confirmation_started (fw_manager u)"
    using dri0041_driver.motion_update_part(4) [OF inv, of now] assms(3) by simp
  with m it(4) show ?thesis by (auto simp: manager_inv_def stop_young_def)
qed

text \<open>The stop detection of the session start is running.\<close>

definition sample_session_starting :: "Dri0041 Firmware" where
  "sample_session_starting = firmware_interrupt [] (fold (exchange id) (take 2 sample_script) sample_firmware)"

lemma sample_session_starting_reachable: "stm32_reachable id sample_session_starting"
  unfolding sample_session_starting_def
  by (rule reachable_step [OF exchanges_reachable [OF sample_firmware_reachable] interrupted])

lemma sample_session_starting_stops: "stop_confirmation_started (fw_manager (firmware_iteration dri0041 id [] 30 30 sample_session_starting))"
proof -
  define s1 where "s1 = exchange id (frame_wire (sync_message 7 \<lparr>ls_sync_token = 3\<rparr>), 10) sample_firmware"
  define s2 where "s2 = exchange id (frame_wire (start_message 8 9), 20) s1"
  have inv: "firmware_inv dri0041_inv dri0041_still dri0041_ready sample_firmware"
    by (rule stm32.inv_reachable [OF sample_firmware_reachable])
  note inv1 = exchange_inv [OF inv, of id "(frame_wire (sync_message 7 \<lparr>ls_sync_token = 3\<rparr>), 10)", folded s1_def]
  note inv2 = exchange_inv [OF inv1, of id "(frame_wire (start_message 8 9), 20)", folded s2_def]
  note 1 = sync_exchange [OF inv sample_firmware_quiet s1_def]
  note 2 = start_exchange [OF inv1 1(1,2,3) _ 1(5,6) s2_def, unfolded 1(4)]
  have "stop_confirmation_started (fw_manager (exchange id ([], 30) s2))"
    using begin_exchange(6) [OF inv2 2(1,2,3) _ 2(6,7) refl, of 30] 2(4) 1(4) by simp
  moreover have "exchange id ([], 30) s2 = firmware_iteration dri0041 id [] 30 30 sample_session_starting"
    by (simp add: s1_def s2_def sample_session_starting_def sample_script_def exchange_def [of _ "([], 30)"])
  ultimately show ?thesis by simp
qed

lemma stop_operations_bounded_witness:
  "pending_stop_operation_id (fw_manager sample_session_starting) = active_operation_id (mgr_coordinator (fw_manager sample_session_starting)) \<and>
   30 - stop_started_at_ms (board_stop (fw_board (firmware_iteration dri0041 id [] 30 30 sample_session_starting))) < MOTION_STOP_TIMEOUT_MS"
  using stop_operations_bounded [OF sample_session_starting_reachable refl refl] sample_session_starting_stops by blast

text \<open>
  C15: Start-up is safe. The initialization ends in the error handler exactly when the guard with
  its motor driver, one of the encoder timers or the receive port cannot be started;
  otherwise the loop starts with standing wheels, no link, no session and an empty queue.
\<close>

theorem boot_outcome:
  assumes "r = firmware_init dri0041 rnd tick (power_on d tx enc rx)"
  shows "(r = None \<longleftrightarrow>
      \<not> (fst (motor_driver_init_dri0041 d) \<and> enc_tim3_start_ok enc \<and> enc_tim4_start_ok enc \<and>
         rx_is_USART2 rx \<and> rx_dma_start_ok rx)) \<and>
    (\<forall>s. r = Some s \<longrightarrow> firmware_down dri0041_still s \<and> queue_contents (fw_queue s) = [] \<and>
       \<not> board_armed (fw_board s) \<and> decoder_idle (rcv_decoder (fw_receiver s)))"
proof -
  let ?g = "\<lparr>guard_initialized = False, guard_stop_pending = False, guard_watchdog = zero_watchdog, guard_driver = d\<rparr>"
  have g: "fst (motion_command_guard_init dri0041 250 ?g) \<longleftrightarrow> fst (motor_driver_init_dri0041 d)"
    by (simp add: motion_command_guard_init_def motion_watchdog_init_def dri0041_def case_prod_beta Let_def)
  have e: "fst (wheel_encoder_init enc) \<longleftrightarrow> enc_tim3_start_ok enc \<and> enc_tim4_start_ok enc"
    by (simp add: wheel_encoder_init_def wheel_encoder_port_init_def Let_def)
  have none: "r = None \<longleftrightarrow> \<not> (fst (motion_command_guard_init dri0041 250 ?g) \<and> fst (wheel_encoder_init enc) \<and>
      rx_is_USART2 rx \<and> rx_dma_start_ok rx)"
    unfolding assms
    by (auto simp: firmware_init_def firmware_first_sample_def stm32_motion_protocol_manager_init_def
        uart_link_manager_init_def uart_protocol_receiver_init_def uart_rx_port_init_def feedforward_config_def
        power_on_def case_prod_beta Let_def)
  have start: "queue_contents (fw_queue s) = [] \<and> rcv_decoder (fw_receiver s) = protocol_frame_decoder_init \<and>
      board_guard (fw_board s) = snd (motion_command_guard_init dri0041 250 ?g)" if "r = Some s" for s
    using that unfolding assms
    by (auto simp: firmware_init_def firmware_first_sample_def stm32_motion_protocol_manager_init_def
        uart_link_manager_init_def uart_protocol_receiver_init_def uart_rx_port_init_def uart_rx_queue_init_def
        feedforward_config_def power_on_def zero_queue_def contents_empty case_prod_beta Let_def split: if_splits)
  have "\<not> board_armed (fw_board s)" if "r = Some s" for s
  proof -
    have "motion_command_guard_init dri0041 250 ?g = (True, snd (motion_command_guard_init dri0041 250 ?g))"
      using that none by (simp add: prod_eq_iff)
    from dri0041_driver.guard_init_wf [OF this] start [OF that] show ?thesis
      by (simp add: motion_watchdog_is_armed_def)
  qed
  with none g e start dri0041_driver.firmware_init_inv assms show ?thesis by auto
qed

lemma boot_outcome_witness:
  "firmware_down dri0041_still sample_firmware \<and> queue_contents (fw_queue sample_firmware) = []"
  using boot_outcome [OF refl, of id 5 sample_dri0041 sample_tx standing_encoder sample_rx_port] sample_firmware_init
  by (auto simp: sample_power_on_def)

subsection \<open>Both ends of the link\<close>

text \<open>The client of the Raspberry Pi and the firmware, before anything was sent.\<close>

definition sample_net :: "Dri0041 Firmware Net" where
  "sample_net = \<lparr>net_link = link_session_new, net_motion = motion_session_new, net_to_robot = [],
     net_robot = sample_firmware, net_to_peer = []\<rparr>"

lemma sample_net_reachable: "firmware_net_reachable id sample_net"
proof (rule reachable_init)
  have "firmware_started dri0041 id sample_firmware"
    using sample_firmware_init unfolding firmware_started_def sample_power_on_def by blast
  then show "net_started (firmware_started dri0041 id) sample_net" by (simp add: net_started_def sample_net_def)
qed

text \<open>The sample with the answer to the peer's request in flight.\<close>

lemma sample_net_answered:
  obtains n w rest where "firmware_net_reachable id n" and "lks_state (net_link n) = SyncPending"
    and "net_to_peer n = w # rest" and "wire_image w" and "image_view w = Sync_Ok (fst (request_of (net_link n))) (snd (request_of (net_link n)))"
    and "link_synchronized (fw_link (net_robot n))"
proof -
  define s where "s = exchange id (frame_wire (sync_message (lks_next_sequence (net_link sample_net)) \<lparr>ls_sync_token = 5\<rparr>), 10) (net_robot sample_net)"
  have idle: "line_idle (net_robot sample_net)" "works zero_counts (fw_board (net_robot sample_net))"
    "\<not> link_synchronized (fw_link (net_robot sample_net))" "net_to_robot sample_net = []" "net_to_peer sample_net = []"
    using sample_firmware_quiet by (simp_all add: sample_net_def)
  note inv = robot_reachable_inv [OF sample_net_reachable]
  obtain l h ws where "lks_state l = SyncPending" "request_of l = (lks_next_sequence (net_link sample_net), 5)"
    "frame_sendable h" "view h = Sync_Ok (lks_next_sequence (net_link sample_net)) 5"
    and steps: "firmware_net_steps sample_net (sample_net\<lparr>net_link := l, net_motion := motion_session_reset (net_motion sample_net),
      net_robot := s, net_to_peer := frame_wire h # map frame_wire ws\<rparr>)"
    by (rule request_phase [OF inv idle s_def])
  with that [OF steps_reachable [OF steps sample_net_reachable]] sync_exchange(3) [OF inv idle(1-3) s_def]
  show thesis by simp
qed

text \<open>
  C4: Both ends agree on the session. In every reachable state of client and firmware, whatever
  was sent, lost or delayed, when both regard the link as synchronized: the session the peer
  regards as active is the robot's active session; when the peer has no session and asks for
  none, the robot has none and its wheels stand; a session the peer is ending is still
  active, ending, or over; and a velocity command that reaches the robot finds the session it
  was meant for active.
\<close>

theorem sessions_agree:
  assumes "firmware_net_reachable rnd n" and "lks_state (net_link n) = Synchronized"
    and "uart_link_manager_is_synchronized (fw_link (net_robot n))"
    and "m = net_motion n" and "c = mgr_coordinator (fw_manager (net_robot n))"
  shows "(ms_state m = ActiveSession \<longrightarrow>
      lifecycle_state c = MOTION_LIFECYCLE_STATE_ACTIVE \<and> motion_session_id c = ms_active_session_id m) \<and>
    (ms_state m = Inactive \<longrightarrow>
      lifecycle_state c = MOTION_LIFECYCLE_STATE_NO_SESSION \<and> wheels_still (fw_board (net_robot n))) \<and>
    (ms_state m = EndPending \<longrightarrow>
      session_of c \<in> {Active (ms_pending_session_id m), Ending (ms_pending_session_id m), No_Session}) \<and>
    (\<forall>w rest i. net_to_robot n = w # rest \<longrightarrow> image_view w = Velocity i \<longrightarrow>
      lifecycle_state c = MOTION_LIFECYCLE_STATE_ACTIVE \<and> motion_session_id c = i)"
proof -
  have "link_synchronized (fw_link (net_robot n))" using assms(3) by (simp add: uart_link_manager_is_synchronized_def)
  note agree = dri0041_robot.reachable_agreement [OF assms(1,2) this, folded assms(4,5)]
  have "manager_inv dri0041_inv dri0041_still dri0041_ready (fw_manager (net_robot n)) (fw_board (net_robot n))"
    using robot_reachable_inv [OF assms(1)] by (simp add: firmware_inv_def)
  then have "wheels_still (fw_board (net_robot n))" if "lifecycle_state c = MOTION_LIFECYCLE_STATE_NO_SESSION"
    using that assms(5) by (auto simp: manager_inv_def)
  with agree show ?thesis by (auto simp: session_active session_none)
qed

lemma sessions_agree_witness:
  "\<exists>n. firmware_net_steps sample_net n \<and> ms_state (net_motion n) = ActiveSession \<and> ms_active_session_id (net_motion n) = 9 \<and>
     motion_session_id (mgr_coordinator (fw_manager (net_robot n))) = 9"
proof -
  have quiet: "net_to_robot sample_net = []" "net_to_peer sample_net = []" "line_idle (net_robot sample_net)"
    "works zero_counts (fw_board (net_robot sample_net))" "\<not> link_synchronized (fw_link (net_robot sample_net))"
    using sample_firmware_quiet by (simp_all add: sample_net_def)
  from peer_drives [OF sample_net_reachable quiet, of 9] obtain n where
    n: "firmware_net_steps sample_net n" "lks_state (net_link n) = Synchronized" "link_synchronized (fw_link (net_robot n))"
      "ms_state (net_motion n) = ActiveSession" "ms_active_session_id (net_motion n) = 9" by blast
  from sessions_agree [OF steps_reachable [OF n(1) sample_net_reachable] n(2) _ refl refl] n show ?thesis
    by (auto simp: uart_link_manager_is_synchronized_def)
qed

text \<open>
  C5: A synchronization starts from nothing. In every reachable state in which the peer accepts
  the answer to its request, no message of an earlier epoch is still on its way to the robot;
  and a robot whose link is up has no session, has forgotten the sequence numbers of earlier
  commands, and its wheels stand.
\<close>

theorem synchronization_fresh:
  assumes "firmware_net_reachable rnd n" and "net_to_peer n = w # rest" and "arrives w g"
    and "handle_link_sync_ok g now (net_link n) = (True, l)" and "s = net_robot n"
  shows "net_to_robot n = [] \<and>
    (uart_link_manager_is_synchronized (fw_link s) \<longrightarrow>
      lifecycle_state (mgr_coordinator (fw_manager s)) = MOTION_LIFECYCLE_STATE_NO_SESSION \<and>
      \<not> latest_sequence_valid (reliable_receiver (mgr_coordinator (fw_manager s))) \<and> wheels_still (fw_board s))"
proof -
  have w: "wire_image w" using dri0041_robot.net_reachable [OF assms(1)] assms(2) by (simp add: dri0041_robot.net_wf_def)
  have "lks_state (net_link n) = SyncPending \<and> image_view w = Sync_Ok (fst (request_of (net_link n))) (snd (request_of (net_link n)))"
    using sync_ok_spec(1) [OF assms(4)] arrives_image_view [OF w assms(3)] by simp
  with dri0041_robot.reachable_synchronizes [OF assms(1) _ assms(2)]
  have "net_to_robot n = []" "link_synchronized (fw_link s) \<longrightarrow> fresh (mgr_coordinator (fw_manager s))" using assms(5) by simp_all
  moreover have "manager_inv dri0041_inv dri0041_still dri0041_ready (fw_manager s) (fw_board s)"
    using robot_reachable_inv [OF assms(1)] assms(5) by (simp add: firmware_inv_def)
  ultimately show ?thesis
    by (auto simp: fresh_def session_none manager_inv_def uart_link_manager_is_synchronized_def)
qed

lemma synchronization_fresh_witness:
  "\<exists>n w rest g l. firmware_net_reachable id n \<and> net_to_peer n = w # rest \<and> arrives w g \<and> handle_link_sync_ok g 20 (net_link n) = (True, l) \<and>
     uart_link_manager_is_synchronized (fw_link (net_robot n)) \<and> wheels_still (fw_board (net_robot n))"
proof -
  obtain n w rest where n: "firmware_net_reachable id n" "lks_state (net_link n) = SyncPending" "net_to_peer n = w # rest"
    "wire_image w" "image_view w = Sync_Ok (fst (request_of (net_link n))) (snd (request_of (net_link n)))"
    "link_synchronized (fw_link (net_robot n))" by (rule sample_net_answered)
  from n(4) obtain f where f: "frame_sendable f" "w = frame_wire f" by (auto simp: wire_image_def)
  with image_arrives obtain g where g: "arrives w g" by blast
  obtain ok l where h: "handle_link_sync_ok g 20 (net_link n) = (ok, l)" by fastforce
  with sync_ok_spec(1) [OF this] n(2,5) arrives_image_view [OF n(4) g] have "handle_link_sync_ok g 20 (net_link n) = (True, l)" by simp
  moreover have "uart_link_manager_is_synchronized (fw_link (net_robot n))" using n(6) by (simp add: uart_link_manager_is_synchronized_def)
  ultimately show ?thesis using synchronization_fresh [OF n(1,3) g _ refl] n(1,3) g by blast
qed

text \<open>
  C6: The peer can drive the robot. From every reachable state of the two ends in which nothing is
  in flight, the robot's link is down and its hardware works, the client's sessions and the
  firmware, step by step, reach a state in which both ends are synchronized, both regard
  session \<open>sid\<close> as active, and the timer and the pins carry exactly the converted velocity.
\<close>

theorem peer_drives_robot:
  assumes "firmware_net_reachable rnd n" and "net_to_robot n = []" and "net_to_peer n = []"
    and "line_idle (net_robot n)" and "works c (fw_board (net_robot n))"
    and "\<not> uart_link_manager_is_synchronized (fw_link (net_robot n))"
  shows "\<exists>n' cmd. firmware_net_steps n n' \<and> lks_state (net_link n') = Synchronized \<and>
    uart_link_manager_is_synchronized (fw_link (net_robot n')) \<and>
    ms_state (net_motion n') = ActiveSession \<and> ms_active_session_id (net_motion n') = sid \<and>
    lifecycle_state (mgr_coordinator (fw_manager (net_robot n'))) = MOTION_LIFECYCLE_STATE_ACTIVE \<and>
    motion_session_id (mgr_coordinator (fw_manager (net_robot n'))) = sid \<and>
    wheel_velocity_feedforward_convert (Some (calibration (net_robot n))) (Some v) = Some cmd \<and>
    wheels_follow cmd (d41_port (guard_driver (board_guard (fw_board (net_robot n')))))"
proof -
  have "\<not> link_synchronized (fw_link (net_robot n))" using assms(6) by (simp add: uart_link_manager_is_synchronized_def)
  from peer_drives [OF assms(1-5) this, of sid v] show ?thesis
    by (simp add: session_active uart_link_manager_is_synchronized_def)
qed

lemma peer_drives_robot_witness:
  "\<exists>n'. firmware_net_steps sample_net n' \<and> ms_state (net_motion n') = ActiveSession \<and>
     motion_session_id (mgr_coordinator (fw_manager (net_robot n'))) = 9"
  using peer_drives_robot [OF sample_net_reachable, of zero_counts 9] sample_firmware_quiet
  by (auto simp: sample_net_def uart_link_manager_is_synchronized_def)

end
